(* ===== verification/Asg_Prelude.thy ===== *)
theory Asg_Prelude
  imports Main "HOL-Library.Word" "HOL-Library.Char_ord" "HOL-Library.List_Lexorder"
    "HOL-Library.Product_Lexorder"
begin

text \<open>
  Shared vocabulary of the development: machine types, fallible results, the parts of Rust's
  standard library the sources use (\<open>BTreeMap\<close>, \<open>BTreeSet\<close>, \<open>str::split\<close>,
  \<open>usize::from_str\<close>, decimal printing) and the generic lemmas about them.

  A Rust \<open>String\<close> is a \<^typ>\<open>string\<close>, read as its UTF-8 bytes, so that \<open>len\<close> is
  \<^const>\<open>length\<close> and the ordering of \<open>String\<close> is the lexicographic ordering of bytes.
  A \<open>usize\<close> is a \<^typ>\<open>nat\<close>, with the bound \<open>2 ^ 64\<close> written out where a
  value is parsed.
\<close>

named_theorems btree_simps \<open>rewrite rules for ordered association lists\<close>
named_theorems oid_laws \<open>laws of content addressing\<close>

type_synonym u8 = "8 word"
type_synonym i64 = "64 word"
type_synonym u64 = "64 word"
type_synonym f64 = "64 word"
type_synonym timestamp = int


section \<open>Results\<close>

text \<open>\<open>Result<T, E>\<close> is \<^typ>\<open>'e + 'a\<close>; \<open>?\<close> is a case split, written out as
  \<open>try_bind\<close> where it chains.\<close>

definition try_bind :: "'e + 'a \<Rightarrow> ('a \<Rightarrow> 'e + 'b) \<Rightarrow> 'e + 'b" where
  "try_bind r f = (case r of Inl e \<Rightarrow> Inl e | Inr x \<Rightarrow> f x)"

definition ok_or :: "'e \<Rightarrow> 'a option \<Rightarrow> 'e + 'a" where
  "ok_or e x = (case x of None \<Rightarrow> Inl e | Some v \<Rightarrow> Inr v)"

definition map_err :: "('e \<Rightarrow> 'f) \<Rightarrow> 'e + 'a \<Rightarrow> 'f + 'a" where
  "map_err f r = (case r of Inl e \<Rightarrow> Inl (f e) | Inr x \<Rightarrow> Inr x)"

fun collect_results :: "('e + 'a) list \<Rightarrow> 'e + 'a list" where
  "collect_results [] = Inr []"
| "collect_results (r # rs) =
     (case r of Inl e \<Rightarrow> Inl e
      | Inr x \<Rightarrow> (case collect_results rs of Inl e \<Rightarrow> Inl e | Inr xs \<Rightarrow> Inr (x # xs)))"

text \<open>Appending the results of a loop whose body may run out of fuel.\<close>

fun opt_concat :: "'a list option list \<Rightarrow> 'a list option" where
  "opt_concat [] = Some []"
| "opt_concat (r # rs) =
     (case r of None \<Rightarrow> None
      | Some xs \<Rightarrow> (case opt_concat rs of None \<Rightarrow> None | Some ys \<Rightarrow> Some (xs @ ys)))"

lemma opt_concat_None: "opt_concat rs = None \<longleftrightarrow> None \<in> set rs"
  by (induction rs) (auto split: option.splits)

lemma opt_concat_mem:
  "opt_concat (map f xs) = Some ys \<Longrightarrow> x \<in> set xs \<Longrightarrow> \<exists>zs. f x = Some zs \<and> set zs \<subseteq> set ys"
  by (induction xs arbitrary: ys) (fastforce split: option.splits)+

lemma opt_concat_mono:
  "(\<And>x r. x \<in> set xs \<Longrightarrow> f x = Some r \<Longrightarrow> g x = Some r) \<Longrightarrow> opt_concat (map f xs) = Some ys \<Longrightarrow>
   opt_concat (map g xs) = Some ys"
  by (induction xs arbitrary: ys) (fastforce split: option.splits)+

lemma opt_concat_Nil: "opt_concat (map f xs) = Some [] \<longleftrightarrow> (\<forall>x \<in> set xs. f x = Some [])"
  by (induction xs) (auto split: option.splits)

lemma opt_concat_memD:
  "opt_concat (map f xs) = Some ys \<Longrightarrow> y \<in> set ys \<Longrightarrow> \<exists>x zs. x \<in> set xs \<and> f x = Some zs \<and> y \<in> set zs"
  by (induction xs arbitrary: ys) (fastforce split: option.splits)+

lemma try_bind_simps [simp]:
  "try_bind (Inl e) f = Inl e"
  "try_bind (Inr x) f = f x"
  by (simp_all add: try_bind_def)

lemma try_bind_eq_Inr:
  "try_bind r f = Inr y \<longleftrightarrow> (\<exists>x. r = Inr x \<and> f x = Inr y)"
  by (cases r) simp_all

lemma try_bind_eq_Inl:
  "try_bind r f = Inl e \<longleftrightarrow> r = Inl e \<or> (\<exists>x. r = Inr x \<and> f x = Inl e)"
  by (cases r) simp_all

lemma try_bind_cong [fundef_cong]:
  "r = r' \<Longrightarrow> (\<And>x. r' = Inr x \<Longrightarrow> f x = g x) \<Longrightarrow> try_bind r f = try_bind r' g"
  by (cases r') simp_all

lemma ok_or_simps [simp]:
  "ok_or e None = Inl e"
  "ok_or e (Some v) = Inr v"
  by (simp_all add: ok_or_def)

lemma ok_or_eq_Inr [simp]: "ok_or e x = Inr v \<longleftrightarrow> x = Some v"
  by (cases x) simp_all

lemma map_err_simps [simp]:
  "map_err f (Inl e) = Inl (f e)"
  "map_err f (Inr x) = Inr x"
  by (simp_all add: map_err_def)

lemma map_err_eq_Inr [simp]: "map_err f r = Inr x \<longleftrightarrow> r = Inr x"
  by (cases r) simp_all

lemma collect_results_map_Inr [simp]: "collect_results (map Inr xs) = Inr xs"
  by (induction xs) simp_all

lemma collect_results_Inr:
  "collect_results rs = Inr xs \<longleftrightarrow> rs = map Inr xs"
proof
  show "collect_results rs = Inr xs \<Longrightarrow> rs = map Inr xs"
    by (induction rs arbitrary: xs) (auto split: sum.splits)
qed simp


section \<open>Ordered maps: \<open>BTreeMap\<close>\<close>

text \<open>
  A \<open>BTreeMap\<close> is an association list with strictly increasing keys, which is the order its
  iterators visit. The representation is canonical, so that \<open>==\<close> of two maps is equality of
  the lists.
\<close>

type_synonym ('k, 'v) btree = "('k \<times> 'v) list"

abbreviation bt_keys :: "('k, 'v) btree \<Rightarrow> 'k list" where
  "bt_keys m \<equiv> map fst m"

definition bt_wf :: "('k::linorder, 'v) btree \<Rightarrow> bool" where
  "bt_wf m \<longleftrightarrow> sorted_wrt (<) (bt_keys m)"

fun bt_insert :: "'k::linorder \<Rightarrow> 'v \<Rightarrow> ('k, 'v) btree \<Rightarrow> ('k, 'v) btree" where
  "bt_insert k v [] = [(k, v)]"
| "bt_insert k v ((k', v') # m) =
     (if k < k' then (k, v) # (k', v') # m
      else if k = k' then (k, v) # m
      else (k', v') # bt_insert k v m)"

definition bt_remove :: "'k \<Rightarrow> ('k, 'v) btree \<Rightarrow> ('k, 'v) btree" where
  "bt_remove k m = filter (\<lambda>(k', _). k' \<noteq> k) m"

fun bt_from_list :: "('k::linorder \<times> 'v) list \<Rightarrow> ('k, 'v) btree \<Rightarrow> ('k, 'v) btree" where
  "bt_from_list [] m = m"
| "bt_from_list ((k, v) # xs) m = bt_from_list xs (bt_insert k v m)"

text \<open>A \<open>BTreeSet\<close> is the strictly increasing list of its elements.\<close>

definition bts_of_list :: "'a::linorder list \<Rightarrow> 'a list" where
  "bts_of_list xs = remdups_adj (sort xs)"

text \<open>Keeping the first occurrence of each element, as the sources do with a \<open>HashSet\<close> of the
  elements seen.\<close>

definition unique_first :: "'a list \<Rightarrow> 'a list" where
  "unique_first xs = rev (remdups (rev xs))"

lemma unique_first_set [simp]: "set (unique_first xs) = set xs"
  by (simp add: unique_first_def)

lemma unique_first_distinct [simp]: "distinct (unique_first xs)"
  by (simp add: unique_first_def)

lemma bt_wf_Nil [simp]: "bt_wf []"
  by (simp add: bt_wf_def)

lemma bt_wf_Cons: "bt_wf ((k, v) # m) \<longleftrightarrow> bt_wf m \<and> (\<forall>k' \<in> fst ` set m. k < k')"
  by (auto simp: bt_wf_def)

lemma bt_wf_distinct: "bt_wf m \<Longrightarrow> distinct (bt_keys m)"
  by (simp add: bt_wf_def strict_sorted_iff)

lemma bt_keys_insert: "fst ` set (bt_insert k v m) = insert k (fst ` set m)"
  by (induction k v m rule: bt_insert.induct) auto

lemma map_of_bt_insert [btree_simps]:
  "map_of (bt_insert k v m) = (map_of m)(k \<mapsto> v)"
  by (induction k v m rule: bt_insert.induct) (auto simp: fun_eq_iff)

lemma bt_wf_insert [intro]: "bt_wf m \<Longrightarrow> bt_wf (bt_insert k v m)"
  by (induction k v m rule: bt_insert.induct)
    (auto simp: bt_wf_Cons bt_keys_insert order.strict_trans)

lemma map_of_bt_remove [btree_simps]: "map_of (bt_remove k m) = (map_of m)(k := None)"
  by (induction m) (auto simp: bt_remove_def fun_eq_iff)

lemma bt_wf_remove [intro]: "bt_wf m \<Longrightarrow> bt_wf (bt_remove k m)"
  by (induction m) (auto simp: bt_remove_def bt_wf_Cons)

lemma bt_wf_from_list: "bt_wf m \<Longrightarrow> bt_wf (bt_from_list xs m)"
  by (induction xs m rule: bt_from_list.induct) auto

lemma map_of_bt_from_list:
  "map_of (bt_from_list xs m) = map_of m ++ map_of (rev xs)"
  by (induction xs m rule: bt_from_list.induct)
    (simp_all add: btree_simps map_add_upd_left fun_eq_iff map_add_def split: option.splits)

lemma bt_insert_snoc:
  "\<forall>k' \<in> fst ` set m. k' < k \<Longrightarrow> bt_insert k v m = m @ [(k, v)]"
  by (induction m) fastforce+

lemma bt_from_list_append:
  "bt_wf (m @ xs) \<Longrightarrow> bt_from_list xs m = m @ xs"
proof (induction xs arbitrary: m)
  case Nil
  then show ?case by simp
next
  case (Cons x xs)
  obtain k v where x: "x = (k, v)" by force
  from Cons.prems have "\<forall>k' \<in> fst ` set m. k' < k"
    by (auto simp: x bt_wf_def sorted_wrt_append)
  then have "bt_insert k v m = m @ [x]"
    by (simp add: bt_insert_snoc x)
  with Cons.IH [of "m @ [x]"] Cons.prems show ?case
    by (simp add: x)
qed

lemma bt_from_list_wf: "bt_wf xs \<Longrightarrow> bt_from_list xs [] = xs"
  using bt_from_list_append [of "[]" xs] by simp

lemma alist_from_keys:
  "distinct (bt_keys m) \<Longrightarrow> map (\<lambda>k. (k, the (map_of m k))) (bt_keys m) = m"
  by (auto simp: o_def intro!: map_idI)

lemma bt_wf_ext:
  assumes "bt_wf m" "bt_wf m'" "map_of m = map_of m'"
  shows "m = m'"
proof -
  have "set (bt_keys m) = set (bt_keys m')"
    using assms(3) by (metis dom_map_of_conv_image_fst list.set_map)
  then have keys: "bt_keys m = bt_keys m'"
    using assms(1,2) unfolding bt_wf_def by (simp add: strict_sorted_equal)
  have "m = map (\<lambda>k. (k, the (map_of m k))) (bt_keys m)"
    using alist_from_keys [OF bt_wf_distinct [OF assms(1)]] by simp
  also have "\<dots> = map (\<lambda>k. (k, the (map_of m' k))) (bt_keys m')"
    by (simp only: assms(3) keys)
  also have "\<dots> = m'"
    by (rule alist_from_keys [OF bt_wf_distinct [OF assms(2)]])
  finally show ?thesis .
qed

lemma map_of_in_keys: "map_of m k = Some v \<Longrightarrow> k \<in> set (bt_keys m)"
  by (metis domI dom_map_of_conv_image_fst list.set_map)

lemma map_of_in_values: "map_of m k = Some v \<Longrightarrow> v \<in> snd ` set m"
  by (force dest: map_of_SomeD)

lemma bts_of_list_set [simp]: "set (bts_of_list xs) = set xs"
  by (simp add: bts_of_list_def)

lemma sorted_wrt_remdups_adj: "sorted xs \<Longrightarrow> sorted_wrt (<) (remdups_adj xs)"
  by (induction xs rule: remdups_adj.induct) (auto simp: order_le_less)

lemma bts_of_list_sorted: "sorted_wrt (<) (bts_of_list xs)"
  by (simp add: bts_of_list_def sorted_wrt_remdups_adj)

lemma bts_of_list_unique:
  "sorted_wrt (<) xs \<Longrightarrow> set xs = set ys \<Longrightarrow> bts_of_list ys = xs"
  by (simp add: bts_of_list_sorted strict_sorted_equal)

text \<open>The interface clients of an ordered map rely on, and its implementation.\<close>

locale ordered_map =
  fixes empty :: "'m"
    and get :: "'m \<Rightarrow> 'k::linorder \<Rightarrow> 'v option"
    and ins :: "'k \<Rightarrow> 'v \<Rightarrow> 'm \<Rightarrow> 'm"
    and rem :: "'k \<Rightarrow> 'm \<Rightarrow> 'm"
    and keys :: "'m \<Rightarrow> 'k list"
    and wf :: "'m \<Rightarrow> bool"
  assumes get_empty: "get empty k = None"
    and get_ins: "get (ins k v m) j = (if j = k then Some v else get m j)"
    and get_rem: "get (rem k m) j = (if j = k then None else get m j)"
    and keys_get: "set (keys m) = {k. get m k \<noteq> None}"
    and keys_sorted: "wf m \<Longrightarrow> sorted_wrt (<) (keys m)"
    and wf_ext: "wf m \<Longrightarrow> wf m' \<Longrightarrow> get m = get m' \<Longrightarrow> m = m'"
    and wf_empty: "wf empty"
    and wf_ins: "wf m \<Longrightarrow> wf (ins k v m)"
    and wf_rem: "wf m \<Longrightarrow> wf (rem k m)"
begin

lemma ins_commute:
  "wf m \<Longrightarrow> j \<noteq> k \<Longrightarrow> ins j v (ins k w m) = ins k w (ins j v m)"
  by (rule wf_ext) (auto simp: wf_ins get_ins)

lemma ins_overwrite: "wf m \<Longrightarrow> ins k v (ins k w m) = ins k v m"
  by (rule wf_ext) (auto simp: wf_ins get_ins)

lemma rem_ins: "wf m \<Longrightarrow> get m k = None \<Longrightarrow> rem k (ins k v m) = m"
  by (rule wf_ext) (auto simp: wf_ins wf_rem get_ins get_rem)

lemma ins_same: "wf m \<Longrightarrow> get m k = Some v \<Longrightarrow> ins k v m = m"
  by (rule wf_ext) (auto simp: wf_ins get_ins)

lemma keys_ins: "wf m \<Longrightarrow> keys (ins k v m) = bts_of_list (k # keys m)"
proof -
  assume wf: "wf m"
  have "set (keys (ins k v m)) = set (k # keys m)"
    by (auto simp: keys_get get_ins split: if_splits)
  then show ?thesis
    using bts_of_list_unique [OF keys_sorted [OF wf_ins [OF wf]]] by metis
qed

end

interpretation bt: ordered_map "[]" map_of bt_insert bt_remove bt_keys bt_wf
proof unfold_locales
  show "set (bt_keys m) = {k. map_of m k \<noteq> None}" for m :: "('a::linorder, 'b) btree"
    by (simp add: map_of_eq_None_iff)
qed (auto simp: btree_simps bt_wf_def intro: bt_wf_ext [unfolded bt_wf_def]
    bt_wf_insert [unfolded bt_wf_def] bt_wf_remove [unfolded bt_wf_def])


section \<open>Strings\<close>

text \<open>\<open>str::split\<close> with one separator character: it yields one segment more than there are
  separators, empty ones included.\<close>

fun split_on :: "'a \<Rightarrow> 'a list \<Rightarrow> 'a list list" where
  "split_on c [] = [[]]"
| "split_on c (x # xs) =
     (if x = c then [] # split_on c xs
      else (case split_on c xs of [] \<Rightarrow> [[x]] | w # ws \<Rightarrow> (x # w) # ws))"

fun is_prefix :: "'a list \<Rightarrow> 'a list \<Rightarrow> bool" where
  "is_prefix [] ys = True"
| "is_prefix (x # xs) [] = False"
| "is_prefix (x # xs) (y # ys) = (x = y \<and> is_prefix xs ys)"

text \<open>\<open>str::contains\<close>.\<close>

fun str_contains :: "'a list \<Rightarrow> 'a list \<Rightarrow> bool" where
  "str_contains [] q = (q = [])"
| "str_contains (x # xs) q = (is_prefix q (x # xs) \<or> str_contains xs q)"

definition strip_prefix :: "'a list \<Rightarrow> 'a list \<Rightarrow> 'a list option" where
  "strip_prefix p s = (if is_prefix p s then Some (drop (length p) s) else None)"

text \<open>Decimal digits, as \<open>Display\<close> prints an unsigned integer and \<open>usize::from_str\<close> reads
  it: an optional \<open>+\<close>, at least one digit, a value below \<open>2 ^ 64\<close>.\<close>

definition digit_char :: "nat \<Rightarrow> char" where
  "digit_char d = char_of (48 + d)"

definition is_digit :: "char \<Rightarrow> bool" where
  "is_digit c \<longleftrightarrow> 48 \<le> (of_char c :: nat) \<and> (of_char c :: nat) \<le> 57"

definition digit_val :: "char \<Rightarrow> nat" where
  "digit_val c = of_char c - 48"

fun show_nat :: "nat \<Rightarrow> string" where
  "show_nat n = (if n < 10 then [digit_char n] else show_nat (n div 10) @ [digit_char (n mod 10)])"

declare show_nat.simps [simp del]

definition digits_val :: "string \<Rightarrow> nat" where
  "digits_val s = foldl (\<lambda>a c. 10 * a + digit_val c) 0 s"

definition parse_usize :: "string \<Rightarrow> nat option" where
  "parse_usize s =
     (let ds = (case s of [] \<Rightarrow> [] | c # cs \<Rightarrow> if c = CHR ''+'' then cs else s)
      in if ds = [] \<or> \<not> list_all is_digit ds \<or> 2 ^ 64 \<le> digits_val ds then None
         else Some (digits_val ds))"

lemma split_on_neq_Nil [simp]: "split_on c xs \<noteq> []"
  by (cases xs) (auto split: list.splits)

lemma concat_split_on: "concat (map ((#) c) (split_on c xs)) = c # xs"
  by (induction xs) (auto split: list.splits)

lemma split_on_no_sep: "w \<in> set (split_on c xs) \<Longrightarrow> c \<notin> set w"
  by (induction xs arbitrary: w) (fastforce split: if_splits list.splits)+

lemma split_on_append:
  "c \<notin> set w \<Longrightarrow> split_on c (w @ c # xs) = w # split_on c xs"
  by (induction w) auto

lemma split_on_single: "c \<notin> set w \<Longrightarrow> split_on c w = [w]"
  by (induction w) auto

lemma split_on_join:
  "ws \<noteq> [] \<Longrightarrow> \<forall>w \<in> set ws. c \<notin> set w \<Longrightarrow>
   split_on c (tl (concat (map ((#) c) ws))) = ws"
proof (induction ws)
  case Nil
  then show ?case by simp
next
  case (Cons w ws)
  show ?case
  proof (cases ws)
    case Nil
    with Cons.prems show ?thesis by (simp add: split_on_single)
  next
    case (Cons v vs)
    with Cons.IH Cons.prems show ?thesis
      by (simp add: split_on_append)
  qed
qed

lemma of_char_digit_char: "d < 10 \<Longrightarrow> of_char (digit_char d) = 48 + d"
  by (simp add: digit_char_def of_char_of)

lemma digit_char_props [simp]:
  "d < 10 \<Longrightarrow> is_digit (digit_char d)"
  "d < 10 \<Longrightarrow> digit_val (digit_char d) = d"
  by (simp_all add: is_digit_def digit_val_def of_char_digit_char)

lemma show_nat_digits: "list_all is_digit (show_nat n)"
proof (induction n rule: show_nat.induct)
  case (1 n)
  then show ?case by (subst show_nat.simps) simp
qed

lemma show_nat_nonempty [simp]: "show_nat n \<noteq> []"
  by (subst show_nat.simps) simp

lemma digits_val_show_nat [simp]: "digits_val (show_nat n) = n"
proof (induction n rule: show_nat.induct)
  case (1 n)
  show ?case
  proof (cases "n < 10")
    case True
    then show ?thesis by (subst show_nat.simps) (simp add: digits_val_def)
  next
    case False
    with "1.IH" show ?thesis
      by (subst show_nat.simps) (simp add: digits_val_def)
  qed
qed

lemma not_digit_plus: "is_digit c \<Longrightarrow> c \<noteq> CHR ''+''"
  by (auto simp: is_digit_def)

lemma parse_usize_show_nat: "n < 2 ^ 64 \<Longrightarrow> parse_usize (show_nat n) = Some n"
proof -
  assume n: "n < 2 ^ 64"
  obtain c cs where c: "show_nat n = c # cs" by (cases "show_nat n") auto
  have "is_digit c" using show_nat_digits [of n] by (simp add: c)
  then have "c \<noteq> CHR ''+''" by (rule not_digit_plus)
  then show ?thesis
    using n show_nat_digits [of n] digits_val_show_nat [of n]
    by (simp add: parse_usize_def c)
qed

lemma parse_usize_bound: "parse_usize s = Some n \<Longrightarrow> n < 2 ^ 64"
  by (auto simp: parse_usize_def Let_def not_le split: if_splits)

lemma show_nat_no_slash: "CHR ''/'' \<notin> set (show_nat n)"
  using show_nat_digits [of n] by (auto simp: list_all_iff is_digit_def)

lemma is_prefix_iff: "is_prefix xs ys \<longleftrightarrow> (\<exists>zs. ys = xs @ zs)"
  by (induction xs ys rule: is_prefix.induct) auto

lemma strip_prefix_eq_Some: "strip_prefix p s = Some r \<longleftrightarrow> s = p @ r"
  by (auto simp: strip_prefix_def is_prefix_iff)

lemma str_contains_iff: "str_contains s q \<longleftrightarrow> (\<exists>a b. s = a @ q @ b)"
proof (induction s)
  case Nil
  then show ?case by simp
next
  case (Cons x xs)
  have "(\<exists>a b. x # xs = a @ q @ b) \<longleftrightarrow>
      (\<exists>b. x # xs = q @ b) \<or> (\<exists>a b. xs = a @ q @ b)"
    by (metis append_Cons append_Nil list.exhaust list.sel(3))
  with Cons.IH show ?case by (simp add: is_prefix_iff)
qed

end
