(* ===== verification/Object_Model.thy ===== *)
theory Object_Model
  imports Asg_Prelude
begin

text \<open>
  The content-addressed data model, from \<open>crates/agentstategraph-core/src/object.rs\<close>:
  object ids and their hexadecimal forms, atoms, nodes and objects with the derived equality,
  the constructors, and content addressing.

  BLAKE3 (crate \<open>blake3\<close>) and the canonical serialization (crate \<open>serde_json\<close>) are
  parameters: \<open>obj_id ser blake3\<close> is \<open>Object::id\<close> for a serialization and a hash
  function, and the rest of the development takes the resulting function \<open>oid\<close>. Where a
  property needs that ids identify contents it assumes \<open>collision_free oid\<close>: two objects
  whose floats are finite have the same id only if they are equal. Non-finite floats are left
  out because \<open>serde_json\<close> writes all of them as \<open>null\<close>.
\<close>

section \<open>Object ids\<close>

text \<open>Thirty-two bytes in the source; the length is the predicate \<open>oid_wf\<close>, so that an
  idealised collision-free hash exists. The derived \<open>Ord\<close> is lexicographic.\<close>

datatype ObjectId = ObjectId (oid_bytes: "u8 list")

instantiation ObjectId :: linorder
begin

definition less_eq_ObjectId :: "ObjectId \<Rightarrow> ObjectId \<Rightarrow> bool" where
  "less_eq_ObjectId a b \<longleftrightarrow> oid_bytes a \<le> oid_bytes b"

definition less_ObjectId :: "ObjectId \<Rightarrow> ObjectId \<Rightarrow> bool" where
  "less_ObjectId a b \<longleftrightarrow> oid_bytes a < oid_bytes b"

instance
  by standard (auto simp: less_eq_ObjectId_def less_ObjectId_def ObjectId.expand)

end

definition oid_wf :: "ObjectId \<Rightarrow> bool" where
  "oid_wf i \<longleftrightarrow> length (oid_bytes i) = 32"

definition from_bytes :: "u8 list \<Rightarrow> ObjectId" where
  "from_bytes bs = ObjectId bs"

definition as_bytes :: "ObjectId \<Rightarrow> u8 list" where
  "as_bytes i = oid_bytes i"

definition hash_id :: "(u8 list \<Rightarrow> u8 list) \<Rightarrow> u8 list \<Rightarrow> ObjectId" where
  "hash_id blake3 data = ObjectId (blake3 data)"

text \<open>\<open>{:02x}\<close>: two lowercase hexadecimal digits per byte.\<close>

definition hex_digit :: "nat \<Rightarrow> char" where
  "hex_digit d = (if d < 10 then char_of (48 + d) else char_of (87 + d))"

definition hex_of_bytes :: "u8 list \<Rightarrow> string" where
  "hex_of_bytes bs = concat (map (\<lambda>b. [hex_digit (unat b div 16), hex_digit (unat b mod 16)]) bs)"

definition short_id :: "ObjectId \<Rightarrow> string" where
  "short_id i = ''sg_'' @ hex_of_bytes (take 6 (oid_bytes i))"

definition to_hex :: "ObjectId \<Rightarrow> string" where
  "to_hex i = hex_of_bytes (oid_bytes i)"

definition display_id :: "ObjectId \<Rightarrow> string" where
  "display_id i = ''sg_'' @ hex_of_bytes (oid_bytes i)"

definition is_hexdigit :: "char \<Rightarrow> bool" where
  "is_hexdigit c \<longleftrightarrow>
     (let n = of_char c :: nat in (48 \<le> n \<and> n \<le> 57) \<or> (65 \<le> n \<and> n \<le> 70) \<or> (97 \<le> n \<and> n \<le> 102))"

definition hex_val :: "char \<Rightarrow> nat" where
  "hex_val c =
     (let n = of_char c :: nat
      in if n \<le> 57 then n - 48 else if n \<le> 70 then n - 55 else n - 87)"

text \<open>\<open>str::trim\<close> removes the characters with Unicode's White\_Space property at both ends;
  these are their UTF-8 encodings.\<close>

definition whitespace_chars :: "string list" where
  "whitespace_chars =
     map (map char_of)
       ([[9], [10], [11], [12], [13], [32], [0xC2, 0x85], [0xC2, 0xA0], [0xE1, 0x9A, 0x80]]
        @ map (\<lambda>n. [0xE2, 0x80, n]) [0x80..<0x8B]
        @ [[0xE2, 0x80, 0xA8], [0xE2, 0x80, 0xA9], [0xE2, 0x80, 0xAF], [0xE2, 0x81, 0x9F],
           [0xE3, 0x80, 0x80 :: nat]])"

fun strip_any :: "string list \<Rightarrow> string \<Rightarrow> string option" where
  "strip_any [] s = None"
| "strip_any (w # ws) s = (if is_prefix w s then Some (drop (length w) s) else strip_any ws s)"

fun trim_front :: "string list \<Rightarrow> nat \<Rightarrow> string \<Rightarrow> string" where
  "trim_front ws 0 s = s"
| "trim_front ws (Suc n) s =
     (case strip_any ws s of None \<Rightarrow> s | Some s' \<Rightarrow> trim_front ws n s')"

definition str_trim :: "string \<Rightarrow> string" where
  "str_trim s =
     (let f = trim_front whitespace_chars (length s) s
      in rev (trim_front (map rev whitespace_chars) (length f) (rev f)))"

fun bytes_of_hex :: "string \<Rightarrow> u8 list" where
  "bytes_of_hex (a # b # cs) = word_of_nat (hex_val a * 16 + hex_val b) # bytes_of_hex cs"
| "bytes_of_hex _ = []"

definition strip_sg :: "string \<Rightarrow> string" where
  "strip_sg s =
     (case strip_prefix ''sg_'' (str_trim s) of None \<Rightarrow> str_trim s | Some r \<Rightarrow> r)"

definition from_hex :: "string \<Rightarrow> ObjectId option" where
  "from_hex s =
     (let hex = strip_sg s
      in if length hex \<noteq> 64 \<or> \<not> list_all is_hexdigit hex then None
         else Some (ObjectId (bytes_of_hex hex)))"

definition to_ascii_lower :: "char \<Rightarrow> char" where
  "to_ascii_lower c =
     (let n = of_char c :: nat in if 65 \<le> n \<and> n \<le> 90 then char_of (n + 32) else c)"

definition normalize_hex_prefix :: "string \<Rightarrow> string option" where
  "normalize_hex_prefix s =
     (let frag = strip_sg s
      in if frag = [] \<or> \<not> list_all is_hexdigit frag then None
         else Some (map to_ascii_lower frag))"


section \<open>Atoms, nodes, objects\<close>

datatype Atom =
    ANull
  | ABool bool
  | AInt i64
  | AFloat f64
  | AString string
  | ABytes "u8 list"
  | AUInt u64

datatype Node =
    NMap "(string, ObjectId) btree"
  | NList "ObjectId list"
  | NSet "ObjectId list"

datatype Object = OAtom Atom | ONode Node

text \<open>An \<open>f64\<close> is its bit pattern; \<open>==\<close> is IEEE 754 equality, under which no NaN equals
  anything and the two zeros are equal.\<close>

definition f64_magnitude :: "f64 \<Rightarrow> nat" where
  "f64_magnitude x = unat x mod 2 ^ 63"

definition f64_is_nan :: "f64 \<Rightarrow> bool" where
  "f64_is_nan x \<longleftrightarrow> 0x7FF0000000000000 < f64_magnitude x"

definition f64_is_finite :: "f64 \<Rightarrow> bool" where
  "f64_is_finite x \<longleftrightarrow> f64_magnitude x < 0x7FF0000000000000"

definition f64_nan :: f64 where
  "f64_nan = 0x7FF8000000000000"

definition f64_eq :: "f64 \<Rightarrow> f64 \<Rightarrow> bool" where
  "f64_eq x y \<longleftrightarrow>
     \<not> f64_is_nan x \<and> \<not> f64_is_nan y \<and> (x = y \<or> f64_magnitude x = 0 \<and> f64_magnitude y = 0)"

fun atom_eq :: "Atom \<Rightarrow> Atom \<Rightarrow> bool" where
  "atom_eq (AFloat x) (AFloat y) = f64_eq x y"
| "atom_eq a b = (a = b)"

fun object_eq :: "Object \<Rightarrow> Object \<Rightarrow> bool" where
  "object_eq (OAtom a) (OAtom b) = atom_eq a b"
| "object_eq (ONode m) (ONode n) = (m = n)"
| "object_eq _ _ = False"

text \<open>The well-formed objects: maps have increasing keys (a \<open>BTreeMap\<close> always has) and sets
  are sorted without duplicates, which \<open>Object::set\<close> establishes.\<close>

fun object_wf :: "Object \<Rightarrow> bool" where
  "object_wf (ONode (NMap m)) = bt_wf m"
| "object_wf (ONode (NSet xs)) = sorted_wrt (<) xs"
| "object_wf _ = True"

fun object_finite :: "Object \<Rightarrow> bool" where
  "object_finite (OAtom (AFloat x)) = f64_is_finite x"
| "object_finite _ = True"

subsection \<open>Constructors\<close>

definition object_null :: Object where "object_null = OAtom ANull"
definition object_bool :: "bool \<Rightarrow> Object" where "object_bool v = OAtom (ABool v)"
definition object_int :: "i64 \<Rightarrow> Object" where "object_int v = OAtom (AInt v)"
definition object_float :: "f64 \<Rightarrow> Object" where "object_float v = OAtom (AFloat v)"

definition object_uint :: "u64 \<Rightarrow> Object" where
  "object_uint v = (if unat v < 2 ^ 63 then OAtom (AInt v) else OAtom (AUInt v))"

definition object_string :: "string \<Rightarrow> Object" where "object_string v = OAtom (AString v)"
definition object_bytes :: "u8 list \<Rightarrow> Object" where "object_bytes v = OAtom (ABytes v)"

definition object_map :: "(string, ObjectId) btree \<Rightarrow> Object" where
  "object_map m = ONode (NMap m)"

definition empty_map :: Object where "empty_map = ONode (NMap [])"
definition object_list :: "ObjectId list \<Rightarrow> Object" where "object_list xs = ONode (NList xs)"

definition object_set :: "ObjectId list \<Rightarrow> Object" where
  "object_set items = ONode (NSet (remdups_adj (sort items)))"

text \<open>A JSON number of \<open>serde_json\<close>: an integer between \<open>i64::MIN\<close> and \<open>u64::MAX\<close>, or a
  finite float.\<close>

datatype JsonNumber = JInt int | JFloat f64

fun json_number_wf :: "JsonNumber \<Rightarrow> bool" where
  "json_number_wf (JInt n) = (- (2 ^ 63) \<le> n \<and> n < 2 ^ 64)"
| "json_number_wf (JFloat x) = f64_is_finite x"

fun as_i64 :: "JsonNumber \<Rightarrow> i64 option" where
  "as_i64 (JInt n) = (if - (2 ^ 63) \<le> n \<and> n < 2 ^ 63 then Some (word_of_int n) else None)"
| "as_i64 (JFloat x) = None"

fun as_u64 :: "JsonNumber \<Rightarrow> u64 option" where
  "as_u64 (JInt n) = (if 0 \<le> n \<and> n < 2 ^ 64 then Some (word_of_int n) else None)"
| "as_u64 (JFloat x) = None"

text \<open>Every integer of a JSON number is in one of the two integer ranges, so the last branch,
  \<open>unwrap_or(f64::NAN)\<close>, is only reached with a float.\<close>

definition from_json_number :: "JsonNumber \<Rightarrow> Object" where
  "from_json_number n =
     (case as_i64 n of
        Some i \<Rightarrow> object_int i
      | None \<Rightarrow>
          (case as_u64 n of
             Some u \<Rightarrow> object_uint u
           | None \<Rightarrow> (case n of JFloat x \<Rightarrow> object_float x | JInt _ \<Rightarrow> object_float f64_nan)))"

subsection \<open>Content addressing\<close>

definition obj_id :: "(Object \<Rightarrow> u8 list) \<Rightarrow> (u8 list \<Rightarrow> u8 list) \<Rightarrow> Object \<Rightarrow> ObjectId" where
  "obj_id ser blake3 obj = hash_id blake3 (ser obj)"

definition collision_free :: "(Object \<Rightarrow> ObjectId) \<Rightarrow> bool" where
  "collision_free oid \<longleftrightarrow> inj_on oid {obj. object_finite obj}"

text \<open>The ids a node points at, in order (\<open>child_ids\<close> of \<open>tree.rs\<close>).\<close>

fun child_ids :: "Object \<Rightarrow> ObjectId list" where
  "child_ids (OAtom a) = []"
| "child_ids (ONode (NMap entries)) = map snd entries"
| "child_ids (ONode (NList items)) = items"
| "child_ids (ONode (NSet items)) = items"


section \<open>Hexadecimal forms\<close>

lemma strip_any_None:
  "s \<noteq> [] \<Longrightarrow> \<forall>w \<in> set ws. w \<noteq> [] \<and> hd w \<noteq> hd s \<Longrightarrow> strip_any ws s = None"
  by (induction ws) (auto simp: is_prefix_iff)

lemma trim_front_id:
  "\<forall>w \<in> set ws. w \<noteq> [] \<and> hd w \<noteq> hd s \<Longrightarrow> s \<noteq> [] \<Longrightarrow> trim_front ws n s = s"
  by (cases n) (simp_all add: strip_any_None)

definition printable :: "char \<Rightarrow> bool" where
  "printable c \<longleftrightarrow> 33 \<le> (of_char c :: nat) \<and> (of_char c :: nat) \<le> 126"

lemma whitespace_not_printable:
  "w \<in> set whitespace_chars \<Longrightarrow> w \<noteq> [] \<and> \<not> printable (hd w) \<and> \<not> printable (last w)"
  by (auto simp: whitespace_chars_def printable_def upt_rec)

lemma str_trim_printable: "list_all printable s \<Longrightarrow> str_trim s = s"
proof (cases "s = []")
  case True
  then show ?thesis by (simp add: str_trim_def)
next
  case False
  assume "list_all printable s"
  with False have ends: "printable (hd s)" "printable (hd (rev s))"
    by (simp_all add: list_all_iff hd_rev)
  have front: "trim_front whitespace_chars n s = s" for n
    using False ends(1) whitespace_not_printable by (intro trim_front_id ballI) metis+
  have "trim_front (map rev whitespace_chars) n (rev s) = rev s" for n
    using False ends(2) whitespace_not_printable
    by (intro trim_front_id ballI) (auto simp: hd_rev, metis)
  with front show ?thesis by (simp add: str_trim_def Let_def)
qed

lemma of_char_hex_digit:
  "d < 16 \<Longrightarrow> of_char (hex_digit d) = (if d < 10 then 48 + d else 87 + d)"
  by (simp add: hex_digit_def of_char_of)

lemma hex_digit_props:
  assumes "d < 16"
  shows "is_hexdigit (hex_digit d)" "hex_val (hex_digit d) = d" "printable (hex_digit d)"
    "to_ascii_lower (hex_digit d) = hex_digit d"
  using assms
  by (simp_all add: is_hexdigit_def hex_val_def printable_def to_ascii_lower_def
      of_char_hex_digit Let_def)

lemma byte_nibbles: "unat (b::u8) div 16 < 16" "unat b mod 16 < 16"
proof -
  have "unat b < 256" by (rule order_less_le_trans [OF unsigned_less]) simp
  then show "unat b div 16 < 16" by (simp add: less_mult_imp_div_less)
qed simp

lemmas nibble_props = byte_nibbles [THEN hex_digit_props(1)] byte_nibbles [THEN hex_digit_props(2)]
  byte_nibbles [THEN hex_digit_props(3)] byte_nibbles [THEN hex_digit_props(4)]

lemma bytes_of_hex_of_bytes [simp]: "bytes_of_hex (hex_of_bytes bs) = bs"
  by (induction bs) (simp_all add: hex_of_bytes_def nibble_props)

lemma length_hex_of_bytes [simp]: "length (hex_of_bytes bs) = 2 * length bs"
  by (induction bs) (simp_all add: hex_of_bytes_def)

lemma hex_of_bytes_all:
  "list_all is_hexdigit (hex_of_bytes bs)" "list_all printable (hex_of_bytes bs)"
  by (induction bs) (simp_all add: hex_of_bytes_def nibble_props)

lemma hexdigit_not_s: "is_hexdigit c \<Longrightarrow> c \<noteq> CHR ''s''"
  by (auto simp: is_hexdigit_def Let_def)

lemma strip_sg_hex: "strip_sg (hex_of_bytes bs) = hex_of_bytes bs"
proof -
  have "strip_prefix ''sg_'' (hex_of_bytes bs) = None"
    using hex_of_bytes_all(1) [of bs] hexdigit_not_s
    by (cases "hex_of_bytes bs") (auto simp: strip_prefix_def)
  then show ?thesis
    by (simp add: strip_sg_def str_trim_printable hex_of_bytes_all)
qed

lemma strip_sg_display: "strip_sg (''sg_'' @ hex_of_bytes bs) = hex_of_bytes bs"
proof -
  have "list_all printable (''sg_'' @ hex_of_bytes bs)"
    using hex_of_bytes_all(2) [of bs] by (simp add: printable_def)
  then have "str_trim (''sg_'' @ hex_of_bytes bs) = ''sg_'' @ hex_of_bytes bs"
    by (rule str_trim_printable)
  then show ?thesis
    by (simp add: strip_sg_def strip_prefix_def is_prefix_iff)
qed

lemma hexdigit_cases:
  assumes "is_hexdigit c"
  shows "hex_val c < 16" "hex_digit (hex_val c) = to_ascii_lower c"
proof -
  have c: "c = char_of (of_char c :: nat)" by simp
  define n where "n = (of_char c :: nat)"
  from assms have "n \<in> {48..57} \<union> {65..70} \<union> {97..102}"
    by (auto simp: is_hexdigit_def n_def Let_def)
  moreover have "hex_val c = (if n \<le> 57 then n - 48 else if n \<le> 70 then n - 55 else n - 87)"
    by (simp add: hex_val_def n_def)
  moreover have "to_ascii_lower c = char_of (if 65 \<le> n \<and> n \<le> 90 then n + 32 else n)"
    by (simp add: to_ascii_lower_def n_def Let_def)
  ultimately show "hex_val c < 16" "hex_digit (hex_val c) = to_ascii_lower c"
    by (auto simp: hex_digit_def)
qed

lemma hex_of_bytes_of_hex:
  "even (length s) \<Longrightarrow> list_all is_hexdigit s \<Longrightarrow>
   hex_of_bytes (bytes_of_hex s) = map to_ascii_lower s \<and> 2 * length (bytes_of_hex s) = length s"
proof (induction s rule: bytes_of_hex.induct)
  case (1 a b cs)
  then have a: "hex_val a < 16" "hex_digit (hex_val a) = to_ascii_lower a"
    and b: "hex_val b < 16" "hex_digit (hex_val b) = to_ascii_lower b"
    by (simp_all add: hexdigit_cases)
  then have "unat (word_of_nat (hex_val a * 16 + hex_val b) :: u8) = hex_val a * 16 + hex_val b"
    by (subst unsigned_of_nat) (simp add: take_bit_nat_eq_self)
  with 1 a b show ?case
    by (simp add: hex_of_bytes_def)
qed (auto simp: hex_of_bytes_def)

lemma from_hex_Some:
  assumes "from_hex s = Some i"
  shows "oid_wf i" "to_hex i = map to_ascii_lower (strip_sg s)"
  using assms hex_of_bytes_of_hex [of "strip_sg s"]
  by (auto simp: from_hex_def oid_wf_def to_hex_def Let_def split: if_splits)


section \<open>Canonical representations\<close>

lemma object_set_wf: "object_wf (object_set items)"
  by (simp add: object_set_def sorted_wrt_remdups_adj)

lemma object_set_eq: "object_set xs = object_set ys \<longleftrightarrow> set xs = set ys"
proof
  assume "object_set xs = object_set ys"
  then have "set (remdups_adj (sort xs)) = set (remdups_adj (sort ys))"
    by (simp add: object_set_def)
  then show "set xs = set ys" by simp
next
  assume "set xs = set ys"
  then show "object_set xs = object_set ys"
    using bts_of_list_unique [OF bts_of_list_sorted, of xs ys]
    by (simp add: object_set_def bts_of_list_def)
qed

lemma f64_eq_refl_finite: "f64_is_finite x \<Longrightarrow> f64_eq x x"
  by (simp add: f64_eq_def f64_is_nan_def f64_is_finite_def)

lemma object_eq_refl_finite: "object_finite x \<Longrightarrow> object_eq x x"
proof (cases x)
  case (OAtom a)
  then show "object_finite x \<Longrightarrow> ?thesis" by (cases a) (simp_all add: f64_eq_refl_finite)
qed simp

lemma object_eq_sym: "object_eq x y = object_eq y x"
proof -
  have "atom_eq a b = atom_eq b a" for a b
    by (cases a; cases b) (auto simp: f64_eq_def)
  then show ?thesis by (cases x; cases y) auto
qed

text \<open>Objects that are \<open>==\<close> are equal, but for a positive and a negative zero.\<close>

lemma object_eq_cases:
  assumes "object_eq x y"
  obtains "x = y"
  | f g where "x = OAtom (AFloat f)" "y = OAtom (AFloat g)" "f64_magnitude f = 0" "f64_magnitude g = 0"
proof -
  have "atom_eq a b \<Longrightarrow> a = b \<or> (\<exists>f g. a = AFloat f \<and> b = AFloat g \<and>
      f64_magnitude f = 0 \<and> f64_magnitude g = 0)" for a b
    by (cases a; cases b) (auto simp: f64_eq_def)
  with assms that show ?thesis by (cases x; cases y) auto
qed

lemma object_eq_child_ids: "object_eq x y \<Longrightarrow> child_ids x = child_ids y"
  by (erule object_eq_cases) simp_all

lemma object_eq_node [simp]: "object_eq (ONode n) x \<longleftrightarrow> x = ONode n"
  by (cases x) auto

lemma object_eq_node2 [simp]: "object_eq x (ONode n) \<longleftrightarrow> x = ONode n"
  by (cases x) auto

lemma collision_freeD [oid_laws]:
  "collision_free oid \<Longrightarrow> object_finite x \<Longrightarrow> object_finite y \<Longrightarrow> oid x = oid y \<Longrightarrow> x = y"
  by (auto simp: collision_free_def inj_on_def)

lemma word_of_int_i64: "- (2 ^ 63) \<le> n \<Longrightarrow> n < 2 ^ 63 \<Longrightarrow> sint (word_of_int n :: i64) = n"
  by (simp add: signed_of_int signed_take_bit_int_eq_self)

lemma word_of_int_u64: "0 \<le> n \<Longrightarrow> n < 2 ^ 64 \<Longrightarrow> uint (word_of_int n :: u64) = n"
  by (simp add: uint_word_of_int)

text \<open>The number an integer atom stands for.\<close>

fun number_of_object :: "Object \<Rightarrow> JsonNumber option" where
  "number_of_object (OAtom (AInt i)) = Some (JInt (sint i))"
| "number_of_object (OAtom (AUInt u)) = Some (JInt (uint u))"
| "number_of_object (OAtom (AFloat x)) = Some (JFloat x)"
| "number_of_object _ = None"

lemma number_of_from_json_number:
  "json_number_wf n \<Longrightarrow> number_of_object (from_json_number n) = Some n"
proof (cases n)
  case (JInt k)
  assume "json_number_wf n"
  with JInt have k: "- (2 ^ 63) \<le> k" "k < 2 ^ 64" by simp_all
  show ?thesis
  proof (cases "k < 2 ^ 63")
    case True
    with JInt k show ?thesis
      by (simp add: from_json_number_def object_int_def word_of_int_i64)
  next
    case False
    then have "\<not> nat k < 2 ^ 63" by simp
    with False JInt k show ?thesis
      by (simp add: from_json_number_def object_uint_def word_of_int_u64 unat_eq_nat_uint)
  qed
next
  case (JFloat x)
  then show ?thesis by (simp add: from_json_number_def object_float_def)
qed

end
