(* ===== verification/State_Path.thy ===== *)
theory State_Path
  imports Object_Model
begin

text \<open>
  Path addressing, from \<open>crates/agentstategraph-core/src/path.rs\<close>: components, parsing with
  its depth and segment caps, printing, and the navigation helpers. A \<open>StatePath\<close> is the list
  of its components.
\<close>

definition MAX_PATH_DEPTH :: nat where "MAX_PATH_DEPTH = 64"
definition MAX_SEGMENT_LEN :: nat where "MAX_SEGMENT_LEN = 4096"

datatype PathComponent = Key string | Index nat

type_synonym StatePath = "PathComponent list"

datatype PathError =
    MustStartWithSlash
  | EmptySegment
  | TooDeep nat
  | SegmentTooLong nat nat

definition path_root :: StatePath where
  "path_root = []"

definition parse_segment :: "nat \<Rightarrow> string \<Rightarrow> PathError + PathComponent" where
  "parse_segment i segment =
     (if segment = [] then Inl EmptySegment
      else if length segment > MAX_SEGMENT_LEN then Inl (SegmentTooLong i (length segment))
      else (case parse_usize segment of
              Some index \<Rightarrow> Inr (Index index)
            | None \<Rightarrow> Inr (Key segment)))"

definition path_parse :: "string \<Rightarrow> PathError + StatePath" where
  "path_parse s =
     (if s = [] \<or> s = ''/'' then Inr path_root
      else case strip_prefix ''/'' s of
        None \<Rightarrow> Inl MustStartWithSlash
      | Some rest \<Rightarrow>
          (let segments = split_on CHR ''/'' rest in
           case collect_results (map (\<lambda>(i, seg). parse_segment i seg) (enumerate 0 segments)) of
             Inl e \<Rightarrow> Inl e
           | Inr components \<Rightarrow>
               if length components > MAX_PATH_DEPTH then Inl (TooDeep (length components))
               else Inr components))"

definition is_root :: "StatePath \<Rightarrow> bool" where
  "is_root p \<longleftrightarrow> p = []"

definition path_parent :: "StatePath \<Rightarrow> StatePath option" where
  "path_parent p = (if p = [] then None else Some (take (length p - 1) p))"

definition path_last :: "StatePath \<Rightarrow> PathComponent option" where
  "path_last p = (if p = [] then None else Some (last p))"

definition push_key :: "StatePath \<Rightarrow> string \<Rightarrow> StatePath" where
  "push_key p key = p @ [Key key]"

definition push_index :: "StatePath \<Rightarrow> nat \<Rightarrow> StatePath" where
  "push_index p i = p @ [Index i]"

definition path_depth :: "StatePath \<Rightarrow> nat" where
  "path_depth p = length p"

fun display_component :: "PathComponent \<Rightarrow> string" where
  "display_component (Key k) = CHR ''/'' # k"
| "display_component (Index i) = CHR ''/'' # show_nat i"

definition path_display :: "StatePath \<Rightarrow> string" where
  "path_display p = (if p = [] then ''/'' else concat (map display_component p))"

text \<open>The components parsing produces: a key is a non-empty segment within the length cap that
  does not read as an index.\<close>

fun component_wf :: "PathComponent \<Rightarrow> bool" where
  "component_wf (Key k) \<longleftrightarrow>
     k \<noteq> [] \<and> length k \<le> MAX_SEGMENT_LEN \<and> CHR ''/'' \<notin> set k \<and> parse_usize k = None"
| "component_wf (Index i) \<longleftrightarrow> i < 2 ^ 64"

definition path_wf :: "StatePath \<Rightarrow> bool" where
  "path_wf p \<longleftrightarrow> length p \<le> MAX_PATH_DEPTH \<and> list_all component_wf p"


section \<open>Parsing and printing\<close>

text \<open>The messages of the errors.\<close>

fun path_error_string :: "PathError \<Rightarrow> string" where
  "path_error_string MustStartWithSlash = ''path must start with '' @ [CHR 0x27, CHR ''/'', CHR 0x27]"
| "path_error_string EmptySegment = ''path contains an empty segment''"
| "path_error_string (TooDeep depth) =
     ''path is too deep: '' @ show_nat depth @ '' components (max '' @ show_nat MAX_PATH_DEPTH @ '')''"
| "path_error_string (SegmentTooLong index len) =
     ''path segment at index '' @ show_nat index @ '' is too long: '' @ show_nat len @
     '' bytes (max '' @ show_nat MAX_SEGMENT_LEN @ '')''"

lemma length_show_nat_le: "0 < k \<Longrightarrow> n < 10 ^ k \<Longrightarrow> length (show_nat n) \<le> k"
proof (induction k arbitrary: n)
  case 0
  then show ?case by simp
next
  case (Suc k)
  show ?case
  proof (cases "n < 10")
    case True
    then show ?thesis by (subst show_nat.simps) simp
  next
    case False
    with Suc.prems have "0 < k" by (cases k) auto
    moreover have "n div 10 < 10 ^ k"
      using Suc.prems(2) by (simp add: less_mult_imp_div_less mult.commute)
    ultimately have "length (show_nat (n div 10)) \<le> k" by (rule Suc.IH)
    with False show ?thesis by (subst show_nat.simps) simp
  qed
qed

lemma length_show_usize: "n < 2 ^ 64 \<Longrightarrow> length (show_nat n) \<le> MAX_SEGMENT_LEN"
  using length_show_nat_le [of 20 n] by (simp add: MAX_SEGMENT_LEN_def)

fun segment_of :: "PathComponent \<Rightarrow> string" where
  "segment_of (Key k) = k"
| "segment_of (Index i) = show_nat i"

lemma display_segment: "display_component c = CHR ''/'' # segment_of c"
  by (cases c) simp_all

lemma concat_display: "concat (map display_component p) = concat (map ((#) CHR ''/'') (map segment_of p))"
  by (induction p) (simp_all add: display_segment)

lemma parse_segment_segment_of:
  "component_wf c \<Longrightarrow> parse_segment i (segment_of c) = Inr c"
proof (cases c)
  case (Index n)
  assume "component_wf c"
  with Index length_show_usize [of n] show ?thesis
    by (simp add: parse_segment_def parse_usize_show_nat not_less)
qed (simp add: parse_segment_def)

lemma segment_of_no_slash: "component_wf c \<Longrightarrow> CHR ''/'' \<notin> set (segment_of c)"
  by (cases c) (simp_all add: show_nat_no_slash)

lemma parse_segment_wf:
  "parse_segment i seg = Inr c \<Longrightarrow> CHR ''/'' \<notin> set seg \<Longrightarrow> component_wf c"
  by (auto simp: parse_segment_def split: if_splits option.splits dest: parse_usize_bound)

lemma parse_segments_segment_of:
  "list_all component_wf p \<Longrightarrow>
   map (\<lambda>(i, seg). parse_segment i seg) (enumerate n (map segment_of p)) = map Inr p"
  by (induction p arbitrary: n) (simp_all add: parse_segment_segment_of)

lemma parse_segments_Inr:
  "map (\<lambda>(i, seg). parse_segment i seg) (enumerate n segs) = map Inr p \<Longrightarrow>
   \<forall>seg \<in> set segs. CHR ''/'' \<notin> set seg \<Longrightarrow> list_all component_wf p"
proof (induction segs arbitrary: n p)
  case Nil
  then show ?case by simp
next
  case (Cons seg segs)
  then show ?case by (cases p) (auto dest: parse_segment_wf)
qed

lemma path_display_not_short: "p \<noteq> [] \<Longrightarrow> list_all component_wf p \<Longrightarrow>
  \<exists>rest. path_display p = CHR ''/'' # rest \<and> rest \<noteq> []"
  by (cases p) (auto simp: path_display_def display_segment parse_segment_segment_of
      elim: component_wf.elims)

lemma path_parse_display: "path_wf p \<Longrightarrow> path_parse (path_display p) = Inr p"
proof (cases "p = []")
  case True
  then show ?thesis by (simp add: path_parse_def path_display_def path_root_def)
next
  case False
  assume "path_wf p"
  then have wf: "length p \<le> MAX_PATH_DEPTH" "list_all component_wf p"
    by (simp_all add: path_wf_def)
  from path_display_not_short [OF False wf(2)] obtain rest
    where rest: "path_display p = CHR ''/'' # rest" "rest \<noteq> []" by blast
  have "split_on CHR ''/'' rest = map segment_of p"
  proof -
    have "rest = tl (concat (map ((#) CHR ''/'') (map segment_of p)))"
      using rest(1) False by (simp add: path_display_def concat_display)
    moreover have "\<forall>w \<in> set (map segment_of p). CHR ''/'' \<notin> set w"
      using wf(2) by (auto simp: list_all_iff segment_of_no_slash)
    ultimately show ?thesis
      using False split_on_join [of "map segment_of p" "CHR ''/''"] by simp
  qed
  with rest wf show ?thesis
    by (simp add: path_parse_def strip_prefix_def parse_segments_segment_of)
qed

lemma path_parse_wf: "path_parse s = Inr p \<Longrightarrow> path_wf p"
proof -
  assume parse: "path_parse s = Inr p"
  show ?thesis
  proof (cases "s = [] \<or> s = ''/''")
    case True
    with parse show ?thesis by (auto simp: path_parse_def path_root_def path_wf_def)
  next
    case False
    with parse obtain rest where "strip_prefix ''/'' s = Some rest"
      and segs: "map (\<lambda>(i, seg). parse_segment i seg) (enumerate 0 (split_on CHR ''/'' rest)) = map Inr p"
      and len: "length p \<le> MAX_PATH_DEPTH"
      by (auto simp: path_parse_def Let_def collect_results_Inr split: option.splits sum.splits if_splits)
    from segs have "list_all component_wf p"
      by (rule parse_segments_Inr) (auto dest: split_on_no_sep)
    with len show ?thesis by (simp add: path_wf_def)
  qed
qed

text \<open>The paths that print and read back as themselves are exactly the well-formed ones.\<close>

lemma path_wf_iff: "path_wf p \<longleftrightarrow> path_parse (path_display p) = Inr p"
  using path_parse_display path_parse_wf by blast

lemma path_parent_push:
  "path_parent (push_key p k) = Some p" "path_parent (push_index p i) = Some p"
  by (simp_all add: path_parent_def push_key_def push_index_def)

end
