(* ===== verification/Object_Store.thy ===== *)
theory Object_Store
  imports State_Path
begin

text \<open>
  The object-store contract, from \<open>crates/agentstategraph-storage/src/traits.rs\<close>: the error
  type, the \<open>ObjectStore\<close> trait with its default batch operations, and the laws a backend
  promises. A trait object \<open>&dyn ObjectStore\<close> is a record of functions over the backend's
  state; a call that stores returns the new state, also when it fails.

  The locale \<open>object_store\<close> states the laws against the abstract view of a store, the map from
  ids to objects; \<open>content_store\<close> adds that ids identify contents. The clients (tree operations,
  diff, merge) are verified once inside these locales.
\<close>

section \<open>The trait\<close>

datatype StorageError =
    SObjectNotFound string
  | SCommitNotFound string
  | SRefNotFound string
  | SNamespaceNotFound string
  | SNamespaceAlreadyExists string
  | SCasConflict string string string
  | SDuplicateRef string
  | SBackend string
  | SSerialization string
  | SEpochAlreadySealed string
  | SSessionEnded string
  | SInvalidOperation string
  | SSchemaTooNew string int int int

definition storage_error_code :: "StorageError \<Rightarrow> string" where
  "storage_error_code e =
     (case e of
        SObjectNotFound _ \<Rightarrow> ''object_not_found''
      | SCommitNotFound _ \<Rightarrow> ''commit_not_found''
      | SRefNotFound _ \<Rightarrow> ''ref_not_found''
      | SNamespaceNotFound _ \<Rightarrow> ''namespace_not_found''
      | SNamespaceAlreadyExists _ \<Rightarrow> ''namespace_already_exists''
      | SCasConflict _ _ _ \<Rightarrow> ''write_conflict''
      | SDuplicateRef _ \<Rightarrow> ''ref_already_exists''
      | SBackend _ \<Rightarrow> ''storage_error''
      | SSerialization _ \<Rightarrow> ''serialization_error''
      | SEpochAlreadySealed _ \<Rightarrow> ''epoch_sealed''
      | SSessionEnded _ \<Rightarrow> ''session_ended''
      | SInvalidOperation _ \<Rightarrow> ''invalid_operation''
      | SSchemaTooNew _ _ _ _ \<Rightarrow> ''schema_too_new'')"

record 's ObjectStore =
  os_get :: "'s \<Rightarrow> ObjectId \<Rightarrow> StorageError + Object option"
  os_put :: "'s \<Rightarrow> Object \<Rightarrow> 's \<times> (StorageError + ObjectId)"
  os_has :: "'s \<Rightarrow> ObjectId \<Rightarrow> StorageError + bool"
  os_batch_get :: "'s \<Rightarrow> ObjectId list \<Rightarrow> StorageError + Object option list"
  os_batch_put :: "'s \<Rightarrow> Object list \<Rightarrow> 's \<times> (StorageError + ObjectId list)"

definition default_batch_get ::
  "('s \<Rightarrow> ObjectId \<Rightarrow> StorageError + Object option) \<Rightarrow> 's \<Rightarrow> ObjectId list \<Rightarrow>
   StorageError + Object option list" where
  "default_batch_get get s ids = collect_results (map (get s) ids)"

fun default_batch_put ::
  "('s \<Rightarrow> Object \<Rightarrow> 's \<times> (StorageError + ObjectId)) \<Rightarrow> 's \<Rightarrow> Object list \<Rightarrow>
   's \<times> (StorageError + ObjectId list)" where
  "default_batch_put put s [] = (s, Inr [])"
| "default_batch_put put s (x # xs) =
     (case put s x of
        (s', Inl e) \<Rightarrow> (s', Inl e)
      | (s', Inr i) \<Rightarrow>
          (case default_batch_put put s' xs of
             (s'', Inl e) \<Rightarrow> (s'', Inl e)
           | (s'', Inr is) \<Rightarrow> (s'', Inr (i # is))))"

section \<open>Views\<close>

text \<open>The abstract store: a map from ids to objects.\<close>

type_synonym view = "ObjectId \<rightharpoonup> Object"

definition object_ok :: "Object \<Rightarrow> bool" where
  "object_ok x \<longleftrightarrow> object_wf x \<and> object_finite x"

definition view_put :: "(Object \<Rightarrow> ObjectId) \<Rightarrow> Object \<Rightarrow> view \<Rightarrow> view" where
  "view_put oid x v = (case v (oid x) of None \<Rightarrow> v(oid x \<mapsto> x) | Some _ \<Rightarrow> v)"

definition view_addressed :: "(Object \<Rightarrow> ObjectId) \<Rightarrow> view \<Rightarrow> bool" where
  "view_addressed oid v \<longleftrightarrow> (\<forall>i x. v i = Some x \<longrightarrow> oid x = i \<and> object_ok x)"

text \<open>No dangling references, and no cycles.\<close>

definition view_closed :: "view \<Rightarrow> bool" where
  "view_closed v \<longleftrightarrow> (\<forall>i x. v i = Some x \<longrightarrow> set (child_ids x) \<subseteq> dom v)"

definition view_ranked :: "(ObjectId \<Rightarrow> nat) \<Rightarrow> view \<Rightarrow> bool" where
  "view_ranked rank v \<longleftrightarrow>
     (\<forall>i x. v i = Some x \<longrightarrow> (\<forall>c \<in> set (child_ids x). rank c < rank i))"

text \<open>Following a path, as \<open>child_id_at\<close> of \<open>tree.rs\<close> does one step: a key into a map, an
  index into a list, nothing else.\<close>

fun child_id_at :: "Object \<Rightarrow> PathComponent \<Rightarrow> ObjectId option" where
  "child_id_at (ONode (NMap entries)) (Key key) = map_of entries key"
| "child_id_at (ONode (NList items)) (Index idx) = (if idx < length items then Some (items ! idx) else None)"
| "child_id_at _ _ = None"

fun view_nav :: "view \<Rightarrow> Object \<Rightarrow> PathComponent list \<Rightarrow> Object option" where
  "view_nav v x [] = Some x"
| "view_nav v x (c # cs) =
     (case child_id_at x c of None \<Rightarrow> None
      | Some i \<Rightarrow> (case v i of None \<Rightarrow> None | Some y \<Rightarrow> view_nav v y cs))"

definition view_get :: "view \<Rightarrow> ObjectId \<Rightarrow> StatePath \<Rightarrow> Object option" where
  "view_get v root p = (case v root of None \<Rightarrow> None | Some x \<Rightarrow> view_nav v x p)"

lemma object_ok_node [simp]:
  "object_ok (ONode (NMap m)) \<longleftrightarrow> bt_wf m"
  "object_ok (ONode (NList xs))"
  "object_ok (ONode (NSet xs)) \<longleftrightarrow> sorted_wrt (<) xs"
  by (simp_all add: object_ok_def)

lemma child_id_at_in: "child_id_at x c = Some i \<Longrightarrow> i \<in> set (child_ids x)"
  by (induction x c rule: child_id_at.induct)
    (auto split: if_splits dest!: map_of_SomeD intro: rev_image_eqI)

lemma view_put_fresh: "v (oid x) = None \<Longrightarrow> view_put oid x v = v(oid x \<mapsto> x)"
  by (simp add: view_put_def)

lemma view_put_le: "v \<subseteq>\<^sub>m view_put oid x v"
  by (auto simp: view_put_def map_le_def split: option.splits)

lemma view_put_dom: "oid x \<in> dom (view_put oid x v)"
  by (auto simp: view_put_def split: option.splits)

lemma view_put_dom_eq: "dom (view_put oid x v) = insert (oid x) (dom v)"
  by (auto simp: view_put_def split: option.splits if_splits)

lemma view_put_addressed [intro]:
  "view_addressed oid v \<Longrightarrow> object_ok x \<Longrightarrow> view_addressed oid (view_put oid x v)"
  by (auto simp: view_put_def view_addressed_def split: option.splits if_splits)

lemma view_put_exact:
  assumes "collision_free oid" "view_addressed oid v" "object_ok x"
  shows "view_put oid x v = v(oid x \<mapsto> x)"
proof (cases "v (oid x)")
  case None
  then show ?thesis by (rule view_put_fresh)
next
  case (Some y)
  with assms(2) have "oid y = oid x" "object_ok y"
    by (auto simp: view_addressed_def)
  with assms(1,3) have "y = x"
    by (auto simp: object_ok_def intro: collision_freeD)
  with Some show ?thesis by (simp add: view_put_def fun_upd_idem)
qed

lemma view_put_closed [intro]:
  "view_closed v \<Longrightarrow> set (child_ids x) \<subseteq> dom v \<Longrightarrow> view_closed (view_put oid x v)"
  by (fastforce simp: view_put_def view_closed_def split: option.splits if_splits)

text \<open>Storing an object whose children are stored keeps the graph acyclic: no stored object can
  refer to an id that is not yet there.\<close>

lemma view_put_ranked:
  assumes "view_closed v" "view_ranked rank v" "set (child_ids x) \<subseteq> dom v"
  shows "\<exists>rank'. view_ranked rank' (view_put oid x v)"
proof (cases "v (oid x)")
  case (Some y)
  with assms(2) show ?thesis by (auto simp: view_put_def)
next
  case None
  define rank' where "rank' = rank(oid x := Suc (Max (insert 0 (rank ` set (child_ids x)))))"
  have not_child: "oid x \<notin> set (child_ids y)" if "v i = Some y" for i y
    using assms(1) None that by (auto simp: view_closed_def)
  have old: "rank' c < rank' i" if "v i = Some y" "c \<in> set (child_ids y)" for i y c
    using assms(2) that not_child [OF that(1)] None
    by (auto simp: rank'_def view_ranked_def)
  have new: "rank' c < rank' (oid x)" if "c \<in> set (child_ids x)" for c
  proof -
    have "c \<noteq> oid x" using assms(3) None that by auto
    then show ?thesis using that by (simp add: rank'_def less_Suc_eq_le)
  qed
  have "view_ranked rank' (view_put oid x v)"
    using old new by (auto simp: view_put_fresh [of v oid x, OF None] view_ranked_def)
  then show ?thesis by blast
qed

lemma view_nav_mono: "v \<subseteq>\<^sub>m v' \<Longrightarrow> view_nav v x p = Some y \<Longrightarrow> view_nav v' x p = Some y"
proof (induction p arbitrary: x)
  case (Cons c cs)
  then obtain i z where "child_id_at x c = Some i" "v i = Some z" "view_nav v z cs = Some y"
    by (auto split: option.splits)
  moreover from this Cons.prems(1) have "v' i = Some z"
    by (metis domI map_le_def)
  ultimately show ?case using Cons by simp
qed simp

lemma view_get_mono: "v \<subseteq>\<^sub>m v' \<Longrightarrow> view_get v r p = Some y \<Longrightarrow> view_get v' r p = Some y"
  by (auto simp: view_get_def split: option.splits dest: view_nav_mono)
    (metis domI map_le_def option.distinct(1), metis (no_types, lifting) domI map_le_def option.inject view_nav_mono)

lemma view_nav_stored: "view_nav v x p = Some y \<Longrightarrow> \<exists>i. v i = Some x \<Longrightarrow> \<exists>i. v i = Some y"
  by (induction v x p rule: view_nav.induct) (auto split: option.splits)

lemma view_get_stored: "view_get v r p = Some x \<Longrightarrow> \<exists>i. v i = Some x"
  by (auto simp: view_get_def split: option.splits intro: view_nav_stored)

lemma view_nav_append:
  "view_nav v x (p @ q) = (case view_nav v x p of None \<Rightarrow> None | Some y \<Rightarrow> view_nav v y q)"
  by (induction v x p rule: view_nav.induct) (auto split: option.splits)

text \<open>Stores that form a directed acyclic graph.\<close>

definition view_dag :: "view \<Rightarrow> bool" where
  "view_dag v \<longleftrightarrow> view_closed v \<and> (\<exists>rank. view_ranked rank v)"

lemma view_dag_put: "view_dag v \<Longrightarrow> set (child_ids x) \<subseteq> dom v \<Longrightarrow> view_dag (view_put oid x v)"
  using view_put_ranked [of v _ x oid] by (auto simp: view_dag_def)

lemma view_dag_child: "view_dag v \<Longrightarrow> v i = Some x \<Longrightarrow> set (child_ids x) \<subseteq> dom v"
  by (auto simp: view_dag_def view_closed_def)

text \<open>Objects listed so that each refers to ids already known or to objects before it can be stored
  in that order.\<close>

fun children_first :: "(Object \<Rightarrow> ObjectId) \<Rightarrow> ObjectId set \<Rightarrow> Object list \<Rightarrow> bool" where
  "children_first oid D [] \<longleftrightarrow> True"
| "children_first oid D (x # xs) \<longleftrightarrow> set (child_ids x) \<subseteq> D \<and> children_first oid (insert (oid x) D) xs"

lemma children_first_snoc:
  "children_first oid D (xs @ [x]) \<longleftrightarrow>
   children_first oid D xs \<and> set (child_ids x) \<subseteq> D \<union> oid ` set xs"
  by (induction xs arbitrary: D) (auto simp: insert_absorb)

lemma fold_view_put:
  assumes "view_dag v" "view_addressed oid v" "children_first oid (dom v) xs" "list_all object_ok xs"
  shows "view_dag (fold (view_put oid) xs v) \<and> view_addressed oid (fold (view_put oid) xs v) \<and>
    v \<subseteq>\<^sub>m fold (view_put oid) xs v \<and> dom (fold (view_put oid) xs v) = dom v \<union> oid ` set xs"
  using assms
proof (induction xs arbitrary: v)
  case (Cons x xs)
  let ?v = "view_put oid x v"
  have "view_dag ?v" "view_addressed oid ?v" "dom ?v = insert (oid x) (dom v)"
    using Cons.prems view_dag_put [of v x oid] view_put_dom_eq [of oid x v] by auto
  with Cons.IH [of ?v] Cons.prems(3,4) view_put_le [of v oid x] show ?case
    by (auto intro: map_le_trans)
qed simp

lemma fold_view_put_le: "v \<subseteq>\<^sub>m fold (view_put oid) xs v"
  by (induction xs arbitrary: v) (auto intro: map_le_trans view_put_le)

lemma fold_view_put_exact:
  assumes "collision_free oid" "view_addressed oid v" "list_all object_ok xs" "x \<in> set xs"
  shows "fold (view_put oid) xs v (oid x) = Some x"
proof -
  have addr: "view_addressed oid (fold (view_put oid) xs v)"
    using assms(2,3) by (induction xs arbitrary: v) auto
  have "oid x \<in> dom (fold (view_put oid) xs v)"
    using assms(4)
  proof (induction xs arbitrary: v)
    case (Cons y xs)
    have mono: "dom w \<subseteq> dom (fold (view_put oid) xs w)" for w
      using fold_view_put_le by (rule map_le_implies_dom_le)
    show ?case
    proof (cases "x \<in> set xs")
      case False
      with Cons.prems mono [of "view_put oid y v"] view_put_dom [of oid y v] show ?thesis by auto
    qed (use Cons.IH in simp)
  qed simp
  then obtain y where y: "fold (view_put oid) xs v (oid x) = Some y" by blast
  with addr have "oid y = oid x" "object_ok y" by (auto simp: view_addressed_def)
  moreover have "object_ok x" using assms(3,4) by (simp add: list_all_iff)
  ultimately have "y = x" using assms(1) by (auto simp: object_ok_def intro: collision_freeD)
  with y show ?thesis by simp
qed

section \<open>The laws\<close>

locale object_store =
  fixes S :: "'s ObjectStore"
    and oid :: "Object \<Rightarrow> ObjectId"
    and view :: "'s \<Rightarrow> view"
    and inv :: "'s \<Rightarrow> bool"
  assumes get_law: "inv s \<Longrightarrow> os_get S s i = Inr (view s i)"
    and has_law: "inv s \<Longrightarrow> os_has S s i = Inr (view s i \<noteq> None)"
    and put_law: "inv s \<Longrightarrow> object_ok x \<Longrightarrow>
      \<exists>s'. os_put S s x = (s', Inr (oid x)) \<and> inv s' \<and> view s' = view_put oid x (view s)"
    and batch_get_law: "inv s \<Longrightarrow> os_batch_get S s ids = Inr (map (view s) ids)"
    and batch_put_law: "inv s \<Longrightarrow> list_all object_ok xs \<Longrightarrow>
      \<exists>s'. os_batch_put S s xs = (s', Inr (map oid xs)) \<and> inv s'
        \<and> view s' = fold (view_put oid) xs (view s)"
    and addressed: "inv s \<Longrightarrow> view_addressed oid (view s)"
begin

lemma put_then_get:
  "inv s \<Longrightarrow> object_ok x \<Longrightarrow> os_put S s x = (s', r) \<Longrightarrow>
   r = Inr (oid x) \<and> inv s' \<and> (\<exists>y. os_get S s' (oid x) = Inr (Some y) \<and> oid y = oid x)"
proof -
  assume a: "inv s" "object_ok x" "os_put S s x = (s', r)"
  with put_law [OF a(1,2)] have r: "r = Inr (oid x)" "inv s'" "view s' = view_put oid x (view s)"
    by auto
  from view_put_dom [of oid x "view s"] r(3) obtain y where "view s' (oid x) = Some y"
    by (auto simp: dom_def)
  moreover from addressed [OF r(2)] this have "oid y = oid x"
    by (auto simp: view_addressed_def)
  ultimately show ?thesis using r get_law [OF r(2)] by auto
qed

text \<open>Storing an object twice is storing it once.\<close>

lemma put_idempotent:
  assumes "inv s" "object_ok x" "os_put S s x = (s', r)" "os_put S s' x = (s'', r')"
  shows "view s'' = view s' \<and> r' = r"
  using put_law [OF assms(1,2)] put_law [of s' x] assms
  by (auto simp: view_put_def split: option.splits)

end

locale content_store = object_store +
  assumes coll: "collision_free oid"
begin

lemma put_exact:
  assumes "inv s" "object_ok x" "os_put S s x = (s', r)"
  shows "r = Inr (oid x)" "inv s'" "view s' = (view s)(oid x \<mapsto> x)"
  using put_law [OF assms(1,2)] assms(3) view_put_exact [OF coll addressed [OF assms(1)] assms(2)]
  by auto

end

end
