(* ===== verification/Epoch_Model.thy ===== *)
theory Epoch_Model
  imports Object_Model
begin

text \<open>
  Epochs, from \<open>crates/agentstategraph-core/src/epoch.rs\<close>: scopes with their storage form,
  the epoch record, its seal and archive operations, and the registry entries. Namespaces
  (\<open>namespace.rs\<close>) and sessions (\<open>session.rs\<close>) follow. The clock is an argument.
\<close>

section \<open>Epochs\<close>

datatype EpochScope = ScopeAll | EsBranch string | EsPlan string | EsWorkspace string

definition as_storage_str :: "EpochScope \<Rightarrow> string" where
  "as_storage_str s =
     (case s of ScopeAll \<Rightarrow> ''all''
      | EsBranch b \<Rightarrow> ''branch:'' @ b
      | EsPlan p \<Rightarrow> ''plan:'' @ p
      | EsWorkspace w \<Rightarrow> ''workspace:'' @ w)"

text \<open>\<open>str::split_once\<close>: the parts before and after the first separator.\<close>

fun split_once :: "'a \<Rightarrow> 'a list \<Rightarrow> ('a list \<times> 'a list) option" where
  "split_once c [] = None"
| "split_once c (x # xs) =
     (if x = c then Some ([], xs)
      else map_option (\<lambda>(a, b). (x # a, b)) (split_once c xs))"

definition from_storage_str :: "string \<Rightarrow> EpochScope" where
  "from_storage_str s =
     (case split_once CHR '':'' s of
        None \<Rightarrow> ScopeAll
      | Some (kind, rest) \<Rightarrow>
          if kind = ''branch'' then EsBranch rest
          else if kind = ''plan'' then EsPlan rest
          else if kind = ''workspace'' then EsWorkspace rest
          else ScopeAll)"

definition seal_ref :: "EpochScope \<Rightarrow> string option" where
  "seal_ref s =
     (case s of ScopeAll \<Rightarrow> Some ''main'' | EsWorkspace _ \<Rightarrow> Some ''main''
      | EsBranch b \<Rightarrow> Some b | EsPlan _ \<Rightarrow> None)"

datatype EpochStatus = EActive | ESealed | EArchived

record Epoch =
  ep_id :: string
  ep_description :: string
  ep_root_intents :: "string list"
  ep_status :: EpochStatus
  ep_created_at :: timestamp
  ep_sealed_at :: "timestamp option"
  ep_seal_summary :: "string option"
  ep_seal_hash :: "ObjectId option"
  ep_commits :: "ObjectId list"
  ep_agents :: "string list"
  ep_branches :: "string list"
  ep_tags :: "string list"
  ep_sealed_commits :: "ObjectId list"
  ep_scope :: EpochScope
  ep_namespace :: "string option"

datatype CrossRefType = FollowUp | Dependency | Related | Reverts

record CrossReference =
  cr_from_epoch :: string
  cr_to_epoch :: string
  cr_relationship :: CrossRefType
  cr_description :: string

record EpochEntry =
  ee_id :: string
  ee_description :: string
  ee_status :: EpochStatus
  ee_created_at :: timestamp
  ee_sealed_at :: "timestamp option"
  ee_root_intents :: "string list"
  ee_agents :: "string list"
  ee_commit_count :: nat
  ee_seal_hash :: "ObjectId option"
  ee_scope :: EpochScope
  ee_namespace :: "string option"
  ee_tags :: "string list"

record Registry =
  reg_epochs :: "EpochEntry list"
  reg_cross_references :: "CrossReference list"

datatype EpochError = NotActive string | NotSealed string | EpochNotFound string

definition epoch_new :: "timestamp \<Rightarrow> string \<Rightarrow> string \<Rightarrow> string list \<Rightarrow> Epoch" where
  "epoch_new now i description root_intents =
     \<lparr> ep_id = i, ep_description = description, ep_root_intents = root_intents,
       ep_status = EActive, ep_created_at = now, ep_sealed_at = None, ep_seal_summary = None,
       ep_seal_hash = None, ep_commits = [], ep_agents = [], ep_branches = [], ep_tags = [],
       ep_sealed_commits = [], ep_scope = ScopeAll, ep_namespace = None \<rparr>"

definition epoch_with_scope :: "Epoch \<Rightarrow> EpochScope \<Rightarrow> Epoch" where
  "epoch_with_scope e s = e\<lparr>ep_scope := s\<rparr>"

definition epoch_with_namespace :: "Epoch \<Rightarrow> string \<Rightarrow> Epoch" where
  "epoch_with_namespace e n = e\<lparr>ep_namespace := Some n\<rparr>"

definition epoch_seal :: "timestamp \<Rightarrow> Epoch \<Rightarrow> string \<Rightarrow> ObjectId \<Rightarrow> EpochError + Epoch" where
  "epoch_seal now e summary seal_hash =
     (if ep_status e \<noteq> EActive then Inl (NotActive (ep_id e))
      else Inr (e\<lparr>ep_status := ESealed, ep_sealed_at := Some now,
                  ep_seal_summary := Some summary, ep_seal_hash := Some seal_hash\<rparr>))"

definition epoch_archive :: "Epoch \<Rightarrow> EpochError + Epoch" where
  "epoch_archive e =
     (if ep_status e \<noteq> ESealed then Inl (NotSealed (ep_id e))
      else Inr (e\<lparr>ep_status := EArchived\<rparr>))"

definition epoch_add_commit :: "Epoch \<Rightarrow> ObjectId \<Rightarrow> string \<Rightarrow> EpochError + Epoch" where
  "epoch_add_commit e commit_id agent_id =
     (if ep_status e \<noteq> EActive then Inl (NotActive (ep_id e))
      else Inr (e\<lparr>ep_commits := ep_commits e @ [commit_id],
                  ep_agents := (if agent_id \<in> set (ep_agents e) then ep_agents e
                                else ep_agents e @ [agent_id])\<rparr>))"

definition epoch_commit_count :: "Epoch \<Rightarrow> nat" where
  "epoch_commit_count e =
     (if ep_commits e = [] then length (ep_sealed_commits e) else length (ep_commits e))"

definition epoch_to_entry :: "Epoch \<Rightarrow> EpochEntry" where
  "epoch_to_entry e =
     \<lparr> ee_id = ep_id e, ee_description = ep_description e, ee_status = ep_status e,
       ee_created_at = ep_created_at e, ee_sealed_at = ep_sealed_at e,
       ee_root_intents = ep_root_intents e, ee_agents = ep_agents e,
       ee_commit_count = epoch_commit_count e, ee_seal_hash = ep_seal_hash e,
       ee_scope = ep_scope e, ee_namespace = ep_namespace e, ee_tags = ep_tags e \<rparr>"

section \<open>Namespaces\<close>

definition MAX_NAMESPACE_LEN :: nat where "MAX_NAMESPACE_LEN = 64"

datatype Namespace = Namespace (ns_str: string)

datatype NamespaceError = NsEmpty | NsTooLong nat | NsInvalidChars string

definition DEFAULT_NS :: string where "DEFAULT_NS = ''default''"

definition is_ascii_alphanumeric :: "char \<Rightarrow> bool" where
  "is_ascii_alphanumeric c \<longleftrightarrow>
     (let n = of_char c :: nat in (48 \<le> n \<and> n \<le> 57) \<or> (65 \<le> n \<and> n \<le> 90) \<or> (97 \<le> n \<and> n \<le> 122))"

definition namespace_new :: "string \<Rightarrow> NamespaceError + Namespace" where
  "namespace_new name =
     (if name = [] then Inl NsEmpty
      else if length name > MAX_NAMESPACE_LEN then Inl (NsTooLong (length name))
      else if \<not> list_all (\<lambda>c. is_ascii_alphanumeric c \<or> c = CHR ''-'' \<or> c = CHR ''_'') name
      then Inl (NsInvalidChars name)
      else Inr (Namespace name))"

definition default_ns :: Namespace where
  "default_ns = Namespace DEFAULT_NS"

section \<open>Sessions\<close>

datatype SessionStatus = SActive | SCompleted | SAbandoned

fun session_status_str :: "SessionStatus \<Rightarrow> string" where
  "session_status_str SActive = ''Active''"
| "session_status_str SCompleted = ''Completed''"
| "session_status_str SAbandoned = ''Abandoned''"

definition session_status_from_wire :: "string \<Rightarrow> SessionStatus" where
  "session_status_from_wire s =
     (if s = ''Active'' then SActive else if s = ''Completed'' then SCompleted else SAbandoned)"

record Session =
  se_id :: string
  se_agent_id :: string
  se_working_branch :: string
  se_head :: ObjectId
  se_parent_session :: "string option"
  se_delegated_intent :: "string option"
  se_report_to :: "string option"
  se_path_scope :: "string option"
  se_scope_tenant :: "string option"
  se_scope_namespace :: "Namespace option"
  se_status :: SessionStatus
  se_created_at :: timestamp
  se_ended_at :: "timestamp option"

section \<open>Properties\<close>

lemma split_once_append: "c \<notin> set a \<Longrightarrow> split_once c (a @ c # b) = Some (a, b)"
  by (induction a) auto

lemma split_once_None: "split_once c s = None \<longleftrightarrow> c \<notin> set s"
  by (induction s) auto

lemma from_storage_as_storage: "from_storage_str (as_storage_str s) = s"
proof (cases s)
  case (EsBranch b)
  then show ?thesis
    using split_once_append [of "CHR '':''" "''branch''" b]
    by (simp add: as_storage_str_def from_storage_str_def)
next
  case (EsPlan p)
  then show ?thesis
    using split_once_append [of "CHR '':''" "''plan''" p]
    by (simp add: as_storage_str_def from_storage_str_def)
next
  case (EsWorkspace w)
  then show ?thesis
    using split_once_append [of "CHR '':''" "''workspace''" w]
    by (simp add: as_storage_str_def from_storage_str_def)
qed (simp add: as_storage_str_def from_storage_str_def)

text \<open>Steps of an epoch's life and what they keep.\<close>

inductive epoch_step :: "Epoch \<Rightarrow> Epoch \<Rightarrow> bool" where
  seal: "epoch_seal now e summary h = Inr e' \<Longrightarrow> epoch_step e e'"
| archive: "epoch_archive e = Inr e' \<Longrightarrow> epoch_step e e'"
| add: "epoch_add_commit e c a = Inr e' \<Longrightarrow> epoch_step e e'"

inductive_cases epoch_stepE: "epoch_step e e'"

definition epoch_inv :: "Epoch \<Rightarrow> bool" where
  "epoch_inv e \<longleftrightarrow>
     (ep_status e = EActive \<longleftrightarrow> ep_seal_hash e = None) \<and>
     (ep_seal_hash e = None \<longleftrightarrow> ep_sealed_at e = None) \<and>
     (ep_seal_hash e = None \<longleftrightarrow> ep_seal_summary e = None) \<and> distinct (ep_agents e)"

lemmas epoch_ops = epoch_seal_def epoch_archive_def epoch_add_commit_def

lemma epoch_step_inv: "epoch_step e e' \<Longrightarrow> epoch_inv e \<Longrightarrow> epoch_inv e'"
  by (erule epoch_stepE) (auto simp: epoch_ops epoch_inv_def split: if_splits)

lemma epoch_sealed_step:
  "epoch_step e e' \<Longrightarrow> ep_status e \<noteq> EActive \<Longrightarrow>
   e' = e\<lparr>ep_status := EArchived\<rparr> \<and> ep_status e = ESealed"
  by (erule epoch_stepE) (auto simp: epoch_ops split: if_splits)

lemma epoch_sealed_forever:
  assumes "epoch_step\<^sup>*\<^sup>* e e'" "ep_status e \<noteq> EActive"
  shows "\<exists>s. s \<noteq> EActive \<and> e' = e\<lparr>ep_status := s\<rparr>"
  using assms
proof (induction rule: rtranclp_induct)
  case base
  have "e = e\<lparr>ep_status := ep_status e\<rparr>" by simp
  with base show ?case by blast
next
  case (step e' e'')
  then obtain s where s: "s \<noteq> EActive" "e' = e\<lparr>ep_status := s\<rparr>" by blast
  with epoch_sealed_step [OF step.hyps(2)] have "e'' = e\<lparr>ep_status := EArchived\<rparr>"
    by simp
  then show ?case by blast
qed

lemma namespace_new_Inr:
  "namespace_new name = Inr ns \<longleftrightarrow>
   ns = Namespace name \<and> name \<noteq> [] \<and> length name \<le> MAX_NAMESPACE_LEN \<and>
   list_all (\<lambda>c. is_ascii_alphanumeric c \<or> c = CHR ''-'' \<or> c = CHR ''_'') name"
  by (auto simp: namespace_new_def)

lemma default_ns_valid: "namespace_new DEFAULT_NS = Inr default_ns"
  by (simp add: namespace_new_def DEFAULT_NS_def default_ns_def MAX_NAMESPACE_LEN_def
      is_ascii_alphanumeric_def)

lemma session_status_roundtrip: "session_status_from_wire (session_status_str s) = s"
  by (cases s) (simp_all add: session_status_from_wire_def)

end
