(* ===== verification/Json_Value.thy ===== *)
theory Json_Value
  imports Object_Model
begin

text \<open>
  JSON documents as the crate \<open>serde_json\<close> represents them: \<open>Value\<close> with its object map
  ordered by key (the crate's default), and the accessors the sources call on it.
\<close>

datatype json =
    JNull
  | JBool bool
  | JNumber JsonNumber
  | JString string
  | JArray "json list"
  | JObject "(string \<times> json) list"

fun json_as_str :: "json \<Rightarrow> string option" where
  "json_as_str (JString s) = Some s"
| "json_as_str _ = None"

fun json_as_array :: "json \<Rightarrow> json list option" where
  "json_as_array (JArray xs) = Some xs"
| "json_as_array _ = None"

fun json_as_object :: "json \<Rightarrow> (string \<times> json) list option" where
  "json_as_object (JObject m) = Some m"
| "json_as_object _ = None"

fun json_get :: "json \<Rightarrow> string \<Rightarrow> json option" where
  "json_get (JObject m) k = map_of m k"
| "json_get _ k = None"

text \<open>\<open>==\<close> on values compares floats as IEEE 754 does.\<close>

fun json_number_eq :: "JsonNumber \<Rightarrow> JsonNumber \<Rightarrow> bool" where
  "json_number_eq (JFloat x) (JFloat y) = f64_eq x y"
| "json_number_eq m n = (m = n)"

fun json_eq :: "json \<Rightarrow> json \<Rightarrow> bool" where
  "json_eq (JNumber m) (JNumber n) = json_number_eq m n"
| "json_eq (JArray xs) (JArray ys) = list_all2 json_eq xs ys"
| "json_eq (JObject xs) (JObject ys) =
     list_all2 (\<lambda>p q. fst p = fst q \<and> json_eq (snd p) (snd q)) xs ys"
| "json_eq a b = (a = b)"

text \<open>The values a document can hold: numbers in range, object keys increasing.\<close>

fun json_wf :: "json \<Rightarrow> bool" where
  "json_wf (JNumber n) = json_number_wf n"
| "json_wf (JArray xs) = (\<forall>x \<in> set xs. json_wf x)"
| "json_wf (JObject m) = (bt_wf m \<and> (\<forall>p \<in> set m. json_wf (snd p)))"
| "json_wf _ = True"

fun json_depth :: "json \<Rightarrow> nat" where
  "json_depth (JArray xs) = Suc (Max (insert 0 (json_depth ` set xs)))"
| "json_depth (JObject m) = Suc (Max (insert 0 ((\<lambda>p. json_depth (snd p)) ` set m)))"
| "json_depth _ = 0"

lemma json_depth_child_array: "x \<in> set xs \<Longrightarrow> json_depth x < json_depth (JArray xs)"
  by (simp add: less_Suc_eq_le)

lemma json_depth_child_object: "p \<in> set m \<Longrightarrow> json_depth (snd p) < json_depth (JObject m)"
  by (simp add: less_Suc_eq_le)

lemma json_get_size: "json_get v k = Some w \<Longrightarrow> size w < size v"
proof (cases v)
  case (JObject m)
  assume "json_get v k = Some w"
  with JObject have "(k, w) \<in> set m" by (auto dest: map_of_SomeD)
  then have "size w < size_list (size_prod (\<lambda>_. 0) size) m"
    by (induction m) auto
  with JObject show ?thesis by simp
qed simp_all

end
