(* ===== verification/Intent_Model.thy ===== *)
theory Intent_Model
  imports Json_Value
begin

text \<open>
  Provenance metadata and its lifecycle, from \<open>crates/agentstategraph-core/src/intent.rs\<close>
  and \<open>lifecycle.rs\<close>. Fresh identifiers (crate \<open>uuid\<close>) and the clock (crate
  \<open>chrono\<close>) are arguments of the constructors that use them.
\<close>

definition TAG_PIN_STATE :: string where "TAG_PIN_STATE = ''asg:pin-state''"
definition TAG_GIT_REVISION :: string where "TAG_GIT_REVISION = ''git:''"

datatype IntentCategory =
    Explore | Refine | Fix | Rollback | Checkpoint | Merge | Migrate | Plan
  | Taint | Untaint | Quarantine | Unquarantine | Watch | Unwatch
  | PolicyPropose | PolicyRatify | PolicySupersede | PolicySign
  | CustomCategory string

datatype IntentStatus = Proposed | Authorized | InProgress | Completed | Failed | Blocked

datatype DeviationImpact = ImpactLow | ImpactMedium | ImpactHigh

datatype Outcome = Fulfilled | PartiallyFulfilled | OutcomeFailed | Deferred

record Deviation =
  dev_description :: string
  dev_reason :: string
  dev_impact :: DeviationImpact
  dev_follow_up :: "string option"

record Resolution =
  res_summary :: string
  res_deviations :: "Deviation list"
  res_commits :: "string list"
  res_branches_explored :: "string list"
  res_outcome :: Outcome
  res_confidence :: f64

datatype Urgency = Routine | Priority | Critical

datatype FormatHint = Summary | Detailed | DiffOnly

record NotificationPolicy =
  np_urgency :: Urgency
  np_audience :: "string list"
  np_format_hint :: FormatHint

record IntentLifecycle =
  lc_status :: IntentStatus
  lc_assigned_to :: "string list"
  lc_resolution :: "Resolution option"
  lc_notification :: "NotificationPolicy option"

record Intent =
  in_id :: string
  in_category :: IntentCategory
  in_description :: string
  in_tags :: "string list"
  in_parent_intent :: "string option"
  in_lifecycle :: IntentLifecycle

datatype AuthScope =
    ScopeIntent string | ScopeBranch string | ScopePath string | ScopeWildcard | ScopeCustom string

record DelegationLink =
  dl_from :: string
  dl_to :: string
  dl_scope :: AuthScope
  dl_granted_at :: timestamp
  dl_expires :: "timestamp option"

record Authority =
  au_principal :: string
  au_scope :: AuthScope
  au_granted_at :: timestamp
  au_expires :: "timestamp option"
  au_delegation_chain :: "DelegationLink list"

record ToolCall =
  tc_tool_name :: string
  tc_arguments :: json
  tc_result :: "string option"
  tc_timestamp :: timestamp

definition intent_new :: "string \<Rightarrow> IntentCategory \<Rightarrow> string \<Rightarrow> Intent" where
  "intent_new uuid category description =
     \<lparr> in_id = uuid, in_category = category, in_description = description, in_tags = [],
       in_parent_intent = None,
       in_lifecycle = \<lparr> lc_status = Proposed, lc_assigned_to = [], lc_resolution = None,
                        lc_notification = None \<rparr> \<rparr>"

definition intent_with_tags :: "Intent \<Rightarrow> string list \<Rightarrow> Intent" where
  "intent_with_tags i tags = i\<lparr>in_tags := tags\<rparr>"

definition intent_with_parent :: "Intent \<Rightarrow> string \<Rightarrow> Intent" where
  "intent_with_parent i parent = i\<lparr>in_parent_intent := Some parent\<rparr>"

definition authority_simple :: "timestamp \<Rightarrow> string \<Rightarrow> Authority" where
  "authority_simple now who =
     \<lparr> au_principal = who, au_scope = ScopeWildcard, au_granted_at = now,
       au_expires = None, au_delegation_chain = [] \<rparr>"

definition authority_for_intent :: "timestamp \<Rightarrow> string \<Rightarrow> string \<Rightarrow> Authority" where
  "authority_for_intent now who intent_id =
     \<lparr> au_principal = who, au_scope = ScopeIntent intent_id, au_granted_at = now,
       au_expires = None, au_delegation_chain = [] \<rparr>"


section \<open>The lifecycle state machine\<close>

datatype LifecycleError =
    InvalidTransition IntentStatus IntentStatus
  | ResolutionRequired IntentStatus

fun is_valid_transition :: "IntentStatus \<Rightarrow> IntentStatus \<Rightarrow> bool" where
  "is_valid_transition Proposed Authorized = True"
| "is_valid_transition Proposed InProgress = True"
| "is_valid_transition Authorized InProgress = True"
| "is_valid_transition InProgress Completed = True"
| "is_valid_transition InProgress Failed = True"
| "is_valid_transition InProgress Blocked = True"
| "is_valid_transition Blocked InProgress = True"
| "is_valid_transition Blocked Failed = True"
| "is_valid_transition _ _ = False"

definition transition ::
  "IntentLifecycle \<Rightarrow> IntentStatus \<Rightarrow> Resolution option \<Rightarrow> LifecycleError + IntentLifecycle" where
  "transition lifecycle to resolution =
     (if \<not> is_valid_transition (lc_status lifecycle) to
      then Inl (InvalidTransition (lc_status lifecycle) to)
      else if to = Completed \<or> to = Failed
      then (if resolution = None \<and> lc_resolution lifecycle = None
            then Inl (ResolutionRequired to)
            else Inr (lifecycle\<lparr>lc_resolution := (case resolution of Some r \<Rightarrow> Some r
                                                  | None \<Rightarrow> lc_resolution lifecycle),
                               lc_status := to\<rparr>))
      else Inr (lifecycle\<lparr>lc_status := to\<rparr>))"

text \<open>A run of the machine is a sequence of successful transitions.\<close>

inductive lifecycle_step :: "IntentLifecycle \<Rightarrow> IntentLifecycle \<Rightarrow> bool" where
  step: "transition l to r = Inr l' \<Longrightarrow> lifecycle_step l l'"

inductive_cases lifecycle_stepE: "lifecycle_step l l'"

inductive lifecycle_reachable :: "IntentLifecycle \<Rightarrow> bool" where
  start: "lc_status l = Proposed \<Longrightarrow> lc_resolution l = None \<Longrightarrow> lifecycle_reachable l"
| next_step: "lifecycle_reachable l \<Longrightarrow> lifecycle_step l l' \<Longrightarrow> lifecycle_reachable l'"

definition lc_terminal :: "IntentStatus \<Rightarrow> bool" where
  "lc_terminal s \<longleftrightarrow> s = Completed \<or> s = Failed"

definition lifecycle_inv :: "IntentLifecycle \<Rightarrow> bool" where
  "lifecycle_inv l \<longleftrightarrow> (lc_terminal (lc_status l) \<longleftrightarrow> lc_resolution l \<noteq> None)"

lemma transition_frame:
  "transition l to r = Inr l' \<Longrightarrow>
   lc_status l' = to \<and> lc_assigned_to l' = lc_assigned_to l \<and>
   lc_notification l' = lc_notification l \<and> is_valid_transition (lc_status l) to"
  by (auto simp: transition_def split: if_splits)

lemma terminal_no_transition: "lc_terminal s \<Longrightarrow> \<not> is_valid_transition s t"
  by (cases t) (auto simp: lc_terminal_def)

lemma lifecycle_step_inv: "lifecycle_step l l' \<Longrightarrow> lifecycle_inv l \<Longrightarrow> lifecycle_inv l'"
  by (erule lifecycle_stepE)
    (auto simp: transition_def lifecycle_inv_def lc_terminal_def terminal_no_transition
      split: if_splits option.splits elim: is_valid_transition.elims)

lemma lifecycle_reachable_inv: "lifecycle_reachable l \<Longrightarrow> lifecycle_inv l"
proof (induction rule: lifecycle_reachable.induct)
  case (start l)
  then show ?case by (simp add: lifecycle_inv_def lc_terminal_def)
next
  case (next_step l l')
  then show ?case by (blast intro: lifecycle_step_inv)
qed

end
