(* ===== verification/Commit_Model.thy ===== *)
theory Commit_Model
  imports Intent_Model
begin

text \<open>
  Commits and their builder, from \<open>crates/agentstategraph-core/src/commit.rs\<close>, with
  the caps on provenance fields. The commit id is a parameter \<open>cid\<close>, the composition of
  \<open>serde_json\<close> and BLAKE3 on the hashed fields; the clock is an argument of the builder.
\<close>

definition MAX_DESCRIPTION_LEN :: nat where "MAX_DESCRIPTION_LEN = 1024"
definition MAX_REASONING_LEN :: nat where "MAX_REASONING_LEN = 8192"
definition MAX_AGENT_ID_LEN :: nat where "MAX_AGENT_ID_LEN = 128"
definition MAX_TOOL_CALLS :: nat where "MAX_TOOL_CALLS = 256"

text \<open>A \<open>char\<close> of a Rust string is a code point: in UTF-8, a byte that is not a continuation
  byte and the continuation bytes after it.\<close>

definition is_continuation :: "char \<Rightarrow> bool" where
  "is_continuation c \<longleftrightarrow> 128 \<le> (of_char c :: nat) \<and> (of_char c :: nat) < 192"

definition char_count :: "string \<Rightarrow> nat" where
  "char_count s = length (filter (\<lambda>c. \<not> is_continuation c) s)"

fun take_chars :: "nat \<Rightarrow> string \<Rightarrow> string" where
  "take_chars n [] = []"
| "take_chars n (c # cs) =
     (if is_continuation c then c # take_chars n cs
      else case n of 0 \<Rightarrow> [] | Suc m \<Rightarrow> c # take_chars m cs)"

definition truncate_chars :: "string \<Rightarrow> nat \<Rightarrow> string" where
  "truncate_chars s n = (if char_count s \<le> n then s else take_chars n s)"

record CommitHashInput =
  hi_state_root :: ObjectId
  hi_parents :: "ObjectId list"
  hi_timestamp :: timestamp
  hi_agent_id :: string
  hi_authority :: Authority
  hi_intent :: Intent
  hi_reasoning :: "string option"
  hi_confidence :: "f64 option"
  hi_tool_calls :: "ToolCall list"

record Commit =
  cm_id :: ObjectId
  cm_state_root :: ObjectId
  cm_parents :: "ObjectId list"
  cm_timestamp :: timestamp
  cm_agent_id :: string
  cm_authority :: Authority
  cm_intent :: Intent
  cm_reasoning :: "string option"
  cm_confidence :: "f64 option"
  cm_tool_calls :: "ToolCall list"

definition hash_input :: "Commit \<Rightarrow> CommitHashInput" where
  "hash_input c =
     \<lparr> hi_state_root = cm_state_root c, hi_parents = cm_parents c, hi_timestamp = cm_timestamp c,
       hi_agent_id = cm_agent_id c, hi_authority = cm_authority c, hi_intent = cm_intent c,
       hi_reasoning = cm_reasoning c, hi_confidence = cm_confidence c,
       hi_tool_calls = cm_tool_calls c \<rparr>"

definition compute_id :: "(CommitHashInput \<Rightarrow> ObjectId) \<Rightarrow> Commit \<Rightarrow> ObjectId" where
  "compute_id cid c = cid (hash_input c)"

definition cap_agent_id :: "Commit \<Rightarrow> Commit" where
  "cap_agent_id c =
     (if char_count (cm_agent_id c) > MAX_AGENT_ID_LEN
      then c\<lparr>cm_agent_id := truncate_chars (cm_agent_id c) MAX_AGENT_ID_LEN\<rparr> else c)"

definition cap_description :: "Commit \<Rightarrow> Commit" where
  "cap_description c =
     (if char_count (in_description (cm_intent c)) > MAX_DESCRIPTION_LEN
      then c\<lparr>cm_intent := (cm_intent c)\<lparr>in_description :=
                truncate_chars (in_description (cm_intent c)) MAX_DESCRIPTION_LEN\<rparr>\<rparr>
      else c)"

definition cap_reasoning :: "Commit \<Rightarrow> Commit" where
  "cap_reasoning c =
     (case cm_reasoning c of
        Some reasoning \<Rightarrow>
          if char_count reasoning > MAX_REASONING_LEN
          then c\<lparr>cm_reasoning := Some (truncate_chars reasoning MAX_REASONING_LEN)\<rparr> else c
      | None \<Rightarrow> c)"

definition cap_tool_calls :: "Commit \<Rightarrow> Commit" where
  "cap_tool_calls c =
     (if length (cm_tool_calls c) > MAX_TOOL_CALLS
      then c\<lparr>cm_tool_calls := take MAX_TOOL_CALLS (cm_tool_calls c)\<rparr> else c)"

definition enforce_caps :: "Commit \<Rightarrow> Commit" where
  "enforce_caps c = cap_tool_calls (cap_reasoning (cap_description (cap_agent_id c)))"

subsection \<open>The builder\<close>

record CommitBuilder =
  cb_state_root :: ObjectId
  cb_parents :: "ObjectId list"
  cb_agent_id :: string
  cb_authority :: Authority
  cb_intent :: Intent
  cb_reasoning :: "string option"
  cb_confidence :: "f64 option"
  cb_tool_calls :: "ToolCall list"

definition builder_new :: "ObjectId \<Rightarrow> string \<Rightarrow> Authority \<Rightarrow> Intent \<Rightarrow> CommitBuilder" where
  "builder_new state_root agent_id authority intent =
     \<lparr> cb_state_root = state_root, cb_parents = [], cb_agent_id = agent_id,
       cb_authority = authority, cb_intent = intent, cb_reasoning = None,
       cb_confidence = None, cb_tool_calls = [] \<rparr>"

definition builder_parents :: "CommitBuilder \<Rightarrow> ObjectId list \<Rightarrow> CommitBuilder" where
  "builder_parents b ps = b\<lparr>cb_parents := ps\<rparr>"

definition builder_parent :: "CommitBuilder \<Rightarrow> ObjectId \<Rightarrow> CommitBuilder" where
  "builder_parent b p = b\<lparr>cb_parents := [p]\<rparr>"

definition builder_reasoning :: "CommitBuilder \<Rightarrow> string \<Rightarrow> CommitBuilder" where
  "builder_reasoning b r = b\<lparr>cb_reasoning := Some r\<rparr>"

text \<open>The order of \<open>f64\<close> on its bit patterns, false when an operand is NaN, and
  \<open>f64::clamp\<close>.\<close>

definition f64_key :: "f64 \<Rightarrow> int" where
  "f64_key x = (if unat x < 2 ^ 63 then int (f64_magnitude x) else - int (f64_magnitude x))"

definition f64_less :: "f64 \<Rightarrow> f64 \<Rightarrow> bool" where
  "f64_less x y \<longleftrightarrow> \<not> f64_is_nan x \<and> \<not> f64_is_nan y \<and> f64_key x < f64_key y"

definition f64_le :: "f64 \<Rightarrow> f64 \<Rightarrow> bool" where
  "f64_le x y \<longleftrightarrow> \<not> f64_is_nan x \<and> \<not> f64_is_nan y \<and> f64_key x \<le> f64_key y"

definition f64_zero :: f64 where "f64_zero = 0"
definition f64_one :: f64 where "f64_one = 0x3FF0000000000000"

definition f64_clamp :: "f64 \<Rightarrow> f64 \<Rightarrow> f64 \<Rightarrow> f64" where
  "f64_clamp x lo hi =
     (let y = (if f64_less x lo then lo else x) in if f64_less hi y then hi else y)"

definition builder_confidence :: "CommitBuilder \<Rightarrow> f64 \<Rightarrow> CommitBuilder" where
  "builder_confidence b x = b\<lparr>cb_confidence := Some (f64_clamp x f64_zero f64_one)\<rparr>"

definition builder_tool_calls :: "CommitBuilder \<Rightarrow> ToolCall list \<Rightarrow> CommitBuilder" where
  "builder_tool_calls b calls = b\<lparr>cb_tool_calls := calls\<rparr>"

definition builder_build ::
  "(CommitHashInput \<Rightarrow> ObjectId) \<Rightarrow> timestamp \<Rightarrow> CommitBuilder \<Rightarrow> Commit" where
  "builder_build cid now b =
     (let agent_id = truncate_chars (cb_agent_id b) MAX_AGENT_ID_LEN;
          intent = (cb_intent b)\<lparr>in_description :=
                     truncate_chars (in_description (cb_intent b)) MAX_DESCRIPTION_LEN\<rparr>;
          reasoning = map_option (\<lambda>r. truncate_chars r MAX_REASONING_LEN) (cb_reasoning b);
          tool_calls = (if length (cb_tool_calls b) > MAX_TOOL_CALLS
                        then take MAX_TOOL_CALLS (cb_tool_calls b) else cb_tool_calls b);
          commit = \<lparr> cm_id = from_bytes (replicate 32 0), cm_state_root = cb_state_root b,
                     cm_parents = cb_parents b, cm_timestamp = now, cm_agent_id = agent_id,
                     cm_authority = cb_authority b, cm_intent = intent,
                     cm_reasoning = reasoning, cm_confidence = cb_confidence b,
                     cm_tool_calls = tool_calls \<rparr>
      in commit\<lparr>cm_id := compute_id cid commit\<rparr>)"

definition within_caps :: "Commit \<Rightarrow> bool" where
  "within_caps c \<longleftrightarrow>
     char_count (cm_agent_id c) \<le> MAX_AGENT_ID_LEN \<and>
     char_count (in_description (cm_intent c)) \<le> MAX_DESCRIPTION_LEN \<and>
     (case cm_reasoning c of None \<Rightarrow> True | Some r \<Rightarrow> char_count r \<le> MAX_REASONING_LEN) \<and>
     length (cm_tool_calls c) \<le> MAX_TOOL_CALLS"

section \<open>Caps and integrity\<close>

lemma char_count_take_chars: "char_count (take_chars n s) \<le> n"
  by (induction n s rule: take_chars.induct) (auto simp: char_count_def split: nat.splits)

lemma char_count_truncate: "char_count (truncate_chars s n) \<le> n"
  by (simp add: truncate_chars_def char_count_take_chars)

lemma take_chars_prefix: "\<exists>rest. s = take_chars n s @ rest \<and> (rest = [] \<or> \<not> is_continuation (hd rest))"
  by (induction n s rule: take_chars.induct) (auto split: nat.splits)

lemma truncate_chars_prefix:
  "\<exists>rest. s = truncate_chars s n @ rest \<and> (rest = [] \<or> \<not> is_continuation (hd rest))"
  using take_chars_prefix [of s n] by (auto simp: truncate_chars_def)

lemma truncate_chars_id [simp]: "char_count s \<le> n \<Longrightarrow> truncate_chars s n = s"
  by (simp add: truncate_chars_def)

lemma enforce_caps_id: "within_caps c \<Longrightarrow> enforce_caps c = c"
  by (auto simp: within_caps_def enforce_caps_def cap_agent_id_def cap_description_def
      cap_reasoning_def cap_tool_calls_def not_less split: option.splits)

lemma enforce_caps_fields:
  "cm_id (enforce_caps c) = cm_id c"
  "cm_state_root (enforce_caps c) = cm_state_root c"
  "cm_parents (enforce_caps c) = cm_parents c"
  "cm_agent_id (enforce_caps c) = truncate_chars (cm_agent_id c) MAX_AGENT_ID_LEN"
  "cm_intent (enforce_caps c) = (cm_intent c)\<lparr>in_description :=
     truncate_chars (in_description (cm_intent c)) MAX_DESCRIPTION_LEN\<rparr>"
  "cm_reasoning (enforce_caps c) =
     map_option (\<lambda>r. truncate_chars r MAX_REASONING_LEN) (cm_reasoning c)"
  "cm_tool_calls (enforce_caps c) = take MAX_TOOL_CALLS (cm_tool_calls c)"
  by (auto simp: enforce_caps_def cap_agent_id_def cap_description_def cap_reasoning_def
      cap_tool_calls_def not_less split: option.splits)

lemma within_caps_enforce: "within_caps (enforce_caps c)"
  by (simp add: within_caps_def enforce_caps_fields char_count_truncate split: option.splits)

lemma builder_build_caps: "within_caps (builder_build cid now b)"
  by (auto simp: within_caps_def builder_build_def Let_def char_count_truncate
      split: option.splits)

lemma builder_build_intact:
  "compute_id cid (builder_build cid now b) = cm_id (builder_build cid now b)"
  by (simp add: builder_build_def Let_def compute_id_def hash_input_def)

lemma f64_clamp_range:
  "\<not> f64_is_nan x \<Longrightarrow> f64_le f64_zero (f64_clamp x f64_zero f64_one)
     \<and> f64_le (f64_clamp x f64_zero f64_one) f64_one"
  by (auto simp: f64_clamp_def f64_le_def f64_less_def f64_zero_def f64_one_def f64_key_def
      f64_is_nan_def f64_magnitude_def Let_def split: if_splits)

end
