(* ===== verification/Taint_Model.thy ===== *)
theory Taint_Model
  imports Json_Value Commit_Model
begin

text \<open>
  Taints, quarantines and watches, from \<open>crates/agentstategraph-taint/src\<close>: the record of
  \<open>types.rs\<close>, and the access check of \<open>check.rs\<close> that gates writes. The clock is an
  argument, as in the source.
\<close>

section \<open>Types\<close>

datatype TaintKind = TkTaint | TkQuarantine | TkWatch

datatype TaintEffect = EffWarn | EffBlock | EffReview | EffIsolate | EffAdvisory

datatype TaintSeverity = SevLow | SevMedium | SevHigh | SevCritical

type_synonym TaintMetadata = "(string, json) btree"

definition metadata_insert :: "string \<Rightarrow> json \<Rightarrow> TaintMetadata \<Rightarrow> TaintMetadata" where
  "metadata_insert key value m = bt_insert key value m"

definition metadata_get :: "TaintMetadata \<Rightarrow> string \<Rightarrow> json option" where
  "metadata_get m key = map_of m key"

record Taint =
  ta_id :: string
  ta_path :: string
  ta_name :: string
  ta_kind :: TaintKind
  ta_effect :: TaintEffect
  ta_severity :: TaintSeverity
  ta_reason :: string
  ta_agent_id :: string
  ta_commit_id :: string
  ta_created_at :: timestamp
  ta_expires_at :: "timestamp option"
  ta_resolved_at :: "timestamp option"
  ta_resolved_by :: "string option"
  ta_resolved_reason :: "string option"
  ta_resolved_proof :: "string option"
  ta_propagate :: bool
  ta_metadata :: TaintMetadata

definition taint_is_active :: "Taint \<Rightarrow> timestamp \<Rightarrow> bool" where
  "taint_is_active t now =
     (if ta_resolved_at t \<noteq> None then False
      else case ta_expires_at t of Some e \<Rightarrow> now < e | None \<Rightarrow> True)"

definition taint_authorized_agents :: "Taint \<Rightarrow> string list" where
  "taint_authorized_agents t =
     (case metadata_get (ta_metadata t) ''authorized_agents'' of
        None \<Rightarrow> []
      | Some v \<Rightarrow>
          (case json_as_array v of
             None \<Rightarrow> []
           | Some arr \<Rightarrow> List.map_filter json_as_str arr))"

record TaintCheck =
  tc_tainted :: bool
  tc_quarantined :: bool
  tc_watched :: bool
  tc_taints :: "Taint list"
  tc_quarantines :: "Taint list"
  tc_watches :: "Taint list"
  tc_can_write :: bool
  tc_required_confidence :: f64
  tc_authorized_agents :: "string list"
  tc_isolated :: bool

definition taint_check_clear :: TaintCheck where
  "taint_check_clear =
     \<lparr> tc_tainted = False, tc_quarantined = False, tc_watched = False, tc_taints = [],
       tc_quarantines = [], tc_watches = [], tc_can_write = True,
       tc_required_confidence = f64_zero, tc_authorized_agents = [], tc_isolated = False \<rparr>"

section \<open>The check\<close>

text \<open>\<open>0.9\<close> as a double.\<close>

definition REVIEW_CONFIDENCE_THRESHOLD :: f64 where
  "REVIEW_CONFIDENCE_THRESHOLD = 0x3FECCCCCCCCCCCCD"

definition ends_with_slash :: "string \<Rightarrow> bool" where
  "ends_with_slash s \<longleftrightarrow> s \<noteq> [] \<and> last s = CHR ''/''"

definition taint_covers :: "string \<Rightarrow> Taint \<Rightarrow> bool" where
  "taint_covers request_path t =
     (if ta_path t = request_path then True
      else if \<not> ta_propagate t then False
      else (let prefix = (if ends_with_slash (ta_path t) then ta_path t else ta_path t @ ''/'')
            in is_prefix prefix request_path))"

definition ancestor_candidates :: "string \<Rightarrow> Taint list \<Rightarrow> timestamp \<Rightarrow> Taint list" where
  "ancestor_candidates request_path candidates now =
     filter (\<lambda>t. if \<not> taint_is_active t now then False else taint_covers request_path t) candidates"

fun union_agents :: "string list \<Rightarrow> string list \<Rightarrow> string list" where
  "union_agents acc [] = acc"
| "union_agents acc (a # rest) = union_agents (if a \<in> set acc then acc else acc @ [a]) rest"

definition apply_taint :: "string \<Rightarrow> Taint \<Rightarrow> TaintCheck \<Rightarrow> TaintCheck" where
  "apply_taint agent_id t out =
     (case ta_kind t of
        TkTaint \<Rightarrow>
          (let out1 = out\<lparr>tc_tainted := True, tc_taints := tc_taints out @ [t]\<rparr>
           in case ta_effect t of
                EffBlock \<Rightarrow> out1\<lparr>tc_can_write := False\<rparr>
              | EffReview \<Rightarrow>
                  if f64_less (tc_required_confidence out1) REVIEW_CONFIDENCE_THRESHOLD
                  then out1\<lparr>tc_required_confidence := REVIEW_CONFIDENCE_THRESHOLD\<rparr> else out1
              | EffIsolate \<Rightarrow> out1\<lparr>tc_isolated := True\<rparr>
              | EffWarn \<Rightarrow> out1
              | EffAdvisory \<Rightarrow> out1)
      | TkQuarantine \<Rightarrow>
          (let authorized = taint_authorized_agents t;
               out1 = out\<lparr>tc_quarantined := True, tc_quarantines := tc_quarantines out @ [t],
                          tc_authorized_agents := union_agents (tc_authorized_agents out) authorized\<rparr>
           in if agent_id \<notin> set authorized then out1\<lparr>tc_can_write := False\<rparr> else out1)
      | TkWatch \<Rightarrow> out\<lparr>tc_watched := True, tc_watches := tc_watches out @ [t]\<rparr>)"

definition evaluate_access ::
  "string \<Rightarrow> string \<Rightarrow> f64 \<Rightarrow> Taint list \<Rightarrow> timestamp \<Rightarrow> TaintCheck" where
  "evaluate_access request_path agent_id confidence candidates now =
     (let out = fold (apply_taint agent_id) (ancestor_candidates request_path candidates now)
                  taint_check_clear
      in if tc_can_write out \<and> f64_less confidence (tc_required_confidence out)
         then out\<lparr>tc_can_write := False\<rparr> else out)"

section \<open>What the check decides\<close>

text \<open>The write is denied by a taint of its own, whatever the other taints are.\<close>

definition taint_denies :: "string \<Rightarrow> Taint \<Rightarrow> bool" where
  "taint_denies agent_id t \<longleftrightarrow>
     (ta_kind t = TkTaint \<and> ta_effect t = EffBlock) \<or>
     (ta_kind t = TkQuarantine \<and> agent_id \<notin> set (taint_authorized_agents t))"

definition taint_reviews :: "Taint \<Rightarrow> bool" where
  "taint_reviews t \<longleftrightarrow> ta_kind t = TkTaint \<and> ta_effect t = EffReview"

lemma union_agents_set [simp]: "set (union_agents acc as) = set acc \<union> set as"
  by (induction acc as rule: union_agents.induct) auto

lemma union_agents_distinct: "distinct acc \<Longrightarrow> distinct (union_agents acc as)"
  by (induction acc as rule: union_agents.induct) auto

lemma fold_taint_can_write:
  "tc_can_write (fold (apply_taint a) ts out) \<longleftrightarrow>
   tc_can_write out \<and> (\<forall>t \<in> set ts. \<not> taint_denies a t)"
  by (induction ts arbitrary: out)
    (auto simp: apply_taint_def taint_denies_def Let_def split: TaintKind.splits TaintEffect.splits)

lemma review_threshold_facts [simp]:
  "f64_less f64_zero REVIEW_CONFIDENCE_THRESHOLD"
  "\<not> f64_less REVIEW_CONFIDENCE_THRESHOLD REVIEW_CONFIDENCE_THRESHOLD"
  "\<not> f64_less c f64_zero \<or> f64_less c REVIEW_CONFIDENCE_THRESHOLD"
  by (auto simp: f64_less_def f64_zero_def REVIEW_CONFIDENCE_THRESHOLD_def f64_is_nan_def f64_key_def
      f64_magnitude_def split: if_splits)

lemma fold_taint_required:
  "tc_required_confidence out \<in> {f64_zero, REVIEW_CONFIDENCE_THRESHOLD} \<Longrightarrow>
   tc_required_confidence (fold (apply_taint a) ts out) =
   (if \<exists>t \<in> set ts. taint_reviews t then REVIEW_CONFIDENCE_THRESHOLD
    else tc_required_confidence out)"
proof (induction ts arbitrary: out)
  case (Cons t ts)
  have "tc_required_confidence (apply_taint a t out) =
        (if taint_reviews t then REVIEW_CONFIDENCE_THRESHOLD else tc_required_confidence out)"
    using Cons.prems
    by (auto simp: apply_taint_def taint_reviews_def Let_def split: TaintKind.splits TaintEffect.splits)
  with Cons show ?case by auto
qed simp

lemma fold_taint_lists:
  "tc_taints (fold (apply_taint a) ts out) = tc_taints out @ filter (\<lambda>t. ta_kind t = TkTaint) ts"
  "tc_quarantines (fold (apply_taint a) ts out) =
     tc_quarantines out @ filter (\<lambda>t. ta_kind t = TkQuarantine) ts"
  "tc_watches (fold (apply_taint a) ts out) = tc_watches out @ filter (\<lambda>t. ta_kind t = TkWatch) ts"
  by (induction ts arbitrary: out)
    (auto simp: apply_taint_def Let_def split: TaintKind.splits TaintEffect.splits)

lemma taint_check_clear_simps [simp]:
  "tc_can_write taint_check_clear"
  "tc_required_confidence taint_check_clear = f64_zero"
  "tc_taints taint_check_clear = []"
  "tc_quarantines taint_check_clear = []"
  "tc_watches taint_check_clear = []"
  by (simp_all add: taint_check_clear_def)

text \<open>A negative confidence is refused even where no review is asked for.\<close>

lemma evaluate_access_can_write:
  "tc_can_write (evaluate_access p a c ts now) \<longleftrightarrow>
   (\<forall>t \<in> set (ancestor_candidates p ts now). \<not> taint_denies a t) \<and>
   \<not> f64_less c (if \<exists>t \<in> set (ancestor_candidates p ts now). taint_reviews t
                 then REVIEW_CONFIDENCE_THRESHOLD else f64_zero)"
  by (auto simp: evaluate_access_def Let_def fold_taint_can_write fold_taint_required)

text \<open>Filtering the candidates twice is filtering them once, so a backend may hand over the
  taints it has already selected.\<close>

lemma ancestor_candidates_idem:
  "ancestor_candidates p (ancestor_candidates p ts now) now = ancestor_candidates p ts now"
  by (simp add: ancestor_candidates_def)

lemma evaluate_access_prefiltered:
  "evaluate_access p a c (ancestor_candidates p ts now) now = evaluate_access p a c ts now"
  by (simp add: evaluate_access_def ancestor_candidates_idem)

text \<open>More taints never let a write through.\<close>

lemma evaluate_access_antimono:
  assumes "set ts \<subseteq> set us" "tc_can_write (evaluate_access p a c us now)"
  shows "tc_can_write (evaluate_access p a c ts now)"
proof -
  have sub: "set (ancestor_candidates p ts now) \<subseteq> set (ancestor_candidates p us now)"
    using assms(1) by (auto simp: ancestor_candidates_def)
  show ?thesis
    using assms(2) sub review_threshold_facts(3) [of c]
    unfolding evaluate_access_can_write by (auto split: if_splits)
qed

end
