(* ===== verification/Symbolic_Hash.thy ===== *)
theory Symbolic_Hash
  imports Object_Model
begin

text \<open>
  A concrete content address: a serialization in which no encoding is a prefix of another, under
  the identity as the hash. It instantiates the parameters \<open>ser\<close> and \<open>blake3\<close> of
  \<^const>\<open>obj_id\<close>, shows that \<^const>\<open>collision_free\<close> can hold, and lets the
  properties that assume it be applied to concrete objects.
\<close>

definition enc_nat :: "nat \<Rightarrow> u8 list" where
  "enc_nat n = replicate n 1 @ [0]"

definition enc_list :: "('a \<Rightarrow> u8 list) \<Rightarrow> 'a list \<Rightarrow> u8 list" where
  "enc_list f xs = enc_nat (length xs) @ concat (map f xs)"

definition enc_byte :: "u8 \<Rightarrow> u8 list" where
  "enc_byte b = [b]"

definition enc_word :: "64 word \<Rightarrow> u8 list" where
  "enc_word w = map (\<lambda>n. if bit w n then 1 else 0) [0..<64]"

definition enc_char :: "char \<Rightarrow> u8 list" where
  "enc_char c = [word_of_nat (of_char c)]"

definition enc_string :: "string \<Rightarrow> u8 list" where
  "enc_string s = enc_list enc_char s"

definition enc_oid :: "ObjectId \<Rightarrow> u8 list" where
  "enc_oid i = enc_list enc_byte (oid_bytes i)"

fun enc_atom :: "Atom \<Rightarrow> u8 list" where
  "enc_atom ANull = [0]"
| "enc_atom (ABool b) = [1, if b then 1 else 0]"
| "enc_atom (AInt i) = 2 # enc_word i"
| "enc_atom (AFloat x) = 3 # enc_word x"
| "enc_atom (AString s) = 4 # enc_string s"
| "enc_atom (ABytes bs) = 5 # enc_list enc_byte bs"
| "enc_atom (AUInt u) = 6 # enc_word u"

definition enc_entry :: "string \<times> ObjectId \<Rightarrow> u8 list" where
  "enc_entry p = enc_string (fst p) @ enc_oid (snd p)"

fun enc_object :: "Object \<Rightarrow> u8 list" where
  "enc_object (OAtom a) = 0 # enc_atom a"
| "enc_object (ONode (NMap m)) = 1 # enc_list enc_entry m"
| "enc_object (ONode (NList xs)) = 2 # enc_list enc_oid xs"
| "enc_object (ONode (NSet xs)) = 3 # enc_list enc_oid xs"

definition sym_oid :: "Object \<Rightarrow> ObjectId" where
  "sym_oid = obj_id enc_object (\<lambda>bs. bs)"

definition prefix_code :: "('a \<Rightarrow> u8 list) \<Rightarrow> bool" where
  "prefix_code f \<longleftrightarrow> (\<forall>x y r s. f x @ r = f y @ s \<longrightarrow> x = y \<and> r = s)"

lemma prefix_codeD: "prefix_code f \<Longrightarrow> f x @ r = f y @ s \<Longrightarrow> x = y \<and> r = s"
  unfolding prefix_code_def by blast

lemma enc_nat_code: "prefix_code enc_nat"
proof -
  have "m = n \<and> r = s" if "replicate m (1::u8) @ 0 # r = replicate n 1 @ 0 # s" for m n r s
    using that
  proof (induction m arbitrary: n)
    case 0
    then show ?case by (cases n) simp_all
  next
    case (Suc m)
    then show ?case by (cases n) simp_all
  qed
  then show ?thesis
    unfolding prefix_code_def enc_nat_def append.assoc append_Cons append_Nil by blast
qed

lemma concat_code:
  "prefix_code f \<Longrightarrow> length xs = length ys \<Longrightarrow>
   concat (map f xs) @ r = concat (map f ys) @ s \<Longrightarrow> xs = ys \<and> r = s"
proof (induction xs ys rule: list_induct2')
  case (4 x xs y ys)
  then show ?case using prefix_codeD [of f x "concat (map f xs) @ r" y "concat (map f ys) @ s"] by simp
qed auto

lemma enc_list_code: "prefix_code f \<Longrightarrow> prefix_code (enc_list f)"
  unfolding prefix_code_def [of "enc_list f"] enc_list_def append.assoc
  using concat_code prefix_codeD [OF enc_nat_code] by metis

lemma enc_byte_code: "prefix_code enc_byte"
  by (simp add: prefix_code_def enc_byte_def)

lemma enc_char_code: "prefix_code enc_char"
proof -
  have "unat (word_of_nat (of_char c) :: u8) = of_char c" for c
    by (simp add: unsigned_of_nat take_bit_eq_mod)
  then have "(word_of_nat (of_char c) :: u8) = word_of_nat (of_char d) \<Longrightarrow> c = d" for c d
    by (metis of_char_eq_iff)
  then show ?thesis by (simp add: prefix_code_def enc_char_def)
qed

lemma enc_word_code: "prefix_code enc_word"
proof -
  have "v = w" if "enc_word v = enc_word w" for v w
  proof (rule bit_word_eqI)
    fix n assume "n < LENGTH(64)"
    with that have "enc_word v ! n = enc_word w ! n" "n < 64" by simp_all
    then show "bit v n = bit w n" by (simp add: enc_word_def split: if_splits)
  qed
  moreover have "length (enc_word v) = length (enc_word w)" for v w
    by (simp add: enc_word_def)
  ultimately show ?thesis unfolding prefix_code_def by (metis append_eq_append_conv)
qed

lemma enc_string_code: "prefix_code enc_string"
  using enc_list_code [OF enc_char_code] by (simp add: prefix_code_def enc_string_def)

lemma enc_oid_code: "prefix_code enc_oid"
  unfolding prefix_code_def enc_oid_def
  using prefix_codeD [OF enc_list_code [OF enc_byte_code]] by (metis ObjectId.expand)

lemma enc_entry_code: "prefix_code enc_entry"
  unfolding prefix_code_def enc_entry_def append.assoc
  using prefix_codeD [OF enc_string_code] prefix_codeD [OF enc_oid_code] by (metis prod.expand)

lemma prefix_code_inject: "prefix_code f \<Longrightarrow> f x = f y \<longleftrightarrow> x = y"
  using prefix_codeD [of f x "[]" y "[]"] by auto

lemmas enc_injects = prefix_code_inject [OF enc_word_code] prefix_code_inject [OF enc_string_code]
  prefix_code_inject [OF enc_list_code [OF enc_byte_code]]
  prefix_code_inject [OF enc_list_code [OF enc_oid_code]]
  prefix_code_inject [OF enc_list_code [OF enc_entry_code]]

lemma enc_atom_inject: "enc_atom a = enc_atom b \<longleftrightarrow> a = b"
  by (cases a; cases b) (simp_all add: enc_injects)

lemma enc_object_inject: "enc_object x = enc_object y \<longleftrightarrow> x = y"
  by (cases x rule: enc_object.cases; cases y rule: enc_object.cases)
    (simp_all add: enc_injects enc_atom_inject)

lemma sym_oid_collision_free [simp]: "collision_free sym_oid"
  by (simp add: collision_free_def inj_on_def sym_oid_def obj_id_def hash_id_def enc_object_inject)

lemma sym_oid_inject [simp]: "sym_oid x = sym_oid y \<longleftrightarrow> x = y"
  by (simp add: sym_oid_def obj_id_def hash_id_def enc_object_inject)

end
