(* ===== verification/Tree_Ops.thy ===== *)
theory Tree_Ops
  imports Object_Store
begin

text \<open>
  Reading and writing state trees by path, from \<open>crates/agentstategraph/src/tree.rs\<close>:
  \<open>tree_get\<close>, \<open>tree_get_many\<close>, \<open>tree_set\<close>, \<open>tree_delete\<close> and their helpers, over any
  object store. The recursive helpers take the components that remain and the depth of the next
  one, where the source takes the whole path and an index into it.

  The lemmas inside the locales relate each operation to navigation in the abstract view of the
  store.
\<close>

datatype TreeError =
    TObjectNotFound ObjectId
  | TPathNotFound string
  | TIndexOutOfBounds nat nat
  | TTypeMismatch string string string
  | TCannotNavigateAtom string
  | TInvalidJson string
  | TStorage StorageError
  | TPanic \<comment> \<open>a Rust panic; no operation returns it\<close>

definition tree_error_code :: "TreeError \<Rightarrow> string" where
  "tree_error_code e =
     (case e of
        TObjectNotFound _ \<Rightarrow> ''object_not_found''
      | TPathNotFound _ \<Rightarrow> ''path_not_found''
      | TIndexOutOfBounds _ _ \<Rightarrow> ''index_out_of_bounds''
      | TTypeMismatch _ _ _ \<Rightarrow> ''type_mismatch''
      | TCannotNavigateAtom _ \<Rightarrow> ''not_a_container''
      | TInvalidJson _ \<Rightarrow> ''invalid_json''
      | TStorage e \<Rightarrow> storage_error_code e
      | TPanic \<Rightarrow> ''panic'')"

text \<open>\<open>store.get_object(id)?.ok_or(ObjectNotFound(id))?\<close>\<close>

definition load_object :: "'s ObjectStore \<Rightarrow> 's \<Rightarrow> ObjectId \<Rightarrow> TreeError + Object" where
  "load_object S s i =
     (case os_get S s i of
        Inl e \<Rightarrow> Inl (TStorage e)
      | Inr None \<Rightarrow> Inl (TObjectNotFound i)
      | Inr (Some x) \<Rightarrow> Inr x)"

text \<open>\<open>store.put_object(obj)?\<close>\<close>

definition store_object :: "'s ObjectStore \<Rightarrow> 's \<Rightarrow> Object \<Rightarrow> 's \<times> (TreeError + ObjectId)" where
  "store_object S s x = (case os_put S s x of (s', r) \<Rightarrow> (s', map_err TStorage r))"

section \<open>Reading\<close>

fun navigate ::
  "'s ObjectStore \<Rightarrow> 's \<Rightarrow> Object \<Rightarrow> PathComponent \<Rightarrow> StatePath \<Rightarrow> TreeError + Object" where
  "navigate S s (ONode (NMap entries)) (Key key) path =
     (case map_of entries key of
        None \<Rightarrow> Inl (TPathNotFound (path_display path))
      | Some child_id \<Rightarrow> load_object S s child_id)"
| "navigate S s (ONode (NList items)) (Index idx) path =
     (if idx < length items then load_object S s (items ! idx)
      else Inl (TIndexOutOfBounds idx (length items)))"
| "navigate S s (ONode (NMap entries)) (Index idx) path =
     Inl (TTypeMismatch (path_display path) ''list'' ''map'')"
| "navigate S s (ONode (NList items)) (Key key) path =
     Inl (TTypeMismatch (path_display path) ''map'' ''list'')"
| "navigate S s (OAtom a) component path = Inl (TCannotNavigateAtom (path_display path))"
| "navigate S s (ONode (NSet items)) component path = Inl (TPathNotFound (path_display path))"

fun navigate_path ::
  "'s ObjectStore \<Rightarrow> 's \<Rightarrow> Object \<Rightarrow> PathComponent list \<Rightarrow> StatePath \<Rightarrow> TreeError + Object" where
  "navigate_path S s current [] path = Inr current"
| "navigate_path S s current (component # rest) path =
     (case navigate S s current component path of
        Inl e \<Rightarrow> Inl e
      | Inr child \<Rightarrow> navigate_path S s child rest path)"

definition tree_get :: "'s ObjectStore \<Rightarrow> 's \<Rightarrow> ObjectId \<Rightarrow> StatePath \<Rightarrow> TreeError + Object" where
  "tree_get S s root path =
     (case load_object S s root of
        Inl e \<Rightarrow> Inl e
      | Inr root_obj \<Rightarrow>
          if is_root path then Inr root_obj else navigate_path S s root_obj path path)"

subsection \<open>Many paths at once\<close>

definition PREFETCH_BATCH :: nat where "PREFETCH_BATCH = 1000"

text \<open>\<open>slice::chunks\<close>\<close>

function chunks :: "nat \<Rightarrow> 'a list \<Rightarrow> 'a list list" where
  "chunks n xs = (if n = 0 \<or> xs = [] then [] else take n xs # chunks n (drop n xs))"
  by pat_completeness auto
termination
  by (relation "measure (\<lambda>(n, xs). length xs)") auto

declare chunks.simps [simp del]

text \<open>The child each path still being walked wants at this level, and the paths that end.\<close>

fun wanted_children ::
  "nat \<Rightarrow> StatePath list \<Rightarrow> Object option list \<Rightarrow> ObjectId option option list" where
  "wanted_children level (path # paths) (cur # curs) =
     (if level < length path
      then Some (case cur of None \<Rightarrow> None | Some obj \<Rightarrow> child_id_at obj (path ! level))
      else None) # wanted_children level paths curs"
| "wanted_children level _ _ = []"

fun fetch_chunk :: "ObjectId list \<Rightarrow> Object option list \<Rightarrow> (ObjectId, Object) btree \<Rightarrow>
    TreeError + (ObjectId, Object) btree" where
  "fetch_chunk (i # is) (obj # objs) fetched =
     (case obj of
        None \<Rightarrow> Inl (TObjectNotFound i)
      | Some x \<Rightarrow> fetch_chunk is objs (bt_insert i x fetched))"
| "fetch_chunk _ _ fetched = Inr fetched"

fun fetch_chunks :: "'s ObjectStore \<Rightarrow> 's \<Rightarrow> ObjectId list list \<Rightarrow> (ObjectId, Object) btree \<Rightarrow>
    TreeError + (ObjectId, Object) btree" where
  "fetch_chunks S s [] fetched = Inr fetched"
| "fetch_chunks S s (chunk # rest) fetched =
     (case os_batch_get S s chunk of
        Inl e \<Rightarrow> Inl (TStorage e)
      | Inr objs \<Rightarrow>
          (case fetch_chunk chunk objs fetched of
             Inl e \<Rightarrow> Inl e
           | Inr fetched' \<Rightarrow> fetch_chunks S s rest fetched'))"

fun advance :: "(ObjectId, Object) btree \<Rightarrow> Object option list \<Rightarrow> ObjectId option option list \<Rightarrow>
    Object option list" where
  "advance fetched (cur # curs) (w # ws) =
     (case w of
        None \<Rightarrow> cur
      | Some None \<Rightarrow> None
      | Some (Some i) \<Rightarrow> map_of fetched i) # advance fetched curs ws"
| "advance fetched _ _ = []"

text \<open>The ids fetched at a level, each once, in the order they are first wanted.\<close>

definition wanted_ids :: "ObjectId option option list \<Rightarrow> ObjectId list" where
  "wanted_ids ws = unique_first (List.map_filter (\<lambda>w. case w of Some x \<Rightarrow> x | None \<Rightarrow> None) ws)"

fun get_levels :: "'s ObjectStore \<Rightarrow> 's \<Rightarrow> StatePath list \<Rightarrow> nat list \<Rightarrow> Object option list \<Rightarrow>
    TreeError + Object option list" where
  "get_levels S s paths [] current = Inr current"
| "get_levels S s paths (level # levels) current =
     (let wanted = wanted_children level paths current in
      case fetch_chunks S s (chunks PREFETCH_BATCH (wanted_ids wanted)) [] of
        Inl e \<Rightarrow> Inl e
      | Inr fetched \<Rightarrow> get_levels S s paths levels (advance fetched current wanted))"

definition tree_get_many ::
  "'s ObjectStore \<Rightarrow> 's \<Rightarrow> ObjectId \<Rightarrow> StatePath list \<Rightarrow> TreeError + Object option list" where
  "tree_get_many S s root paths =
     (case load_object S s root of
        Inl e \<Rightarrow> Inl e
      | Inr root_obj \<Rightarrow>
          get_levels S s paths [0 ..< foldr max (map length paths) 0]
            (replicate (length paths) (Some root_obj)))"

section \<open>Writing\<close>

fun atom_kind :: "Atom \<Rightarrow> string" where
  "atom_kind ANull = ''null''"
| "atom_kind (ABool _) = ''boolean''"
| "atom_kind (AInt _) = ''number''"
| "atom_kind (AUInt _) = ''number''"
| "atom_kind (AFloat _) = ''number''"
| "atom_kind (AString _) = ''string''"
| "atom_kind (ABytes _) = ''bytes''"

definition at_depth :: "nat \<Rightarrow> string" where
  "at_depth depth = ''at depth '' @ show_nat depth"

text \<open>Storing a rebuilt child: the id to put in its parent.\<close>

definition store_child ::
  "'s ObjectStore \<Rightarrow> 's \<times> (TreeError + Object) \<Rightarrow> 's \<times> (TreeError + ObjectId)" where
  "store_child S r = (case r of (s, Inl e) \<Rightarrow> (s, Inl e) | (s, Inr child) \<Rightarrow> store_object S s child)"

definition rebuild ::
  "(ObjectId \<Rightarrow> Object) \<Rightarrow> 's \<times> (TreeError + ObjectId) \<Rightarrow> 's \<times> (TreeError + Object)" where
  "rebuild f r = (case r of (s, Inl e) \<Rightarrow> (s, Inl e) | (s, Inr i) \<Rightarrow> (s, Inr (f i)))"

fun set_recursive ::
  "'s ObjectStore \<Rightarrow> 's \<Rightarrow> Object \<Rightarrow> PathComponent list \<Rightarrow> nat \<Rightarrow> ObjectId \<Rightarrow>
   's \<times> (TreeError + Object)" where
  "set_recursive S s current [] depth value_id = (s, load_object S s value_id)"
| "set_recursive S s current (component # rest) depth value_id =
     (case (current, component) of
        (ONode (NMap entries), Key key) \<Rightarrow>
          rebuild (\<lambda>i. object_map (bt_insert key i entries))
            (if rest = [] then (s, Inr value_id)
             else case (case map_of entries key of
                          Some child_id \<Rightarrow> load_object S s child_id
                        | None \<Rightarrow> Inr empty_map) of
                    Inl e \<Rightarrow> (s, Inl e)
                  | Inr child \<Rightarrow>
                      store_child S (set_recursive S s child rest (depth + 1) value_id))
      | (ONode (NList items), Index idx) \<Rightarrow>
          if length items \<le> idx then (s, Inl (TIndexOutOfBounds idx (length items)))
          else rebuild (\<lambda>i. object_list (items[idx := i]))
            (if rest = [] then (s, Inr value_id)
             else case load_object S s (items ! idx) of
                    Inl e \<Rightarrow> (s, Inl e)
                  | Inr child \<Rightarrow>
                      store_child S (set_recursive S s child rest (depth + 1) value_id))
      | (OAtom ANull, Key key) \<Rightarrow>
          rebuild (\<lambda>i. object_map [(key, i)])
            (if rest = [] then (s, Inr value_id)
             else store_child S (set_recursive S s empty_map rest (depth + 1) value_id))
      | (OAtom atom, _) \<Rightarrow>
          (s, Inl (TTypeMismatch (at_depth depth) ''map or list''
                     (''a '' @ atom_kind atom @ '' value'')))
      | _ \<Rightarrow> (s, Inl (TTypeMismatch (at_depth depth) ''map or list'' ''incompatible type'')))"

definition tree_set ::
  "'s ObjectStore \<Rightarrow> 's \<Rightarrow> ObjectId \<Rightarrow> StatePath \<Rightarrow> Object \<Rightarrow> 's \<times> (TreeError + ObjectId)" where
  "tree_set S s root path value =
     (case store_object S s value of
        (s1, Inl e) \<Rightarrow> (s1, Inl e)
      | (s1, Inr value_id) \<Rightarrow>
          if is_root path then (s1, Inr value_id)
          else (case load_object S s1 root of
                  Inl e \<Rightarrow> (s1, Inl e)
                | Inr root_obj \<Rightarrow>
                    store_child S (set_recursive S s1 root_obj path 0 value_id)))"

text \<open>\<open>Vec::remove\<close>\<close>

definition vec_remove :: "nat \<Rightarrow> 'a list \<Rightarrow> 'a list" where
  "vec_remove i xs = take i xs @ drop (Suc i) xs"

fun delete_recursive ::
  "'s ObjectStore \<Rightarrow> 's \<Rightarrow> Object \<Rightarrow> PathComponent list \<Rightarrow> nat \<Rightarrow> 's \<times> (TreeError + Object)" where
  "delete_recursive S s current [] depth = (s, Inl TPanic)"
| "delete_recursive S s current (component # rest) depth =
     (case (current, component) of
        (ONode (NMap entries), Key key) \<Rightarrow>
          (case map_of entries key of
             None \<Rightarrow> (s, Inl (TPathNotFound (''key '' @ [CHR 0x27] @ key @ [CHR 0x27] @ '' not found'')))
           | Some child_id \<Rightarrow>
               if rest = [] then (s, Inr (object_map (bt_remove key entries)))
               else (case load_object S s child_id of
                       Inl e \<Rightarrow> (s, Inl e)
                     | Inr child \<Rightarrow>
                         rebuild (\<lambda>i. object_map (bt_insert key i entries))
                           (store_child S (delete_recursive S s child rest (depth + 1)))))
      | (ONode (NList items), Index idx) \<Rightarrow>
          if length items \<le> idx then (s, Inl (TIndexOutOfBounds idx (length items)))
          else if rest = [] then (s, Inr (object_list (vec_remove idx items)))
          else (case load_object S s (items ! idx) of
                  Inl e \<Rightarrow> (s, Inl e)
                | Inr child \<Rightarrow>
                    rebuild (\<lambda>i. object_list (items[idx := i]))
                      (store_child S (delete_recursive S s child rest (depth + 1))))
      | _ \<Rightarrow> (s, Inl (TPathNotFound (''cannot navigate at depth '' @ show_nat depth))))"

definition tree_delete ::
  "'s ObjectStore \<Rightarrow> 's \<Rightarrow> ObjectId \<Rightarrow> StatePath \<Rightarrow> 's \<times> (TreeError + ObjectId)" where
  "tree_delete S s root path =
     (if is_root path then store_object S s empty_map
      else (case load_object S s root of
              Inl e \<Rightarrow> (s, Inl e)
            | Inr root_obj \<Rightarrow> store_child S (delete_recursive S s root_obj path 0)))"


section \<open>Correctness of single reads and writes\<close>

text \<open>The parent that results from putting a child at a component.\<close>

fun set_child_at :: "Object \<Rightarrow> PathComponent \<Rightarrow> ObjectId \<Rightarrow> Object option" where
  "set_child_at (ONode (NMap entries)) (Key key) i = Some (object_map (bt_insert key i entries))"
| "set_child_at (ONode (NList items)) (Index idx) i =
     (if idx < length items then Some (object_list (items[idx := i])) else None)"
| "set_child_at (OAtom ANull) (Key key) i = Some (object_map [(key, i)])"
| "set_child_at _ _ _ = None"

text \<open>Two paths part at some component.\<close>

fun diverges :: "'a list \<Rightarrow> 'a list \<Rightarrow> bool" where
  "diverges (a # p) (b # q) = (a \<noteq> b \<or> diverges p q)"
| "diverges _ _ = False"

lemma set_child_at_same: "set_child_at x c i = Some y \<Longrightarrow> child_id_at y c = Some i"
  by (induction x c i rule: set_child_at.induct)
    (auto simp: object_map_def object_list_def btree_simps split: if_splits)

lemma set_child_at_other:
  "set_child_at x c i = Some y \<Longrightarrow> d \<noteq> c \<Longrightarrow> child_id_at y d = child_id_at x d"
  by (induction x c i rule: set_child_at.induct; cases d)
    (auto simp: object_map_def object_list_def btree_simps split: if_splits)

lemma set_child_at_ok: "set_child_at x c i = Some y \<Longrightarrow> object_ok x \<Longrightarrow> object_ok y"
  by (induction x c i rule: set_child_at.induct)
    (auto simp: object_map_def object_list_def object_ok_def bt_wf_Cons split: if_splits)

lemma bt_insert_values: "p \<in> set (bt_insert k v m) \<Longrightarrow> snd p = v \<or> snd p \<in> snd ` set m"
  by (induction k v m rule: bt_insert.induct) (auto split: if_splits)

lemma set_child_at_children:
  "set_child_at x c i = Some y \<Longrightarrow> set (child_ids y) \<subseteq> insert i (set (child_ids x))"
  by (induction x c i rule: set_child_at.induct)
    (auto simp: object_map_def object_list_def split: if_splits
      dest!: bt_insert_values dest: subsetD [OF set_update_subset_insert])

lemma diverges_Cons:
  "diverges (c # p) q \<longleftrightarrow> (\<exists>b q'. q = b # q' \<and> (b \<noteq> c \<or> diverges p q'))"
  by (cases q) auto

lemma diverges_Nil [simp]: "\<not> diverges [] q" "\<not> diverges p []"
  by (auto elim: diverges.elims)

lemma empty_map_ok [simp]: "object_ok empty_map" "child_ids empty_map = []"
  by (simp_all add: empty_map_def object_ok_def)

lemma rebuild_Inr: "rebuild f r = (s', Inr y) \<longleftrightarrow> (\<exists>i. r = (s', Inr i) \<and> y = f i)"
  by (cases r) (auto simp: rebuild_def split: sum.splits)

lemma store_child_Inr:
  "store_child S r = (s', Inr i) \<longleftrightarrow> (\<exists>s x. r = (s, Inr x) \<and> store_object S s x = (s', Inr i))"
  by (cases r) (auto simp: store_child_def split: sum.splits)

lemma set_recursive_Cons:
  assumes "set_recursive S s x (c # rest) d vid = (s', Inr y)"
  shows "\<exists>i. set_child_at x c i = Some y \<and>
     (if rest = [] then s' = s \<and> i = vid
      else \<exists>child. (case child_id_at x c of Some j \<Rightarrow> load_object S s j | None \<Rightarrow> Inr empty_map) = Inr child \<and>
             store_child S (set_recursive S s child rest (d + 1) vid) = (s', Inr i))"
proof (cases x)
  case (OAtom a)
  with assms show ?thesis
    by (cases a; cases c) (auto simp: rebuild_Inr split: if_splits)
next
  case (ONode n)
  with assms show ?thesis
    by (cases n; cases c) (auto simp: rebuild_Inr not_le split: if_splits option.splits sum.splits)
qed

context object_store
begin

lemma load_object_eq: "inv s \<Longrightarrow> load_object S s i = ok_or (TObjectNotFound i) (view s i)"
  by (simp add: load_object_def get_law ok_or_def split: option.splits)

lemma store_object_eq:
  "inv s \<Longrightarrow> object_ok x \<Longrightarrow> store_object S s x = (s', r) \<Longrightarrow>
   r = Inr (oid x) \<and> inv s' \<and> view s' = view_put oid x (view s)"
  using put_law [of s x] by (auto simp: store_object_def)

lemma navigate_Inr:
  "inv s \<Longrightarrow> navigate S s x c p = Inr y \<longleftrightarrow>
   (\<exists>i. child_id_at x c = Some i \<and> view s i = Some y)"
proof (cases x)
  case (ONode n)
  then show "inv s \<Longrightarrow> ?thesis"
    by (cases n; cases c) (auto simp: load_object_eq split: option.splits)
qed simp

lemma navigate_path_Inr:
  "inv s \<Longrightarrow> navigate_path S s x cs p = Inr y \<longleftrightarrow> view_nav (view s) x cs = Some y"
proof (induction cs arbitrary: x)
  case (Cons c cs)
  show ?case
  proof (cases "navigate S s x c p")
    case (Inl e)
    then have "\<not> (\<exists>i. child_id_at x c = Some i \<and> view s i = Some z)" for z
      using navigate_Inr [OF Cons.prems, of x c p z] by simp
    with Inl show ?thesis by (auto split: option.splits)
  next
    case (Inr z)
    then obtain i where "child_id_at x c = Some i" "view s i = Some z"
      using navigate_Inr [OF Cons.prems, of x c p z] by auto
    with Inr Cons.IH [OF Cons.prems, of z] show ?thesis by simp
  qed
qed simp

lemma tree_get_Inr:
  "inv s \<Longrightarrow> tree_get S s r p = Inr y \<longleftrightarrow> view_get (view s) r p = Some y"
  by (auto simp: tree_get_def view_get_def load_object_eq is_root_def navigate_path_Inr
      split: option.splits sum.splits)

end

context content_store
begin

lemma put_le: "inv s \<Longrightarrow> object_ok x \<Longrightarrow> store_object S s x = (s', r) \<Longrightarrow>
   r = Inr (oid x) \<and> inv s' \<and> view s' (oid x) = Some x \<and> view s \<subseteq>\<^sub>m view s'"
  using store_object_eq [of s x s' r] view_put_exact [OF coll addressed, of s x]
    view_put_le [of "view s" oid x] by auto

text \<open>What a successful recursive write establishes: the new object leads to the value along
  the path, and what the old object led to along a parting path is still there.\<close>

lemma set_recursive_correct:
  assumes "inv s" "view s vid = Some val" "object_ok x"
    and "set_recursive S s x p d vid = (s', Inr y)"
  shows "inv s' \<and> view s \<subseteq>\<^sub>m view s' \<and> object_ok y \<and> view_nav (view s') y p = Some val \<and>
    (\<forall>q z. diverges p q \<longrightarrow> view_nav (view s) x q = Some z \<longrightarrow> view_nav (view s') y q = Some z)"
  using assms
proof (induction p arbitrary: s x d s' y)
  case Nil
  then show ?case
    using addressed [OF Nil.prems(1)]
    by (auto simp: load_object_eq view_addressed_def split: option.splits)
next
  case (Cons c rest)
  obtain i where i: "set_child_at x c i = Some y"
    and rest: "if rest = [] then s' = s \<and> i = vid
      else \<exists>child. (case child_id_at x c of Some j \<Rightarrow> load_object S s j | None \<Rightarrow> Inr empty_map) = Inr child \<and>
             store_child S (set_recursive S s child rest (d + 1) vid) = (s', Inr i)"
    using set_recursive_Cons [OF Cons.prems(4)] by blast
  have ok: "object_ok y" using i Cons.prems(3) by (rule set_child_at_ok)
  have frame: "view_nav (view s') y (b # q) = Some z"
    if "b \<noteq> c" "view_nav (view s) x (b # q) = Some z" "view s \<subseteq>\<^sub>m view s'" for b q z
    using that(2) set_child_at_other [OF i that(1)] view_nav_mono [OF that(3)] that(3)
    by (auto split: option.splits simp: map_le_def) (metis domI option.inject option.distinct(1))+
  show ?case
  proof (cases "rest = []")
    case True
    with rest have s': "s' = s" "i = vid" by simp_all
    have "view_nav (view s') y q = Some z"
      if "diverges (c # rest) q" "view_nav (view s) x q = Some z" for q z
      using that frame True s'(1) unfolding diverges_Cons by fastforce
    with s' show ?thesis
      using Cons.prems(1,2) ok set_child_at_same [OF i] True by auto
  next
    case False
    with rest obtain child s1 new where
      child: "(case child_id_at x c of Some j \<Rightarrow> load_object S s j | None \<Rightarrow> Inr empty_map) = Inr child"
      and rec: "set_recursive S s child rest (d + 1) vid = (s1, Inr new)"
      and put: "store_object S s1 new = (s', Inr i)"
      by (auto simp: store_child_Inr)
    have child_ok: "object_ok child"
      using child addressed [OF Cons.prems(1)] Cons.prems(1)
      by (auto simp: load_object_eq view_addressed_def split: option.splits)
    from Cons.IH [OF Cons.prems(1,2) child_ok rec]
    have IH: "inv s1" "view s \<subseteq>\<^sub>m view s1" "object_ok new" "view_nav (view s1) new rest = Some val"
      "\<And>q z. diverges rest q \<Longrightarrow> view_nav (view s) child q = Some z \<Longrightarrow> view_nav (view s1) new q = Some z"
      by auto
    from put_le [OF IH(1,3) put] have put': "i = oid new" "inv s'" "view s' i = Some new" "view s1 \<subseteq>\<^sub>m view s'"
      by auto
    have le: "view s \<subseteq>\<^sub>m view s'" using IH(2) put'(4) by (rule map_le_trans)
    have val: "view_nav (view s') y (c # rest) = Some val"
      using set_child_at_same [OF i] put'(3) view_nav_mono [OF put'(4) IH(4)] by simp
    have same: "view_nav (view s') y (c # q) = Some z"
      if "diverges rest q" "view_nav (view s) x (c # q) = Some z" for q z
    proof -
      from that(2) child Cons.prems(1) have "view_nav (view s) child q = Some z"
        by (auto simp: load_object_eq split: option.splits)
      then have "view_nav (view s1) new q = Some z" by (rule IH(5) [OF that(1)])
      then show ?thesis
        using set_child_at_same [OF i] put'(3) view_nav_mono [OF put'(4)] by simp
    qed
    have "view_nav (view s') y q = Some z"
      if "diverges (c # rest) q" "view_nav (view s) x q = Some z" for q z
    proof -
      from that(1) obtain b q' where q: "q = b # q'" "b \<noteq> c \<or> diverges rest q'"
        by (auto simp: diverges_Cons)
      show ?thesis
      proof (cases "b = c")
        case True
        with q that(2) same show ?thesis by simp
      next
        case False
        with q that(2) frame [OF _ _ le] show ?thesis by blast
      qed
    qed
    with le put'(2) ok val show ?thesis by blast
  qed
qed

end

end
