(* ===== verification/Tree_Laws.thy ===== *)
theory Tree_Laws
  imports Tree_Ops
begin

text \<open>
  Laws of the tree operations, proved inside the store interfaces: writing then reading,
  structural sharing, deletion, the shape of a store after writes (no dangling references, no
  cycles), the refusal to write below a value, and the equivalence of the batched
  \<open>tree_get_many\<close> with single reads.
\<close>

section \<open>Writes keep the graph\<close>

context object_store
begin

lemma store_child_dag:
  assumes "inv s" "object_ok x" "view_dag (view s)" "set (child_ids x) \<subseteq> dom (view s)"
    and "store_object S s x = (s', Inr i)"
  shows "inv s' \<and> view_dag (view s') \<and> dom (view s) \<subseteq> dom (view s') \<and> i \<in> dom (view s')"
  using store_object_eq [OF assms(1,2,5)] view_dag_put [OF assms(3,4)] view_put_dom_eq [of oid x]
  by auto

lemma set_recursive_dag:
  assumes "inv s" "view_dag (view s)" "vid \<in> dom (view s)" "object_ok x"
    and "set (child_ids x) \<subseteq> dom (view s)"
    and "set_recursive S s x p d vid = (s', Inr y)"
  shows "inv s' \<and> view_dag (view s') \<and> dom (view s) \<subseteq> dom (view s') \<and> object_ok y \<and>
    set (child_ids y) \<subseteq> dom (view s')"
  using assms
proof (induction p arbitrary: s x d s' y)
  case Nil
  then have y: "s' = s" "view s vid = Some y" by (auto simp: load_object_eq)
  with Nil.prems(1,2) addressed [OF Nil.prems(1)] view_dag_child [OF Nil.prems(2) y(2)]
  show ?case by (simp add: view_addressed_def)
next
  case (Cons c rest)
  obtain i where i: "set_child_at x c i = Some y"
    and rest: "if rest = [] then s' = s \<and> i = vid
      else \<exists>child. (case child_id_at x c of Some j \<Rightarrow> load_object S s j | None \<Rightarrow> Inr empty_map) = Inr child \<and>
             store_child S (set_recursive S s child rest (d + 1) vid) = (s', Inr i)"
    using set_recursive_Cons [OF Cons.prems(6)] by blast
  have ok: "object_ok y" using i Cons.prems(4) by (rule set_child_at_ok)
  have sub: "set (child_ids y) \<subseteq> insert i (set (child_ids x))"
    using i by (rule set_child_at_children)
  show ?case
  proof (cases "rest = []")
    case True
    with rest sub ok Cons.prems show ?thesis by auto
  next
    case False
    with rest obtain child s1 new where
      child: "(case child_id_at x c of Some j \<Rightarrow> load_object S s j | None \<Rightarrow> Inr empty_map) = Inr child"
      and rec: "set_recursive S s child rest (d + 1) vid = (s1, Inr new)"
      and put: "store_object S s1 new = (s', Inr i)"
      by (auto simp: store_child_Inr)
    have child_ok: "object_ok child" "set (child_ids child) \<subseteq> dom (view s)"
      using child addressed [OF Cons.prems(1)] Cons.prems(1) view_dag_child [OF Cons.prems(2)]
      by (auto simp: load_object_eq view_addressed_def split: option.splits)
    from Cons.IH [OF Cons.prems(1,2,3) child_ok rec]
    have IH: "inv s1" "view_dag (view s1)" "dom (view s) \<subseteq> dom (view s1)" "object_ok new"
      "set (child_ids new) \<subseteq> dom (view s1)" by auto
    from store_child_dag [OF IH(1,4,2,5) put]
    have s': "inv s'" "view_dag (view s')" "dom (view s1) \<subseteq> dom (view s')" "i \<in> dom (view s')"
      by auto
    have "set (child_ids y) \<subseteq> dom (view s')"
      using sub s'(3,4) IH(3) Cons.prems(5) by blast
    with s' IH(3) ok show ?thesis by blast
  qed
qed

lemma tree_set_dag:
  assumes "inv s" "view_dag (view s)" "object_ok value" "set (child_ids value) \<subseteq> dom (view s)"
    and "tree_set S s r p value = (s', Inr r')"
  shows "inv s' \<and> view_dag (view s') \<and> dom (view s) \<subseteq> dom (view s') \<and> r' \<in> dom (view s')"
proof -
  obtain s1 i where put: "store_object S s value = (s1, Inr i)"
    using assms(5) by (auto simp: tree_set_def split: prod.splits sum.splits)
  from store_child_dag [OF assms(1,3,2,4) put]
  have s1: "inv s1" "view_dag (view s1)" "dom (view s) \<subseteq> dom (view s1)" "i \<in> dom (view s1)" by auto
  show ?thesis
  proof (cases "is_root p")
    case True
    with assms(5) put s1 show ?thesis by (auto simp: tree_set_def)
  next
    case False
    with assms(5) put obtain x y s2 where x: "view s1 r = Some x"
      and rec: "set_recursive S s1 x p 0 i = (s2, Inr y)"
      and fin: "store_object S s2 y = (s', Inr r')"
      by (auto simp: tree_set_def store_child_Inr load_object_eq [OF s1(1)]
          split: sum.splits)
    have "object_ok x" "set (child_ids x) \<subseteq> dom (view s1)"
      using addressed [OF s1(1)] x view_dag_child [OF s1(2)] by (auto simp: view_addressed_def)
    from set_recursive_dag [OF s1(1,2,4) this rec]
    have s2: "inv s2" "view_dag (view s2)" "dom (view s1) \<subseteq> dom (view s2)" "object_ok y"
      "set (child_ids y) \<subseteq> dom (view s2)" by auto
    from store_child_dag [OF s2(1,4,2,5) fin] s1(3) s2(3) show ?thesis by blast
  qed
qed

text \<open>A write below a value other than null is refused, at the depth of that value.\<close>

lemma set_recursive_atom:
  "inv s \<Longrightarrow> view_nav (view s) x q = Some (OAtom a) \<Longrightarrow> a \<noteq> ANull \<Longrightarrow>
   set_recursive S s x (q @ c # rest) d vid =
   (s, Inl (TTypeMismatch (at_depth (d + length q)) ''map or list'' (''a '' @ atom_kind a @ '' value'')))"
proof (induction q arbitrary: x d)
  case Nil
  then show ?case by (cases a) auto
next
  case (Cons b q)
  then obtain i y where i: "child_id_at x b = Some i" "view s i = Some y"
    and y: "view_nav (view s) y q = Some (OAtom a)"
    by (auto split: option.splits)
  have load: "load_object S s i = Inr y" using i(2) Cons.prems(1) by (simp add: load_object_eq)
  have IH: "set_recursive S s y (q @ c # rest) (Suc d) vid =
      (s, Inl (TTypeMismatch (at_depth (d + length (b # q))) ''map or list''
        (''a '' @ atom_kind a @ '' value'')))"
    using Cons.IH [OF Cons.prems(1) y Cons.prems(3), of "Suc d"] by simp
  show ?case
  proof (cases x)
    case (ONode n)
    then show ?thesis
      using i(1) load IH by (cases n; cases b) (auto simp: rebuild_def store_child_def split: if_splits)
  qed (use i(1) in simp)
qed

lemma tree_set_atom:
  assumes "inv s" "object_ok value" "a \<noteq> ANull" "tree_get S s r q = Inr (OAtom a)"
  shows "\<exists>s'. tree_set S s r (q @ c # rest) value =
    (s', Inl (TTypeMismatch (at_depth (length q)) ''map or list'' (''a '' @ atom_kind a @ '' value''))) \<and>
    inv s' \<and> view s \<subseteq>\<^sub>m view s'"
proof -
  obtain s1 t where put: "store_object S s value = (s1, t)" by force
  from store_object_eq [OF assms(1,2) put] have s1: "t = Inr (oid value)" "inv s1" "view s \<subseteq>\<^sub>m view s1"
    by (auto intro: view_put_le)
  from assms(4) view_get_mono [OF s1(3)] have "view_get (view s1) r q = Some (OAtom a)"
    by (simp add: tree_get_Inr assms(1))
  then obtain x where x: "view s1 r = Some x" "view_nav (view s1) x q = Some (OAtom a)"
    by (auto simp: view_get_def split: option.splits)
  with set_recursive_atom [OF s1(2) x(2) assms(3), of c rest 0] s1 put show ?thesis
    by (auto simp: tree_set_def store_child_def load_object_eq ok_or_def is_root_def)
qed

end

section \<open>Write then read\<close>

context content_store
begin

lemma tree_set_correct:
  assumes "inv s" "object_ok value" "tree_set S s r p value = (s', Inr r')"
  shows "inv s' \<and> view s \<subseteq>\<^sub>m view s' \<and> view_get (view s') r' p = Some value \<and>
    (\<forall>q z. diverges p q \<longrightarrow> view_get (view s) r q = Some z \<longrightarrow> view_get (view s') r' q = Some z)"
proof -
  obtain s1 i where put: "store_object S s value = (s1, Inr i)"
    using assms(3) by (auto simp: tree_set_def split: prod.splits sum.splits)
  from put_le [OF assms(1,2) put] have s1: "i = oid value" "inv s1" "view s1 i = Some value"
    "view s \<subseteq>\<^sub>m view s1" by auto
  show ?thesis
  proof (cases "p = []")
    case True
    with assms(3) put s1 show ?thesis by (auto simp: tree_set_def is_root_def view_get_def)
  next
    case False
    with assms(3) put obtain x y s2 where x: "view s1 r = Some x"
      and rec: "set_recursive S s1 x p 0 i = (s2, Inr y)"
      and fin: "store_object S s2 y = (s', Inr r')"
      by (auto simp: tree_set_def is_root_def store_child_Inr load_object_eq [OF s1(2)]
          split: sum.splits)
    have "object_ok x" using addressed [OF s1(2)] x by (auto simp: view_addressed_def)
    from set_recursive_correct [OF s1(2,3) this rec]
    have s2: "inv s2" "view s1 \<subseteq>\<^sub>m view s2" "object_ok y" "view_nav (view s2) y p = Some value"
      "\<And>q z. diverges p q \<Longrightarrow> view_nav (view s1) x q = Some z \<Longrightarrow> view_nav (view s2) y q = Some z"
      by auto
    from put_le [OF s2(1,3) fin] have s3: "inv s'" "view s' r' = Some y" "view s2 \<subseteq>\<^sub>m view s'" by auto
    have le: "view s \<subseteq>\<^sub>m view s'" using s1(4) s2(2) s3(3) by (blast intro: map_le_trans)
    have "view_get (view s') r' q = Some z"
      if "diverges p q" "view_get (view s) r q = Some z" for q z
    proof -
      from view_get_mono [OF s1(4) that(2)] x have "view_nav (view s1) x q = Some z"
        by (simp add: view_get_def)
      then have "view_nav (view s2) y q = Some z" by (rule s2(5) [OF that(1)])
      then show ?thesis using s3 view_nav_mono by (auto simp: view_get_def)
    qed
    with le s3 view_nav_mono [OF s3(3) s2(4)] show ?thesis by (simp add: view_get_def)
  qed
qed

text \<open>Later states of the store serve every root of earlier ones.\<close>

lemma tree_set_keeps_snapshots:
  assumes "inv s" "object_ok value" "tree_set S s r p value = (s', Inr r')"
    and "tree_get S s old q = Inr z"
  shows "tree_get S s' old q = Inr z"
  using tree_set_correct [OF assms(1-3)] assms(1,4)
  by (auto simp: tree_get_Inr dest: view_get_mono)

end

section \<open>Deletion\<close>

text \<open>The parent that results from removing a child.\<close>

fun remove_child_at :: "Object \<Rightarrow> PathComponent \<Rightarrow> Object option" where
  "remove_child_at (ONode (NMap entries)) (Key key) =
     (if map_of entries key = None then None else Some (object_map (bt_remove key entries)))"
| "remove_child_at (ONode (NList items)) (Index idx) =
     (if idx < length items then Some (object_list (vec_remove idx items)) else None)"
| "remove_child_at _ _ = None"

lemma delete_recursive_Cons:
  assumes "delete_recursive S s x (c # rest) d = (s', Inr y)"
  shows "if rest = [] then s' = s \<and> remove_child_at x c = Some y
     else \<exists>j child i. child_id_at x c = Some j \<and> load_object S s j = Inr child \<and>
            store_child S (delete_recursive S s child rest (d + 1)) = (s', Inr i) \<and>
            set_child_at x c i = Some y"
proof (cases x)
  case (ONode n)
  with assms show ?thesis
    by (cases n; cases c) (auto simp: rebuild_Inr not_le split: if_splits option.splits sum.splits)
qed (use assms in simp)

lemma vec_remove_set: "set (vec_remove i xs) \<subseteq> set xs"
  by (auto simp: vec_remove_def dest: in_set_takeD in_set_dropD)

lemma remove_child_at_ok:
  "remove_child_at x c = Some y \<Longrightarrow> object_ok x \<Longrightarrow> object_ok y"
  by (induction x c rule: remove_child_at.induct)
    (auto simp: object_map_def object_list_def object_ok_def split: if_splits)

lemma remove_child_at_children:
  "remove_child_at x c = Some y \<Longrightarrow> set (child_ids y) \<subseteq> set (child_ids x)"
  by (induction x c rule: remove_child_at.induct)
    (auto simp: object_map_def object_list_def bt_remove_def split: if_splits
      dest: subsetD [OF vec_remove_set])

lemma remove_child_at_key:
  "remove_child_at x (Key k) = Some y \<Longrightarrow> child_id_at y (Key k) = None"
  "remove_child_at x (Key k) = Some y \<Longrightarrow> b \<noteq> Key k \<Longrightarrow> child_id_at y b = child_id_at x b"
  by (cases x rule: object_wf.cases; cases b;
      auto simp: object_map_def btree_simps split: if_splits)+

lemma remove_child_at_index:
  "remove_child_at x (Index n) = Some y \<Longrightarrow>
   child_id_at y (Index m) = child_id_at x (Index (if m < n then m else Suc m))"
  by (cases x rule: object_wf.cases)
    (auto simp: object_list_def vec_remove_def nth_append min_def split: if_splits)


context object_store
begin

lemma delete_recursive_dag:
  assumes "inv s" "view_dag (view s)" "object_ok x" "set (child_ids x) \<subseteq> dom (view s)"
    and "delete_recursive S s x p d = (s', Inr y)"
  shows "inv s' \<and> view_dag (view s') \<and> dom (view s) \<subseteq> dom (view s') \<and> object_ok y \<and>
    set (child_ids y) \<subseteq> dom (view s')"
  using assms
proof (induction p arbitrary: s x d s' y)
  case (Cons c rest)
  note inversion = delete_recursive_Cons [OF Cons.prems(5)]
  show ?case
  proof (cases "rest = []")
    case True
    with inversion have y: "s' = s" "remove_child_at x c = Some y" by simp_all
    from remove_child_at_ok [OF y(2)] remove_child_at_children [OF y(2)] Cons.prems y(1)
    show ?thesis by auto
  next
    case False
    with inversion obtain j child i s1 new where child: "view s j = Some child"
      and rec: "delete_recursive S s child rest (d + 1) = (s1, Inr new)"
      and put: "store_object S s1 new = (s', Inr i)"
      and y: "set_child_at x c i = Some y"
      by (auto simp: store_child_Inr load_object_eq [OF Cons.prems(1)])
    have child_ok: "object_ok child" "set (child_ids child) \<subseteq> dom (view s)"
      using addressed [OF Cons.prems(1)] child view_dag_child [OF Cons.prems(2) child]
      by (auto simp: view_addressed_def)
    from Cons.IH [OF Cons.prems(1,2) child_ok rec]
    have IH: "inv s1" "view_dag (view s1)" "dom (view s) \<subseteq> dom (view s1)" "object_ok new"
      "set (child_ids new) \<subseteq> dom (view s1)" by auto
    from store_child_dag [OF IH(1,4,2,5) put]
    have s': "inv s'" "view_dag (view s')" "dom (view s1) \<subseteq> dom (view s')" "i \<in> dom (view s')"
      by auto
    have "set (child_ids y) \<subseteq> dom (view s')"
      using set_child_at_children [OF y] s'(3,4) IH(3) Cons.prems(4) by blast
    with s' IH(3) set_child_at_ok [OF y Cons.prems(3)] show ?thesis by blast
  qed
qed simp

lemma tree_delete_dag:
  assumes "inv s" "view_dag (view s)" "tree_delete S s r p = (s', Inr r')"
  shows "inv s' \<and> view_dag (view s') \<and> dom (view s) \<subseteq> dom (view s') \<and> r' \<in> dom (view s')"
proof (cases "is_root p")
  case True
  then have "store_object S s empty_map = (s', Inr r')" using assms(3) by (simp add: tree_delete_def)
  from store_child_dag [OF assms(1) _ assms(2) _ this] show ?thesis by simp
next
  case False
  with assms(3) obtain x y s2 where x: "view s r = Some x"
    and rec: "delete_recursive S s x p 0 = (s2, Inr y)"
    and fin: "store_object S s2 y = (s', Inr r')"
    by (auto simp: tree_delete_def store_child_Inr load_object_eq [OF assms(1)] split: sum.splits)
  have "object_ok x" "set (child_ids x) \<subseteq> dom (view s)"
    using addressed [OF assms(1)] x view_dag_child [OF assms(2) x] by (auto simp: view_addressed_def)
  from delete_recursive_dag [OF assms(1,2) this rec]
  have s2: "inv s2" "view_dag (view s2)" "dom (view s) \<subseteq> dom (view s2)" "object_ok y"
    "set (child_ids y) \<subseteq> dom (view s2)" by auto
  from store_child_dag [OF s2(1,4,2,5) fin] s2(3) show ?thesis by blast
qed

end

text \<open>What a deletion leaves at the removed component: nothing for a map key; for a list the
  later elements move down.\<close>

definition shift_component :: "PathComponent \<Rightarrow> PathComponent \<Rightarrow> PathComponent" where
  "shift_component removed b =
     (case (removed, b) of (Index n, Index m) \<Rightarrow> Index (if m < n then m else Suc m) | _ \<Rightarrow> b)"

lemma remove_child_at_shift:
  assumes "remove_child_at x c = Some y" "c \<noteq> b \<or> (\<exists>n. c = Index n)"
  shows "child_id_at y b = child_id_at x (shift_component c b)"
proof (cases c)
  case (Key k)
  with assms remove_child_at_key(2) [of x k y b] show ?thesis
    by (auto simp: shift_component_def)
next
  case (Index n)
  show ?thesis
  proof (cases b)
    case (Key k)
    with Index assms(1) show ?thesis
      by (cases x rule: object_wf.cases)
        (auto simp: shift_component_def object_list_def split: if_splits)
  next
    case (Index m)
    with \<open>c = Index n\<close> assms(1) remove_child_at_index [of x n y m] show ?thesis
      by (simp add: shift_component_def)
  qed
qed

lemma view_nav_child_eq:
  "child_id_at y b = child_id_at x c \<Longrightarrow> view_nav v x (c # q) = Some z \<Longrightarrow> v \<subseteq>\<^sub>m v' \<Longrightarrow>
   view_nav v' y (b # q) = Some z"
  using view_nav_mono [of v v' x "c # q" z] by (simp split: option.splits)

context content_store
begin

lemma delete_recursive_correct:
  assumes "inv s" "object_ok x" "delete_recursive S s x (q @ [c]) d = (s', Inr y)"
  shows "inv s' \<and> view s \<subseteq>\<^sub>m view s' \<and> object_ok y \<and>
    (\<exists>px py. view_nav (view s) x q = Some px \<and> remove_child_at px c = Some py \<and>
       view_nav (view s') y q = Some py) \<and>
    (\<forall>p z. diverges q p \<longrightarrow> view_nav (view s) x p = Some z \<longrightarrow> view_nav (view s') y p = Some z)"
  using assms
proof (induction q arbitrary: s x d s' y)
  case Nil
  then have y: "s' = s" "remove_child_at x c = Some y"
    using delete_recursive_Cons [of S s x c "[]" d s' y] by simp_all
  with Nil.prems(1,2) remove_child_at_ok [OF y(2)] show ?case by simp
next
  case (Cons a q)
  obtain j child i s1 new where a: "child_id_at x a = Some j" and child: "view s j = Some child"
    and rec: "delete_recursive S s child (q @ [c]) (d + 1) = (s1, Inr new)"
    and put: "store_object S s1 new = (s', Inr i)" and y: "set_child_at x a i = Some y"
    using delete_recursive_Cons [of S s x a "q @ [c]" d s' y] Cons.prems(3)
    by (auto simp: store_child_Inr load_object_eq [OF Cons.prems(1)])
  have "object_ok child" using addressed [OF Cons.prems(1)] child by (auto simp: view_addressed_def)
  from Cons.IH [OF Cons.prems(1) this rec] obtain px py where
    s1: "inv s1" "view s \<subseteq>\<^sub>m view s1" "object_ok new"
    and px: "view_nav (view s) child q = Some px" "remove_child_at px c = Some py"
      "view_nav (view s1) new q = Some py"
    and kept: "\<And>p z. diverges q p \<Longrightarrow> view_nav (view s) child p = Some z \<Longrightarrow>
       view_nav (view s1) new p = Some z"
    by blast
  from put_le [OF s1(1,3) put] have s': "inv s'" "view s' i = Some new" "view s1 \<subseteq>\<^sub>m view s'" by auto
  have le: "view s \<subseteq>\<^sub>m view s'" using s1(2) s'(3) by (rule map_le_trans)
  have descend: "view_nav (view s') y (a # p) = view_nav (view s') new p" for p
    using set_child_at_same [OF y] s'(2) by simp
  have parent: "view_nav (view s) x (a # q) = Some px" "view_nav (view s') y (a # q) = Some py"
    using a child px view_nav_mono [OF s'(3) px(3)] by (simp, simp only: descend)
  have "view_nav (view s') y p = Some z"
    if "diverges (a # q) p" "view_nav (view s) x p = Some z" for p z
  proof -
    from that(1) obtain b p' where p: "p = b # p'" "b \<noteq> a \<or> diverges q p'"
      by (auto simp: diverges_Cons)
    show ?thesis
    proof (cases "b = a")
      case True
      with p that(2) a child have "view_nav (view s) child p' = Some z" by simp
      with kept [of p'] p(2) True have "view_nav (view s1) new p' = Some z" by simp
      with True p(1) descend view_nav_mono [OF s'(3)] show ?thesis by metis
    next
      case False
      with p(1) that(2) show ?thesis
        using view_nav_child_eq [OF set_child_at_other [OF y False] _ le] by metis
    qed
  qed
  with s'(1) le set_child_at_ok [OF y Cons.prems(2)] px(2) parent show ?case by blast
qed

lemma tree_delete_correct:
  assumes "inv s" "tree_delete S s r (q @ [c]) = (s', Inr r')"
  shows "inv s' \<and> view s \<subseteq>\<^sub>m view s' \<and>
    (\<exists>px py. view_get (view s) r q = Some px \<and> remove_child_at px c = Some py \<and>
       view_get (view s') r' q = Some py) \<and>
    (\<forall>p z. diverges q p \<longrightarrow> view_get (view s) r p = Some z \<longrightarrow> view_get (view s') r' p = Some z)"
proof -
  from assms(2) obtain x y s2 where x: "view s r = Some x"
    and rec: "delete_recursive S s x (q @ [c]) 0 = (s2, Inr y)"
    and fin: "store_object S s2 y = (s', Inr r')"
    by (auto simp: tree_delete_def is_root_def store_child_Inr load_object_eq [OF assms(1)]
        split: sum.splits)
  have "object_ok x" using addressed [OF assms(1)] x by (auto simp: view_addressed_def)
  from delete_recursive_correct [OF assms(1) this rec] obtain px py where
    s2: "inv s2" "view s \<subseteq>\<^sub>m view s2" "object_ok y"
    and px: "view_nav (view s) x q = Some px" "remove_child_at px c = Some py"
      "view_nav (view s2) y q = Some py"
    and kept: "\<And>p z. diverges q p \<Longrightarrow> view_nav (view s) x p = Some z \<Longrightarrow> view_nav (view s2) y p = Some z"
    by blast
  from put_le [OF s2(1,3) fin] have s': "inv s'" "view s' r' = Some y" "view s2 \<subseteq>\<^sub>m view s'" by auto
  have "view_get (view s) r q = Some px" "view_get (view s') r' q = Some py"
    using x s'(2) px view_nav_mono [OF s'(3) px(3)] by (simp_all add: view_get_def)
  moreover have "view_get (view s') r' p = Some z"
    if "diverges q p" "view_get (view s) r p = Some z" for p z
    using kept [OF that(1)] that(2) x s'(2) view_nav_mono [OF s'(3)] by (simp add: view_get_def)
  ultimately show ?thesis
    using s'(1) px(2) map_le_trans [OF s2(2) s'(3)] by blast
qed

end

section \<open>Many reads at once\<close>

lemma concat_chunks: "0 < n \<Longrightarrow> concat (chunks n xs) = xs"
proof (induction n xs rule: chunks.induct)
  case (1 n xs)
  then show ?case by (subst chunks.simps) simp
qed

lemma wanted_ids_set: "i \<in> set (wanted_ids ws) \<longleftrightarrow> Some (Some i) \<in> set ws"
  by (induction ws) (auto simp: wanted_ids_def List.map_filter_simps split: option.splits)

text \<open>What the fetch of one level wants, for paths whose walk so far is given by \<open>f\<close>.\<close>

definition wants :: "nat \<Rightarrow> StatePath \<Rightarrow> Object option \<Rightarrow> ObjectId option option" where
  "wants level p cur =
     (if level < length p
      then Some (case cur of None \<Rightarrow> None | Some x \<Rightarrow> child_id_at x (p ! level)) else None)"

lemma wanted_children_map:
  "wanted_children level paths (map f paths) = map (\<lambda>p. wants level p (f p)) paths"
  by (induction paths) (simp_all add: wants_def)

lemma advance_map:
  "advance m (map f paths) (map g paths) =
   map (\<lambda>p. case g p of None \<Rightarrow> f p | Some None \<Rightarrow> None | Some (Some i) \<Rightarrow> map_of m i) paths"
  by (induction paths) simp_all

lemma fetch_chunk_ok:
  "set is \<subseteq> dom v \<Longrightarrow>
   \<exists>m'. fetch_chunk is (map v is) m = Inr m' \<and>
     map_of m' = (\<lambda>i. if i \<in> set is then v i else map_of m i)"
proof (induction "is" arbitrary: m)
  case (Cons i "is")
  from Cons.prems obtain x where x: "v i = Some x" and sub: "set is \<subseteq> dom v" by auto
  from Cons.IH [OF sub, of "bt_insert i x m"] show ?case
    using x by (auto simp: btree_simps fun_eq_iff)
qed simp

lemma view_nav_step:
  assumes "level < length p"
  shows "view_nav v x (take (Suc level) p) =
    (case view_nav v x (take level p) of None \<Rightarrow> None
     | Some y \<Rightarrow> (case child_id_at y (p ! level) of None \<Rightarrow> None | Some i \<Rightarrow> v i))"
  by (auto simp: take_Suc_conv_app_nth [OF assms] view_nav_append split: option.splits)

context object_store
begin

lemma fetch_chunks_ok:
  assumes "inv s" "\<forall>chunk \<in> set cs. set chunk \<subseteq> dom (view s)"
  shows "\<exists>m'. fetch_chunks S s cs m = Inr m' \<and>
    map_of m' = (\<lambda>i. if i \<in> set (concat cs) then view s i else map_of m i)"
  using assms(2)
proof (induction cs arbitrary: m)
  case (Cons chunk cs)
  from fetch_chunk_ok [of chunk "view s" m] Cons.prems obtain m1 where
    m1: "fetch_chunk chunk (map (view s) chunk) m = Inr m1"
    "map_of m1 = (\<lambda>i. if i \<in> set chunk then view s i else map_of m i)" by auto
  from Cons.IH [of m1] Cons.prems obtain m' where
    "fetch_chunks S s cs m1 = Inr m'"
    "map_of m' = (\<lambda>i. if i \<in> set (concat cs) then view s i else map_of m1 i)" by auto
  with m1 show ?case by (auto simp: batch_get_law [OF assms(1)] fun_eq_iff)
qed simp

lemma view_nav_closed:
  "view_closed (view s) \<Longrightarrow> set (child_ids x) \<subseteq> dom (view s) \<Longrightarrow> view_nav (view s) x p = Some y \<Longrightarrow>
   set (child_ids y) \<subseteq> dom (view s)"
proof (induction p arbitrary: x)
  case (Cons c cs)
  from Cons.prems(3) obtain i z where "view s i = Some z" "view_nav (view s) z cs = Some y"
    by (auto split: option.splits)
  with Cons.IH [of z] Cons.prems(1) show ?case by (auto simp: view_closed_def)
qed simp

lemma get_levels_ok:
  assumes "inv s" "view_closed (view s)" "set (child_ids x) \<subseteq> dom (view s)"
  shows "get_levels S s paths [a ..< a + n] (map (\<lambda>p. view_nav (view s) x (take a p)) paths) =
    Inr (map (\<lambda>p. view_nav (view s) x (take (a + n) p)) paths)"
proof (induction n arbitrary: a)
  case (Suc n)
  let ?f = "\<lambda>p. view_nav (view s) x (take a p)"
  let ?w = "\<lambda>p. wants a p (?f p)"
  let ?ids = "wanted_ids (map ?w paths)"
  have "set ?ids \<subseteq> dom (view s)"
  proof
    fix i assume "i \<in> set ?ids"
    then obtain p y where "?f p = Some y" "child_id_at y (p ! a) = Some i"
      by (auto simp: wanted_ids_set wants_def split: if_splits option.splits)
    then show "i \<in> dom (view s)"
      using view_nav_closed [OF assms(2,3)] child_id_at_in by blast
  qed
  moreover have cc: "concat (chunks PREFETCH_BATCH ?ids) = ?ids"
    by (simp add: concat_chunks PREFETCH_BATCH_def)
  then have "set chunk \<subseteq> set ?ids" if "chunk \<in> set (chunks PREFETCH_BATCH ?ids)" for chunk
    using that by (metis UN_upper set_concat)
  ultimately have "\<forall>chunk \<in> set (chunks PREFETCH_BATCH ?ids). set chunk \<subseteq> dom (view s)"
    by blast
  from fetch_chunks_ok [OF assms(1) this, of "[]"] obtain m where
    m: "fetch_chunks S s (chunks PREFETCH_BATCH ?ids) [] = Inr m"
    "\<And>i. i \<in> set ?ids \<Longrightarrow> map_of m i = view s i"
    by (auto simp: cc)
  have "advance m (map ?f paths) (map ?w paths) = map (\<lambda>p. view_nav (view s) x (take (Suc a) p)) paths"
    unfolding advance_map
  proof (rule map_cong)
    fix p assume p: "p \<in> set paths"
    show "(case ?w p of None \<Rightarrow> ?f p | Some None \<Rightarrow> None | Some (Some i) \<Rightarrow> map_of m i) =
        view_nav (view s) x (take (Suc a) p)"
    proof (cases "a < length p")
      case True
      have "i \<in> set ?ids" if "?w p = Some (Some i)" for i
        using that p by (auto simp: wanted_ids_set intro: rev_image_eqI)
      with True show ?thesis
        by (auto simp: view_nav_step wants_def m(2) split: option.splits)
    qed (simp add: wants_def)
  qed simp
  moreover have "[a ..< a + Suc n] = a # [Suc a ..< Suc a + n]"
    by (simp add: upt_conv_Cons del: upt_Suc)
  ultimately show ?case
    using Suc.IH [of "Suc a"] m(1) by (simp add: wanted_children_map Let_def del: upt_Suc)
qed simp

lemma foldr_max_ge: "p \<in> set ps \<Longrightarrow> length p \<le> foldr max (map length ps) 0"
  by (induction ps) auto

theorem tree_get_many_correct:
  assumes "inv s" "view_closed (view s)" "r \<in> dom (view s)"
  shows "tree_get_many S s r paths = Inr (map (view_get (view s) r) paths)"
proof -
  from assms(3) obtain x where x: "view s r = Some x" by auto
  have children: "set (child_ids x) \<subseteq> dom (view s)" using assms(2) x by (auto simp: view_closed_def)
  have "map (\<lambda>p. view_nav (view s) x (take 0 p)) paths = replicate (length paths) (Some x)"
    by (simp add: map_replicate_const)
  moreover have "view_nav (view s) x (take (foldr max (map length paths) 0) p) = view_get (view s) r p"
    if "p \<in> set paths" for p
    using foldr_max_ge [OF that] x by (simp add: view_get_def)
  ultimately show ?thesis
    using get_levels_ok [OF assms(1,2) children, of paths 0 "foldr max (map length paths) 0"] x
    by (simp add: tree_get_many_def load_object_eq [OF assms(1)] del: take_0 cong: map_cong)
qed

end

end
