(* ===== verification/Tree_Json.thy ===== *)
theory Tree_Json
  imports Tree_Laws Json_Value
begin

text \<open>
  Trees as JSON documents, from \<open>crates/agentstategraph/src/tree.rs\<close>: prefetching a subtree a
  level at a time, \<open>tree_to_json\<close> and its depth-capped form, and \<open>json_to_tree\<close>.

  \<open>to_json\<close> follows references as far as they go, so it takes fuel: \<^const>\<open>None\<close> is running
  out. \<open>to_json_total\<close> shows that a store without cycles always has enough.
\<close>

section \<open>Prefetching\<close>

text \<open>A store with some of its objects held in memory.\<close>

definition prefetched_get ::
  "'s ObjectStore \<Rightarrow> (ObjectId, Object) btree \<Rightarrow> 's \<Rightarrow> ObjectId \<Rightarrow> StorageError + Object option" where
  "prefetched_get S objects s i =
     (case map_of objects i of Some x \<Rightarrow> Inr (Some x) | None \<Rightarrow> os_get S s i)"

definition prefetched_has ::
  "'s ObjectStore \<Rightarrow> (ObjectId, Object) btree \<Rightarrow> 's \<Rightarrow> ObjectId \<Rightarrow> StorageError + bool" where
  "prefetched_has S objects s i = (if map_of objects i \<noteq> None then Inr True else os_has S s i)"

definition prefetched_store :: "'s ObjectStore \<Rightarrow> (ObjectId, Object) btree \<Rightarrow> 's ObjectStore" where
  "prefetched_store S objects =
     \<lparr> os_get = prefetched_get S objects, os_put = os_put S, os_has = prefetched_has S objects,
       os_batch_get = default_batch_get (prefetched_get S objects),
       os_batch_put = default_batch_put (os_put S) \<rparr>"

text \<open>One batch: the objects found are kept and their children queued.\<close>

fun prefetch_zip :: "ObjectId list \<Rightarrow> Object option list \<Rightarrow> (ObjectId, Object) btree \<times> ObjectId list \<Rightarrow>
    (ObjectId, Object) btree \<times> ObjectId list" where
  "prefetch_zip (i # is) (obj # objs) (objects, nxt) =
     prefetch_zip is objs
       (case obj of None \<Rightarrow> (objects, nxt) | Some x \<Rightarrow> (bt_insert i x objects, nxt @ child_ids x))"
| "prefetch_zip _ _ acc = acc"

fun prefetch_chunks :: "'s ObjectStore \<Rightarrow> 's \<Rightarrow> ObjectId list list \<Rightarrow>
    (ObjectId, Object) btree \<times> ObjectId list \<Rightarrow> TreeError + (ObjectId, Object) btree \<times> ObjectId list" where
  "prefetch_chunks S s [] acc = Inr acc"
| "prefetch_chunks S s (chunk # rest) acc =
     (case os_batch_get S s chunk of
        Inl e \<Rightarrow> Inl (TStorage e)
      | Inr objs \<Rightarrow> prefetch_chunks S s rest (prefetch_zip chunk objs acc))"

function prefetch_levels :: "'s ObjectStore \<Rightarrow> 's \<Rightarrow> nat \<Rightarrow> ObjectId list \<Rightarrow> (ObjectId, Object) btree \<Rightarrow>
    TreeError + (ObjectId, Object) btree" where
  "prefetch_levels S s levels frontier objects =
     (if frontier = [] \<or> levels = 0 then Inr objects
      else
        (let fresh = unique_first (filter (\<lambda>i. map_of objects i = None) frontier) in
         case prefetch_chunks S s (chunks PREFETCH_BATCH fresh) (objects, []) of
           Inl e \<Rightarrow> Inl e
         | Inr (objects', nxt) \<Rightarrow> prefetch_levels S s (levels - 1) nxt objects'))"
  by pat_completeness auto
termination
  by (relation "measure (\<lambda>(S, s, levels, frontier, objects). levels)") auto

declare prefetch_levels.simps [simp del]

definition prefetch_load_many ::
  "'s ObjectStore \<Rightarrow> 's \<Rightarrow> Object list \<Rightarrow> nat \<Rightarrow> TreeError + (ObjectId, Object) btree" where
  "prefetch_load_many S s roots levels =
     prefetch_levels S s levels (concat (map child_ids roots)) []"

definition prefetch_load ::
  "'s ObjectStore \<Rightarrow> 's \<Rightarrow> Object \<Rightarrow> nat \<Rightarrow> TreeError + (ObjectId, Object) btree" where
  "prefetch_load S s root levels = prefetch_load_many S s [root] levels"

definition USIZE_MAX :: nat where "USIZE_MAX = 2 ^ 64 - 1"

section \<open>Objects to JSON\<close>

definition base64_char :: "nat \<Rightarrow> char" where
  "base64_char n =
     ''ABCDEFGHIJKLMNOPQRSTUVWXYZabcdefghijklmnopqrstuvwxyz0123456789+/'' ! n"

text \<open>Three bytes make a 24-bit number, read as four 6-bit digits.\<close>

fun base64_encode :: "u8 list \<Rightarrow> string" where
  "base64_encode (a # b # c # rest) =
     (let triple = unat a * 65536 + unat b * 256 + unat c in
      [base64_char (triple div 262144 mod 64), base64_char (triple div 4096 mod 64),
       base64_char (triple div 64 mod 64), base64_char (triple mod 64)] @ base64_encode rest)"
| "base64_encode [a, b] =
     (let triple = unat a * 65536 + unat b * 256 in
      [base64_char (triple div 262144 mod 64), base64_char (triple div 4096 mod 64),
       base64_char (triple div 64 mod 64), CHR ''=''])"
| "base64_encode [a] =
     (let triple = unat a * 65536 in
      [base64_char (triple div 262144 mod 64), base64_char (triple div 4096 mod 64),
       CHR ''='', CHR ''=''])"
| "base64_encode [] = []"

text \<open>\<open>serde_json::json!\<close> turns a float that is not finite into null.\<close>

fun atom_to_json :: "Atom \<Rightarrow> json" where
  "atom_to_json ANull = JNull"
| "atom_to_json (ABool b) = JBool b"
| "atom_to_json (AInt i) = JNumber (JInt (sint i))"
| "atom_to_json (AUInt u) = JNumber (JInt (uint u))"
| "atom_to_json (AFloat x) = (if f64_is_finite x then JNumber (JFloat x) else JNull)"
| "atom_to_json (AString s) = JString s"
| "atom_to_json (ABytes b) = JString (''base64:'' @ base64_encode b)"

text \<open>A loop whose body can fail or run out of fuel: the first failure ends it.\<close>

fun opt_results :: "('e + 'a) option list \<Rightarrow> ('e + 'a list) option" where
  "opt_results [] = Some (Inr [])"
| "opt_results (r # rs) =
     (case r of
        None \<Rightarrow> None
      | Some (Inl e) \<Rightarrow> Some (Inl e)
      | Some (Inr x) \<Rightarrow>
          (case opt_results rs of
             None \<Rightarrow> None
           | Some (Inl e) \<Rightarrow> Some (Inl e)
           | Some (Inr xs) \<Rightarrow> Some (Inr (x # xs))))"

definition opt_map :: "('a \<Rightarrow> 'b) \<Rightarrow> ('e + 'a) option \<Rightarrow> ('e + 'b) option" where
  "opt_map f r = (case r of None \<Rightarrow> None | Some (Inl e) \<Rightarrow> Some (Inl e) | Some (Inr x) \<Rightarrow> Some (Inr (f x)))"

fun to_json :: "nat \<Rightarrow> 's ObjectStore \<Rightarrow> 's \<Rightarrow> Object \<Rightarrow> (TreeError + json) option" where
  "to_json n S s (OAtom atom) = Some (Inr (atom_to_json atom))"
| "to_json 0 S s (ONode node) = None"
| "to_json (Suc n) S s (ONode node) =
     (let child = (\<lambda>i. case load_object S s i of Inl e \<Rightarrow> Some (Inl e) | Inr x \<Rightarrow> to_json n S s x) in
      case node of
        NMap entries \<Rightarrow>
          opt_map (\<lambda>vs. JObject (bt_from_list (zip (map fst entries) vs) []))
            (opt_results (map (\<lambda>p. child (snd p)) entries))
      | NList items \<Rightarrow> opt_map JArray (opt_results (map child items))
      | NSet items \<Rightarrow> opt_map JArray (opt_results (map child items)))"

definition tree_to_json :: "nat \<Rightarrow> 's ObjectStore \<Rightarrow> 's \<Rightarrow> Object \<Rightarrow> (TreeError + json) option" where
  "tree_to_json fuel S s obj =
     (case prefetch_load S s obj USIZE_MAX of
        Inl e \<Rightarrow> Some (Inl e)
      | Inr objects \<Rightarrow> to_json fuel (prefetched_store S objects) s obj)"

definition trees_to_json ::
  "nat \<Rightarrow> 's ObjectStore \<Rightarrow> 's \<Rightarrow> Object option list \<Rightarrow> (TreeError + json option list) option" where
  "trees_to_json fuel S s objs =
     (case prefetch_load_many S s (List.map_filter id objs) USIZE_MAX of
        Inl e \<Rightarrow> Some (Inl e)
      | Inr objects \<Rightarrow>
          opt_results (map (\<lambda>obj. case obj of
              None \<Rightarrow> Some (Inr None)
            | Some x \<Rightarrow> opt_map Some (to_json fuel (prefetched_store S objects) s x)) objs))"

subsection \<open>Depth-capped reads\<close>

fun truncated_summary :: "Node \<Rightarrow> json" where
  "truncated_summary (NMap entries) =
     JObject [(''_keys'', JArray (map (\<lambda>p. JString (fst p)) entries)), (''_truncated'', JBool True)]"
| "truncated_summary (NList items) =
     JObject [(''_len'', JNumber (JInt (int (length items)))), (''_truncated'', JBool True)]"
| "truncated_summary (NSet items) =
     JObject [(''_len'', JNumber (JInt (int (length items)))), (''_truncated'', JBool True)]"

function to_json_capped ::
  "'s ObjectStore \<Rightarrow> 's \<Rightarrow> Object \<Rightarrow> nat \<Rightarrow> nat \<Rightarrow> TreeError + json" where
  "to_json_capped S s (OAtom atom) max_depth depth = Inr (atom_to_json atom)"
| "to_json_capped S s (ONode node) max_depth depth =
     (if max_depth \<le> depth then Inr (truncated_summary node)
      else
        (let child = (\<lambda>i. try_bind (load_object S s i)
                            (\<lambda>x. to_json_capped S s x max_depth (depth + 1))) in
         case node of
           NMap entries \<Rightarrow>
             try_bind (collect_results (map (\<lambda>p. child (snd p)) entries))
               (\<lambda>vs. Inr (JObject (bt_from_list (zip (map fst entries) vs) [])))
         | NList items \<Rightarrow> try_bind (collect_results (map child items)) (\<lambda>vs. Inr (JArray vs))
         | NSet items \<Rightarrow> try_bind (collect_results (map child items)) (\<lambda>vs. Inr (JArray vs))))"
  by pat_completeness auto
termination
  by (relation "measure (\<lambda>(S, s, x, max_depth, depth). max_depth - depth)") auto

declare to_json_capped.simps [simp del]

definition tree_to_json_capped ::
  "'s ObjectStore \<Rightarrow> 's \<Rightarrow> Object \<Rightarrow> nat \<Rightarrow> TreeError + json" where
  "tree_to_json_capped S s obj max_depth =
     (case prefetch_load S s obj max_depth of
        Inl e \<Rightarrow> Inl e
      | Inr objects \<Rightarrow> to_json_capped (prefetched_store S objects) s obj max_depth 0)"

section \<open>JSON to objects\<close>

fun json_to_objects :: "(Object \<Rightarrow> ObjectId) \<Rightarrow> json \<Rightarrow> Object list \<Rightarrow> Object \<times> Object list"
  and json_items :: "(Object \<Rightarrow> ObjectId) \<Rightarrow> json list \<Rightarrow> Object list \<Rightarrow> ObjectId list \<times> Object list"
  and json_entries :: "(Object \<Rightarrow> ObjectId) \<Rightarrow> (string \<times> json) list \<Rightarrow> Object list \<Rightarrow>
    (string \<times> ObjectId) list \<times> Object list" where
  "json_to_objects oid JNull out = (object_null, out)"
| "json_to_objects oid (JBool b) out = (object_bool b, out)"
| "json_to_objects oid (JNumber n) out = (from_json_number n, out)"
| "json_to_objects oid (JString s) out = (object_string s, out)"
| "json_to_objects oid (JArray arr) out =
     (let (ids, out') = json_items oid arr out in (object_list ids, out'))"
| "json_to_objects oid (JObject m) out =
     (let (es, out') = json_entries oid m out in (object_map (bt_from_list es []), out'))"
| "json_items oid [] out = ([], out)"
| "json_items oid (v # vs) out =
     (let (obj, out1) = json_to_objects oid v out;
          (ids, out2) = json_items oid vs (out1 @ [obj])
      in (oid obj # ids, out2))"
| "json_entries oid [] out = ([], out)"
| "json_entries oid ((k, v) # m) out =
     (let (obj, out1) = json_to_objects oid v out;
          (es, out2) = json_entries oid m (out1 @ [obj])
      in ((k, oid obj) # es, out2))"

definition json_to_tree ::
  "(Object \<Rightarrow> ObjectId) \<Rightarrow> 's ObjectStore \<Rightarrow> 's \<Rightarrow> json \<Rightarrow> 's \<times> (TreeError + ObjectId)" where
  "json_to_tree oid S s value =
     (let (root, objects) = json_to_objects oid value [] in
      case os_batch_put S s (objects @ [root]) of
        (s', Inl e) \<Rightarrow> (s', Inl (TStorage e))
      | (s', Inr _) \<Rightarrow> (s', Inr (oid root)))"


section \<open>Prefetching is transparent\<close>

text \<open>The objects held in memory are those of the store.\<close>

definition held :: "view \<Rightarrow> (ObjectId, Object) btree \<Rightarrow> bool" where
  "held v objects \<longleftrightarrow> map_of objects \<subseteq>\<^sub>m v"

lemma held_insert: "held v m \<Longrightarrow> v i = Some x \<Longrightarrow> held v (bt_insert i x m)"
  by (auto simp: held_def map_le_def btree_simps)

lemma prefetch_zip_held:
  "held v (fst acc) \<Longrightarrow> held v (fst (prefetch_zip is (map v is) acc))"
proof (induction "is" arbitrary: acc)
  case (Cons i "is")
  obtain objects nxt where acc: "acc = (objects, nxt)" by force
  show ?case
  proof (cases "v i")
    case None
    with Cons.IH [of acc] Cons.prems acc show ?thesis by simp
  next
    case (Some x)
    then have "held v (bt_insert i x objects)" using Cons.prems acc by (simp add: held_insert)
    with Cons.IH [of "(bt_insert i x objects, nxt @ child_ids x)"] Some acc show ?thesis by simp
  qed
qed simp

context object_store
begin

lemma prefetch_chunks_held:
  "inv s \<Longrightarrow> held (view s) (fst acc) \<Longrightarrow>
   \<exists>acc'. prefetch_chunks S s cs acc = Inr acc' \<and> held (view s) (fst acc')"
  by (induction cs arbitrary: acc) (auto simp: batch_get_law prefetch_zip_held)

lemma prefetch_levels_held:
  assumes "inv s"
  shows "held (view s) objects \<Longrightarrow>
    \<exists>objects'. prefetch_levels S s levels frontier objects = Inr objects' \<and> held (view s) objects'"
proof (induction levels arbitrary: frontier objects)
  case 0
  then show ?case by (subst prefetch_levels.simps) simp
next
  case (Suc n)
  let ?chunks = "chunks PREFETCH_BATCH (unique_first (filter (\<lambda>i. map_of objects i = None) frontier))"
  from prefetch_chunks_held [OF assms, of "(objects, [])" ?chunks] Suc.prems
  obtain objects1 nxt where "prefetch_chunks S s ?chunks (objects, []) = Inr (objects1, nxt)"
    "held (view s) objects1" by auto
  with Suc.IH [of objects1 nxt] Suc.prems show ?case
    by (subst prefetch_levels.simps) simp
qed

lemma prefetch_load_many_held:
  "inv s \<Longrightarrow> \<exists>objects. prefetch_load_many S s roots levels = Inr objects \<and> held (view s) objects"
  unfolding prefetch_load_many_def by (rule prefetch_levels_held) (simp_all add: held_def)

lemma load_object_prefetched:
  "inv s \<Longrightarrow> held (view s) objects \<Longrightarrow> load_object (prefetched_store S objects) s i = load_object S s i"
  by (auto simp: load_object_def prefetched_store_def prefetched_get_def get_law held_def map_le_def
      dom_def split: option.splits)

text \<open>So a prefetched store is again a store with the same view.\<close>

lemma prefetched_get_law:
  "inv s \<Longrightarrow> held (view s) objects \<Longrightarrow> os_get (prefetched_store S objects) s i = Inr (view s i)"
  by (auto simp: prefetched_store_def prefetched_get_def get_law held_def map_le_def
      dom_def split: option.splits)

lemma prefetched_has_law:
  "inv s \<Longrightarrow> held (view s) objects \<Longrightarrow>
   os_has (prefetched_store S objects) s i = Inr (view s i \<noteq> None)"
  by (auto simp: prefetched_store_def prefetched_has_def has_law held_def map_le_def dom_def)

lemma to_json_prefetched:
  "inv s \<Longrightarrow> held (view s) objects \<Longrightarrow> to_json n (prefetched_store S objects) s x = to_json n S s x"
proof (induction n arbitrary: x)
  case 0
  then show ?case by (cases x) simp_all
next
  case (Suc n)
  then show ?case
    by (cases x) (simp_all add: load_object_prefetched cong: sum.case_cong)
qed

lemma tree_to_json_eq: "inv s \<Longrightarrow> tree_to_json n S s x = to_json n S s x"
  using prefetch_load_many_held [of s "[x]" USIZE_MAX]
  by (auto simp: tree_to_json_def prefetch_load_def to_json_prefetched)

lemma to_json_capped_prefetched:
  "inv s \<Longrightarrow> held (view s) objects \<Longrightarrow>
   to_json_capped (prefetched_store S objects) s x max_depth depth = to_json_capped S s x max_depth depth"
proof (induction "max_depth - depth" arbitrary: x depth rule: less_induct)
  case less
  show ?case
  proof (cases x)
    case (ONode node)
    show ?thesis
    proof (cases "max_depth \<le> depth")
      case False
      then have "to_json_capped (prefetched_store S objects) s y max_depth (depth + 1) =
          to_json_capped S s y max_depth (depth + 1)" for y
        using less by simp
      with False ONode less.prems show ?thesis
        by (simp add: to_json_capped.simps load_object_prefetched)
    qed (simp add: ONode to_json_capped.simps)
  qed (simp add: to_json_capped.simps)
qed

lemma tree_to_json_capped_eq: "inv s \<Longrightarrow> tree_to_json_capped S s x d = to_json_capped S s x d 0"
  using prefetch_load_many_held [of s "[x]" d]
  by (auto simp: tree_to_json_capped_def prefetch_load_def to_json_capped_prefetched)

end

section \<open>Reading terminates\<close>

lemma opt_results_children:
  "\<forall>p \<in> set ps. \<exists>r. f p = Some r \<Longrightarrow> opt_results (map f ps) \<noteq> None"
  by (induction ps) (auto split: option.splits sum.splits)

lemma opt_results_Inr: "opt_results (map (\<lambda>x. Some (Inr (f x))) xs) = Some (Inr (map f xs))"
  by (induction xs) simp_all

lemma opt_map_None [simp]: "opt_map f r = None \<longleftrightarrow> r = None"
  by (auto simp: opt_map_def split: option.splits sum.splits)

context object_store
begin

lemma to_json_children:
  assumes "\<And>i y. i \<in> set (child_ids x) \<Longrightarrow> load_object S s i = Inr y \<Longrightarrow> to_json n S s y \<noteq> None"
  shows "to_json (Suc n) S s x \<noteq> None"
proof (cases x)
  case (ONode node)
  have child: "\<exists>r. (case load_object S s i of Inl e \<Rightarrow> Some (Inl e) | Inr y \<Rightarrow> to_json n S s y) = Some r"
    if "i \<in> set (child_ids x)" for i
    using assms [OF that] by (auto split: sum.splits)
  let ?F = "\<lambda>i. case load_object S s i of Inl e \<Rightarrow> Some (Inl e) | Inr y \<Rightarrow> to_json n S s y"
  show ?thesis
  proof (cases node)
    case (NMap entries)
    with ONode child have "opt_results (map (\<lambda>p. ?F (snd p)) entries) \<noteq> None"
      by (intro opt_results_children) auto
    with NMap ONode show ?thesis by (simp add: Let_def)
  next
    case (NList items)
    with ONode child have "opt_results (map ?F items) \<noteq> None"
      by (intro opt_results_children) auto
    with NList ONode show ?thesis by (simp add: Let_def)
  next
    case (NSet items)
    with ONode child have "opt_results (map ?F items) \<noteq> None"
      by (intro opt_results_children) auto
    with NSet ONode show ?thesis by (simp add: Let_def)
  qed
qed simp

text \<open>In a store without cycles the rank of an object bounds the fuel its reading needs.\<close>

lemma to_json_total:
  assumes "inv s" "view_ranked rank (view s)" "view s i = Some x" "rank i < n"
  shows "to_json n S s x \<noteq> None"
  using assms(3,4)
proof (induction n arbitrary: i x)
  case (Suc n)
  show ?case
  proof (rule to_json_children)
    fix j y
    assume "j \<in> set (child_ids x)" "load_object S s j = Inr y"
    moreover from this have "rank j < rank i"
      using assms(2) Suc.prems(1) by (auto simp: view_ranked_def)
    ultimately show "to_json n S s y \<noteq> None"
      using Suc.IH [of j y] Suc.prems(2) by (simp add: load_object_eq [OF assms(1)])
  qed
qed simp

end

text \<open>More fuel does not change an answer.\<close>

lemma opt_results_mono:
  "(\<And>x r. x \<in> set xs \<Longrightarrow> f x = Some r \<Longrightarrow> g x = Some r) \<Longrightarrow> opt_results (map f xs) = Some r \<Longrightarrow>
   opt_results (map g xs) = Some r"
  by (induction xs arbitrary: r) (fastforce split: option.splits sum.splits)+

lemma to_json_mono_Suc: "to_json n S s x = Some r \<Longrightarrow> to_json (Suc n) S s x = Some r"
proof (induction n arbitrary: x r)
  case 0
  then show ?case by (cases x) simp_all
next
  case (Suc n)
  let ?f = "\<lambda>m i. case load_object S s i of Inl e \<Rightarrow> Some (Inl e) | Inr y \<Rightarrow> to_json m S s y"
  have child: "?f (Suc n) i = Some q" if "?f n i = Some q" for i q
    using that by (auto split: sum.splits dest: Suc.IH simp del: to_json.simps)
  have items: "opt_results (map (?f (Suc n)) is) = opt_results (map (?f n) is)"
    if "opt_results (map (?f n) is) \<noteq> None" for "is"
    using opt_results_mono [OF child, of "is"] that by fastforce
  have entries: "map (\<lambda>p. ?f m (snd p)) es = map (?f m) (map snd es)" for m and es :: "(string \<times> ObjectId) list"
    by simp
  show ?case
  proof (cases x)
    case (ONode node)
    let ?is = "child_ids x"
    have "opt_results (map (?f n) ?is) \<noteq> None"
      using Suc.prems ONode
      by (cases node) (auto simp: entries opt_map_def simp del: map_map split: option.splits)
    from items [OF this] Suc.prems ONode show ?thesis
      by (cases node) (simp_all add: entries Let_def del: map_map)
  qed (use Suc.prems in simp)
qed

lemma to_json_mono:
  assumes "to_json n S s x = Some r" "n \<le> m"
  shows "to_json m S s x = Some r"
  using assms(2) by (induction rule: dec_induct) (rule assms(1), rule to_json_mono_Suc)

text \<open>Where no object refers to one that is missing, reading does not fail.\<close>

lemma opt_results_isr:
  "(\<And>x r. x \<in> set xs \<Longrightarrow> f x = Some r \<Longrightarrow> \<exists>y. r = Inr y) \<Longrightarrow> opt_results (map f xs) = Some r \<Longrightarrow> \<exists>ys. r = Inr ys"
  by (induction xs arbitrary: r) (fastforce split: option.splits sum.splits)+

context object_store
begin

lemma to_json_closed:
  "inv s \<Longrightarrow> view_closed (view s) \<Longrightarrow> set (child_ids x) \<subseteq> dom (view s) \<Longrightarrow> to_json n S s x = Some r \<Longrightarrow>
   \<exists>j. r = Inr j"
proof (induction n arbitrary: x r)
  case 0
  then show ?case by (cases x) auto
next
  case (Suc n)
  let ?f = "\<lambda>i. case load_object S s i of Inl e \<Rightarrow> Some (Inl e) | Inr y \<Rightarrow> to_json n S s y"
  have child: "\<exists>j. q = Inr j" if i: "i \<in> set (child_ids x)" "?f i = Some q" for i q
  proof -
    from i(1) Suc.prems(3) obtain y where y: "view s i = Some y" by auto
    then have "set (child_ids y) \<subseteq> dom (view s)" using Suc.prems(2) by (auto simp: view_closed_def)
    with Suc.IH [OF Suc.prems(1,2)] i(2) y Suc.prems(1) show ?thesis
      by (simp add: load_object_eq ok_or_def)
  qed
  have all: "\<exists>js. q = Inr js" if "opt_results (map ?f (child_ids x)) = Some q" for q
    by (rule opt_results_isr [OF _ that]) (rule child)
  have entries: "map (\<lambda>p. ?f (snd p)) es = map ?f (map snd es)" for es :: "(string \<times> ObjectId) list"
    by simp
  show ?case
  proof (cases x)
    case (ONode node)
    with Suc.prems(4) obtain g :: "json list \<Rightarrow> json" where "opt_map g (opt_results (map ?f (child_ids x))) = Some r"
      by (cases node) (auto simp: entries Let_def simp del: map_map)
    with all show ?thesis by (auto simp: opt_map_def split: option.splits sum.splits)
  qed (use Suc.prems(4) in auto)
qed

lemma tree_to_json_answers:
  assumes "inv s" "view_dag (view s)" "tree_get S s r p = Inr x"
  shows "\<exists>j k. \<forall>n \<ge> k. tree_to_json n S s x = Some (Inr j)"
proof -
  from assms(3) obtain i where i: "view s i = Some x"
    using view_get_stored tree_get_Inr [OF assms(1)] by blast
  from assms(2) obtain rank where rank: "view_closed (view s)" "view_ranked rank (view s)"
    by (auto simp: view_dag_def)
  from to_json_total [OF assms(1) rank(2) i, of "Suc (rank i)"]
  obtain res where res: "to_json (Suc (rank i)) S s x = Some res" by auto
  with to_json_closed [OF assms(1) rank(1) view_dag_child [OF assms(2) i] res]
  obtain j where "to_json (Suc (rank i)) S s x = Some (Inr j)" by auto
  from to_json_mono [OF this] show ?thesis
    by (intro exI [of _ j] exI [of _ "Suc (rank i)"]) (simp add: tree_to_json_eq [OF assms(1)])
qed

end

section \<open>Writing a document and reading it back\<close>

text \<open>An object stands for a document in a view.\<close>

fun represents :: "view \<Rightarrow> json \<Rightarrow> Object \<Rightarrow> bool" where
  "represents v (JArray js) x \<longleftrightarrow>
     (\<exists>ids. x = ONode (NList ids) \<and>
        list_all2 (\<lambda>j i. \<exists>y. v i = Some y \<and> represents v j y) js ids)"
| "represents v (JObject m) x \<longleftrightarrow>
     (\<exists>es. x = ONode (NMap es) \<and> map fst es = map fst m \<and>
        list_all2 (\<lambda>p i. \<exists>y. v i = Some y \<and> represents v (snd p) y) m (map snd es))"
| "represents v j x \<longleftrightarrow> (\<exists>a. x = OAtom a \<and> atom_to_json a = j)"

lemma atom_to_json_from_number:
  "json_number_wf n \<Longrightarrow> \<exists>a. from_json_number n = OAtom a \<and> atom_to_json a = JNumber n \<and> object_ok (OAtom a)"
  using number_of_from_json_number [of n]
  by (cases n; cases "from_json_number n" rule: number_of_object.cases)
    (auto simp: object_ok_def from_json_number_def object_int_def object_uint_def object_float_def
      split: option.splits if_splits)

context object_store
begin

lemma to_json_represents:
  "inv s \<Longrightarrow> represents (view s) j x \<Longrightarrow> json_wf j \<Longrightarrow> json_depth j \<le> n \<Longrightarrow>
   to_json n S s x = Some (Inr j)"
proof (induction j arbitrary: x n)
  case (JArray js)
  then obtain m where n: "n = Suc m" by (cases n) auto
  from JArray.prems(2) obtain ids where x: "x = ONode (NList ids)"
    and ids: "list_all2 (\<lambda>j i. \<exists>y. view s i = Some y \<and> represents (view s) j y) js ids" by auto
  let ?child = "\<lambda>i. case load_object S s i of Inl e \<Rightarrow> Some (Inl e) | Inr y \<Rightarrow> to_json m S s y"
  have "list_all2 (\<lambda>j i. ?child i = Some (Inr j)) js ids"
  proof (rule list.rel_mono_strong [OF ids])
    fix j i assume j: "j \<in> set js" and "\<exists>y. view s i = Some y \<and> represents (view s) j y"
    then obtain y where "view s i = Some y" "represents (view s) j y" by blast
    moreover have "json_depth j \<le> m" using json_depth_child_array [OF j] JArray.prems(4) n by linarith
    ultimately show "?child i = Some (Inr j)"
      using JArray.IH [OF j JArray.prems(1)] JArray.prems(1,3) j by (simp add: load_object_eq)
  qed
  then have "map ?child ids = map (\<lambda>j. Some (Inr j)) js"
    by (induction rule: list_all2_induct) simp_all
  then show ?case
    by (simp add: n x opt_map_def Let_def opt_results_Inr)
next
  case (JObject es)
  then obtain m where n: "n = Suc m" by (cases n) auto
  from JObject.prems(2) obtain ents where x: "x = ONode (NMap ents)" and keys: "map fst ents = map fst es"
    and ids: "list_all2 (\<lambda>p i. \<exists>y. view s i = Some y \<and> represents (view s) (snd p) y) es (map snd ents)"
    by auto
  let ?child = "\<lambda>i. case load_object S s i of Inl e \<Rightarrow> Some (Inl e) | Inr y \<Rightarrow> to_json m S s y"
  have "list_all2 (\<lambda>p i. ?child i = Some (Inr (snd p))) es (map snd ents)"
  proof (rule list.rel_mono_strong [OF ids])
    fix p i assume p: "p \<in> set es" and "\<exists>y. view s i = Some y \<and> represents (view s) (snd p) y"
    then obtain y where "view s i = Some y" "represents (view s) (snd p) y" by blast
    moreover have "json_depth (snd p) \<le> m"
      using json_depth_child_object [OF p] JObject.prems(4) n by linarith
    moreover have "snd p \<in> Basic_BNFs.snds p" by (simp add: snds.simps prod_eq_iff)
    ultimately show "?child i = Some (Inr (snd p))"
      using JObject.IH [OF p _ JObject.prems(1)] JObject.prems(1,3) p by (simp add: load_object_eq)
  qed
  then have "map ?child (map snd ents) = map (\<lambda>p. Some (Inr (snd p))) es"
    by (induction rule: list_all2_induct) simp_all
  then have "opt_results (map (\<lambda>p. ?child (snd p)) ents) = Some (Inr (map snd es))"
    by (simp add: o_def opt_results_Inr)
  then show ?case
    using JObject.prems(3) by (simp add: n x opt_map_def Let_def keys zip_map_fst_snd bt_from_list_wf)
qed auto

end


text \<open>Objects listed with every child before its parent.\<close>

lemma children_first_append:
  "children_first oid seen (xs @ ys) \<longleftrightarrow>
   children_first oid seen xs \<and> children_first oid (seen \<union> oid ` set xs) ys"
  by (induction xs arbitrary: seen) (auto simp: insert_commute)

lemma children_first_mono:
  "children_first oid seen xs \<Longrightarrow> seen \<subseteq> seen' \<Longrightarrow> children_first oid seen' xs"
proof (induction xs arbitrary: seen seen')
  case (Cons x xs)
  then show ?case by (auto elim!: Cons.IH)
qed simp

lemma fold_put_dag:
  "view_dag v \<Longrightarrow> children_first oid (dom v) xs \<Longrightarrow>
   view_dag (fold (view_put oid) xs v) \<and> dom (fold (view_put oid) xs v) = dom v \<union> oid ` set xs"
proof (induction xs arbitrary: v)
  case (Cons x xs)
  have "view_dag (view_put oid x v)"
    using Cons.prems by (intro view_dag_put) simp_all
  moreover have "children_first oid (dom (view_put oid x v)) xs"
    using Cons.prems(2) by (simp add: view_put_dom_eq)
  ultimately show ?case using Cons.IH by (auto simp: view_put_dom_eq)
qed simp

definition stored :: "(Object \<Rightarrow> ObjectId) \<Rightarrow> Object list \<Rightarrow> view \<Rightarrow> bool" where
  "stored oid xs v \<longleftrightarrow> (\<forall>y \<in> set xs. v (oid y) = Some y)"

lemma fold_put_stored:
  assumes "collision_free oid"
  shows "view_addressed oid v \<Longrightarrow> list_all object_ok xs \<Longrightarrow> stored oid ys v \<Longrightarrow>
    stored oid (ys @ xs) (fold (view_put oid) xs v) \<and> view_addressed oid (fold (view_put oid) xs v)"
proof (induction xs arbitrary: v ys)
  case (Cons x xs)
  then have x: "object_ok x" "view_put oid x v = v(oid x \<mapsto> x)"
    using view_put_exact [OF assms] by auto
  have "stored oid (ys @ [x]) (view_put oid x v)"
  proof -
    have "y = x" if "y \<in> set ys" "oid y = oid x" for y
    proof -
      from Cons.prems(3) that(1) have "v (oid y) = Some y" by (simp add: stored_def)
      with Cons.prems(1) have "object_ok y" by (auto simp: view_addressed_def)
      with that(2) x(1) assms show "y = x" by (auto simp: object_ok_def intro: collision_freeD)
    qed
    then show ?thesis using Cons.prems(3) x(2) by (auto simp: stored_def)
  qed
  with Cons.IH [of "view_put oid x v" "ys @ [x]"] Cons.prems show ?case
    by (auto intro: view_put_addressed)
qed simp

lemma json_objects_correct:
  "json_wf j \<Longrightarrow> json_to_objects oid j out = (x, out') \<Longrightarrow>
     \<exists>added. out' = out @ added \<and> list_all object_ok added \<and> object_ok x \<and>
       (\<forall>seen. children_first oid seen added) \<and> set (child_ids x) \<subseteq> oid ` set added \<and>
       (\<forall>v. stored oid added v \<longrightarrow> represents v j x)"
  "list_all json_wf js \<Longrightarrow> json_items oid js out = (ids, out') \<Longrightarrow>
     \<exists>added. out' = out @ added \<and> list_all object_ok added \<and>
       (\<forall>seen. children_first oid seen added) \<and> set ids \<subseteq> oid ` set added \<and>
       (\<forall>v. stored oid added v \<longrightarrow>
          list_all2 (\<lambda>j i. \<exists>y. v i = Some y \<and> represents v j y) js ids)"
  "list_all (\<lambda>p. json_wf (snd p)) m \<Longrightarrow> json_entries oid m out = (es, out') \<Longrightarrow>
     \<exists>added. out' = out @ added \<and> list_all object_ok added \<and>
       (\<forall>seen. children_first oid seen added) \<and> snd ` set es \<subseteq> oid ` set added \<and>
       map fst es = map fst m \<and>
       (\<forall>v. stored oid added v \<longrightarrow>
          list_all2 (\<lambda>p i. \<exists>y. v i = Some y \<and> represents v (snd p) y) m (map snd es))"
proof (induction oid j out and oid js out and oid m out arbitrary: x out' and ids out' and es out'
    rule: json_to_objects_json_items_json_entries.induct)
  case (3 oid n out)
  from atom_to_json_from_number [of n] "3.prems" show ?case
    by (intro exI [of _ "[]"]) auto
next
  case (5 oid arr out)
  obtain ids out1 where ids: "json_items oid arr out = (ids, out1)" by force
  with "5.prems" have x: "x = object_list ids" "out' = out1" and wf: "list_all json_wf arr"
    by (auto simp: list_all_iff)
  from "5.IH" [OF wf ids] obtain a where "out1 = out @ a" "list_all object_ok a"
    "\<forall>seen. children_first oid seen a" "set ids \<subseteq> oid ` set a"
    "\<forall>v. stored oid a v \<longrightarrow> list_all2 (\<lambda>j i. \<exists>y. v i = Some y \<and> represents v j y) arr ids" by blast
  with x show ?case
    by (intro exI [of _ a]) (simp add: object_list_def)
next
  case (6 oid m out)
  obtain es out1 where es: "json_entries oid m out = (es, out1)" by force
  with "6.prems" have x: "x = object_map (bt_from_list es [])" "out' = out1" and wf: "bt_wf m"
    "list_all (\<lambda>p. json_wf (snd p)) m"
    by (auto simp: list_all_iff)
  from "6.IH" [OF wf(2) es] obtain a where a: "out1 = out @ a" "list_all object_ok a"
    "\<forall>seen. children_first oid seen a" "snd ` set es \<subseteq> oid ` set a" and keys: "map fst es = map fst m"
    and rep: "\<forall>v. stored oid a v \<longrightarrow>
      list_all2 (\<lambda>p i. \<exists>y. v i = Some y \<and> represents v (snd p) y) m (map snd es)" by blast
  have "bt_wf es" using wf(1) keys by (simp add: bt_wf_def)
  with x a keys rep show ?case
    by (intro exI [of _ a]) (simp add: object_map_def bt_from_list_wf)
next
  case (8 oid v vs out)
  obtain y out1 where y: "json_to_objects oid v out = (y, out1)" by force
  obtain ids2 out2 where ids2: "json_items oid vs (out1 @ [y]) = (ids2, out2)" by force
  from "8.prems" y ids2 have eq: "ids = oid y # ids2" "out' = out2" and wf: "json_wf v" "list_all json_wf vs"
    by simp_all
  from "8.IH"(1) [OF wf(1) y] obtain a where a: "out1 = out @ a" "list_all object_ok a" "object_ok y"
    "\<forall>seen. children_first oid seen a" "set (child_ids y) \<subseteq> oid ` set a"
    "\<forall>v'. stored oid a v' \<longrightarrow> represents v' v y" by blast
  from "8.IH"(2) [OF y [symmetric] refl wf(2) ids2] obtain b where b: "out2 = (out1 @ [y]) @ b" "list_all object_ok b"
    "\<forall>seen. children_first oid seen b" "set ids2 \<subseteq> oid ` set b"
    "\<forall>v'. stored oid b v' \<longrightarrow> list_all2 (\<lambda>j i. \<exists>y. v' i = Some y \<and> represents v' j y) vs ids2" by blast
  show ?case
    using a b eq by (intro exI [of _ "a @ [y] @ b"])
      (auto simp: children_first_append stored_def)
next
  case (10 oid k v m out)
  obtain y out1 where y: "json_to_objects oid v out = (y, out1)" by force
  obtain es2 out2 where es2: "json_entries oid m (out1 @ [y]) = (es2, out2)" by force
  from "10.prems" y es2 have eq: "es = (k, oid y) # es2" "out' = out2"
    and wf: "json_wf v" "list_all (\<lambda>p. json_wf (snd p)) m"
    by simp_all
  from "10.IH"(1) [OF wf(1) y] obtain a where a: "out1 = out @ a" "list_all object_ok a" "object_ok y"
    "\<forall>seen. children_first oid seen a" "set (child_ids y) \<subseteq> oid ` set a"
    "\<forall>v'. stored oid a v' \<longrightarrow> represents v' v y" by blast
  from "10.IH"(2) [OF y [symmetric] refl wf(2) es2] obtain b where b: "out2 = (out1 @ [y]) @ b" "list_all object_ok b"
    "\<forall>seen. children_first oid seen b" "snd ` set es2 \<subseteq> oid ` set b" "map fst es2 = map fst m"
    "\<forall>v'. stored oid b v' \<longrightarrow>
       list_all2 (\<lambda>p i. \<exists>y. v' i = Some y \<and> represents v' (snd p) y) m (map snd es2)" by blast
  show ?case
    using a b eq by (intro exI [of _ "a @ [y] @ b"])
      (auto simp: children_first_append stored_def)
qed (auto simp: object_null_def object_bool_def object_string_def object_ok_def)

context content_store
begin

lemma json_to_tree_correct:
  assumes "inv s" "json_wf j" "json_to_tree oid S s j = (s', r)"
  shows "\<exists>x. r = Inr (oid x) \<and> inv s' \<and> view s' (oid x) = Some x \<and> represents (view s') j x \<and>
    (view_dag (view s) \<longrightarrow> view_dag (view s'))"
proof -
  obtain x objects where x: "json_to_objects oid j [] = (x, objects)" by force
  from json_objects_correct(1) [OF assms(2) x] have ok: "list_all object_ok objects" "object_ok x"
    "\<forall>seen. children_first oid seen objects" "set (child_ids x) \<subseteq> oid ` set objects"
    and rep: "\<forall>v. stored oid objects v \<longrightarrow> represents v j x" by auto
  from ok have "list_all object_ok (objects @ [x])" by simp
  from batch_put_law [OF assms(1) this] assms(3) x
  have s': "r = Inr (oid x)" "inv s'" "view s' = fold (view_put oid) (objects @ [x]) (view s)"
    by (auto simp: json_to_tree_def)
  have "stored oid (objects @ [x]) (view s')"
    using fold_put_stored [OF coll addressed [OF assms(1)] \<open>list_all object_ok (objects @ [x])\<close>, of "[]"] s'(3)
    by (simp add: stored_def)
  then have "stored oid objects (view s')" "view s' (oid x) = Some x" by (auto simp: stored_def)
  moreover have "view_dag (view s')" if "view_dag (view s)"
  proof -
    have "children_first oid (dom (view s)) (objects @ [x])"
      using ok by (auto simp: children_first_append)
    from fold_put_dag [OF that this] s'(3) show ?thesis by simp
  qed
  ultimately show ?thesis using s' rep by blast
qed

end

end
