(* ===== verification/Memory_Laws.thy ===== *)
theory Memory_Laws
  imports Memory_Storage Symbolic_Hash Tree_Json
begin

text \<open>
  What the in-memory backend promises: it implements the object store contract, refs change only
  by the operation that names them and compare-and-swap admits one writer, what a well-formed store is,
  and the breadth-first commit walk returns each reachable commit once.
\<close>

section \<open>The object store contract\<close>

definition memory_view :: "MemoryStorage \<Rightarrow> view" where
  "memory_view s = map_of (ms_objects s)"

definition objects_inv :: "(Object \<Rightarrow> ObjectId) \<Rightarrow> MemoryStorage \<Rightarrow> bool" where
  "objects_inv oid s \<longleftrightarrow> bt_wf (ms_objects s) \<and> view_addressed oid (memory_view s)"

lemma map_of_entry_or_insert:
  "map_of (entry_or_insert k v m) = (case map_of m k of None \<Rightarrow> (map_of m)(k \<mapsto> v) | Some _ \<Rightarrow> map_of m)"
  by (simp add: entry_or_insert_def btree_simps split: option.splits)

lemma bt_wf_entry_or_insert [intro]: "bt_wf m \<Longrightarrow> bt_wf (entry_or_insert k v m)"
  by (auto simp: entry_or_insert_def split: option.splits)

lemma memory_view_put: "memory_view (fst (put_object oid s x)) = view_put oid x (memory_view s)"
  by (simp add: memory_view_def put_object_def map_of_entry_or_insert view_put_def)

lemma objects_inv_put: "objects_inv oid s \<Longrightarrow> object_ok x \<Longrightarrow> objects_inv oid (fst (put_object oid s x))"
  unfolding objects_inv_def memory_view_put by (auto simp: put_object_def)

lemma memory_batch_get: "default_batch_get get_object s ids = Inr (map (memory_view s) ids)"
  by (induction ids) (simp_all add: default_batch_get_def get_object_def memory_view_def)

lemma memory_batch_put:
  "objects_inv oid s \<Longrightarrow> list_all object_ok xs \<Longrightarrow>
   \<exists>s'. default_batch_put (put_object oid) s xs = (s', Inr (map oid xs)) \<and> objects_inv oid s'
     \<and> memory_view s' = fold (view_put oid) xs (memory_view s)"
proof (induction xs arbitrary: s)
  case (Cons x xs)
  obtain s1 where s1: "put_object oid s x = (s1, Inr (oid x))"
    by (simp add: put_object_def)
  with Cons.prems have "objects_inv oid s1" "memory_view s1 = view_put oid x (memory_view s)"
    using objects_inv_put [of oid s x] memory_view_put [of oid s x] by auto
  with Cons.IH [of s1] Cons.prems(2) s1 show ?case by auto
qed simp

interpretation mem: object_store "memory_store oid" oid memory_view "objects_inv oid"
  for oid
proof unfold_locales
  show "\<exists>s'. os_put (memory_store oid) s x = (s', Inr (oid x)) \<and> objects_inv oid s'
      \<and> memory_view s' = view_put oid x (memory_view s)"
    if "objects_inv oid s" "object_ok x" for s x
    using objects_inv_put [OF that] memory_view_put [of oid s x]
    by (auto simp: memory_store_def put_object_def)
next
  show "\<exists>s'. os_batch_put (memory_store oid) s xs = (s', Inr (map oid xs)) \<and> objects_inv oid s'
      \<and> memory_view s' = fold (view_put oid) xs (memory_view s)"
    if "objects_inv oid s" "list_all object_ok xs" for s xs
    using memory_batch_put [OF that] by (simp add: memory_store_def)
qed (auto simp: memory_store_def get_object_def has_object_def memory_view_def memory_batch_get
      objects_inv_def)

text \<open>With ids that identify contents it is a content-addressed store.\<close>

lemma memory_content_store:
  "collision_free oid \<Longrightarrow> content_store (memory_store oid) oid memory_view (objects_inv oid)"
  by (intro content_store.intro mem.object_store_axioms content_store_axioms.intro)

interpretation sym: content_store "memory_store sym_oid" sym_oid memory_view "objects_inv sym_oid"
  by (rule memory_content_store) simp

lemma objects_inv_new [simp]: "objects_inv oid memory_new"
  by (simp add: objects_inv_def memory_new_def memory_view_def view_addressed_def)

lemma memory_view_new [simp]: "memory_view memory_new = Map.empty"
  by (simp add: memory_new_def memory_view_def)

section \<open>Refs\<close>

text \<open>The ref store contract, against the map from the namespaces that exist to their refs.\<close>

locale ref_store =
  fixes get :: "'s \<Rightarrow> Namespace \<Rightarrow> string \<Rightarrow> StorageError + ObjectId option"
    and put :: "'s \<Rightarrow> Namespace \<Rightarrow> string \<Rightarrow> ObjectId \<Rightarrow> 's \<times> (StorageError + unit)"
    and cas :: "'s \<Rightarrow> Namespace \<Rightarrow> string \<Rightarrow> ObjectId \<Rightarrow> ObjectId \<Rightarrow> 's \<times> (StorageError + bool)"
    and create :: "'s \<Rightarrow> Namespace \<Rightarrow> string \<Rightarrow> ObjectId \<Rightarrow> 's \<times> (StorageError + bool)"
    and cas_delete :: "'s \<Rightarrow> Namespace \<Rightarrow> string \<Rightarrow> ObjectId \<Rightarrow> 's \<times> (StorageError + bool)"
    and delete :: "'s \<Rightarrow> Namespace \<Rightarrow> string \<Rightarrow> 's \<times> (StorageError + bool)"
    and refs :: "'s \<Rightarrow> Namespace \<Rightarrow> (string \<rightharpoonup> ObjectId) option"
  assumes get_law: "get s ns name =
      (case refs s ns of None \<Rightarrow> Inl (SNamespaceNotFound (ns_str ns)) | Some m \<Rightarrow> Inr (m name))"
    and missing: "refs s ns = None \<Longrightarrow>
      put s ns name t = (s, Inl (SNamespaceNotFound (ns_str ns)))
      \<and> cas s ns name x t = (s, Inl (SNamespaceNotFound (ns_str ns)))
      \<and> create s ns name t = (s, Inl (SNamespaceNotFound (ns_str ns)))
      \<and> cas_delete s ns name x = (s, Inl (SNamespaceNotFound (ns_str ns)))
      \<and> delete s ns name = (s, Inl (SNamespaceNotFound (ns_str ns)))"
    and put_law: "refs s ns = Some m \<Longrightarrow>
      \<exists>s'. put s ns name t = (s', Inr ()) \<and> refs s' = (refs s)(ns \<mapsto> m(name \<mapsto> t))"
    and cas_hit: "refs s ns = Some m \<Longrightarrow> m name = Some x \<Longrightarrow>
      \<exists>s'. cas s ns name x t = (s', Inr True) \<and> refs s' = (refs s)(ns \<mapsto> m(name \<mapsto> t))"
    and cas_miss: "refs s ns = Some m \<Longrightarrow> m name \<noteq> Some x \<Longrightarrow> cas s ns name x t = (s, Inr False)"
    and create_law: "refs s ns = Some m \<Longrightarrow> m name = None \<Longrightarrow>
      \<exists>s'. create s ns name t = (s', Inr True) \<and> refs s' = (refs s)(ns \<mapsto> m(name \<mapsto> t))"
    and create_taken: "refs s ns = Some m \<Longrightarrow> m name \<noteq> None \<Longrightarrow>
      create s ns name t = (s, Inr False)"
    and cas_delete_hit: "refs s ns = Some m \<Longrightarrow> m name = Some x \<Longrightarrow>
      \<exists>s'. cas_delete s ns name x = (s', Inr True) \<and> refs s' = (refs s)(ns \<mapsto> m(name := None))"
    and cas_delete_miss: "refs s ns = Some m \<Longrightarrow> m name \<noteq> Some x \<Longrightarrow>
      cas_delete s ns name x = (s, Inr False)"
    and delete_law: "refs s ns = Some m \<Longrightarrow>
      \<exists>s'. delete s ns name = (s', Inr (m name \<noteq> None)) \<and> refs s' = (refs s)(ns \<mapsto> m(name := None))"

text \<open>Writers that have all read the same target and try to swap it, one after another.\<close>

fun cas_attempts ::
  "('s \<Rightarrow> Namespace \<Rightarrow> string \<Rightarrow> ObjectId \<Rightarrow> ObjectId \<Rightarrow> 's \<times> (StorageError + bool)) \<Rightarrow>
   's \<Rightarrow> Namespace \<Rightarrow> string \<Rightarrow> ObjectId \<Rightarrow> ObjectId list \<Rightarrow> 's \<times> (StorageError + bool) list" where
  "cas_attempts cas s ns name x [] = (s, [])"
| "cas_attempts cas s ns name x (t # ts) =
     (case cas s ns name x t of (s', r) \<Rightarrow>
        (case cas_attempts cas s' ns name x ts of (s'', rs) \<Rightarrow> (s'', r # rs)))"

context ref_store
begin

lemma get_Inr: "refs s ns = Some m \<Longrightarrow> get s ns name = Inr (m name)"
  by (simp add: get_law)

lemma get_Inr_iff: "get s ns name = Inr v \<longleftrightarrow> (\<exists>m. refs s ns = Some m \<and> m name = v)"
  by (auto simp: get_law split: option.splits)

lemma losing_attempts:
  "refs s ns = Some m \<Longrightarrow> m name \<noteq> Some x \<Longrightarrow>
   cas_attempts cas s ns name x ts = (s, replicate (length ts) (Inr False))"
  by (induction ts) (simp_all add: cas_miss)

lemma cas_frame:
  assumes "cas s ns name x t = (s', r)" "(ns', name') \<noteq> (ns, name)"
  shows "get s' ns' name' = get s ns' name'"
proof (cases "refs s ns")
  case None
  with missing assms(1) show ?thesis by simp
next
  case (Some m)
  show ?thesis
  proof (cases "m name = Some x")
    case True
    with cas_hit [OF Some this, of t] assms Some show ?thesis
      by (auto simp: get_law split: option.splits)
  next
    case False
    with cas_miss [OF Some this, of t] assms show ?thesis by simp
  qed
qed

lemma one_winner:
  assumes "get s ns name = Inr (Some x)" "t \<noteq> x"
  shows "\<exists>s'. cas_attempts cas s ns name x (t # ts) = (s', Inr True # replicate (length ts) (Inr False))
    \<and> get s' ns name = Inr (Some t)
    \<and> (\<forall>ns' name'. (ns', name') \<noteq> (ns, name) \<longrightarrow> get s' ns' name' = get s ns' name')"
proof -
  from assms(1) obtain m where m: "refs s ns = Some m" "m name = Some x"
    by (auto simp: get_Inr_iff)
  from cas_hit [OF m, of t] obtain s' where s': "cas s ns name x t = (s', Inr True)"
    "refs s' = (refs s)(ns \<mapsto> m(name \<mapsto> t))" by blast
  then have "cas_attempts cas s' ns name x ts = (s', replicate (length ts) (Inr False))"
    using assms(2) by (intro losing_attempts [where m = "m(name \<mapsto> t)"]) auto
  with s' cas_frame [OF s'(1)] show ?thesis by (auto simp: get_law)
qed

lemma create_then_delete:
  assumes "create s ns name t = (s', Inr True)"
  shows "\<exists>s''. cas_delete s' ns name t = (s'', Inr True) \<and> refs s'' = refs s"
proof (cases "refs s ns")
  case None
  with missing assms show ?thesis by auto
next
  case (Some m)
  with assms create_taken [OF Some] have free: "m name = None" by force
  from create_law [OF Some free, of t] assms
  have r: "refs s' = (refs s)(ns \<mapsto> m(name \<mapsto> t))" by auto
  then have "refs s' ns = Some (m(name \<mapsto> t))" by simp
  from cas_delete_hit [OF this, of name t] r Some free show ?thesis
    by (auto simp: fun_upd_idem)
qed

end

definition memory_refs :: "MemoryStorage \<Rightarrow> Namespace \<Rightarrow> (string \<rightharpoonup> ObjectId) option" where
  "memory_refs s ns =
     (if ns_str ns \<in> set (ms_namespaces s)
      then Some (\<lambda>name. map_of (ms_refs s) (ns_str ns, name)) else None)"

lemmas ref_ops = require_namespace_def get_ref_def set_ref_def set_ref_write_def cas_ref_def
  cas_ref_swap_def create_ref_def create_ref_write_def cas_delete_ref_def cas_delete_ref_write_def
  delete_ref_def delete_ref_write_def

lemma Namespace_eq_iff: "ns = ns' \<longleftrightarrow> ns_str ns = ns_str ns'"
  by (cases ns; cases ns') simp

lemma memory_refs_insert:
  "ns_str ns \<in> set (ms_namespaces s) \<Longrightarrow>
   memory_refs (s\<lparr>ms_refs := bt_insert (ns_str ns, name) t (ms_refs s)\<rparr>) =
   (memory_refs s)(ns \<mapsto> (\<lambda>n. map_of (ms_refs s) (ns_str ns, n))(name \<mapsto> t))"
  by (auto simp: memory_refs_def btree_simps fun_eq_iff Namespace_eq_iff)

lemma memory_refs_remove:
  "ns_str ns \<in> set (ms_namespaces s) \<Longrightarrow>
   memory_refs (s\<lparr>ms_refs := bt_remove (ns_str ns, name) (ms_refs s)\<rparr>) =
   (memory_refs s)(ns \<mapsto> (\<lambda>n. map_of (ms_refs s) (ns_str ns, n))(name := None))"
  by (auto simp: memory_refs_def btree_simps fun_eq_iff Namespace_eq_iff)

interpretation memref: ref_store get_ref set_ref cas_ref create_ref cas_delete_ref delete_ref
  memory_refs
proof unfold_locales
  fix s ns name t x m
  show "get_ref s ns name =
      (case memory_refs s ns of None \<Rightarrow> Inl (SNamespaceNotFound (ns_str ns)) | Some m \<Rightarrow> Inr (m name))"
    by (simp add: ref_ops memory_refs_def)
  show "memory_refs s ns = None \<Longrightarrow>
      set_ref s ns name t = (s, Inl (SNamespaceNotFound (ns_str ns)))
      \<and> cas_ref s ns name x t = (s, Inl (SNamespaceNotFound (ns_str ns)))
      \<and> create_ref s ns name t = (s, Inl (SNamespaceNotFound (ns_str ns)))
      \<and> cas_delete_ref s ns name x = (s, Inl (SNamespaceNotFound (ns_str ns)))
      \<and> delete_ref s ns name = (s, Inl (SNamespaceNotFound (ns_str ns)))"
    by (simp add: ref_ops memory_refs_def split: if_splits)
  assume m: "memory_refs s ns = Some m"
  then have ns: "ns_str ns \<in> set (ms_namespaces s)"
    and m_eq: "m = (\<lambda>n. map_of (ms_refs s) (ns_str ns, n))"
    by (auto simp: memory_refs_def split: if_splits)
  note upd = memory_refs_insert [OF ns] memory_refs_remove [OF ns]
  show "\<exists>s'. set_ref s ns name t = (s', Inr ()) \<and> memory_refs s' = (memory_refs s)(ns \<mapsto> m(name \<mapsto> t))"
    using ns by (simp add: ref_ops upd m_eq)
  show "m name = Some x \<Longrightarrow> \<exists>s'. cas_ref s ns name x t = (s', Inr True)
      \<and> memory_refs s' = (memory_refs s)(ns \<mapsto> m(name \<mapsto> t))"
    using ns by (simp add: ref_ops upd m_eq)
  show "m name \<noteq> Some x \<Longrightarrow> cas_ref s ns name x t = (s, Inr False)"
    using ns by (auto simp: ref_ops m_eq split: option.splits)
  show "m name = None \<Longrightarrow> \<exists>s'. create_ref s ns name t = (s', Inr True)
      \<and> memory_refs s' = (memory_refs s)(ns \<mapsto> m(name \<mapsto> t))"
    using ns by (simp add: ref_ops upd m_eq)
  show "m name \<noteq> None \<Longrightarrow> create_ref s ns name t = (s, Inr False)"
    using ns by (auto simp: ref_ops m_eq)
  show "m name = Some x \<Longrightarrow> \<exists>s'. cas_delete_ref s ns name x = (s', Inr True)
      \<and> memory_refs s' = (memory_refs s)(ns \<mapsto> m(name := None))"
    using ns by (simp add: ref_ops upd m_eq)
  show "m name \<noteq> Some x \<Longrightarrow> cas_delete_ref s ns name x = (s, Inr False)"
    using ns by (simp add: ref_ops m_eq)
  show "\<exists>s'. delete_ref s ns name = (s', Inr (m name \<noteq> None))
      \<and> memory_refs s' = (memory_refs s)(ns \<mapsto> m(name := None))"
    using ns by (simp add: ref_ops upd m_eq)
qed

section \<open>Well-formedness\<close>

definition same_active_taint :: "Taint \<Rightarrow> Taint \<Rightarrow> bool" where
  "same_active_taint a b \<longleftrightarrow> ta_resolved_at a = None \<and> ta_resolved_at b = None \<and>
     ta_path a = ta_path b \<and> ta_name a = ta_name b \<and> ta_kind a = ta_kind b"

definition namespaces_inv :: "MemoryStorage \<Rightarrow> bool" where
  "namespaces_inv s \<longleftrightarrow> distinct (ms_namespaces s) \<and> DEFAULT_NS \<in> set (ms_namespaces s) \<and>
     (\<forall>n \<in> set (ms_namespaces s). namespace_new n = Inr (Namespace n))"

definition refs_inv :: "MemoryStorage \<Rightarrow> bool" where
  "refs_inv s \<longleftrightarrow> bt_wf (ms_refs s) \<and> (\<forall>k \<in> fst ` set (ms_refs s). fst k \<in> set (ms_namespaces s))"

definition commits_inv :: "MemoryStorage \<Rightarrow> bool" where
  "commits_inv s \<longleftrightarrow> bt_wf (ms_commits s) \<and> bt_wf (ms_commit_traces s) \<and>
     (\<forall>(i, c) \<in> set (ms_commits s). cm_id c = i)"

definition epochs_inv :: "MemoryStorage \<Rightarrow> bool" where
  "epochs_inv s \<longleftrightarrow> distinct (map ep_id (ms_epochs s)) \<and> distinct (map fst (ms_commit_epoch s)) \<and>
     snd ` set (ms_commit_epoch s) \<subseteq> ep_id ` set (ms_epochs s)"

definition sessions_inv :: "MemoryStorage \<Rightarrow> bool" where
  "sessions_inv s \<longleftrightarrow> bt_wf (ms_sessions s) \<and> (\<forall>(i, x) \<in> set (ms_sessions s). se_id x = i) \<and>
     distinct (map fst (ms_commit_session s)) \<and>
     snd ` set (ms_commit_session s) \<subseteq> fst ` set (ms_sessions s)"

definition taints_inv :: "MemoryStorage \<Rightarrow> bool" where
  "taints_inv s \<longleftrightarrow> sorted_wrt (\<lambda>a b. \<not> same_active_taint a b) (ms_taints s)"

lemma set_bt_insert: "set (bt_insert k v m) \<subseteq> insert (k, v) (set m)"
  by (induction k v m rule: bt_insert.induct) auto

lemma set_bt_remove: "set (bt_remove k m) \<subseteq> set m"
  by (auto simp: bt_remove_def)

lemma update_epoch_ids [simp]:
  "(\<And>e. ep_id (f e) = ep_id e) \<Longrightarrow> map ep_id (update_epoch i f es) = map ep_id es"
  by (induction i f es rule: update_epoch.induct) auto

lemma find_epoch_update:
  "(\<And>e. ep_id (f e) = ep_id e) \<Longrightarrow>
   find_epoch j (update_epoch i f es) =
   (if j = i then map_option f (find_epoch i es) else find_epoch j es)"
  by (induction i f es rule: update_epoch.induct) (auto simp: find_epoch_def)

lemma find_epoch_SomeD: "find_epoch i es = Some e \<Longrightarrow> ep_id e = i \<and> e \<in> set es"
  by (auto simp: find_epoch_def find_Some_iff)

lemma find_epoch_append:
  "find_epoch i (es @ [e]) =
   (case find_epoch i es of Some x \<Rightarrow> Some x | None \<Rightarrow> if ep_id e = i then Some e else None)"
  by (induction es) (auto simp: find_epoch_def)

lemma update_epoch_id_set [simp]:
  "(\<And>e. ep_id (f e) = ep_id e) \<Longrightarrow> ep_id ` set (update_epoch i f es) = ep_id ` set es"
  by (metis list.set_map update_epoch_ids)

lemma relink_distinct: "distinct (map fst as) \<Longrightarrow> distinct (map fst (relink c i as))"
  by (induction as) (auto simp: relink_def)

lemma relink_range: "snd ` set (relink c i as) \<subseteq> insert i (snd ` set as)"
  by (auto simp: relink_def)

text \<open>Updating a taint in place keeps the active ones apart when the update revives none.\<close>

lemma update_taint_set: "set (update_taint i f ts) \<subseteq> set ts \<union> f ` set ts"
  by (induction i f ts rule: update_taint.induct) auto

lemma update_taint_inv:
  assumes "\<And>a b. same_active_taint (f a) b \<Longrightarrow> same_active_taint a b"
    and "\<And>a b. same_active_taint a (f b) \<Longrightarrow> same_active_taint a b"
  shows "sorted_wrt (\<lambda>a b. \<not> same_active_taint a b) ts \<Longrightarrow>
    sorted_wrt (\<lambda>a b. \<not> same_active_taint a b) (update_taint i f ts)"
proof (induction ts)
  case (Cons t ts)
  have upd: "\<not> same_active_taint t y" if y: "y \<in> set (update_taint i f ts)" for y
  proof (cases "y \<in> set ts")
    case False
    with y update_taint_set [of i f ts] obtain z where "z \<in> set ts" "y = f z" by blast
    with Cons.prems assms(2) [of t z] show ?thesis by auto
  qed (use Cons.prems in auto)
  have "\<not> same_active_taint (f t) y" if "y \<in> set ts" for y
    using Cons.prems assms(1) [of t y] that by auto
  with upd Cons show ?case by simp
qed simp

lemma list_namespaces_total:
  assumes "namespaces_inv s"
  shows "\<exists>names. list_namespaces s = Some (Inr names) \<and> ns_str ` set names = set (ms_namespaces s)
    \<and> sorted (map ns_str names)"
proof -
  have "map namespace_new (ms_namespaces s) = map Inr (map Namespace (ms_namespaces s))"
    using assms by (simp add: namespaces_inv_def)
  then have "collect_results (map namespace_new (ms_namespaces s)) = Inr (map Namespace (ms_namespaces s))"
    by (metis collect_results_map_Inr)
  then show ?thesis by (simp add: list_namespaces_def image_comp o_def)
qed

text \<open>Deleting a namespace leaves the refs of the others alone.\<close>

lemma delete_namespace_refs:
  assumes "delete_namespace s ns = (s', r)" "ns' \<noteq> ns"
  shows "memory_refs s' ns' = memory_refs s ns'"
proof -
  have "map_of (filter (\<lambda>((n, _), _). n \<noteq> a) m) (b, x) = map_of m (b, x)" if "b \<noteq> a"
    for a b x and m :: "(string \<times> string, ObjectId) btree"
    using that by (induction m) auto
  with assms show ?thesis
    by (auto simp: delete_namespace_def namespace_removed_def refs_purged_def memory_refs_def Namespace_eq_iff split: if_splits)
qed

section \<open>The commit walk\<close>

definition parent_edge ::
  "(ObjectId \<Rightarrow> StorageError + Commit option) \<Rightarrow> ObjectId \<Rightarrow> ObjectId \<Rightarrow> bool" where
  "parent_edge get i p \<longleftrightarrow> (\<exists>c. get i = Inr (Some c) \<and> p \<in> set (cm_parents c))"

definition walk_inv ::
  "(ObjectId \<Rightarrow> StorageError + Commit option) \<Rightarrow> ObjectId \<Rightarrow> nat \<Rightarrow> ObjectId list \<Rightarrow> ObjectId list \<Rightarrow>
   Commit list \<Rightarrow> ObjectId list \<Rightarrow> bool" where
  "walk_inv get from limit seen frontier commits ids \<longleftrightarrow>
     list_all2 (\<lambda>i c. get i = Inr (Some c)) ids commits \<and> distinct ids \<and> set ids \<subseteq> set seen \<and>
     length commits \<le> limit \<and> from \<in> set seen \<union> set frontier \<and>
     (\<forall>i \<in> set seen \<union> set frontier. (parent_edge get)\<^sup>*\<^sup>* from i) \<and>
     (\<forall>i \<in> set seen. \<forall>c. get i = Inr (Some c) \<longrightarrow>
        i \<in> set ids \<and> (\<forall>p \<in> set (cm_parents c). p \<in> set seen \<union> set frontier))"

definition walk_result ::
  "(ObjectId \<Rightarrow> StorageError + Commit option) \<Rightarrow> ObjectId \<Rightarrow> nat \<Rightarrow> CommitWalk \<Rightarrow> ObjectId list \<Rightarrow> bool" where
  "walk_result get from limit w ids \<longleftrightarrow>
     list_all2 (\<lambda>i c. get i = Inr (Some c)) ids (cw_commits w) \<and> distinct ids \<and>
     length (cw_commits w) \<le> limit \<and> (\<forall>i \<in> set ids. (parent_edge get)\<^sup>*\<^sup>* from i) \<and>
     (cw_truncated w \<longrightarrow> length (cw_commits w) = limit) \<and>
     (\<not> cw_truncated w \<longrightarrow>
        (\<forall>i c. (parent_edge get)\<^sup>*\<^sup>* from i \<and> get i = Inr (Some c) \<longrightarrow> i \<in> set ids))"

lemma walk_inv_closed:
  assumes "walk_inv get from limit seen [] commits ids" "(parent_edge get)\<^sup>*\<^sup>* from i"
  shows "i \<in> set seen"
  using assms(2)
proof (induction rule: rtranclp_induct)
  case base
  with assms(1) show ?case by (simp add: walk_inv_def)
next
  case (step y z)
  with assms(1) show ?case by (fastforce simp: walk_inv_def parent_edge_def)
qed

lemma walk_inv_parents:
  "walk_inv get from limit seen frontier commits ids \<Longrightarrow> i \<in> set seen \<Longrightarrow> get i = Inr (Some c) \<Longrightarrow>
   i \<in> set ids \<and> set (cm_parents c) \<subseteq> set seen \<union> set frontier"
  unfolding walk_inv_def by blast

lemma walk_invI:
  assumes "list_all2 (\<lambda>i c. get i = Inr (Some c)) ids commits" "distinct ids" "set ids \<subseteq> set seen"
    "length commits \<le> limit" "from \<in> set seen \<union> set frontier"
    "\<And>i. i \<in> set seen \<union> set frontier \<Longrightarrow> (parent_edge get)\<^sup>*\<^sup>* from i"
    "\<And>i c. i \<in> set seen \<Longrightarrow> get i = Inr (Some c) \<Longrightarrow>
      i \<in> set ids \<and> set (cm_parents c) \<subseteq> set seen \<union> set frontier"
  shows "walk_inv get from limit seen frontier commits ids"
  unfolding walk_inv_def using assms by (intro conjI) blast+

lemma walk_inv_skip:
  assumes "walk_inv get from limit seen (i # frontier) commits ids" "i \<in> set seen"
  shows "walk_inv get from limit seen frontier commits ids"
proof (rule walk_invI)
  show "j \<in> set ids \<and> set (cm_parents c) \<subseteq> set seen \<union> set frontier"
    if "j \<in> set seen" "get j = Inr (Some c)" for j c
    using walk_inv_parents [OF assms(1) that] assms(2) by auto
qed (use assms in \<open>simp_all add: walk_inv_def; blast\<close>)+

lemma walk_inv_missing:
  assumes "walk_inv get from limit seen (i # frontier) commits ids" "get i = Inr None"
  shows "walk_inv get from limit (i # seen) frontier commits ids"
proof (rule walk_invI)
  show "j \<in> set ids \<and> set (cm_parents c) \<subseteq> set (i # seen) \<union> set frontier"
    if "j \<in> set (i # seen)" "get j = Inr (Some c)" for j c
    using walk_inv_parents [OF assms(1), of j c] that assms(2) by auto
qed (use assms in \<open>auto simp: walk_inv_def simp del: Inr_inject\<close>)

lemma walk_inv_visit:
  assumes inv: "walk_inv get from limit seen (i # frontier) commits ids"
    and i: "i \<notin> set seen" "get i = Inr (Some c)" and room: "length commits < limit"
  shows "walk_inv get from limit (i # seen)
    (frontier @ filter (\<lambda>p. p \<notin> set (i # seen)) (cm_parents c)) (commits @ [c]) (ids @ [i])"
proof (rule walk_invI)
  have reach: "(parent_edge get)\<^sup>*\<^sup>* from i"
    using inv by (simp add: walk_inv_def)
  then have "(parent_edge get)\<^sup>*\<^sup>* from p" if "p \<in> set (cm_parents c)" for p
    using i(2) that by (auto simp: parent_edge_def intro: rtranclp.rtrancl_into_rtrancl)
  with inv reach show "(parent_edge get)\<^sup>*\<^sup>* from j"
    if "j \<in> set (i # seen) \<union> set (frontier @ filter (\<lambda>p. p \<notin> set (i # seen)) (cm_parents c))" for j
    using that by (auto simp: walk_inv_def)
next
  show "j \<in> set (ids @ [i]) \<and> set (cm_parents d) \<subseteq> set (i # seen) \<union>
      set (frontier @ filter (\<lambda>p. p \<notin> set (i # seen)) (cm_parents c))"
    if "j \<in> set (i # seen)" "get j = Inr (Some d)" for j d
    using walk_inv_parents [OF inv, of j d] that i(2) by auto
next
  show "list_all2 (\<lambda>i c. get i = Inr (Some c)) (ids @ [i]) (commits @ [c])"
    using inv i(2) by (simp add: walk_inv_def list_all2_appendI)
qed (use inv i room in \<open>auto simp: walk_inv_def\<close>)

lemma dag_walk_correct:
  "\<forall>i. \<exists>r. get i = Inr r \<Longrightarrow> walk_inv get from limit seen frontier commits ids \<Longrightarrow>
   \<exists>w ids'. dag_walk get limit seen frontier commits = Inr w \<and> walk_result get from limit w ids'"
proof (induction get limit seen frontier commits arbitrary: ids rule: dag_walk.induct)
  case (1 get limit seen commits)
  have "i \<in> set ids" if "(parent_edge get)\<^sup>*\<^sup>* from i" "get i = Inr (Some c)" for i c
    using walk_inv_closed [OF "1.prems"(2) that(1)] walk_inv_parents [OF "1.prems"(2) _ that(2)]
    by blast
  with "1.prems"(2) have "walk_result get from limit \<lparr>cw_commits = commits, cw_truncated = False\<rparr> ids"
    unfolding walk_inv_def walk_result_def by simp blast
  then show ?case by auto
next
  case (2 get limit seen i frontier commits)
  show ?case
  proof (cases "limit \<le> length commits")
    case True
    with "2.prems"(2) have "walk_result get from limit \<lparr>cw_commits = commits, cw_truncated = True\<rparr> ids"
      by (simp add: walk_result_def walk_inv_def; blast)
    with True show ?thesis by auto
  next
    case room: False
    then have room': "length commits < limit" by simp
    show ?thesis
    proof (cases "i \<in> set seen")
      case True
      with room "2.IH"(1) "2.prems"(1) walk_inv_skip [OF "2.prems"(2)] show ?thesis by auto
    next
      case new: False
      from "2.prems"(1) obtain r where r: "get i = Inr r" by blast
      show ?thesis
      proof (cases r)
        case None
        with r have "get i = Inr None" by simp
        with room new "2.IH"(2) [OF room new this refl "2.prems"(1)
            walk_inv_missing [OF "2.prems"(2) this]]
        show ?thesis by simp
      next
        case (Some c)
        with r have "get i = Inr (Some c)" by simp
        with room new "2.IH"(3) [OF room new this refl "2.prems"(1)
            walk_inv_visit [OF "2.prems"(2) new this room']]
        show ?thesis by simp
      qed
    qed
  qed
qed

lemma list_commits_dag_correct:
  assumes "\<forall>i. \<exists>r. get i = Inr r"
  shows "\<exists>w ids. list_commits_dag get from limit = Inr w \<and> walk_result get from limit w ids"
  unfolding list_commits_dag_def
  by (rule dag_walk_correct [OF assms, of "from" limit "[]" "[from]" "[]" "[]"]) (simp add: walk_inv_def)

text \<open>In the memory store the ids are those the commits carry.\<close>

lemma memory_dag_walk:
  assumes "commits_inv s"
  shows "\<exists>w. list_commits_dag (get_commit s) from limit = Inr w
    \<and> walk_result (get_commit s) from limit w (map cm_id (cw_commits w))"
proof -
  obtain w ids where w: "list_commits_dag (get_commit s) from limit = Inr w"
    "walk_result (get_commit s) from limit w ids"
    using list_commits_dag_correct [of "get_commit s" "from" limit] by (force simp: get_commit_def)
  have cm: "cm_id c = i" if "get_commit s i = Inr (Some c)" for i c
    using assms that by (auto simp: get_commit_def commits_inv_def dest: map_of_SomeD)
  have "list_all2 (\<lambda>i c. get_commit s i = Inr (Some c)) ids cs \<Longrightarrow> ids = map cm_id cs" for cs
    by (induction ids cs rule: list_all2_induct) (auto dest: cm)
  with w(2) have "ids = map cm_id (cw_commits w)" by (simp add: walk_result_def)
  with w show ?thesis by blast
qed

text \<open>The first-parent walk follows first parents and stops at a missing commit, a root or the
  limit.\<close>

lemma first_parent_walk_length: "length (first_parent_walk store n i) \<le> n"
  by (induction store n i rule: first_parent_walk.induct) (auto split: option.splits)

lemma first_parent_walk_chain:
  "cs = first_parent_walk store n i \<Longrightarrow> Suc k < length cs \<Longrightarrow>
   \<exists>p ps. cm_parents (cs ! k) = p # ps \<and> map_of store p = Some (cs ! Suc k)"
proof (induction store n i arbitrary: cs k rule: first_parent_walk.induct)
  case (3 store n i)
  then obtain c where c: "map_of store i = Some c"
    by (auto split: option.splits)
  let ?next = "case cm_parents c of [] \<Rightarrow> None | p # _ \<Rightarrow> Some p"
  have cs: "cs = c # first_parent_walk store n ?next" using 3 c by simp
  show ?case
  proof (cases k)
    case 0
    with cs "3.prems"(2) obtain d ds where ds: "first_parent_walk store n ?next = d # ds"
      by (cases "first_parent_walk store n ?next") auto
    then obtain p ps where p: "cm_parents c = p # ps" "map_of store p = Some d"
      by (cases n; cases "cm_parents c") (auto split: option.splits)
    with 0 cs ds show ?thesis by simp
  next
    case (Suc j)
    with "3.IH" [OF c refl, of j] cs "3.prems"(2) show ?thesis by simp
  qed
qed simp_all

end
