(* ===== verification/Diff.thy ===== *)
theory Diff
  imports Object_Store
begin

text \<open>
  The structured diff, from \<open>crates/agentstategraph-core/src/diff.rs\<close>. An \<open>ObjectResolver\<close> is a
  partial function from ids to objects (\<^typ>\<open>view\<close>). The recursion goes through the resolver, so it
  is bounded by fuel: \<^const>\<open>None\<close> is a run that needs more. The helpers for maps and lists take the
  recursive call as an argument.

  The lemmas show that fuel above the height of the trees is enough, that every reported operation
  describes a difference at its path, that every atom that changes in place is reported, and that
  the empty diff means equal trees.
\<close>

section \<open>Operations\<close>

datatype DiffValue =
    DvNull
  | DvBool bool
  | DvInt i64
  | DvUInt u64
  | DvFloat f64
  | DvString string
  | DvBytes "u8 list"
  | DvComplex string

fun dv_from_atom :: "Atom \<Rightarrow> DiffValue" where
  "dv_from_atom ANull = DvNull"
| "dv_from_atom (ABool b) = DvBool b"
| "dv_from_atom (AInt i) = DvInt i"
| "dv_from_atom (AUInt u) = DvUInt u"
| "dv_from_atom (AFloat f) = DvFloat f"
| "dv_from_atom (AString s) = DvString s"
| "dv_from_atom (ABytes b) = DvBytes b"

fun dv_from_node :: "Node \<Rightarrow> DiffValue" where
  "dv_from_node (NMap entries) = DvComplex (''{map: '' @ show_nat (length entries) @ '' keys}'')"
| "dv_from_node (NList items) = DvComplex (''[list: '' @ show_nat (length items) @ '' items]'')"
| "dv_from_node (NSet items) = DvComplex (''{set: '' @ show_nat (length items) @ '' items}'')"

fun dv_from_object :: "Object \<Rightarrow> DiffValue" where
  "dv_from_object (OAtom a) = dv_from_atom a"
| "dv_from_object (ONode n) = dv_from_node n"

datatype DiffOp =
    SetValue string DiffValue DiffValue
  | AddKey string string DiffValue
  | RemoveKey string string DiffValue
  | AddElement string nat DiffValue
  | RemoveElement string nat DiffValue
  | AddToSet string DiffValue
  | RemoveFromSet string DiffValue
  | ChangeType string string string

fun diff_type_name :: "Object \<Rightarrow> string" where
  "diff_type_name (OAtom ANull) = ''null''"
| "diff_type_name (OAtom (ABool _)) = ''bool''"
| "diff_type_name (OAtom (AInt _)) = ''int''"
| "diff_type_name (OAtom (AUInt _)) = ''int''"
| "diff_type_name (OAtom (AFloat _)) = ''float''"
| "diff_type_name (OAtom (AString _)) = ''string''"
| "diff_type_name (OAtom (ABytes _)) = ''bytes''"
| "diff_type_name (ONode (NMap _)) = ''map''"
| "diff_type_name (ONode (NList _)) = ''list''"
| "diff_type_name (ONode (NSet _)) = ''set''"

section \<open>The algorithm\<close>

text \<open>\<open>resolve(id).map(from_object).unwrap_or(Null)\<close>\<close>

definition resolved_value :: "view \<Rightarrow> ObjectId \<Rightarrow> DiffValue" where
  "resolved_value res i = (case res i of Some x \<Rightarrow> dv_from_object x | None \<Rightarrow> DvNull)"

text \<open>A child whose id differs between the two sides.\<close>

definition diff_child ::
  "view \<Rightarrow> (StatePath \<Rightarrow> Object \<Rightarrow> Object \<Rightarrow> DiffOp list option) \<Rightarrow> StatePath \<Rightarrow> ObjectId \<Rightarrow> ObjectId \<Rightarrow>
   DiffOp list option" where
  "diff_child res rec child_path old_id new_id =
     (if old_id = new_id then Some []
      else case (res old_id, res new_id) of
             (Some old_child, Some new_child) \<Rightarrow> rec child_path old_child new_child
           | _ \<Rightarrow> Some [SetValue (path_display child_path) DvNull DvNull])"

definition diff_maps ::
  "view \<Rightarrow> (StatePath \<Rightarrow> Object \<Rightarrow> Object \<Rightarrow> DiffOp list option) \<Rightarrow> StatePath \<Rightarrow>
   (string, ObjectId) btree \<Rightarrow> (string, ObjectId) btree \<Rightarrow> DiffOp list option" where
  "diff_maps res rec path old_entries new_entries =
     (let removed = map (\<lambda>(k, i). RemoveKey (path_display path) k (resolved_value res i))
                      (filter (\<lambda>(k, _). k \<notin> set (bt_keys new_entries)) old_entries);
          added = map (\<lambda>(k, i). AddKey (path_display path) k (resolved_value res i))
                      (filter (\<lambda>(k, _). k \<notin> set (bt_keys old_entries)) new_entries)
      in case opt_concat (map (\<lambda>(k, old_id).
                  case map_of new_entries k of
                    Some new_id \<Rightarrow> diff_child res rec (push_key path k) old_id new_id
                  | None \<Rightarrow> Some []) old_entries) of
           None \<Rightarrow> None
         | Some modified \<Rightarrow> Some (removed @ added @ modified))"

definition nth_opt :: "'a list \<Rightarrow> nat \<Rightarrow> 'a option" where
  "nth_opt xs i = (if i < length xs then Some (xs ! i) else None)"

definition diff_list_at ::
  "view \<Rightarrow> (StatePath \<Rightarrow> Object \<Rightarrow> Object \<Rightarrow> DiffOp list option) \<Rightarrow> StatePath \<Rightarrow>
   ObjectId list \<Rightarrow> ObjectId list \<Rightarrow> nat \<Rightarrow> DiffOp list option" where
  "diff_list_at res rec path old_items new_items i =
     (case (nth_opt old_items i, nth_opt new_items i) of
        (Some old_id, Some new_id) \<Rightarrow> diff_child res rec (push_index path i) old_id new_id
      | (None, Some new_id) \<Rightarrow> Some [AddElement (path_display path) i (resolved_value res new_id)]
      | (Some old_id, None) \<Rightarrow> Some [RemoveElement (path_display path) i (resolved_value res old_id)]
      | (None, None) \<Rightarrow> Some [])"

definition diff_lists ::
  "view \<Rightarrow> (StatePath \<Rightarrow> Object \<Rightarrow> Object \<Rightarrow> DiffOp list option) \<Rightarrow> StatePath \<Rightarrow>
   ObjectId list \<Rightarrow> ObjectId list \<Rightarrow> DiffOp list option" where
  "diff_lists res rec path old_items new_items =
     opt_concat (map (diff_list_at res rec path old_items new_items)
                   [0 ..< max (length old_items) (length new_items)])"

definition diff_sets :: "view \<Rightarrow> StatePath \<Rightarrow> ObjectId list \<Rightarrow> ObjectId list \<Rightarrow> DiffOp list" where
  "diff_sets res path old_items new_items =
     (let old_set = bts_of_list old_items; new_set = bts_of_list new_items
      in map (\<lambda>i. RemoveFromSet (path_display path) (resolved_value res i))
           (filter (\<lambda>i. i \<notin> set new_set) old_set)
         @ map (\<lambda>i. AddToSet (path_display path) (resolved_value res i))
             (filter (\<lambda>i. i \<notin> set old_set) new_set))"

fun diff_objects :: "view \<Rightarrow> nat \<Rightarrow> StatePath \<Rightarrow> Object \<Rightarrow> Object \<Rightarrow> DiffOp list option" where
  "diff_objects res 0 path old new = None"
| "diff_objects res (Suc n) path old new =
     (if object_eq old new then Some []
      else case (old, new) of
             (OAtom old_atom, OAtom new_atom) \<Rightarrow>
               Some [SetValue (path_display path) (dv_from_atom old_atom) (dv_from_atom new_atom)]
           | (ONode (NMap old_entries), ONode (NMap new_entries)) \<Rightarrow>
               diff_maps res (diff_objects res n) path old_entries new_entries
           | (ONode (NList old_items), ONode (NList new_items)) \<Rightarrow>
               diff_lists res (diff_objects res n) path old_items new_items
           | (ONode (NSet old_items), ONode (NSet new_items)) \<Rightarrow>
               Some (diff_sets res path old_items new_items)
           | _ \<Rightarrow> Some [ChangeType (path_display path) (diff_type_name old) (diff_type_name new)])"

definition diff :: "view \<Rightarrow> nat \<Rightarrow> ObjectId \<Rightarrow> ObjectId \<Rightarrow> DiffOp list option" where
  "diff res fuel old_root new_root =
     (if old_root = new_root then Some []
      else case (res old_root, res new_root) of
             (Some old, Some new) \<Rightarrow> diff_objects res fuel [] old new
           | _ \<Rightarrow> Some [])"

section \<open>Enough fuel\<close>

lemma diff_child_total:
  assumes "\<And>x y. res i = Some x \<Longrightarrow> rec p x y \<noteq> None"
  shows "diff_child res rec p i j \<noteq> None"
  using assms by (auto simp: diff_child_def split: option.splits)

lemma diff_objects_total:
  "view_ranked rank v \<Longrightarrow> v i = Some x \<Longrightarrow> rank i < n \<Longrightarrow> diff_objects v n p x y \<noteq> None"
proof (induction n arbitrary: i x p y)
  case (Suc n)
  have child: "diff_child v (diff_objects v n) q c d \<noteq> None" if "c \<in> set (child_ids x)" for q c d
  proof (rule diff_child_total)
    fix a b assume "v c = Some a"
    moreover from Suc.prems that have "rank c < n" by (fastforce simp: view_ranked_def)
    ultimately show "diff_objects v n q a b \<noteq> None" by (rule Suc.IH [OF Suc.prems(1)])
  qed
  have maps: "diff_maps v (diff_objects v n) p m m' \<noteq> None" if x: "x = ONode (NMap m)" for m m'
  proof -
    have "diff_child v (diff_objects v n) q c d \<noteq> None" if "(k, c) \<in> set m" for k q c d
      by (rule child) (use that x in force)
    then have "None \<notin> set (map (\<lambda>(k, i). case map_of m' k of
        Some j \<Rightarrow> diff_child v (diff_objects v n) (push_key p k) i j | None \<Rightarrow> Some []) m)"
      by (auto split: option.splits simp del: not_None_eq) metis
    then show ?thesis
      by (simp add: diff_maps_def Let_def opt_concat_None split: option.splits)
  qed
  have lists: "diff_lists v (diff_objects v n) p xs ys \<noteq> None" if x: "x = ONode (NList xs)" for xs ys
    using child x
    by (auto simp: diff_lists_def opt_concat_None diff_list_at_def nth_opt_def split: if_splits
        simp del: not_None_eq) (metis nth_mem)
  show ?case
    using maps lists by (auto split: Object.splits Node.splits)
qed simp

text \<open>More fuel does not change an answer.\<close>

lemma diff_child_mono:
  "(\<And>p x y r. f p x y = Some r \<Longrightarrow> g p x y = Some r) \<Longrightarrow> diff_child v f p i j = Some r \<Longrightarrow>
   diff_child v g p i j = Some r"
  by (auto simp: diff_child_def split: if_splits option.splits)

lemma diff_objects_mono_Suc: "diff_objects v n p x y = Some r \<Longrightarrow> diff_objects v (Suc n) p x y = Some r"
proof (induction n arbitrary: p x y r)
  case (Suc n)
  have child: "diff_child v (diff_objects v (Suc n)) q i j = Some s"
    if "diff_child v (diff_objects v n) q i j = Some s" for q i j s
    by (rule diff_child_mono [OF _ that]) (rule Suc.IH)
  have maps: "diff_maps v (diff_objects v (Suc n)) p m m' = Some r"
    if "diff_maps v (diff_objects v n) p m m' = Some r" for m m' r
  proof -
    from that obtain mods where mods: "opt_concat (map (\<lambda>(k, i). case map_of m' k of
        Some j \<Rightarrow> diff_child v (diff_objects v n) (push_key p k) i j | None \<Rightarrow> Some []) m) = Some mods"
      by (auto simp: diff_maps_def Let_def split: option.splits)
    have "opt_concat (map (\<lambda>(k, i). case map_of m' k of
        Some j \<Rightarrow> diff_child v (diff_objects v (Suc n)) (push_key p k) i j | None \<Rightarrow> Some []) m) = Some mods"
      by (rule opt_concat_mono [OF _ mods]) (auto split: option.splits dest: child)
    with that mods show ?thesis by (simp add: diff_maps_def Let_def)
  qed
  have lists: "diff_lists v (diff_objects v (Suc n)) p xs ys = Some r"
    if "diff_lists v (diff_objects v n) p xs ys = Some r" for xs ys r
    unfolding diff_lists_def
    by (rule opt_concat_mono [OF _ that [unfolded diff_lists_def]])
      (auto simp: diff_list_at_def split: option.splits dest: child)
  from Suc.prems show ?case
    using maps lists
    by (auto simp del: diff_objects.simps simp add: diff_objects.simps(2) [of v n]
        diff_objects.simps(2) [of v "Suc n"] split: if_splits Object.splits Node.splits)
qed simp

lemma diff_objects_mono:
  assumes "diff_objects v n p x y = Some r" "n \<le> m"
  shows "diff_objects v m p x y = Some r"
  using assms(2)
  by (induction rule: dec_induct) (rule assms(1), rule diff_objects_mono_Suc)

lemma diff_answers:
  assumes "view_ranked rank v"
  shows "\<exists>ops. \<forall>n > rank i. diff v n i j = Some ops"
proof (cases "i = j \<or> v i = None \<or> v j = None")
  case True
  then have "\<forall>n. diff v n i j = Some []" by (simp add: diff_def split: option.splits) auto
  then show ?thesis by blast
next
  case False
  then obtain x y where xy: "v i = Some x" "v j = Some y" "i \<noteq> j" by auto
  obtain ops where "diff_objects v (Suc (rank i)) [] x y = Some ops"
    using diff_objects_total [OF assms xy(1), of "Suc (rank i)"] by blast
  with diff_objects_mono have "diff_objects v n [] x y = Some ops" if "n > rank i" for n
    using that by (metis Suc_leI)
  with xy show ?thesis by (auto simp: diff_def)
qed

section \<open>Every operation describes a difference\<close>

fun op_describes :: "view \<Rightarrow> string \<Rightarrow> Object \<Rightarrow> Object \<Rightarrow> DiffOp \<Rightarrow> bool" where
  "op_describes v s x y (SetValue t dv dw) \<longleftrightarrow> t = s \<and>
     (\<exists>a b. x = OAtom a \<and> y = OAtom b \<and> \<not> atom_eq a b \<and> dv = dv_from_atom a \<and> dw = dv_from_atom b)"
| "op_describes v s x y (AddKey t k dv) \<longleftrightarrow> t = s \<and>
     (\<exists>m m' i. x = ONode (NMap m) \<and> y = ONode (NMap m') \<and> map_of m k = None \<and>
        map_of m' k = Some i \<and> dv = resolved_value v i)"
| "op_describes v s x y (RemoveKey t k dv) \<longleftrightarrow> t = s \<and>
     (\<exists>m m' i. x = ONode (NMap m) \<and> y = ONode (NMap m') \<and> map_of m k = Some i \<and>
        map_of m' k = None \<and> dv = resolved_value v i)"
| "op_describes v s x y (AddElement t n dv) \<longleftrightarrow> t = s \<and>
     (\<exists>xs ys. x = ONode (NList xs) \<and> y = ONode (NList ys) \<and> length xs \<le> n \<and> n < length ys \<and>
        dv = resolved_value v (ys ! n))"
| "op_describes v s x y (RemoveElement t n dv) \<longleftrightarrow> t = s \<and>
     (\<exists>xs ys. x = ONode (NList xs) \<and> y = ONode (NList ys) \<and> length ys \<le> n \<and> n < length xs \<and>
        dv = resolved_value v (xs ! n))"
| "op_describes v s x y (AddToSet t dv) \<longleftrightarrow> t = s \<and>
     (\<exists>xs ys i. x = ONode (NSet xs) \<and> y = ONode (NSet ys) \<and> i \<in> set ys - set xs \<and>
        dv = resolved_value v i)"
| "op_describes v s x y (RemoveFromSet t dv) \<longleftrightarrow> t = s \<and>
     (\<exists>xs ys i. x = ONode (NSet xs) \<and> y = ONode (NSet ys) \<and> i \<in> set xs - set ys \<and>
        dv = resolved_value v i)"
| "op_describes v s x y (ChangeType t a b) \<longleftrightarrow> t = s \<and> a = diff_type_name x \<and> b = diff_type_name y \<and>
     a \<noteq> b"

text \<open>The operation is true of the values at some path below the two objects.\<close>

definition op_holds :: "view \<Rightarrow> StatePath \<Rightarrow> Object \<Rightarrow> Object \<Rightarrow> DiffOp \<Rightarrow> bool" where
  "op_holds v base x y op \<longleftrightarrow>
     (\<exists>p a b. view_nav v x p = Some a \<and> view_nav v y p = Some b \<and>
        op_describes v (path_display (base @ p)) a b op)"

lemma op_holds_here: "op_describes v (path_display base) x y op \<Longrightarrow> op_holds v base x y op"
  unfolding op_holds_def by (rule exI [of _ "[]"]) simp

lemma op_holds_child:
  assumes "child_id_at x c = Some i" "child_id_at y c = Some j" "v i = Some a" "v j = Some b"
    "op_holds v (base @ [c]) a b op"
  shows "op_holds v base x y op"
proof -
  from assms(5) obtain p a' b' where "view_nav v a p = Some a'" "view_nav v b p = Some b'"
    "op_describes v (path_display (base @ c # p)) a' b' op" by (auto simp: op_holds_def)
  with assms(1-4) have "view_nav v x (c # p) = Some a' \<and> view_nav v y (c # p) = Some b' \<and>
    op_describes v (path_display (base @ c # p)) a' b' op" by simp
  then show ?thesis unfolding op_holds_def by blast
qed

lemma diff_child_closed:
  "i \<in> dom v \<Longrightarrow> j \<in> dom v \<Longrightarrow> diff_child v rec p i j = Some ops \<Longrightarrow> op \<in> set ops \<Longrightarrow>
   \<exists>a b. i \<noteq> j \<and> v i = Some a \<and> v j = Some b \<and> rec p a b = Some ops"
  by (auto simp: diff_child_def split: if_splits)

lemma diff_maps_ops:
  assumes "diff_maps v rec p m m' = Some ops" "op \<in> set ops" "bt_wf m" "bt_wf m'"
  shows "op_describes v (path_display p) (ONode (NMap m)) (ONode (NMap m')) op \<or>
    (\<exists>k i j ops'. map_of m k = Some i \<and> map_of m' k = Some j \<and> op \<in> set ops' \<and>
       diff_child v rec (push_key p k) i j = Some ops')"
proof -
  have keys: "map_of m k = Some i" if "(k, i) \<in> set m" for k i
    using that bt_wf_distinct [OF assms(3)] by simp
  have keys': "map_of m' k = Some i" if "(k, i) \<in> set m'" for k i
    using that bt_wf_distinct [OF assms(4)] by simp
  let ?f = "\<lambda>(k, i). case map_of m' k of Some j \<Rightarrow> diff_child v rec (push_key p k) i j | None \<Rightarrow> Some []"
  from assms(1) obtain mods where mods: "opt_concat (map ?f m) = Some mods"
    and ops: "ops = map (\<lambda>(k, i). RemoveKey (path_display p) k (resolved_value v i))
                      (filter (\<lambda>(k, _). k \<notin> set (bt_keys m')) m)
                 @ map (\<lambda>(k, i). AddKey (path_display p) k (resolved_value v i))
                      (filter (\<lambda>(k, _). k \<notin> set (bt_keys m)) m') @ mods"
    by (auto simp: diff_maps_def Let_def split: option.splits)
  from assms(2) ops consider
    (removed) k i where "(k, i) \<in> set m" "k \<notin> set (bt_keys m')"
      "op = RemoveKey (path_display p) k (resolved_value v i)"
  | (added) k i where "(k, i) \<in> set m'" "k \<notin> set (bt_keys m)"
      "op = AddKey (path_display p) k (resolved_value v i)"
  | (mods) "op \<in> set mods" by auto
  then show ?thesis
  proof cases
    case removed
    then show ?thesis using keys [of k i] by (auto simp: map_of_eq_None_iff)
  next
    case added
    then show ?thesis using keys' [of k i] by (auto simp: map_of_eq_None_iff)
  next
    case mods': mods
    from opt_concat_memD [OF mods mods'] obtain k i ops' where "(k, i) \<in> set m"
      "?f (k, i) = Some ops'" "op \<in> set ops'" by auto
    moreover from this obtain j where "map_of m' k = Some j" by (auto split: option.splits)
    ultimately show ?thesis using keys [of k i] by auto
  qed
qed

lemma diff_lists_ops:
  assumes "diff_lists v rec p xs ys = Some ops" "op \<in> set ops"
  shows "op_describes v (path_display p) (ONode (NList xs)) (ONode (NList ys)) op \<or>
    (\<exists>n ops'. n < length xs \<and> n < length ys \<and> op \<in> set ops' \<and>
       diff_child v rec (push_index p n) (xs ! n) (ys ! n) = Some ops')"
proof -
  from assms obtain n ops' where "n < max (length xs) (length ys)"
    "diff_list_at v rec p xs ys n = Some ops'" "op \<in> set ops'"
    by (auto simp: diff_lists_def dest!: opt_concat_memD)
  then show ?thesis by (auto simp: diff_list_at_def nth_opt_def split: if_splits)
qed

lemma diff_sets_ops:
  "op \<in> set (diff_sets v p xs ys) \<Longrightarrow>
   op_describes v (path_display p) (ONode (NSet xs)) (ONode (NSet ys)) op"
  by (auto simp: diff_sets_def Let_def)

lemma diff_objects_sound:
  assumes addr: "view_addressed oid v" and closed: "view_closed v"
  shows "v i = Some x \<Longrightarrow> v j = Some y \<Longrightarrow> diff_objects v n base x y = Some ops \<Longrightarrow> op \<in> set ops \<Longrightarrow>
    op_holds v base x y op"
proof (induction n arbitrary: i j x y base ops)
  case (Suc n)
  have ids: "set (child_ids x) \<subseteq> dom v" "set (child_ids y) \<subseteq> dom v"
    using closed Suc.prems(1,2) by (auto simp: view_closed_def)
  have wf: "object_wf x" "object_wf y"
    using addr Suc.prems(1,2) by (auto simp: view_addressed_def object_ok_def)
  have step: "op_holds v base x y op"
    if "child_id_at x c = Some k" "child_id_at y c = Some l"
      "diff_child v (diff_objects v n) (base @ [c]) k l = Some ops'" "op \<in> set ops'" for c k l ops'
  proof -
    have "k \<in> dom v" "l \<in> dom v" using ids that(1,2) child_id_at_in by blast+
    from diff_child_closed [OF this that(3,4)] obtain a b where ab: "v k = Some a" "v l = Some b"
      "diff_objects v n (base @ [c]) a b = Some ops'" by blast
    show ?thesis by (rule op_holds_child [OF that(1,2) ab(1,2) Suc.IH [OF ab that(4)]])
  qed
  have neq: "\<not> object_eq x y" using Suc.prems(3,4) by auto
  consider (atoms) a b where "x = OAtom a" "y = OAtom b"
    | (maps) m m' where "x = ONode (NMap m)" "y = ONode (NMap m')"
    | (lists) xs ys where "x = ONode (NList xs)" "y = ONode (NList ys)"
    | (sets) xs ys where "x = ONode (NSet xs)" "y = ONode (NSet ys)"
    | (other) "diff_objects v (Suc n) base x y =
        Some [ChangeType (path_display base) (diff_type_name x) (diff_type_name y)]"
        "diff_type_name x \<noteq> diff_type_name y"
    using neq by (cases x rule: diff_type_name.cases; cases y rule: diff_type_name.cases) auto
  then show ?case
  proof cases
    case maps
    with Suc.prems(3) neq have "diff_maps v (diff_objects v n) base m m' = Some ops" by simp
    from diff_maps_ops [OF this Suc.prems(4)] wf maps show ?thesis
      using step [of "Key _"] op_holds_here by (auto simp: push_key_def)
  next
    case lists
    with Suc.prems(3) neq have "diff_lists v (diff_objects v n) base xs ys = Some ops" by simp
    from diff_lists_ops [OF this Suc.prems(4)] show ?thesis
    proof (elim disjE exE conjE)
      fix k ops' assume "k < length xs" "k < length ys" "op \<in> set ops'"
        "diff_child v (diff_objects v n) (push_index base k) (xs ! k) (ys ! k) = Some ops'"
      then show ?thesis using step [of "Index k"] lists by (auto simp: push_index_def)
    qed (use lists op_holds_here in simp)
  next
    case sets
    with Suc.prems(3,4) neq show ?thesis by (auto intro!: op_holds_here diff_sets_ops)
  qed (use Suc.prems(3,4) neq in \<open>auto intro!: op_holds_here\<close>)
qed simp

section \<open>Every change is described\<close>

text \<open>An atom that differs between the trees at a path they share is reported at that path.\<close>

lemma diff_maps_child:
  assumes "diff_maps v rec p m m' = Some ops" "map_of m k = Some i" "map_of m' k = Some j"
  shows "\<exists>ops'. diff_child v rec (push_key p k) i j = Some ops' \<and> set ops' \<subseteq> set ops"
proof -
  from assms(2) have "(k, i) \<in> set m" by (rule map_of_SomeD)
  with assms show ?thesis
    by (force simp: diff_maps_def Let_def split: option.splits dest: opt_concat_mem)
qed

lemma diff_lists_child:
  assumes "diff_lists v rec p xs ys = Some ops" "n < length xs" "n < length ys"
  shows "\<exists>ops'. diff_child v rec (push_index p n) (xs ! n) (ys ! n) = Some ops' \<and> set ops' \<subseteq> set ops"
  using opt_concat_mem [OF assms(1) [unfolded diff_lists_def], of n] assms(2,3)
  by (auto simp: diff_list_at_def nth_opt_def)

lemma diff_objects_child:
  assumes "diff_objects v (Suc n) base x y = Some ops" "x \<noteq> y"
    "child_id_at x c = Some i" "child_id_at y c = Some j"
  shows "\<exists>ops'. diff_child v (diff_objects v n) (base @ [c]) i j = Some ops' \<and> set ops' \<subseteq> set ops"
  using assms diff_maps_child diff_lists_child
  by (cases "(x, c)" rule: child_id_at.cases; cases "(y, c)" rule: child_id_at.cases)
    (auto simp: push_key_def push_index_def split: if_splits)

lemma diff_objects_atom:
  "view_nav v x p = Some (OAtom a) \<Longrightarrow> view_nav v y p = Some (OAtom b) \<Longrightarrow> \<not> atom_eq a b \<Longrightarrow> a \<noteq> b \<Longrightarrow>
   diff_objects v n base x y = Some ops \<Longrightarrow>
   SetValue (path_display (base @ p)) (dv_from_atom a) (dv_from_atom b) \<in> set ops"
proof (induction p arbitrary: x y base n ops)
  case Nil
  then show ?case by (cases n) auto
next
  case (Cons c p)
  from Cons.prems(1,2) obtain i j x' y' where c: "child_id_at x c = Some i" "child_id_at y c = Some j"
    "v i = Some x'" "v j = Some y'" "view_nav v x' p = Some (OAtom a)" "view_nav v y' p = Some (OAtom b)"
    by (auto split: option.splits)
  then have "i \<noteq> j" "x \<noteq> y" using Cons.prems(4) by auto
  from Cons.prems(5) obtain m where "n = Suc m" by (cases n) auto
  with diff_objects_child [of v m base x y ops, OF _ \<open>x \<noteq> y\<close> c(1,2)] Cons.prems(5) obtain ops' where
    ops': "diff_child v (diff_objects v m) (base @ [c]) i j = Some ops'" "set ops' \<subseteq> set ops" by blast
  then have "diff_objects v m (base @ [c]) x' y' = Some ops'"
    using \<open>i \<noteq> j\<close> c(3,4) by (simp add: diff_child_def)
  from Cons.IH [OF c(5,6) Cons.prems(3,4) this] ops'(2) show ?case by auto
qed

section \<open>The empty diff\<close>

text \<open>Equality of stored objects as the source compares them is equality: it fails only for the two
  float zeros.\<close>

definition view_no_signed_zero :: "view \<Rightarrow> bool" where
  "view_no_signed_zero v \<longleftrightarrow> (\<forall>i j x y. v i = Some x \<and> v j = Some y \<and> object_eq x y \<longrightarrow> x = y)"

lemma diff_maps_empty:
  assumes "diff_maps v rec p m m' = Some []" "bt_wf m" "bt_wf m'"
    "\<And>k i j. map_of m k = Some i \<Longrightarrow> map_of m' k = Some j \<Longrightarrow>
       diff_child v rec (push_key p k) i j = Some [] \<Longrightarrow> i = j"
  shows "m = m'"
proof (rule bt_wf_ext [OF assms(2,3)], rule ext)
  fix k
  have none: "map_of m k = None \<longleftrightarrow> map_of m' k = None"
    using assms(1) by (force simp: diff_maps_def Let_def map_of_eq_None_iff filter_empty_conv
        split: option.splits)
  show "map_of m k = map_of m' k"
  proof (cases "map_of m k")
    case (Some i)
    with none obtain j where j: "map_of m' k = Some j" by auto
    from diff_maps_child [OF assms(1) Some j] have "diff_child v rec (push_key p k) i j = Some []" by auto
    with assms(4) [OF Some j] Some j show ?thesis by simp
  qed (use none in simp)
qed

lemma diff_lists_empty:
  assumes "diff_lists v rec p xs ys = Some []"
    "\<And>n. n < length xs \<Longrightarrow> n < length ys \<Longrightarrow>
       diff_child v rec (push_index p n) (xs ! n) (ys ! n) = Some [] \<Longrightarrow> xs ! n = ys ! n"
  shows "xs = ys"
proof (rule nth_equalityI)
  have all: "diff_list_at v rec p xs ys n = Some []" if "n < max (length xs) (length ys)" for n
    using assms(1) that by (simp add: diff_lists_def opt_concat_Nil)
  show len: "length xs = length ys"
  proof (rule ccontr)
    assume "length xs \<noteq> length ys"
    then consider "length xs < length ys" | "length ys < length xs" by linarith
    then show False
      using all [of "length xs"] all [of "length ys"]
      by cases (simp_all add: diff_list_at_def nth_opt_def)
  qed
  show "xs ! n = ys ! n" if "n < length xs" for n
    using all [of n] assms(2) [of n] that len by (simp add: diff_list_at_def nth_opt_def)
qed

lemma diff_sets_empty:
  "diff_sets v p xs ys = [] \<Longrightarrow> sorted_wrt (<) xs \<Longrightarrow> sorted_wrt (<) ys \<Longrightarrow> xs = ys"
  by (intro strict_sorted_equal) (auto simp: diff_sets_def Let_def filter_empty_conv)

lemma diff_objects_empty:
  assumes addr: "view_addressed oid v" and closed: "view_closed v" and zero: "view_no_signed_zero v"
  shows "v i = Some x \<Longrightarrow> v j = Some y \<Longrightarrow> diff_objects v n base x y = Some [] \<Longrightarrow> x = y"
proof (induction n arbitrary: i j x y base)
  case (Suc n)
  have ids: "set (child_ids x) \<subseteq> dom v" "set (child_ids y) \<subseteq> dom v"
    using closed Suc.prems(1,2) by (auto simp: view_closed_def)
  have wf: "object_wf x" "object_wf y"
    using addr Suc.prems(1,2) by (auto simp: view_addressed_def object_ok_def)
  have step: "k = l" if k: "k \<in> set (child_ids x)" and l: "l \<in> set (child_ids y)"
    and d: "diff_child v (diff_objects v n) q k l = Some []" for k l q
  proof (rule ccontr)
    assume ne: "k \<noteq> l"
    from ids k l obtain a b where ab: "v k = Some a" "v l = Some b" by blast
    with d ne have "diff_objects v n q a b = Some []" by (simp add: diff_child_def)
    from Suc.IH [OF ab this] ab addr have "k = l" by (auto simp: view_addressed_def)
    with ne show False ..
  qed
  show ?case
  proof (cases "object_eq x y")
    case True
    with zero Suc.prems(1,2) show ?thesis by (auto simp: view_no_signed_zero_def)
  next
    case False
    consider (maps) m m' where "x = ONode (NMap m)" "y = ONode (NMap m')"
        "diff_maps v (diff_objects v n) base m m' = Some []"
      | (lists) xs ys where "x = ONode (NList xs)" "y = ONode (NList ys)"
        "diff_lists v (diff_objects v n) base xs ys = Some []"
      | (sets) xs ys where "x = ONode (NSet xs)" "y = ONode (NSet ys)" "diff_sets v base xs ys = []"
      using False Suc.prems(3) by (auto split: Object.splits Node.splits)
    then show ?thesis
    proof cases
      case maps
      have "k = l" if "map_of m q = Some k" "map_of m' q = Some l"
        "diff_child v (diff_objects v n) (push_key base q) k l = Some []" for q k l
        using step [OF _ _ that(3)] map_of_in_values [OF that(1)] map_of_in_values [OF that(2)] maps(1,2)
        by simp
      with maps wf show ?thesis using diff_maps_empty [OF maps(3)] by simp
    next
      case lists
      then show ?thesis using step by (auto intro!: diff_lists_empty [where v = v])
    next
      case sets
      then show ?thesis using wf by (simp add: diff_sets_empty)
    qed
  qed
qed simp

lemma diff_empty_iff:
  assumes "view_addressed oid v" "view_closed v" "view_no_signed_zero v" "i \<in> dom v" "j \<in> dom v"
  shows "diff v n i j = Some [] \<longleftrightarrow> i = j"
proof
  assume d: "diff v n i j = Some []"
  show "i = j"
  proof (rule ccontr)
    assume ne: "i \<noteq> j"
    from assms(4,5) obtain x y where xy: "v i = Some x" "v j = Some y" by blast
    with d ne have "diff_objects v n [] x y = Some []" by (simp add: diff_def)
    from diff_objects_empty [OF assms(1-3) xy this] xy assms(1) have "i = j"
      by (auto simp: view_addressed_def)
    with ne show False ..
  qed
qed (simp add: diff_def)

end
