(* ===== verification/Merge.thy ===== *)
theory Merge
  imports Diff
begin

text \<open>
  The three-way merge, from \<open>crates/agentstategraph-core/src/merge.rs\<close>. The accumulators
  \<open>conflicts\<close> and \<open>created\<close> and the cell of \<open>TrackingResolver\<close> are the fields of a state that every
  call threads; a merge without tracking never reads that cell. As in the diff the recursion is
  bounded by fuel and takes the recursive call as an argument.
\<close>

section \<open>Types\<close>

datatype ConflictValue =
    CvNull
  | CvBool bool
  | CvInt i64
  | CvUInt u64
  | CvFloat f64
  | CvString string
  | CvComplex string

fun cv_from_object :: "Object \<Rightarrow> ConflictValue" where
  "cv_from_object (OAtom ANull) = CvNull"
| "cv_from_object (OAtom (ABool b)) = CvBool b"
| "cv_from_object (OAtom (AInt i)) = CvInt i"
| "cv_from_object (OAtom (AUInt u)) = CvUInt u"
| "cv_from_object (OAtom (AFloat f)) = CvFloat f"
| "cv_from_object (OAtom (AString s)) = CvString s"
| "cv_from_object (OAtom (ABytes _)) = CvString ''[bytes]''"
| "cv_from_object (ONode (NMap m)) = CvComplex (''{map: '' @ show_nat (length m) @ '' keys}'')"
| "cv_from_object (ONode (NList l)) = CvComplex (''[list: '' @ show_nat (length l) @ '' items]'')"
| "cv_from_object (ONode (NSet s)) = CvComplex (''{set: '' @ show_nat (length s) @ '' items}'')"

record Conflict =
  cf_path :: string
  cf_ours :: "ConflictValue option"
  cf_theirs :: "ConflictValue option"
  cf_base :: "ConflictValue option"
  cf_suggested_resolution :: "ConflictValue option"

datatype MergeResult =
    MergeSuccess Object
  | MergeConflicts Object "Conflict list"
  | FastForward ObjectId

record MergeState =
  mg_conflicts :: "Conflict list"
  mg_created :: "Object list"
  mg_missing :: "ObjectId option"

definition merge_init :: MergeState where
  "merge_init = \<lparr> mg_conflicts = [], mg_created = [], mg_missing = None \<rparr>"

definition push_conflict ::
  "string \<Rightarrow> ConflictValue option \<Rightarrow> ConflictValue option \<Rightarrow> ConflictValue option \<Rightarrow> MergeState \<Rightarrow>
   MergeState" where
  "push_conflict path ours theirs base st =
     st\<lparr>mg_conflicts := mg_conflicts st @
          [\<lparr> cf_path = path, cf_ours = ours, cf_theirs = theirs, cf_base = base,
             cf_suggested_resolution = None \<rparr>]\<rparr>"

definition push_created :: "Object \<Rightarrow> MergeState \<Rightarrow> MergeState" where
  "push_created x st = st\<lparr>mg_created := mg_created st @ [x]\<rparr>"

text \<open>\<open>TrackingResolver::resolve\<close>: the first id that does not resolve is kept.\<close>

definition m_resolve :: "view \<Rightarrow> ObjectId \<Rightarrow> MergeState \<Rightarrow> Object option \<times> MergeState" where
  "m_resolve res i st =
     (let found = res i
      in (found, if found = None \<and> mg_missing st = None then st\<lparr>mg_missing := Some i\<rparr> else st))"

section \<open>The algorithm\<close>

type_synonym merge_rec =
  "string \<Rightarrow> Object \<Rightarrow> Object \<Rightarrow> Object \<Rightarrow> MergeState \<Rightarrow> (Object \<times> MergeState) option"

definition merge_child_path :: "string \<Rightarrow> string \<Rightarrow> string" where
  "merge_child_path path key = path @ (if path = ''/'' then [] else ''/'') @ key"

definition is_map :: "Object \<Rightarrow> bool" where
  "is_map x \<longleftrightarrow> (\<exists>m. x = ONode (NMap m))"

lemma is_map_code [code]:
  "is_map (OAtom a) = False" "is_map (ONode (NMap m)) = True"
  "is_map (ONode (NList l)) = False" "is_map (ONode (NSet s)) = False"
  by (simp_all add: is_map_def)

text \<open>A key that all three sides have, changed by both.\<close>

definition merge_all_three ::
  "view \<Rightarrow> (Object \<Rightarrow> ObjectId) \<Rightarrow> merge_rec \<Rightarrow> string \<Rightarrow> string \<Rightarrow> ObjectId \<Rightarrow> ObjectId \<Rightarrow> ObjectId \<Rightarrow>
   (string, ObjectId) btree \<Rightarrow> MergeState \<Rightarrow> ((string, ObjectId) btree \<times> MergeState) option" where
  "merge_all_three res oid rec child_path key b our t merged st =
     (case m_resolve res b st of (base_obj, st1) \<Rightarrow>
      case m_resolve res our st1 of (our_obj, st2) \<Rightarrow>
      case m_resolve res t st2 of (their_obj, st3) \<Rightarrow>
        (case (base_obj, our_obj, their_obj) of
           (Some bo, Some oo, Some to) \<Rightarrow>
             (case rec child_path bo oo to st3 of
                None \<Rightarrow> None
              | Some (merged_child, st4) \<Rightarrow> Some (bt_insert key (oid merged_child) merged, st4))
         | _ \<Rightarrow> Some (bt_insert key our merged, push_conflict child_path None None None st3)))"

text \<open>A key that both sides added with different values.\<close>

definition merge_both_added ::
  "view \<Rightarrow> (Object \<Rightarrow> ObjectId) \<Rightarrow> merge_rec \<Rightarrow> string \<Rightarrow> string \<Rightarrow> ObjectId \<Rightarrow> ObjectId \<Rightarrow>
   (string, ObjectId) btree \<Rightarrow> MergeState \<Rightarrow> ((string, ObjectId) btree \<times> MergeState) option" where
  "merge_both_added res oid rec child_path key our t merged st =
     (case m_resolve res our st of (our_obj, st1) \<Rightarrow>
      case m_resolve res t st1 of (their_obj, st2) \<Rightarrow>
        (case (case (our_obj, their_obj) of
                 (Some oo, Some to) \<Rightarrow> if is_map oo \<and> is_map to then Some (oo, to) else None
               | _ \<Rightarrow> None) of
           Some (oo, to) \<Rightarrow>
             (case rec child_path empty_map oo to st2 of
                None \<Rightarrow> None
              | Some (merged_child, st3) \<Rightarrow> Some (bt_insert key (oid merged_child) merged, st3))
         | None \<Rightarrow>
             (case m_resolve res our st2 of (o2, st3) \<Rightarrow>
              case m_resolve res t st3 of (t2, st4) \<Rightarrow>
                Some (bt_insert key our merged,
                      push_conflict child_path (map_option cv_from_object o2)
                        (map_option cv_from_object t2) None st4))))"

definition merge_key ::
  "view \<Rightarrow> (Object \<Rightarrow> ObjectId) \<Rightarrow> merge_rec \<Rightarrow> string \<Rightarrow> (string, ObjectId) btree \<Rightarrow>
   (string, ObjectId) btree \<Rightarrow> (string, ObjectId) btree \<Rightarrow> string \<Rightarrow>
   (string, ObjectId) btree \<Rightarrow> MergeState \<Rightarrow> ((string, ObjectId) btree \<times> MergeState) option" where
  "merge_key res oid rec path base_entries our_entries their_entries key merged st =
     (let child_path = merge_child_path path key
      in case (map_of base_entries key, map_of our_entries key, map_of their_entries key) of
           (Some b, Some our, Some t) \<Rightarrow>
             if our = t then Some (bt_insert key our merged, st)
             else if b = our then Some (bt_insert key t merged, st)
             else if b = t then Some (bt_insert key our merged, st)
             else merge_all_three res oid rec child_path key b our t merged st
         | (None, Some our, None) \<Rightarrow> Some (bt_insert key our merged, st)
         | (None, None, Some t) \<Rightarrow> Some (bt_insert key t merged, st)
         | (None, Some our, Some t) \<Rightarrow>
             if our = t then Some (bt_insert key our merged, st)
             else merge_both_added res oid rec child_path key our t merged st
         | (Some b, None, Some t) \<Rightarrow>
             if b = t then Some (merged, st)
             else (case m_resolve res t st of (t1, st1) \<Rightarrow>
                   case m_resolve res b st1 of (b1, st2) \<Rightarrow>
                     Some (merged, push_conflict child_path None (map_option cv_from_object t1)
                                     (map_option cv_from_object b1) st2))
         | (Some b, Some our, None) \<Rightarrow>
             if b = our then Some (merged, st)
             else (case m_resolve res our st of (o1, st1) \<Rightarrow>
                   case m_resolve res b st1 of (b1, st2) \<Rightarrow>
                     Some (bt_insert key our merged,
                           push_conflict child_path (map_option cv_from_object o1) None
                             (map_option cv_from_object b1) st2))
         | (Some _, None, None) \<Rightarrow> Some (merged, st)
         | (None, None, None) \<Rightarrow> Some (merged, st))"

fun merge_keys ::
  "(string \<Rightarrow> (string, ObjectId) btree \<Rightarrow> MergeState \<Rightarrow> ((string, ObjectId) btree \<times> MergeState) option) \<Rightarrow>
   string list \<Rightarrow> (string, ObjectId) btree \<Rightarrow> MergeState \<Rightarrow>
   ((string, ObjectId) btree \<times> MergeState) option" where
  "merge_keys f [] merged st = Some (merged, st)"
| "merge_keys f (key # keys) merged st =
     (case f key merged st of
        None \<Rightarrow> None
      | Some (merged', st') \<Rightarrow> merge_keys f keys merged' st')"

definition merge_maps ::
  "view \<Rightarrow> (Object \<Rightarrow> ObjectId) \<Rightarrow> merge_rec \<Rightarrow> string \<Rightarrow> (string, ObjectId) btree \<Rightarrow>
   (string, ObjectId) btree \<Rightarrow> (string, ObjectId) btree \<Rightarrow> MergeState \<Rightarrow> (Object \<times> MergeState) option" where
  "merge_maps res oid rec path base_entries our_entries their_entries st =
     (let all_keys = bts_of_list (bt_keys base_entries @ bt_keys our_entries @ bt_keys their_entries)
      in case merge_keys (merge_key res oid rec path base_entries our_entries their_entries)
                all_keys [] st of
           None \<Rightarrow> None
         | Some (merged, st') \<Rightarrow>
             let obj = object_map merged in Some (obj, push_created obj st'))"

definition list_summary :: "ObjectId list \<Rightarrow> ConflictValue" where
  "list_summary items = CvComplex (''[list: '' @ show_nat (length items) @ '' items]'')"

definition merge_lists ::
  "string \<Rightarrow> ObjectId list \<Rightarrow> ObjectId list \<Rightarrow> ObjectId list \<Rightarrow> MergeState \<Rightarrow> Object \<times> MergeState" where
  "merge_lists path base_items our_items their_items st =
     (let obj = object_list our_items
      in if our_items = their_items then (obj, push_created obj st)
         else (obj, push_created obj
                 (push_conflict path (Some (list_summary our_items)) (Some (list_summary their_items))
                   (Some (list_summary base_items)) st)))"

definition merge_sets :: "ObjectId list \<Rightarrow> ObjectId list \<Rightarrow> MergeState \<Rightarrow> Object \<times> MergeState" where
  "merge_sets our_items their_items st =
     (let obj = object_set (bts_of_list (our_items @ their_items)) in (obj, push_created obj st))"

definition merge_conflict :: "string \<Rightarrow> Object \<Rightarrow> Object \<Rightarrow> Object \<Rightarrow> MergeState \<Rightarrow> Object \<times> MergeState" where
  "merge_conflict path base ours theirs st =
     (ours, push_conflict path (Some (cv_from_object ours)) (Some (cv_from_object theirs))
              (Some (cv_from_object base)) st)"

fun merge_objects :: "view \<Rightarrow> (Object \<Rightarrow> ObjectId) \<Rightarrow> nat \<Rightarrow> merge_rec" where
  "merge_objects res oid 0 path base ours theirs st = None"
| "merge_objects res oid (Suc n) path base ours theirs st =
     (if object_eq ours theirs then Some (ours, st)
      else if object_eq base ours then Some (theirs, st)
      else if object_eq base theirs then Some (ours, st)
      else case (base, ours, theirs) of
             (ONode (NMap base_entries), ONode (NMap our_entries), ONode (NMap their_entries)) \<Rightarrow>
               merge_maps res oid (merge_objects res oid n) path base_entries our_entries
                 their_entries st
           | (ONode (NList base_items), ONode (NList our_items), ONode (NList their_items)) \<Rightarrow>
               Some (merge_lists path base_items our_items their_items st)
           | (ONode (NSet base_items), ONode (NSet our_items), ONode (NSet their_items)) \<Rightarrow>
               Some (merge_sets our_items their_items st)
           | _ \<Rightarrow> Some (merge_conflict path base ours theirs st))"

definition merge_roots ::
  "view \<Rightarrow> (Object \<Rightarrow> ObjectId) \<Rightarrow> nat \<Rightarrow> ObjectId \<Rightarrow> ObjectId \<Rightarrow> ObjectId \<Rightarrow>
   (MergeResult \<times> MergeState) option" where
  "merge_roots res oid fuel base ours theirs =
     (if base = ours then Some (FastForward theirs, merge_init)
      else if base = theirs then Some (FastForward ours, merge_init)
      else if ours = theirs then Some (FastForward ours, merge_init)
      else case m_resolve res base merge_init of
             (None, st) \<Rightarrow> Some (FastForward theirs, st)
           | (Some base_obj, st) \<Rightarrow>
               (case m_resolve res ours st of
                  (None, st1) \<Rightarrow> Some (FastForward theirs, st1)
                | (Some ours_obj, st1) \<Rightarrow>
                    (case m_resolve res theirs st1 of
                       (None, st2) \<Rightarrow> Some (FastForward ours, st2)
                     | (Some theirs_obj, st2) \<Rightarrow>
                         (case merge_objects res oid fuel ''/'' base_obj ours_obj theirs_obj st2 of
                            None \<Rightarrow> None
                          | Some (merged, st3) \<Rightarrow>
                              Some (if mg_conflicts st3 = [] then MergeSuccess merged
                                    else MergeConflicts merged (mg_conflicts st3), st3)))))"

definition three_way_merge_collect ::
  "view \<Rightarrow> (Object \<Rightarrow> ObjectId) \<Rightarrow> nat \<Rightarrow> ObjectId \<Rightarrow> ObjectId \<Rightarrow> ObjectId \<Rightarrow>
   (MergeResult \<times> Object list) option" where
  "three_way_merge_collect res oid fuel base ours theirs =
     map_option (\<lambda>(r, st). (r, mg_created st)) (merge_roots res oid fuel base ours theirs)"

definition three_way_merge ::
  "view \<Rightarrow> (Object \<Rightarrow> ObjectId) \<Rightarrow> nat \<Rightarrow> ObjectId \<Rightarrow> ObjectId \<Rightarrow> ObjectId \<Rightarrow> MergeResult option" where
  "three_way_merge res oid fuel base ours theirs =
     map_option fst (three_way_merge_collect res oid fuel base ours theirs)"

definition try_three_way_merge_collect ::
  "view \<Rightarrow> (Object \<Rightarrow> ObjectId) \<Rightarrow> nat \<Rightarrow> ObjectId \<Rightarrow> ObjectId \<Rightarrow> ObjectId \<Rightarrow>
   (ObjectId + (MergeResult \<times> Object list)) option" where
  "try_three_way_merge_collect res oid fuel base ours theirs =
     map_option (\<lambda>(r, st). case mg_missing st of Some i \<Rightarrow> Inl i | None \<Rightarrow> Inr (r, mg_created st))
       (merge_roots res oid fuel base ours theirs)"

end
