(* ===== verification/Merge_Laws.thy ===== *)
theory Merge_Laws
  imports Merge
begin

text \<open>
  Properties of the three-way merge over a store without dangling ids: it always answers, it
  applies at every path the change that one side made, its result and the objects it creates
  refer only to objects that are stored or created before them, a merge without conflict does not
  depend on which side is ours, and the checked merge never answers from a missing object.
\<close>

section \<open>What happens to one key\<close>

text \<open>The three-way rule: a side that did not change gives way to the other.\<close>

definition take3 :: "'a \<Rightarrow> 'a \<Rightarrow> 'a \<Rightarrow> 'a option" where
  "take3 b our t = (if our = t then Some our else if b = our then Some t else if b = t then Some our else None)"

definition bt_put :: "'k::linorder \<Rightarrow> 'v option \<Rightarrow> ('k, 'v) btree \<Rightarrow> ('k, 'v) btree" where
  "bt_put k r m = (case r of None \<Rightarrow> m | Some i \<Rightarrow> bt_insert k i m)"

lemma bt_wf_put [intro]: "bt_wf m \<Longrightarrow> bt_wf (bt_put k r m)"
  by (auto simp: bt_put_def split: option.splits)

lemma map_of_bt_put:
  "map_of (bt_put k r m) j = (if j = k \<and> r \<noteq> None then r else map_of m j)"
  by (auto simp: bt_put_def btree_simps split: option.splits)

text \<open>The state only grows.\<close>

definition st_le :: "MergeState \<Rightarrow> MergeState \<Rightarrow> bool" where
  "st_le st st' \<longleftrightarrow> (\<exists>cs. mg_conflicts st' = mg_conflicts st @ cs) \<and> (\<exists>xs. mg_created st' = mg_created st @ xs)"

lemma st_le_refl [simp, intro]: "st_le st st"
  by (simp add: st_le_def)

lemma st_le_trans [trans]: "st_le a b \<Longrightarrow> st_le b c \<Longrightarrow> st_le a c"
  by (auto simp: st_le_def)

lemma st_le_push [simp, intro]:
  "st_le st (push_conflict p a b c st)" "st_le st (push_created x st)"
  by (simp_all add: st_le_def push_conflict_def push_created_def)

lemma st_le_conflicts:
  "st_le a b \<Longrightarrow> st_le b c \<Longrightarrow> mg_conflicts c = mg_conflicts a \<Longrightarrow>
   mg_conflicts b = mg_conflicts a \<and> mg_conflicts c = mg_conflicts b"
  unfolding st_le_def by (elim conjE exE) (metis append_assoc append_is_Nil_conv append_self_conv)

lemma st_le_length: "st_le a b \<Longrightarrow> length (mg_conflicts a) \<le> length (mg_conflicts b)"
  by (auto simp: st_le_def)

lemma st_le_created: "st_le a b \<Longrightarrow> set (mg_created a) \<subseteq> set (mg_created b)"
  by (auto simp: st_le_def)

definition key_outcome ::
  "view \<Rightarrow> (Object \<Rightarrow> ObjectId) \<Rightarrow> merge_rec \<Rightarrow> string \<Rightarrow> ObjectId option \<Rightarrow> ObjectId option \<Rightarrow>
   ObjectId option \<Rightarrow> ObjectId option \<Rightarrow> MergeState \<Rightarrow> MergeState \<Rightarrow> bool" where
  "key_outcome v oid rec cp b our t r st st' \<longleftrightarrow>
     (take3 b our t = Some r \<and> st' = st) \<or>
     (take3 b our t = None \<and>
        (\<exists>oi ti bo oo to child. our = Some oi \<and> t = Some ti \<and> v oi = Some oo \<and> v ti = Some to \<and>
           ((\<exists>bi. b = Some bi \<and> v bi = Some bo) \<or> b = None \<and> bo = empty_map \<and> is_map oo \<and> is_map to) \<and>
           rec cp bo oo to st = Some (child, st') \<and> r = Some (oid child))) \<or>
     (take3 b our t = None \<and> r = our \<and> (\<exists>x y z. st' = push_conflict cp x y z st))"

lemma key_outcome_conflict:
  "take3 b our t = None \<Longrightarrow> \<exists>x y z. st' = push_conflict cp x y z st \<Longrightarrow>
   key_outcome v oid rec cp b our t our st st'"
  by (simp add: key_outcome_def)

lemma m_resolve_Some: "v i = Some x \<Longrightarrow> m_resolve v i st = (Some x, st)"
  by (simp add: m_resolve_def)

lemma merge_key_outcome:
  assumes run: "merge_key v oid rec p be oe te k m st = Some (m', st')"
    and dom: "\<And>i. map_of be k = Some i \<Longrightarrow> i \<in> dom v" "\<And>i. map_of oe k = Some i \<Longrightarrow> i \<in> dom v"
      "\<And>i. map_of te k = Some i \<Longrightarrow> i \<in> dom v"
  shows "\<exists>r. m' = bt_put k r m \<and>
    key_outcome v oid rec (merge_child_path p k) (map_of be k) (map_of oe k) (map_of te k) r st st'"
proof -
  have res: "m_resolve v i s = (v i, s)" if "i \<in> dom v" for i s
    using that by (auto simp: m_resolve_def)
  show ?thesis
  proof (cases "take3 (map_of be k) (map_of oe k) (map_of te k)")
    case (Some r)
    then have "m' = bt_put k r m \<and> st' = st"
      using run by (auto simp: merge_key_def take3_def bt_put_def Let_def split: option.splits if_splits)
    with Some show ?thesis by (auto simp: key_outcome_def)
  next
    case None
    show ?thesis
    proof (cases "map_of oe k")
      case o_None: None
      with None obtain b t where b: "map_of be k = Some b" "map_of te k = Some t" "b \<noteq> t"
        by (cases "map_of be k"; cases "map_of te k") (auto simp: take3_def split: if_splits)
      with run o_None dom have "m' = m" "\<exists>x y z. st' = push_conflict (merge_child_path p k) x y z st"
        by (auto simp: merge_key_def Let_def res)
      with key_outcome_conflict [OF None] o_None show ?thesis
        by (intro exI [of _ "map_of oe k"]) (simp add: bt_put_def)
    next
      case (Some our)
      then obtain oo where oo: "v our = Some oo" using dom(2) by blast
      show ?thesis
      proof (cases "map_of te k")
        case t_None: None
        with None Some obtain b where b: "map_of be k = Some b" "b \<noteq> our"
          by (cases "map_of be k") (auto simp: take3_def split: if_splits)
        with run Some t_None dom have "m' = bt_insert k our m"
          "\<exists>x y z. st' = push_conflict (merge_child_path p k) x y z st"
          by (auto simp: merge_key_def Let_def res)
        with key_outcome_conflict [OF None] Some show ?thesis
          by (intro exI [of _ "map_of oe k"]) (simp add: bt_put_def)
      next
        case t_Some: (Some t)
        then obtain to where to: "v t = Some to" using dom(3) by blast
        have ne: "our \<noteq> t" "map_of be k \<noteq> Some our" "map_of be k \<noteq> Some t"
          using None Some t_Some by (auto simp: take3_def split: if_splits)
        show ?thesis
        proof (cases "map_of be k")
          case b_None: None
          have run': "merge_both_added v oid rec (merge_child_path p k) k our t m st = Some (m', st')"
            using run Some t_Some b_None ne by (simp add: merge_key_def Let_def)
          show ?thesis
          proof (cases "is_map oo \<and> is_map to")
            case True
            with run' oo to obtain child where
              "rec (merge_child_path p k) empty_map oo to st = Some (child, st')"
              "m' = bt_put k (Some (oid child)) m"
              by (auto simp: merge_both_added_def m_resolve_Some bt_put_def split: option.splits)
            with None Some t_Some b_None oo to True show ?thesis
              unfolding key_outcome_def by blast
          next
            case False
            with run' oo to have "m' = bt_put k (Some our) m"
              "\<exists>x y z. st' = push_conflict (merge_child_path p k) x y z st"
              by (auto simp: merge_both_added_def m_resolve_Some bt_put_def split: if_splits)
            with key_outcome_conflict [OF None] Some show ?thesis
              by (intro exI [of _ "map_of oe k"]) simp
          qed
        next
          case b_Some: (Some b)
          then obtain bo where bo: "v b = Some bo" using dom(1) by blast
          from run Some t_Some b_Some ne
          have "merge_all_three v oid rec (merge_child_path p k) k b our t m st = Some (m', st')"
            by (simp add: merge_key_def Let_def)
          with bo oo to obtain child where
            "rec (merge_child_path p k) bo oo to st = Some (child, st')"
            "m' = bt_put k (Some (oid child)) m"
            by (auto simp: merge_all_three_def m_resolve_Some bt_put_def split: option.splits)
          with None Some t_Some b_Some bo oo to show ?thesis
            unfolding key_outcome_def by blast
        qed
      qed
    qed
  qed
qed

section \<open>What happens to all keys\<close>

lemma merge_keys_outcomes:
  assumes step: "\<And>k m st m' st'. k \<in> set ks \<Longrightarrow> f k m st = Some (m', st') \<Longrightarrow> \<exists>r. m' = bt_put k r m \<and> R k r st st'"
    and mono: "\<And>k r st st'. k \<in> set ks \<Longrightarrow> R k r st st' \<Longrightarrow> st_le st st'"
  shows "merge_keys f ks m st = Some (m', st') \<Longrightarrow> distinct ks \<Longrightarrow> bt_wf m \<Longrightarrow>
    \<forall>k \<in> set ks. map_of m k = None \<Longrightarrow>
    bt_wf m' \<and> st_le st st' \<and> (\<forall>k. k \<notin> set ks \<longrightarrow> map_of m' k = map_of m k) \<and>
    (\<forall>k \<in> set ks. \<exists>s1 s2. R k (map_of m' k) s1 s2 \<and> st_le st s1 \<and> st_le s2 st')"
  using step mono
proof (induction ks arbitrary: m st)
  case (Cons k ks)
  from Cons.prems(1) obtain m1 st1 where 1: "f k m st = Some (m1, st1)"
    "merge_keys f ks m1 st1 = Some (m', st')"
    by (auto split: option.splits)
  from Cons.prems(5) [OF _ 1(1)] obtain r where r: "m1 = bt_put k r m" "R k r st st1" by auto
  with Cons.prems(6) have le: "st_le st st1" by auto
  have "bt_wf m' \<and> st_le st1 st' \<and> (\<forall>j. j \<notin> set ks \<longrightarrow> map_of m' j = map_of m1 j) \<and>
    (\<forall>j \<in> set ks. \<exists>s1 s2. R j (map_of m' j) s1 s2 \<and> st_le st1 s1 \<and> st_le s2 st')"
  proof (rule Cons.IH [OF 1(2)])
    show "st_le s s'" if "j \<in> set ks" "R j q s s'" for j q s s'
      using Cons.prems(6) [of j q s s'] that by simp
  qed (use Cons.prems(2-5) r(1) in \<open>auto simp: map_of_bt_put\<close>)
  then have rest: "bt_wf m'" "st_le st1 st'" "\<And>j. j \<notin> set ks \<Longrightarrow> map_of m' j = map_of m1 j"
    "\<And>j. j \<in> set ks \<Longrightarrow> \<exists>s1 s2. R j (map_of m' j) s1 s2 \<and> st_le st1 s1 \<and> st_le s2 st'" by blast+
  have "map_of m' k = r"
    using rest(3) [of k] Cons.prems(2,4) r(1) by (auto simp: map_of_bt_put)
  with r(2) rest(2) have k: "\<exists>s1 s2. R k (map_of m' k) s1 s2 \<and> st_le st s1 \<and> st_le s2 st'" by blast
  have out: "map_of m' j = map_of m j" if "j \<notin> set (k # ks)" for j
    using rest(3) [of j] r(1) that by (simp add: map_of_bt_put)
  have ins: "\<exists>s1 s2. R j (map_of m' j) s1 s2 \<and> st_le st s1 \<and> st_le s2 st'" if "j \<in> set ks" for j
    using rest(4) [OF that] st_le_trans [OF le] by blast
  show ?case using rest(1) st_le_trans [OF le rest(2)] out ins k by auto
qed simp

section \<open>Enough fuel\<close>

lemma merge_keys_total:
  "(\<And>k m st. k \<in> set ks \<Longrightarrow> f k m st \<noteq> None) \<Longrightarrow> merge_keys f ks m st \<noteq> None"
proof (induction ks arbitrary: m st)
  case (Cons k ks)
  from Cons.prems [of k m st] obtain m' st' where "f k m st = Some (m', st')" by auto
  moreover have "merge_keys f ks m' st' \<noteq> None"
    by (rule Cons.IH) (simp add: Cons.prems)
  ultimately show ?case by simp
qed simp

lemma merge_key_total:
  assumes "\<And>i x b t st. map_of oe k = Some i \<Longrightarrow> v i = Some x \<Longrightarrow> rec (merge_child_path p k) b x t st \<noteq> None"
  shows "merge_key v oid rec p be oe te k m st \<noteq> None"
proof -
  have "merge_all_three v oid rec (merge_child_path p k) k b i t m st \<noteq> None"
    if "map_of oe k = Some i" for b i t m st
    using assms [OF that]
    by (auto simp: merge_all_three_def m_resolve_def Let_def split: option.splits prod.splits)
      (metis option.distinct(1))+
  moreover have "merge_both_added v oid rec (merge_child_path p k) k i t m st \<noteq> None"
    if "map_of oe k = Some i" for i t m st
    using assms [OF that]
    by (auto simp: merge_both_added_def m_resolve_def Let_def split: option.splits prod.splits)
      (metis option.distinct(1))+
  ultimately show ?thesis
    by (simp add: merge_key_def Let_def split: option.splits prod.splits)
qed

lemma merge_objects_total:
  "view_ranked rank v \<Longrightarrow> v i = Some ours \<Longrightarrow> rank i < n \<Longrightarrow>
   merge_objects v oid n p base ours theirs st \<noteq> None"
proof (induction n arbitrary: i ours p base theirs st)
  case (Suc n)
  have "merge_maps v oid (merge_objects v oid n) p be oe te st \<noteq> None"
    if ours: "ours = ONode (NMap oe)" for be oe te
  proof -
    have "merge_key v oid (merge_objects v oid n) p be oe te k m st \<noteq> None" for k m st
    proof (rule merge_key_total)
      fix c x b t s assume c: "map_of oe k = Some c" "v c = Some x"
      then have "c \<in> set (child_ids ours)" using map_of_in_values ours by force
      with Suc.prems have "rank c < n" by (fastforce simp: view_ranked_def)
      with c(2) show "merge_objects v oid n (merge_child_path p k) b x t s \<noteq> None"
        by (rule Suc.IH [OF Suc.prems(1)])
    qed
    then have "merge_keys (merge_key v oid (merge_objects v oid n) p be oe te) ks m st \<noteq> None"
      for ks m st by (rule merge_keys_total)
    then show ?thesis by (auto simp: merge_maps_def Let_def split: option.splits)
  qed
  then show ?case by (auto split: Object.splits Node.splits)
qed simp

text \<open>More fuel does not change an answer.\<close>

lemma merge_keys_mono:
  "(\<And>k m st r. f k m st = Some r \<Longrightarrow> g k m st = Some r) \<Longrightarrow> merge_keys f ks m st = Some r \<Longrightarrow>
   merge_keys g ks m st = Some r"
  by (induction ks arbitrary: m st) (fastforce split: option.splits)+

lemma merge_key_mono:
  assumes "\<And>p b x t st r. f p b x t st = Some r \<Longrightarrow> g p b x t st = Some r"
    "merge_key v oid f p be oe te k m st = Some r"
  shows "merge_key v oid g p be oe te k m st = Some r"
proof -
  have "merge_all_three v oid g cp k b i t m st = Some r"
    if "merge_all_three v oid f cp k b i t m st = Some r" for cp b i t
    using that by (auto simp: merge_all_three_def split: prod.splits option.splits dest: assms(1))
  moreover have "merge_both_added v oid g cp k i t m st = Some r"
    if "merge_both_added v oid f cp k i t m st = Some r" for cp i t
    using that
    by (auto simp: merge_both_added_def split: prod.splits option.splits if_splits dest: assms(1))
  ultimately show ?thesis
    using assms(2) by (auto simp: merge_key_def Let_def split: option.splits if_splits)
qed

lemma merge_objects_mono_Suc:
  "merge_objects v oid n p b our t st = Some r \<Longrightarrow> merge_objects v oid (Suc n) p b our t st = Some r"
proof (induction n arbitrary: p b our t st r)
  case (Suc n)
  have maps: "merge_maps v oid (merge_objects v oid (Suc n)) p be oe te st = Some r"
    if run: "merge_maps v oid (merge_objects v oid n) p be oe te st = Some r" for be oe te st r
  proof -
    let ?ks = "bts_of_list (bt_keys be @ bt_keys oe @ bt_keys te)"
    from run obtain ms where
      ms: "merge_keys (merge_key v oid (merge_objects v oid n) p be oe te) ?ks [] st = Some ms"
      by (auto simp: merge_maps_def Let_def split: option.splits)
    have "merge_keys (merge_key v oid (merge_objects v oid (Suc n)) p be oe te) ?ks [] st = Some ms"
      by (rule merge_keys_mono [OF merge_key_mono [OF Suc.IH] ms])
    with run ms show ?thesis by (simp add: merge_maps_def Let_def)
  qed
  from Suc.prems show ?case
    using maps
    by (auto simp del: merge_objects.simps simp add: merge_objects.simps(2) [of v oid n]
        merge_objects.simps(2) [of v oid "Suc n"] split: if_splits Object.splits Node.splits)
qed simp

lemma merge_objects_mono:
  assumes "merge_objects v oid n p b our t st = Some r" "n \<le> m"
  shows "merge_objects v oid m p b our t st = Some r"
  using assms(2)
  by (induction rule: dec_induct) (rule assms(1), rule merge_objects_mono_Suc)

section \<open>Nothing dangles\<close>

definition created_ok :: "(Object \<Rightarrow> ObjectId) \<Rightarrow> view \<Rightarrow> MergeState \<Rightarrow> bool" where
  "created_ok oid v st \<longleftrightarrow> children_first oid (dom v) (mg_created st) \<and> list_all object_ok (mg_created st)"

definition known :: "view \<Rightarrow> MergeState \<Rightarrow> Object \<Rightarrow> bool" where
  "known v st x \<longleftrightarrow> (\<exists>i. v i = Some x) \<or> x \<in> set (mg_created st)"

definition in_view :: "view \<Rightarrow> Object \<Rightarrow> bool" where
  "in_view v x \<longleftrightarrow> (\<exists>i. v i = Some x)"

lemma known_mono: "known v st x \<Longrightarrow> st_le st st' \<Longrightarrow> known v st' x"
  using st_le_created by (auto simp: known_def)

lemma known_oid: "view_addressed oid v \<Longrightarrow> known v st x \<Longrightarrow> oid x \<in> dom v \<union> oid ` set (mg_created st)"
  by (auto simp: known_def view_addressed_def)

lemma merge_keys_inv:
  assumes "\<And>k m st m' st'. k \<in> set ks \<Longrightarrow> f k m st = Some (m', st') \<Longrightarrow> I st \<Longrightarrow> I st'"
  shows "merge_keys f ks m st = Some (m', st') \<Longrightarrow> I st \<Longrightarrow> I st'"
  using assms
proof (induction ks arbitrary: m st)
  case (Cons k ks)
  from Cons.prems(1) obtain m1 st1 where 1: "f k m st = Some (m1, st1)"
    "merge_keys f ks m1 st1 = Some (m', st')" by (auto split: option.splits)
  with Cons.prems(3) [OF _ 1(1) Cons.prems(2)] have "I st1" by simp
  then show ?case
    by (rule Cons.IH [OF 1(2)]) (metis Cons.prems(3) list.set_intros(2))
qed simp

text \<open>The branches of \<^const>\<open>merge_objects\<close>.\<close>

lemma merge_objects_cases:
  assumes "merge_objects v oid (Suc n) p b our t st = Some (x, st')"
  obtains (same) "object_eq our t" "x = our" "st' = st"
  | (theirs) "object_eq b our" "x = t" "st' = st"
  | (ours) "object_eq b t" "x = our" "st' = st"
  | (maps) be oe te where "b = ONode (NMap be)" "our = ONode (NMap oe)" "t = ONode (NMap te)"
      "merge_maps v oid (merge_objects v oid n) p be oe te st = Some (x, st')"
  | (lists) xs a c d where "our = ONode (NList xs)" "x = our" "st' = push_created our (push_conflict p a c d st)"
  | (sets) bs xs ys where "b = ONode (NSet bs)" "our = ONode (NSet xs)" "t = ONode (NSet ys)"
      "x = ONode (NSet (bts_of_list (xs @ ys)))" "st' = push_created x st"
  | (conflict) a c d where "x = our" "st' = push_conflict p a c d st"
proof -
  have set_eq: "object_set (bts_of_list zs) = ONode (NSet (bts_of_list zs))" for zs
    unfolding object_set_def bts_of_list_def [symmetric]
    by (simp add: bts_of_list_unique bts_of_list_sorted)
  show ?thesis
    using assms that
    by (auto simp: merge_lists_def merge_sets_def merge_conflict_def Let_def set_eq object_list_def
        split: if_splits Object.splits Node.splits)
qed

text \<open>The maps of a store without dangling ids.\<close>

lemma map_lookup_dom:
  assumes "view_closed v" "in_view v (ONode (NMap m)) \<or> ONode (NMap m) = empty_map" "map_of m k = Some c"
  shows "c \<in> dom v"
proof -
  from assms(2,3) obtain i where "v i = Some (ONode (NMap m))"
    by (auto simp: in_view_def empty_map_def)
  with assms(1) have "set (child_ids (ONode (NMap m))) \<subseteq> dom v" unfolding view_closed_def by blast
  then have "snd ` set m \<subseteq> dom v" by simp
  with map_of_in_values [OF assms(3)] show ?thesis by blast
qed

lemma take3_in: "take3 b our t = Some r \<Longrightarrow> r = our \<or> r = t"
  by (auto simp: take3_def split: if_splits)

lemma key_outcomeE:
  assumes "key_outcome v oid rec cp b our t r st st'"
  obtains (clean) "take3 b our t = Some r" "st' = st"
  | (recurse) oi ti bo oo to child where "take3 b our t = None" "our = Some oi" "t = Some ti"
      "v oi = Some oo" "v ti = Some to"
      "(\<exists>bi. b = Some bi \<and> v bi = Some bo) \<or> b = None \<and> bo = empty_map \<and> is_map oo \<and> is_map to"
      "in_view v bo \<or> bo = empty_map" "in_view v oo" "in_view v to"
      "rec cp bo oo to st = Some (child, st')" "r = Some (oid child)"
  | (conflict) x y z where "take3 b our t = None" "r = our" "st' = push_conflict cp x y z st"
  using assms unfolding key_outcome_def in_view_def by blast

text \<open>What the resolver of a merge provides: objects under their own ids, and no dangling ids.\<close>

definition merge_graph :: "(Object \<Rightarrow> ObjectId) \<Rightarrow> view \<Rightarrow> bool" where
  "merge_graph oid v \<longleftrightarrow> view_addressed oid v \<and> view_closed v"

lemma merge_graphD: "merge_graph oid v \<Longrightarrow> view_addressed oid v" "merge_graph oid v \<Longrightarrow> view_closed v"
  by (simp_all add: merge_graph_def)

lemma merge_maps_outcomes:
  assumes run: "merge_maps v oid rec p be oe te st = Some (x, st')"
    and be: "\<And>k c. map_of be k = Some c \<Longrightarrow> c \<in> dom v"
    and oe: "\<And>k c. map_of oe k = Some c \<Longrightarrow> c \<in> dom v"
    and te: "\<And>k c. map_of te k = Some c \<Longrightarrow> c \<in> dom v"
    and mono: "\<And>cp bo oo to s y s'. in_view v bo \<or> bo = empty_map \<Longrightarrow> in_view v oo \<Longrightarrow> in_view v to \<Longrightarrow>
      rec cp bo oo to s = Some (y, s') \<Longrightarrow> st_le s s'"
  obtains m s where "x = ONode (NMap m)" "st' = push_created x s" "bt_wf m" "st_le st s"
    "\<And>k. \<exists>s1 s2. key_outcome v oid rec (merge_child_path p k) (map_of be k) (map_of oe k)
       (map_of te k) (map_of m k) s1 s2 \<and> st_le st s1 \<and> st_le s2 s"
    "(\<forall>k r s s'. key_outcome v oid rec (merge_child_path p k) (map_of be k)
       (map_of oe k) (map_of te k) r s s' \<longrightarrow> created_ok oid v s \<longrightarrow> created_ok oid v s') \<longrightarrow>
     created_ok oid v st \<longrightarrow> created_ok oid v s"
proof -
  let ?ks = "bts_of_list (bt_keys be @ bt_keys oe @ bt_keys te)"
  let ?f = "merge_key v oid rec p be oe te"
  let ?R = "\<lambda>k. key_outcome v oid rec (merge_child_path p k) (map_of be k) (map_of oe k) (map_of te k)"
  from run obtain m s where ms: "merge_keys ?f ?ks [] st = Some (m, s)" "x = ONode (NMap m)"
    "st' = push_created x s"
    by (auto simp: merge_maps_def Let_def object_map_def split: option.splits)
  have step: "\<exists>r. m' = bt_put k r m0 \<and> ?R k r s0 s'" if "?f k m0 s0 = Some (m', s')" for k m0 s0 m' s'
    using merge_key_outcome [OF that] be oe te by blast
  have R_mono: "st_le s0 s'" if "?R k r s0 s'" for k r s0 s'
    using that unfolding key_outcome_def
  proof (elim disjE conjE exE)
    fix oi ti bo oo to child bi
    assume "v oi = Some oo" "v ti = Some to" "rec (merge_child_path p k) bo oo to s0 = Some (child, s')"
      "v bi = Some bo"
    then show ?thesis using mono [of bo oo to] unfolding in_view_def by blast
  next
    fix oi ti bo oo to child
    assume "v oi = Some oo" "v ti = Some to" "rec (merge_child_path p k) bo oo to s0 = Some (child, s')"
      "bo = empty_map"
    then show ?thesis using mono [of bo oo to] unfolding in_view_def by blast
  qed auto
  have "distinct ?ks"
    using bts_of_list_sorted [of "bt_keys be @ bt_keys oe @ bt_keys te"] strict_sorted_iff by blast
  from merge_keys_outcomes [where R = ?R, OF step R_mono ms(1) this]
  have out: "bt_wf m" "st_le st s" "\<And>k. k \<notin> set ?ks \<Longrightarrow> map_of m k = None"
    "\<And>k. k \<in> set ?ks \<Longrightarrow> \<exists>s1 s2. ?R k (map_of m k) s1 s2 \<and> st_le st s1 \<and> st_le s2 s"
    by auto
  have all: "\<exists>s1 s2. ?R k (map_of m k) s1 s2 \<and> st_le st s1 \<and> st_le s2 s" for k
  proof (cases "k \<in> set ?ks")
    case False
    then have "map_of be k = None" "map_of oe k = None" "map_of te k = None"
      by (auto simp: map_of_eq_None_iff)
    with out(3) [OF False] have "?R k (map_of m k) st st"
      by (simp add: key_outcome_def take3_def)
    with out(2) show ?thesis by blast
  qed (use out(4) in blast)
  have inv: "created_ok oid v s"
    if "created_ok oid v st" "\<And>k r s s'. ?R k r s s' \<Longrightarrow> created_ok oid v s \<Longrightarrow> created_ok oid v s'"
  proof (rule merge_keys_inv [where I = "created_ok oid v", OF _ ms(1) that(1)])
    fix k m0 s' m' s''
    assume "?f k m0 s' = Some (m', s'')" "created_ok oid v s'"
    with step that(2) show "created_ok oid v s''" by blast
  qed
  show ?thesis by (rule that [OF ms(2,3) out(1,2) all]) (use inv in blast)
qed

lemma merge_objects_st_le:
  assumes g: "merge_graph oid v"
  shows "merge_objects v oid n p b our t st = Some (x, st') \<Longrightarrow> in_view v b \<or> b = empty_map \<Longrightarrow>
   in_view v our \<Longrightarrow> in_view v t \<Longrightarrow> st_le st st'"
proof (induction n arbitrary: p b our t st x st')
  case (Suc n)
  from Suc.prems(1) show ?case
  proof (cases rule: merge_objects_cases)
    case (maps be oe te)
    note dom = map_lookup_dom [OF merge_graphD(2) [OF g]]
    from maps(4) show ?thesis
    proof (rule merge_maps_outcomes)
      show "c \<in> dom v" if "map_of be k = Some c" for k c
        by (rule dom [OF _ that]) (use Suc.prems(2) maps(1) in simp)
      show "c \<in> dom v" if "map_of oe k = Some c" for k c
        by (rule dom [OF _ that]) (use Suc.prems(3) maps(2) in simp)
      show "c \<in> dom v" if "map_of te k = Some c" for k c
        by (rule dom [OF _ that]) (use Suc.prems(4) maps(3) in simp)
      show "st_le s s'" if "in_view v bo \<or> bo = empty_map" "in_view v oo" "in_view v to"
        "merge_objects v oid n cp bo oo to s = Some (y, s')" for cp bo oo to s y s'
        using Suc.IH [OF that(4,1,2,3)] .
      show ?thesis if "st' = push_created x s" "st_le st s" for s
        using that st_le_trans st_le_push(2) by blast
    qed
  next
    case lists
    then show ?thesis using st_le_trans st_le_push by blast
  qed auto
qed simp

lemma merge_objects_maps:
  assumes g: "merge_graph oid v"
    and run: "merge_maps v oid (merge_objects v oid n) p be oe te st = Some (x, st')"
    and b: "in_view v (ONode (NMap be)) \<or> ONode (NMap be) = empty_map"
    and o: "in_view v (ONode (NMap oe))" and t: "in_view v (ONode (NMap te))"
  obtains m s where "x = ONode (NMap m)" "st' = push_created x s" "bt_wf m" "st_le st s"
    "\<And>k. \<exists>s1 s2. key_outcome v oid (merge_objects v oid n) (merge_child_path p k) (map_of be k)
       (map_of oe k) (map_of te k) (map_of m k) s1 s2 \<and> st_le st s1 \<and> st_le s2 s"
    "(\<forall>k r s s'. key_outcome v oid (merge_objects v oid n)
       (merge_child_path p k) (map_of be k) (map_of oe k) (map_of te k) r s s' \<longrightarrow>
       created_ok oid v s \<longrightarrow> created_ok oid v s') \<longrightarrow> created_ok oid v st \<longrightarrow> created_ok oid v s"
proof (rule merge_maps_outcomes [OF run])
  note closed = merge_graphD(2) [OF g]
  show "c \<in> dom v" if "map_of be k = Some c" for k c by (rule map_lookup_dom [OF closed b that])
  show "c \<in> dom v" if "map_of oe k = Some c" for k c by (rule map_lookup_dom [OF closed disjI1 [OF o] that])
  show "c \<in> dom v" if "map_of te k = Some c" for k c by (rule map_lookup_dom [OF closed disjI1 [OF t] that])
  show "st_le s s'" if "in_view v bo \<or> bo = empty_map" "in_view v oo" "in_view v to"
    "merge_objects v oid n cp bo oo to s = Some (y, s')" for cp bo oo to s y s'
    by (rule merge_objects_st_le [OF g that(4,1,2,3)])
qed (rule that)

lemma lookup_in_dom:
  assumes "merge_graph oid v" "in_view v (ONode (NMap oe))" "in_view v (ONode (NMap te))"
    "take3 b (map_of oe k) (map_of te k) = Some (Some i)"
  shows "i \<in> dom v"
  using take3_in [OF assms(4)] map_lookup_dom [OF merge_graphD(2) [OF assms(1)] disjI1] assms(2,3)
  by metis

lemma merge_objects_known:
  assumes g: "merge_graph oid v"
  shows "merge_objects v oid n p b our t st = Some (x, st') \<Longrightarrow> in_view v b \<or> b = empty_map \<Longrightarrow>
   in_view v our \<Longrightarrow> in_view v t \<Longrightarrow>
   known v st' x \<and> (created_ok oid v st \<longrightarrow> created_ok oid v st')"
proof (induction n arbitrary: p b our t st x st')
  case (Suc n)
  note addr = merge_graphD(1) [OF g] and closed = merge_graphD(2) [OF g]
  have view_known: "known v s y" if "in_view v y" for s y
    using that by (simp add: known_def in_view_def)
  have new: "known v (push_created x s) x \<and> (created_ok oid v st \<longrightarrow> created_ok oid v (push_created x s))"
    if "object_ok x" "set (child_ids x) \<subseteq> dom v \<union> oid ` set (mg_created s)"
      "created_ok oid v st \<Longrightarrow> created_ok oid v s" for s
    using that by (auto simp: known_def push_created_def created_ok_def children_first_snoc)
  have view_ids: "object_ok y" "set (child_ids y) \<subseteq> dom v" if "in_view v y" for y
    using that addr closed unfolding in_view_def view_addressed_def view_closed_def by blast+
  from Suc.prems(1) show ?case
  proof (cases rule: merge_objects_cases)
    case (maps be oe te)
    note in_maps = Suc.prems(2-4) [unfolded maps(1-3)]
    from g maps(4) in_maps show ?thesis
    proof (rule merge_objects_maps)
      fix m s
      let ?out = "\<lambda>k. key_outcome v oid (merge_objects v oid n) (merge_child_path p k) (map_of be k)
        (map_of oe k) (map_of te k)"
      assume m: "x = ONode (NMap m)" "st' = push_created x s" "bt_wf m" "st_le st s"
        and keys: "\<And>k. \<exists>s1 s2. ?out k (map_of m k) s1 s2 \<and> st_le st s1 \<and> st_le s2 s"
        and inv: "(\<forall>k r s s'. ?out k r s s' \<longrightarrow> created_ok oid v s \<longrightarrow> created_ok oid v s') \<longrightarrow>
          created_ok oid v st \<longrightarrow> created_ok oid v s"
      have rec: "(\<exists>y. r = Some (oid y) \<and> known v s2 y) \<or> (\<exists>i. r = Some i \<and> i \<in> dom v) \<or> r = None"
        and keep: "created_ok oid v s1 \<Longrightarrow> created_ok oid v s2" if "?out k r s1 s2" for k r s1 s2
      proof -
        from that have "((\<exists>y. r = Some (oid y) \<and> known v s2 y) \<or> (\<exists>i. r = Some i \<and> i \<in> dom v) \<or> r = None)
          \<and> (created_ok oid v s1 \<longrightarrow> created_ok oid v s2)"
        proof (cases rule: key_outcomeE)
          case clean
          then show ?thesis using lookup_in_dom [OF g in_maps(2,3)] by (cases r) auto
        next
          case recurse
          then show ?thesis using Suc.IH by blast
        next
          case (conflict a c d)
          then show ?thesis using map_lookup_dom [OF closed disjI1 [OF in_maps(2)]]
            by (cases r) (auto simp: push_conflict_def created_ok_def)
        qed
        then show "(\<exists>y. r = Some (oid y) \<and> known v s2 y) \<or> (\<exists>i. r = Some i \<and> i \<in> dom v) \<or> r = None"
          "created_ok oid v s1 \<Longrightarrow> created_ok oid v s2" by blast+
      qed
      have "i \<in> dom v \<union> oid ` set (mg_created s)" if "map_of m k = Some i" for k i
      proof -
        from keys [of k] obtain s1 s2 where s: "?out k (map_of m k) s1 s2" "st_le s2 s" by blast
        from rec [OF s(1)] that known_oid [OF addr known_mono [OF _ s(2)]] show ?thesis by auto
      qed
      then have "set (child_ids x) \<subseteq> dom v \<union> oid ` set (mg_created s)"
        using m(1,3) bt_wf_distinct [OF m(3)] by force
      moreover have "created_ok oid v st \<longrightarrow> created_ok oid v s" using inv keep by blast
      ultimately show ?thesis using new [of s] m(1-3) by simp
    qed
  next
    case (lists xs a c d)
    then show ?thesis
      using new [of "push_conflict p a c d st"] view_ids [OF Suc.prems(3)]
      by (auto simp: push_conflict_def created_ok_def)
  next
    case (sets bs xs ys)
    then show ?thesis
      using new [of st] view_ids [OF Suc.prems(3)] view_ids [OF Suc.prems(4)]
      by (auto simp: bts_of_list_sorted)
  next
    case (conflict a c d)
    then show ?thesis using view_known Suc.prems(3) by (simp add: push_conflict_def created_ok_def)
  qed (use view_known Suc.prems in auto)
qed simp

section \<open>The three-way rule at every path\<close>

text \<open>The id reached from an id along a path.\<close>

fun descend :: "view \<Rightarrow> ObjectId option \<Rightarrow> PathComponent list \<Rightarrow> ObjectId option" where
  "descend v None p = None"
| "descend v (Some i) [] = Some i"
| "descend v (Some i) (c # cs) =
     (case v i of None \<Rightarrow> None | Some x \<Rightarrow> descend v (child_id_at x c) cs)"

lemma descend_get:
  "descend v (Some i) p = Some j \<Longrightarrow> view_closed v \<Longrightarrow> i \<in> dom v \<Longrightarrow> view_get v i p = v j \<and> j \<in> dom v"
proof (induction p arbitrary: i)
  case (Cons c p)
  then obtain x k where x: "v i = Some x" "child_id_at x c = Some k" "descend v (Some k) p = Some j"
    by (cases "v i"; cases "child_id_at (the (v i)) c") auto
  then have "k \<in> dom v" using Cons.prems(2) child_id_at_in unfolding view_closed_def by blast
  with Cons.IH [OF x(3) Cons.prems(2)] x show ?case by (auto simp: view_get_def split: option.splits)
qed (auto simp: view_get_def)

lemma descend_extend:
  "view_closed v \<Longrightarrow> v \<subseteq>\<^sub>m w \<Longrightarrow> (\<And>i. r = Some i \<Longrightarrow> i \<in> dom v) \<Longrightarrow> descend w r p = descend v r p"
proof (induction v r p rule: descend.induct)
  case (3 v i c cs)
  then obtain x where x: "v i = Some x" by blast
  with "3.prems"(2) have w: "w i = Some x" by (metis domI map_le_def)
  have "j \<in> dom v" if "child_id_at x c = Some j" for j
    using "3.prems"(1) x child_id_at_in [OF that] unfolding view_closed_def by blast
  with "3.IH" [OF x "3.prems"(1,2)] x w show ?case by simp
qed simp_all

lemma take3_descend:
  assumes "take3 b our t = Some r" "take3 (f b) (f our) (f t) = Some q"
  shows "q = f r"
  using assms by (auto simp: take3_def split: if_splits)

lemma take3_commute: "take3 b t our = take3 b our t"
  by (auto simp: take3_def)

lemma child_id_at_set [simp]: "child_id_at (ONode (NSet xs)) c = None"
  by (cases c) simp_all

lemma child_id_at_map_index [simp]: "child_id_at (ONode (NMap m)) (Index n) = None"
  by simp

lemma object_eq_view:
  assumes zero: "view_no_signed_zero v" and "object_eq x y" "in_view v x \<or> x = empty_map" "in_view v y"
  shows "x = y"
proof (cases "in_view v x")
  case True
  with assms zero show ?thesis by (auto simp: in_view_def view_no_signed_zero_def)
next
  case False
  with assms show ?thesis by (cases y) (auto simp: empty_map_def)
qed

lemma view_child_dom: "view_closed v \<Longrightarrow> in_view v x \<Longrightarrow> child_id_at x c = Some i \<Longrightarrow> i \<in> dom v"
  using child_id_at_in unfolding in_view_def view_closed_def by blast

lemma merge_objects_take3:
  assumes g: "merge_graph oid v" and zero: "view_no_signed_zero v" and w: "v \<subseteq>\<^sub>m w"
  shows "merge_objects v oid n p b our t st = Some (x, st') \<Longrightarrow> mg_conflicts st' = mg_conflicts st \<Longrightarrow>
    \<forall>y \<in> set (mg_created st'). w (oid y) = Some y \<Longrightarrow>
    in_view v b \<or> b = empty_map \<Longrightarrow> in_view v our \<Longrightarrow> in_view v t \<Longrightarrow>
    take3 (descend v (child_id_at b c) cs) (descend v (child_id_at our c) cs)
      (descend v (child_id_at t c) cs) = Some r \<Longrightarrow>
    descend w (child_id_at x c) cs = r"
proof (induction n arbitrary: p b our t st x st' c cs)
  case (Suc n)
  note addr = merge_graphD(1) [OF g] and closed = merge_graphD(2) [OF g]
  have keep: "descend w (child_id_at y c) cs = descend v (child_id_at y c) cs" if "in_view v y" for y c cs
    by (rule descend_extend [OF closed w]) (rule view_child_dom [OF closed that])
  from Suc.prems(1) show ?case
  proof (cases rule: merge_objects_cases)
    case same
    then have "our = t" using object_eq_view [OF zero] Suc.prems(5,6) by blast
    with Suc.prems(5-7) same keep show ?thesis by (simp add: take3_def)
  next
    case theirs
    then have "b = our" using object_eq_view [OF zero] Suc.prems(4,5) by blast
    with Suc.prems(5-7) theirs keep show ?thesis by (auto simp: take3_def split: if_splits)
  next
    case ours
    then have "b = t" using object_eq_view [OF zero] Suc.prems(4,6) by blast
    with Suc.prems(5-7) ours keep show ?thesis by (auto simp: take3_def split: if_splits)
  next
    case (maps be oe te)
    note in_maps = Suc.prems(4-6) [unfolded maps(1-3)]
    from g maps(4) in_maps show ?thesis
    proof (rule merge_objects_maps)
      fix m s
      let ?out = "\<lambda>k. key_outcome v oid (merge_objects v oid n) (merge_child_path p k) (map_of be k)
        (map_of oe k) (map_of te k)"
      assume m: "x = ONode (NMap m)" "st' = push_created x s" "bt_wf m" "st_le st s"
        and keys: "\<And>k. \<exists>s1 s2. ?out k (map_of m k) s1 s2 \<and> st_le st s1 \<and> st_le s2 s"
      show ?thesis
      proof (cases c)
        case (Index i)
        with Suc.prems(7) maps m(1) show ?thesis by (simp add: take3_def)
      next
        case (Key k)
        from keys [of k] obtain s1 s2 where s: "?out k (map_of m k) s1 s2" "st_le st s1" "st_le s2 s"
          by blast
        have take: "take3 (descend v (map_of be k) cs) (descend v (map_of oe k) cs)
            (descend v (map_of te k) cs) = Some r"
          using Suc.prems(7) maps Key by simp
        from s(1) have "descend w (map_of m k) cs = r"
        proof (cases rule: key_outcomeE)
          case clean
          then have "r = descend v (map_of m k) cs"
            using take3_descend [where f = "\<lambda>q. descend v q cs", OF _ take] by blast
          moreover have "descend w (map_of m k) cs = descend v (map_of m k) cs"
            by (rule descend_extend [OF closed w])
              (use clean lookup_in_dom [OF g in_maps(2,3)] in auto)
          ultimately show ?thesis by simp
        next
          case (recurse oi ti bo oo to child)
          have mono: "st_le s1 s2"
            using merge_objects_st_le [OF g] recurse(7-10) by blast
          have s_eq: "mg_conflicts s = mg_conflicts st" "set (mg_created s) \<subseteq> set (mg_created st')"
            using Suc.prems(2) m(2) by (auto simp: push_created_def)
          have c2: "mg_conflicts s2 = mg_conflicts s1"
            using st_le_conflicts [OF s(2) st_le_trans [OF mono s(3)] s_eq(1)]
              st_le_conflicts [OF mono s(3)] by metis
          have created: "\<forall>y \<in> set (mg_created s2). w (oid y) = Some y"
            using Suc.prems(3) s_eq(2) st_le_created [OF s(3)] by blast
          have "w (oid child) = Some child"
          proof (cases "in_view v child")
            case True
            then show ?thesis using addr w unfolding in_view_def view_addressed_def map_le_def
              by (metis domI)
          next
            case False
            with merge_objects_known [OF g recurse(10,7,8,9)] created show ?thesis
              by (auto simp: known_def in_view_def)
          qed
          show ?thesis
          proof (cases cs)
            case Nil
            have "descend v q [] = q" for q by (cases q) simp_all
            with take recurse(1) Nil show ?thesis by simp
          next
            case (Cons d ds)
            have base: "descend v (map_of be k) (d # ds) = descend v (child_id_at bo d) ds"
              using recurse(6) by (auto simp: empty_map_def) (cases d; simp)
            have "descend w (child_id_at child d) ds = r"
              by (rule Suc.IH [OF recurse(10) c2 created recurse(7-9)])
                (use take Cons base recurse in simp)
            with \<open>w (oid child) = Some child\<close> recurse(11) Cons show ?thesis by simp
          qed
        next
          case (conflict a e f)
          have "mg_conflicts s = mg_conflicts st" using Suc.prems(2) m(2) by (simp add: push_created_def)
          with conflict(3) st_le_length [OF s(2)] st_le_length [OF s(3)] show ?thesis
            by (simp add: push_conflict_def)
        qed
        with m(1) Key show ?thesis by simp
      qed
    qed
  next
    case (sets bs xs ys)
    with Suc.prems(7) show ?thesis by (simp add: take3_def)
  qed (use Suc.prems(2) in \<open>simp_all add: push_conflict_def push_created_def\<close>)
qed simp

subsection \<open>The sides of a clean merge can be swapped\<close>

lemma merge_key_clean:
  "take3 (map_of be k) (map_of oe k) (map_of te k) = Some r \<Longrightarrow>
   merge_key v oid rec p be oe te k m st = Some (bt_put k r m, st)"
  by (auto simp: merge_key_def take3_def bt_put_def Let_def split: option.splits if_splits)

lemma merge_key_recurse:
  assumes "take3 (map_of be k) (map_of oe k) (map_of te k) = None"
    "map_of oe k = Some oi" "map_of te k = Some ti" "v oi = Some oo" "v ti = Some to"
    "(\<exists>bi. map_of be k = Some bi \<and> v bi = Some bo) \<or>
     map_of be k = None \<and> bo = empty_map \<and> is_map oo \<and> is_map to"
    "rec (merge_child_path p k) bo oo to st = Some (child, st')"
  shows "merge_key v oid rec p be oe te k m st = Some (bt_put k (Some (oid child)) m, st')"
  using assms
  by (auto simp: merge_key_def merge_all_three_def merge_both_added_def m_resolve_Some take3_def
      bt_put_def Let_def split: if_splits)

lemma merge_keys_swap:
  assumes "\<And>k m st m' st'. f k m st = Some (m', st') \<Longrightarrow> st_le st st'"
    "\<And>k m st m' st'. f k m st = Some (m', st') \<Longrightarrow> mg_conflicts st' = mg_conflicts st \<Longrightarrow>
       g k m st = Some (m', st')"
  shows "merge_keys f ks m st = Some (m', st') \<Longrightarrow> mg_conflicts st' = mg_conflicts st \<Longrightarrow>
    merge_keys g ks m st = Some (m', st')"
proof (induction ks arbitrary: m st)
  case (Cons k ks)
  from Cons.prems(1) obtain m1 st1 where 1: "f k m st = Some (m1, st1)"
    "merge_keys f ks m1 st1 = Some (m', st')" by (auto split: option.splits)
  have "st_le st1 st'"
    by (rule merge_keys_inv [where I = "st_le st1", OF _ 1(2)]) (use assms(1) st_le_trans in blast)+
  from st_le_conflicts [OF assms(1) [OF 1(1)] this Cons.prems(2)] Cons.IH [OF 1(2)]
    assms(2) [OF 1(1)] show ?case by simp
qed simp

lemma merge_objects_commute:
  assumes g: "merge_graph oid v" and zero: "view_no_signed_zero v"
  shows "merge_objects v oid n p b our t st = Some (x, st') \<Longrightarrow> mg_conflicts st' = mg_conflicts st \<Longrightarrow>
   in_view v b \<or> b = empty_map \<Longrightarrow> in_view v our \<Longrightarrow> in_view v t \<Longrightarrow>
   merge_objects v oid n p b t our st = Some (x, st')"
proof (induction n arbitrary: p b our t st x st')
  case (Suc n)
  note addr = merge_graphD(1) [OF g] and closed = merge_graphD(2) [OF g]
  have eq: "object_eq y z \<longleftrightarrow> y = z" if "in_view v y \<or> y = empty_map" "in_view v z" for y z
  proof
    show "object_eq y z" if "y = z"
      using addr \<open>in_view v z\<close> that
      by (auto simp: in_view_def view_addressed_def object_ok_def intro: object_eq_refl_finite)
  qed (use object_eq_view [OF zero] that in blast)
  note eqs = eq [OF disjI1 [OF Suc.prems(4)] Suc.prems(5)] eq [OF disjI1 [OF Suc.prems(5)] Suc.prems(4)]
    eq [OF Suc.prems(3,4)] eq [OF Suc.prems(3,5)]
  show ?case
  proof (cases "our = t \<or> b = our \<or> b = t")
    case True
    with Suc.prems(1) show ?thesis unfolding merge_objects.simps eqs by (auto split: if_splits)
  next
    case False
    with eqs have ne: "\<not> object_eq our t" "\<not> object_eq t our" "\<not> object_eq b our" "\<not> object_eq b t" by auto
    from Suc.prems(1) show ?thesis
    proof (cases rule: merge_objects_cases)
      case (maps be oe te)
      note in_maps = Suc.prems(3-5) [unfolded maps(1-3)]
      note dom = map_lookup_dom [OF closed in_maps(1)] map_lookup_dom [OF closed disjI1 [OF in_maps(2)]]
        map_lookup_dom [OF closed disjI1 [OF in_maps(3)]]
      let ?f = "merge_key v oid (merge_objects v oid n) p be oe te"
      let ?g = "merge_key v oid (merge_objects v oid n) p be te oe"
      have f: "st_le s s' \<and> (mg_conflicts s' = mg_conflicts s \<longrightarrow> ?g k m s = Some (m', s'))"
        if "?f k m s = Some (m', s')" for k m s m' s'
      proof -
        from merge_key_outcome [OF that] dom obtain r where r: "m' = bt_put k r m"
          "key_outcome v oid (merge_objects v oid n) (merge_child_path p k) (map_of be k)
             (map_of oe k) (map_of te k) r s s'" by blast
        from r(2) show ?thesis
        proof (cases rule: key_outcomeE)
          case clean
          with r(1) show ?thesis
            using merge_key_clean [of be k te oe r] by (simp add: take3_commute [of _ "map_of te k"])
        next
          case (recurse oi ti bo oo to child)
          have swap: "merge_objects v oid n (merge_child_path p k) bo to oo s = Some (child, s')"
            if "mg_conflicts s' = mg_conflicts s"
            by (rule Suc.IH [OF recurse(10) that recurse(7-9)])
          have "?g k m s = Some (bt_put k (Some (oid child)) m, s')" if "mg_conflicts s' = mg_conflicts s"
            by (rule merge_key_recurse [where rec = "merge_objects v oid n",
                  OF _ recurse(3,2,5,4) _ swap [OF that]])
              (use recurse(1,6) take3_commute [of "map_of be k" "map_of te k"] in auto)
          with merge_objects_st_le [OF g recurse(10,7,8,9)] r(1) recurse(11) show ?thesis by simp
        next
          case (conflict c d e)
          then show ?thesis by (simp add: push_conflict_def st_le_def)
        qed
      qed
      have keys: "bts_of_list (bt_keys be @ bt_keys te @ bt_keys oe) =
          bts_of_list (bt_keys be @ bt_keys oe @ bt_keys te)"
        by (rule bts_of_list_unique [OF bts_of_list_sorted]) auto
      from maps(4) obtain m s where ms: "merge_keys ?f (bts_of_list (bt_keys be @ bt_keys oe @ bt_keys te))
          [] st = Some (m, s)" "x = object_map m" "st' = push_created x s"
        by (auto simp: merge_maps_def Let_def split: option.splits)
      have "merge_keys ?g (bts_of_list (bt_keys be @ bt_keys te @ bt_keys oe)) [] st = Some (m, s)"
        unfolding keys
        by (rule merge_keys_swap [where f = ?f, OF _ _ ms(1)])
          (use f Suc.prems(2) ms(3) in \<open>auto simp: push_created_def\<close>)
      with ms(2,3) maps(1-3) ne show ?thesis by (simp add: merge_maps_def Let_def)
    next
      case (sets bs xs ys)
      have "bts_of_list (ys @ xs) = bts_of_list (xs @ ys)"
        by (rule bts_of_list_unique [OF bts_of_list_sorted]) auto
      with Suc.prems(1) sets(1-3) ne show ?thesis by (auto simp: merge_sets_def Let_def)
    qed (use ne False Suc.prems(2) in \<open>simp_all add: push_conflict_def push_created_def\<close>)
  qed
qed simp

section \<open>The checked merge\<close>

definition note_missing :: "view \<Rightarrow> ObjectId \<Rightarrow> MergeState \<Rightarrow> MergeState" where
  "note_missing v i st = (if v i = None \<and> mg_missing st = None then st\<lparr>mg_missing := Some i\<rparr> else st)"

lemma m_resolve_eq: "m_resolve v i st = (v i, note_missing v i st)"
  by (simp add: m_resolve_def note_missing_def Let_def)

text \<open>A property of the state that the resolver and the pushes keep holds after the merge.\<close>

lemma merge_objects_state_inv:
  assumes miss: "\<And>i st. I st \<Longrightarrow> v i = None \<Longrightarrow> mg_missing st = None \<Longrightarrow> I (st\<lparr>mg_missing := Some i\<rparr>)"
    and confl: "\<And>p a b c st. I st \<Longrightarrow> I (push_conflict p a b c st)"
    and crea: "\<And>x st. I st \<Longrightarrow> I (push_created x st)"
  shows "merge_objects v oid n p b our t st = Some (x, st') \<Longrightarrow> I st \<Longrightarrow> I st'"
proof (induction n arbitrary: p b our t st x st')
  case (Suc n)
  have res: "I (note_missing v i s)" if "I s" for i s
    using that miss by (simp add: note_missing_def)
  note keep = res confl m_resolve_eq
  from Suc.prems(1) show ?case
  proof (cases rule: merge_objects_cases)
    case (maps be oe te)
    have key: "I s'" if "merge_key v oid (merge_objects v oid n) p be oe te k m s = Some (m', s')" "I s"
      for k m s m' s'
    proof -
      have "I s'" if "merge_all_three v oid (merge_objects v oid n) cp k b i t m s = Some (m', s')" "I s"
        for cp b i t
        using that
        by (auto simp: merge_all_three_def keep split: option.splits prod.splits intro: Suc.IH [OF _ res [OF res [OF res]]])
      moreover have "I s'" if "merge_both_added v oid (merge_objects v oid n) cp k i t m s = Some (m', s')" "I s"
        for cp i t
        using that
        by (auto simp: merge_both_added_def keep split: option.splits prod.splits if_splits
            intro: Suc.IH [OF _ res [OF res]])
      ultimately show ?thesis
        using that by (auto simp: merge_key_def Let_def keep split: option.splits if_splits)
    qed
    from maps(4) obtain m s where
      "merge_keys (merge_key v oid (merge_objects v oid n) p be oe te)
         (bts_of_list (bt_keys be @ bt_keys oe @ bt_keys te)) [] st = Some (m, s)"
      and st': "st' = push_created x s"
      by (auto simp: merge_maps_def Let_def split: option.splits)
    from merge_keys_inv [where I = I, OF _ this(1) Suc.prems(2)] key have "I s" by blast
    with st' crea show ?thesis by simp
  qed (use Suc.prems(2) confl crea in auto)
qed simp

lemma merge_objects_missing:
  assumes "merge_objects v oid n p b our t st = Some (x, st')" "mg_missing st = None" "mg_missing st' = Some i"
  shows "v i = None"
proof -
  have "\<forall>i. mg_missing st' = Some i \<longrightarrow> v i = None"
    by (rule merge_objects_state_inv [where I = "\<lambda>s. \<forall>i. mg_missing s = Some i \<longrightarrow> v i = None",
          OF _ _ _ assms(1)])
      (simp_all add: push_conflict_def push_created_def assms(2))
  with assms(3) show ?thesis by blast
qed

lemma merge_roots_missing:
  assumes "merge_roots v oid n base ours theirs = Some (r, st)" "mg_missing st = Some i"
  shows "v i = None"
  using assms
  by (auto simp: merge_roots_def m_resolve_def merge_init_def Let_def
      split: if_splits option.splits dest: merge_objects_missing)

lemma merge_roots_fast_forward:
  assumes "merge_roots v oid n base ours theirs = Some (FastForward r, st)" "mg_missing st = None"
  shows "mg_created st = [] \<and>
    (base = ours \<and> r = theirs \<or> base = theirs \<and> r = ours \<or> ours = theirs \<and> r = ours)"
  using assms
  by (auto simp: merge_roots_def m_resolve_def merge_init_def Let_def split: if_splits option.splits)

text \<open>A run that recorded no missing object resolved everything it asked for, so a resolver that knows more
  gives the same run.\<close>

definition extends :: "('s \<Rightarrow> ('x \<times> MergeState) option) \<Rightarrow> ('s \<Rightarrow> ('x \<times> MergeState) option) \<Rightarrow> ('s \<Rightarrow> MergeState) \<Rightarrow> bool" where
  "extends f g start \<longleftrightarrow>
     (\<forall>a x st'. f a = Some (x, st') \<and> mg_missing st' = None \<longrightarrow> mg_missing (start a) = None \<and> g a = Some (x, st'))"

lemma note_missing_None: "mg_missing (note_missing v i st) = None \<longleftrightarrow> v i \<noteq> None \<and> mg_missing st = None"
  by (auto simp: note_missing_def)

lemma note_missing_found [simp]: "v i = Some x \<Longrightarrow> note_missing v i st = st"
  by (simp add: note_missing_def)

lemma push_missing [simp]: "mg_missing (push_conflict p a b c st) = mg_missing st" "mg_missing (push_created x st) = mg_missing st"
  by (simp_all add: push_conflict_def push_created_def)

abbreviation rec_extends :: "merge_rec \<Rightarrow> merge_rec \<Rightarrow> bool" where
  "rec_extends r r' \<equiv> extends (\<lambda>(p, b, our, t, st). r p b our t st) (\<lambda>(p, b, our, t, st). r' p b our t st) (\<lambda>(p, b, our, t, st). st)"

lemma rec_extendsD:
  "rec_extends r r' \<Longrightarrow> r p b our t st = Some (x, st') \<Longrightarrow> mg_missing st' = None \<Longrightarrow> mg_missing st = None \<and> r' p b our t st = Some (x, st')"
  by (force simp: extends_def)

lemma merge_all_three_extends:
  assumes "v \<subseteq>\<^sub>m w" "rec_extends r r'" "merge_all_three v oid r cp k b our t m st = Some (m', st')" "mg_missing st' = None"
  shows "mg_missing st = None \<and> merge_all_three w oid r' cp k b our t m st = Some (m', st')"
proof -
  have le: "v i = Some y \<Longrightarrow> w i = Some y" for i y using assms(1) by (force simp: map_le_def)
  show ?thesis
    using assms(3,4) rec_extendsD [OF assms(2)]
    by (auto simp: merge_all_three_def m_resolve_eq note_missing_None le split: option.splits prod.splits)
qed

lemma merge_both_added_extends:
  assumes "v \<subseteq>\<^sub>m w" "rec_extends r r'" "merge_both_added v oid r cp k our t m st = Some (m', st')" "mg_missing st' = None"
  shows "mg_missing st = None \<and> merge_both_added w oid r' cp k our t m st = Some (m', st')"
proof -
  have le: "v i = Some y \<Longrightarrow> w i = Some y" for i y using assms(1) by (force simp: map_le_def)
  show ?thesis
    using assms(3,4) rec_extendsD [OF assms(2)]
    by (auto simp: merge_both_added_def m_resolve_eq note_missing_None le split: option.splits prod.splits if_splits)
qed

lemma merge_key_extends:
  assumes "v \<subseteq>\<^sub>m w" "rec_extends r r'" "merge_key v oid r p be oe te k m st = Some (m', st')" "mg_missing st' = None"
  shows "mg_missing st = None \<and> merge_key w oid r' p be oe te k m st = Some (m', st')"
proof -
  have le: "v i = Some y \<Longrightarrow> w i = Some y" for i y using assms(1) by (force simp: map_le_def)
  show ?thesis
    using assms(3,4) merge_all_three_extends [OF assms(1,2)] merge_both_added_extends [OF assms(1,2)]
    by (auto simp: merge_key_def Let_def m_resolve_eq note_missing_None le split: option.splits if_splits)
qed

lemma merge_keys_extends:
  assumes "\<And>k m st m' st'. f k m st = Some (m', st') \<Longrightarrow> mg_missing st' = None \<Longrightarrow> mg_missing st = None \<and> g k m st = Some (m', st')"
  shows "merge_keys f ks m st = Some (m', st') \<Longrightarrow> mg_missing st' = None \<Longrightarrow>
    mg_missing st = None \<and> merge_keys g ks m st = Some (m', st')"
proof (induction ks arbitrary: m st)
  case (Cons k ks)
  then obtain m1 st1 where 1: "f k m st = Some (m1, st1)" "merge_keys f ks m1 st1 = Some (m', st')"
    by (auto split: option.splits)
  from Cons.IH [OF 1(2) Cons.prems(2)] assms [OF 1(1)] show ?case by simp
qed simp

lemma merge_objects_extends: "v \<subseteq>\<^sub>m w \<Longrightarrow> rec_extends (merge_objects v oid n) (merge_objects w oid n)"
proof (induction n)
  case (Suc n)
  have maps: "mg_missing st = None \<and> merge_maps w oid (merge_objects w oid n) p be oe te st = Some (x, st')"
    if "merge_maps v oid (merge_objects v oid n) p be oe te st = Some (x, st')" "mg_missing st' = None" for p be oe te st x st'
    using that merge_keys_extends [OF merge_key_extends [OF Suc.prems Suc.IH [OF Suc.prems]]]
    by (auto simp: merge_maps_def Let_def split: option.splits)
  have "mg_missing st = None \<and> merge_objects w oid (Suc n) p b our t st = Some (x, st')"
    if run: "merge_objects v oid (Suc n) p b our t st = Some (x, st')" "mg_missing st' = None" for p b our t st x st'
  proof
    show "mg_missing st = None"
      using merge_objects_state_inv [where I = "\<lambda>s. mg_missing s \<noteq> None", OF _ _ _ run(1)] run(2) by fastforce
    show "merge_objects w oid (Suc n) p b our t st = Some (x, st')"
    proof (cases "\<exists>be oe te. b = ONode (NMap be) \<and> our = ONode (NMap oe) \<and> t = ONode (NMap te)")
      case True
      with run(1) maps [OF _ run(2)] show ?thesis by (auto split: if_splits)
    next
      case False
      then have "merge_objects w oid (Suc n) p b our t st = merge_objects v oid (Suc n) p b our t st"
        by (auto split: Object.splits Node.splits)
      with run(1) show ?thesis by simp
    qed
  qed
  then show ?case by (auto simp: extends_def simp del: merge_objects.simps)
qed (simp add: extends_def)

lemma merge_roots_extends:
  assumes "v \<subseteq>\<^sub>m w" "merge_roots v oid n base ours theirs = Some (r, st)" "mg_missing st = None"
  shows "merge_roots w oid n base ours theirs = Some (r, st)"
proof -
  have le: "v i = Some y \<Longrightarrow> w i = Some y" for i y using assms(1) by (force simp: map_le_def)
  show ?thesis
    using assms(2,3) rec_extendsD [OF merge_objects_extends [OF assms(1)], of oid n]
    by (auto simp: merge_roots_def m_resolve_eq note_missing_None le split: if_splits option.splits prod.splits)
qed

section \<open>Merging state roots\<close>

lemma merge_roots_objects:
  assumes "merge_roots v oid n base ours theirs = Some (r, st)" "base \<in> dom v" "ours \<in> dom v" "theirs \<in> dom v"
    "r = MergeSuccess x \<or> r = MergeConflicts x cs"
  obtains b our t where "v base = Some b" "v ours = Some our" "v theirs = Some t"
    "merge_objects v oid n ''/'' b our t merge_init = Some (x, st)"
    "r = (if mg_conflicts st = [] then MergeSuccess x else MergeConflicts x (mg_conflicts st))"
    "base \<noteq> ours" "base \<noteq> theirs" "ours \<noteq> theirs"
proof -
  from assms(2-4) obtain b our t where v: "v base = Some b" "v ours = Some our" "v theirs = Some t" by blast
  from assms(1,5) have ne: "base \<noteq> ours" "base \<noteq> theirs" "ours \<noteq> theirs"
    by (auto simp: merge_roots_def split: if_splits)
  obtain y st3 where y3: "merge_objects v oid n ''/'' b our t merge_init = Some (y, st3)"
    using assms(1) v ne
    by (cases "merge_objects v oid n ''/'' b our t merge_init"; force simp: merge_roots_def m_resolve_Some)
  with assms(1) v ne have y: "merge_objects v oid n ''/'' b our t merge_init = Some (y, st)"
    "r = (if mg_conflicts st = [] then MergeSuccess y else MergeConflicts y (mg_conflicts st))"
    by (auto simp: merge_roots_def m_resolve_Some)
  with assms(5) have "y = x" by (auto split: if_splits)
  with y ne show ?thesis by (intro that [OF v]) simp_all
qed

lemma merge_roots_total:
  assumes "view_ranked rank v" "rank ours < n"
  shows "merge_roots v oid n base ours theirs \<noteq> None"
proof -
  have "merge_objects v oid n ''/'' b x t st \<noteq> None" if "v ours = Some x" for b x t st
    by (rule merge_objects_total [OF assms(1) that assms(2)])
  then show ?thesis
    unfolding merge_roots_def m_resolve_eq prod.case
    by (simp del: not_None_eq split: option.split) blast
qed

lemma merge_roots_mono:
  assumes "merge_roots v oid n base ours theirs = Some r" "n \<le> m"
  shows "merge_roots v oid m base ours theirs = Some r"
  using assms merge_objects_mono [OF _ assms(2)]
  unfolding merge_roots_def m_resolve_eq by (auto split: if_splits option.splits)

lemma merge_answers:
  assumes "view_ranked rank v"
  shows "\<exists>r. \<forall>n > rank ours. merge_roots v oid n base ours theirs = Some r"
proof -
  obtain r where "merge_roots v oid (Suc (rank ours)) base ours theirs = Some r"
    using merge_roots_total [OF assms, of ours "Suc (rank ours)" oid base theirs] by blast
  with merge_roots_mono show ?thesis by (metis Suc_leI)
qed

lemma merge_roots_stored:
  assumes g: "merge_graph oid v" and run: "merge_roots v oid n base ours theirs = Some (r, st)"
    and dom: "base \<in> dom v" "ours \<in> dom v" "theirs \<in> dom v"
    and x: "r = MergeSuccess x \<or> r = MergeConflicts x cs"
  shows "children_first oid (dom v) (mg_created st) \<and> list_all object_ok (mg_created st) \<and>
    oid x \<in> dom v \<union> oid ` set (mg_created st)"
proof -
  from run dom x obtain b our t where m: "v base = Some b" "v ours = Some our" "v theirs = Some t"
    "merge_objects v oid n ''/'' b our t merge_init = Some (x, st)"
    by (rule merge_roots_objects)
  have "created_ok oid v merge_init" by (simp add: created_ok_def merge_init_def)
  moreover have "in_view v b" "in_view v our" "in_view v t" using m by (auto simp: in_view_def)
  ultimately show ?thesis
    using merge_objects_known [OF g m(4)] known_oid [OF merge_graphD(1) [OF g]]
    by (auto simp: created_ok_def)
qed

end
