(* ===== verification/Samples.thy ===== *)
theory Samples
  imports Memory_Laws Merge_Laws
begin

text \<open>
  Concrete stores for the witnesses of the development: three versions of one document in an
  in-memory store addressed by the concrete hash of \<open>Symbolic_Hash\<close>.
\<close>

definition store_doc :: "MemoryStorage \<Rightarrow> json \<Rightarrow> MemoryStorage" where
  "store_doc s j = fst (json_to_tree sym_oid (memory_store sym_oid) s j)"

definition doc_root :: "json \<Rightarrow> ObjectId" where
  "doc_root j = sym_oid (fst (json_to_objects sym_oid j []))"

definition base_doc :: json where
  "base_doc = JObject [(''a'', JString ''1''), (''m'', JObject [(''k'', JBool True)])]"

definition ours_doc :: json where
  "ours_doc = JObject [(''a'', JString ''2''), (''m'', JObject [(''k'', JBool True)])]"

definition theirs_doc :: json where
  "theirs_doc = JObject [(''a'', JString ''1''), (''m'', JObject [(''k'', JBool False)])]"

definition sample_store :: MemoryStorage where
  "sample_store = store_doc (store_doc (store_doc memory_new base_doc) ours_doc) theirs_doc"

abbreviation sample_view :: view where
  "sample_view \<equiv> memory_view sample_store"

lemma store_doc_good:
  assumes "objects_inv sym_oid s" "view_dag (memory_view s)" "json_wf j"
  shows "objects_inv sym_oid (store_doc s j)" "view_dag (memory_view (store_doc s j))"
proof -
  obtain s' r where "json_to_tree sym_oid (memory_store sym_oid) s j = (s', r)" by force
  with sym.json_to_tree_correct [OF assms(1,3) this] assms(2)
  show "objects_inv sym_oid (store_doc s j)" "view_dag (memory_view (store_doc s j))"
    by (auto simp: store_doc_def)
qed

lemma view_dag_empty [simp]: "view_dag Map.empty"
  by (simp add: view_dag_def view_closed_def view_ranked_def)

lemma docs_wf: "json_wf base_doc" "json_wf ours_doc" "json_wf theirs_doc"
  by (simp_all add: base_doc_def ours_doc_def theirs_doc_def bt_wf_def)

lemma sample_inv [simp]: "objects_inv sym_oid sample_store"
  and sample_dag [simp]: "view_dag sample_view"
  unfolding sample_store_def by (simp_all add: store_doc_good docs_wf)

lemma sample_closed [simp]: "view_closed sample_view"
  using sample_dag by (simp add: view_dag_def)

lemma sample_addressed [simp]: "view_addressed sym_oid sample_view"
  by (rule mem.addressed) simp

lemma sample_graph [simp]: "merge_graph sym_oid sample_view"
  by (simp add: merge_graph_def)

lemma sample_roots [simp]:
  "doc_root base_doc \<in> dom sample_view" "doc_root ours_doc \<in> dom sample_view"
  "doc_root theirs_doc \<in> dom sample_view"
  unfolding domIff by code_simp+

text \<open>The objects of the sample hold no floats.\<close>

definition float_free :: "Object \<Rightarrow> bool" where
  "float_free x \<longleftrightarrow> (case x of OAtom (AFloat _) \<Rightarrow> False | _ \<Rightarrow> True)"

lemma sample_float_free: "list_all float_free (map snd (ms_objects sample_store))"
  by code_simp

lemma float_free_eq: "float_free x \<Longrightarrow> object_eq x y \<Longrightarrow> x = y"
proof (cases x)
  case (OAtom a)
  assume "float_free x" "object_eq x y"
  with OAtom show ?thesis by (cases y; cases a) (auto simp: float_free_def)
qed (cases y; simp)

lemma sample_no_zero [simp]: "view_no_signed_zero sample_view"
proof -
  have "float_free x" if "sample_view i = Some x" for i x
    using sample_float_free that
    by (auto simp: memory_view_def list_all_iff dest!: map_of_SomeD)
  then show ?thesis by (auto simp: view_no_signed_zero_def intro: float_free_eq)
qed

text \<open>Each side changed one place, so the merge of the sample succeeds.\<close>

fun merge_succeeds :: "(MergeResult \<times> Object list) option \<Rightarrow> bool" where
  "merge_succeeds (Some (MergeSuccess x, cs)) \<longleftrightarrow> cs \<noteq> []"
| "merge_succeeds _ \<longleftrightarrow> False"

lemma merge_succeedsD: "merge_succeeds r \<Longrightarrow> \<exists>x cs. r = Some (MergeSuccess x, cs) \<and> cs \<noteq> []"
  by (induction r rule: merge_succeeds.induct) simp_all

abbreviation sample_merge :: "nat \<Rightarrow> (MergeResult \<times> Object list) option" where
  "sample_merge n \<equiv> three_way_merge_collect sample_view sym_oid n (doc_root base_doc)
     (doc_root ours_doc) (doc_root theirs_doc)"

lemma sample_merge_run: "\<exists>x cs. sample_merge 5 = Some (MergeSuccess x, cs) \<and> cs \<noteq> []"
  by (rule merge_succeedsD) code_simp

section \<open>A history with a shared ancestor\<close>

definition commit_name :: "nat \<Rightarrow> ObjectId" where
  "commit_name n = ObjectId [of_nat n]"

definition sample_commit :: "nat \<Rightarrow> nat list \<Rightarrow> Commit" where
  "sample_commit n parents =
     \<lparr> cm_id = commit_name n, cm_state_root = sym_oid object_null, cm_parents = map commit_name parents,
       cm_timestamp = 0, cm_agent_id = ''a'', cm_authority = authority_simple 0 ''a'',
       cm_intent = intent_new ''i'' Refine ''d'', cm_reasoning = None, cm_confidence = None,
       cm_tool_calls = [] \<rparr>"

definition diamond_store :: MemoryStorage where
  "diamond_store = fst (put_commit (fst (put_commit (fst (put_commit (fst (put_commit memory_new
     (sample_commit 3 []))) (sample_commit 2 [3]))) (sample_commit 1 [3]))) (sample_commit 0 [1, 2]))"

end
