(* ===== verification/Merge_Properties.thy ===== *)
theory Merge_Properties
  imports Samples
begin

text \<open>
  What a caller of \<open>merge.rs\<close> and \<open>diff.rs\<close> relies on, over any store of objects addressed by their
  content (a \<open>view\<close>): the three-way rule at every path, the persistence contract of the created
  objects, symmetry of the two sides, refusal on missing objects, and exactness of the structural
  diff. Each theorem is followed by an application to the sample documents.
\<close>

section \<open>Merging and diffing\<close>

text \<open>
  C1. A three-way merge of state roots that reports no conflict follows the three-way rule at every
  path: where one side left the subtree as it was in the base the result has the other side's
  subtree, and where both sides agree it has theirs. Ids are compared, so the statement covers whole
  subtrees; the result is read in the store after the created objects were stored.
\<close>

theorem merge_three_way:
  assumes "collision_free oid" "view_addressed oid v" "view_closed v" "view_no_signed_zero v"
    and "base \<in> dom v" "ours \<in> dom v" "theirs \<in> dom v"
    and "three_way_merge_collect v oid n base ours theirs = Some (MergeSuccess merged, created)"
    and "take3 (descend v (Some base) p) (descend v (Some ours) p) (descend v (Some theirs) p) = Some r"
  shows "descend (fold (view_put oid) created v) (Some (oid merged)) p = r"
proof -
  let ?w = "fold (view_put oid) created v"
  have g: "merge_graph oid v" using assms(2,3) by (simp add: merge_graph_def)
  from assms(8) obtain st where st: "merge_roots v oid n base ours theirs = Some (MergeSuccess merged, st)"
    "created = mg_created st" by (auto simp: three_way_merge_collect_def)
  from st(1) assms(5-7) obtain b our t where v: "v base = Some b" "v ours = Some our" "v theirs = Some t"
    and run: "merge_objects v oid n ''/'' b our t merge_init = Some (merged, st)"
    and ne: "base \<noteq> ours" "base \<noteq> theirs" "ours \<noteq> theirs" and clean: "mg_conflicts st = []"
    by (rule merge_roots_objects [where x = merged and cs = "[]"]) (auto split: if_splits)
  have views: "in_view v b" "in_view v our" "in_view v t" using v by (auto simp: in_view_def)
  have stored: "\<forall>y \<in> set (mg_created st). ?w (oid y) = Some y"
    using merge_roots_stored [OF g st(1) assms(5-7)] fold_view_put_exact [OF assms(1,2)] st(2) by auto
  have root: "?w (oid merged) = Some merged"
  proof (cases "in_view v merged")
    case True
    with assms(2) fold_view_put_le [of v oid created] show ?thesis
      unfolding in_view_def view_addressed_def map_le_def by (metis domI)
  next
    case False
    with merge_objects_known [OF g run] views stored show ?thesis
      by (auto simp: known_def in_view_def)
  qed
  show ?thesis
  proof (cases p)
    case Nil
    with assms(9) ne show ?thesis by (simp add: take3_def split: if_splits)
  next
    case (Cons c cs)
    with merge_objects_take3 [OF g assms(4) fold_view_put_le run _ stored, of c cs r] views clean
      assms(9) v root show ?thesis by (simp add: merge_init_def st(2))
  qed
qed

theorem merge_three_way_witness:
  "\<exists>merged created.
     sample_merge 5 = Some (MergeSuccess merged, created) \<and>
     descend (fold (view_put sym_oid) created sample_view) (Some (sym_oid merged)) [Key ''a''] =
       descend sample_view (Some (doc_root ours_doc)) [Key ''a''] \<and>
     descend (fold (view_put sym_oid) created sample_view) (Some (sym_oid merged)) [Key ''m'', Key ''k''] =
       descend sample_view (Some (doc_root theirs_doc)) [Key ''m'', Key ''k'']"
proof -
  obtain merged created where run: "sample_merge 5 = Some (MergeSuccess merged, created)" "created \<noteq> []"
    using sample_merge_run by blast
  note rule = merge_three_way [OF sym_oid_collision_free sample_addressed sample_closed sample_no_zero
      sample_roots run(1)]
  have "take3 (descend sample_view (Some (doc_root base_doc)) [Key ''a''])
      (descend sample_view (Some (doc_root ours_doc)) [Key ''a''])
      (descend sample_view (Some (doc_root theirs_doc)) [Key ''a'']) =
      Some (descend sample_view (Some (doc_root ours_doc)) [Key ''a''])"
    by code_simp
  moreover have "take3 (descend sample_view (Some (doc_root base_doc)) [Key ''m'', Key ''k''])
      (descend sample_view (Some (doc_root ours_doc)) [Key ''m'', Key ''k''])
      (descend sample_view (Some (doc_root theirs_doc)) [Key ''m'', Key ''k'']) =
      Some (descend sample_view (Some (doc_root theirs_doc)) [Key ''m'', Key ''k''])"
    by code_simp
  ultimately show ?thesis using run rule by blast
qed

text \<open>
  C2. The objects a merge creates can be stored in the order they are returned, each after the
  objects it refers to. Afterwards the merged root is in the store, the store has no dangling ids
  and no cycles, and every object that was there still is. This holds for the partial result of a
  merge with conflicts as well.
\<close>

theorem merge_result_stored:
  assumes "view_dag v" "view_addressed oid v" "base \<in> dom v" "ours \<in> dom v" "theirs \<in> dom v"
    and "three_way_merge_collect v oid n base ours theirs = Some (r, created)"
    and "r = MergeSuccess merged \<or> r = MergeConflicts merged conflicts"
  shows "children_first oid (dom v) created \<and> view_dag (fold (view_put oid) created v) \<and>
    view_addressed oid (fold (view_put oid) created v) \<and>
    oid merged \<in> dom (fold (view_put oid) created v) \<and> v \<subseteq>\<^sub>m fold (view_put oid) created v"
proof -
  have g: "merge_graph oid v" using assms(1,2) by (simp add: merge_graph_def view_dag_def)
  from assms(6) obtain st where st: "merge_roots v oid n base ours theirs = Some (r, st)"
    "created = mg_created st" by (auto simp: three_way_merge_collect_def)
  from merge_roots_stored [OF g st(1) assms(3-5,7)] fold_view_put [OF assms(1,2)] st(2)
  show ?thesis by simp
qed

theorem merge_result_stored_witness:
  "\<exists>merged created. sample_merge 5 = Some (MergeSuccess merged, created) \<and>
     created \<noteq> [] \<and> view_dag (fold (view_put sym_oid) created sample_view)"
proof -
  obtain merged created where run: "sample_merge 5 = Some (MergeSuccess merged, created)" "created \<noteq> []"
    using sample_merge_run by blast
  with merge_result_stored [OF sample_dag sample_addressed sample_roots run(1)] show ?thesis by blast
qed

text \<open>
  C3. Which side is ours matters only for conflicts: swapping the sides of a merge that succeeds
  gives the same merged object and the same created objects.
\<close>

theorem merge_commutes:
  assumes "view_addressed oid v" "view_closed v" "view_no_signed_zero v"
    and "base \<in> dom v" "ours \<in> dom v" "theirs \<in> dom v"
    and "three_way_merge_collect v oid n base ours theirs = Some (MergeSuccess merged, created)"
  shows "three_way_merge_collect v oid n base theirs ours = Some (MergeSuccess merged, created)"
proof -
  have g: "merge_graph oid v" using assms(1,2) by (simp add: merge_graph_def)
  from assms(7) obtain st where st: "merge_roots v oid n base ours theirs = Some (MergeSuccess merged, st)"
    "created = mg_created st" by (auto simp: three_way_merge_collect_def)
  from st(1) assms(4-6) obtain b our t where v: "v base = Some b" "v ours = Some our" "v theirs = Some t"
    and run: "merge_objects v oid n ''/'' b our t merge_init = Some (merged, st)"
    and ne: "base \<noteq> ours" "base \<noteq> theirs" "ours \<noteq> theirs" and clean: "mg_conflicts st = []"
    by (rule merge_roots_objects [where x = merged and cs = "[]"]) (auto split: if_splits)
  have "merge_objects v oid n ''/'' b t our merge_init = Some (merged, st)"
    using merge_objects_commute [OF g assms(3) run] v clean by (auto simp: in_view_def merge_init_def)
  with v ne clean st(2) show ?thesis
    by (simp add: three_way_merge_collect_def merge_roots_def m_resolve_Some)
qed

theorem merge_commutes_witness:
  "\<exists>merged created. three_way_merge_collect sample_view sym_oid 5 (doc_root base_doc)
       (doc_root theirs_doc) (doc_root ours_doc) = Some (MergeSuccess merged, created) \<and>
     sample_merge 5 = Some (MergeSuccess merged, created)"
proof -
  obtain merged created where run: "sample_merge 5 = Some (MergeSuccess merged, created)" "created \<noteq> []"
    using sample_merge_run by blast
  with merge_commutes [OF sample_addressed sample_closed sample_no_zero sample_roots run(1)]
  show ?thesis by blast
qed

text \<open>
  C4. The checked merge never answers from an object it could not resolve. An error names an id the resolver
  does not have. An answer needs nothing the resolver lacked: every resolver that knows more gives the same
  merged object, the same conflicts and the same created objects, where the unchecked merge can answer
  differently. A fast-forward means that a side equals the base or the other side.
\<close>

theorem checked_merge_sound:
  "(try_three_way_merge_collect v oid n base ours theirs = Some (Inl i) \<longrightarrow> v i = None) \<and>
   (try_three_way_merge_collect v oid n base ours theirs = Some (Inr answer) \<longrightarrow>
      (\<forall>w. v \<subseteq>\<^sub>m w \<longrightarrow> try_three_way_merge_collect w oid n base ours theirs = Some (Inr answer)) \<and>
      (\<forall>r created. answer = (FastForward r, created) \<longrightarrow> created = [] \<and>
         (base = ours \<and> r = theirs \<or> base = theirs \<and> r = ours \<or> ours = theirs \<and> r = ours)))"
  by (auto simp: try_three_way_merge_collect_def split: option.splits
      dest: merge_roots_missing merge_roots_fast_forward merge_roots_extends)

text \<open>A store that lacks one child of both changed maps: the unchecked merge answers with a conflict, the
  checked one names the child.\<close>

definition gap_id :: ObjectId where
  "gap_id = sym_oid (ONode (NMap [(''k'', sym_oid (OAtom (ABool True)))]))"

definition changed_doc :: json where
  "changed_doc = JObject [(''a'', JString ''1''), (''m'', JObject [(''k'', JString ''x'')])]"

definition gap_view :: view where
  "gap_view = (memory_view (store_doc sample_store changed_doc))(gap_id := None)"

theorem checked_merge_sound_witness:
  "try_three_way_merge_collect gap_view sym_oid 5 (doc_root base_doc) (doc_root changed_doc) (doc_root theirs_doc) = Some (Inl gap_id) \<and>
   gap_view gap_id = None \<and> three_way_merge_collect gap_view sym_oid 5 (doc_root base_doc) (doc_root changed_doc) (doc_root theirs_doc) \<noteq> None \<and>
   (\<exists>answer. try_three_way_merge_collect sample_view sym_oid 5 (doc_root base_doc) (doc_root ours_doc) (doc_root theirs_doc) = Some (Inr answer) \<and>
      (\<forall>w. sample_view \<subseteq>\<^sub>m w \<longrightarrow>
         try_three_way_merge_collect w sym_oid 5 (doc_root base_doc) (doc_root ours_doc) (doc_root theirs_doc) = Some (Inr answer)))"
proof -
  have gap: "try_three_way_merge_collect gap_view sym_oid 5 (doc_root base_doc) (doc_root changed_doc) (doc_root theirs_doc) = Some (Inl gap_id)"
    "three_way_merge_collect gap_view sym_oid 5 (doc_root base_doc) (doc_root changed_doc) (doc_root theirs_doc) \<noteq> None"
    by code_simp+
  have "(case try_three_way_merge_collect sample_view sym_oid 5 (doc_root base_doc) (doc_root ours_doc) (doc_root theirs_doc) of
      Some (Inr _) \<Rightarrow> True | _ \<Rightarrow> False)" by code_simp
  then obtain answer where "try_three_way_merge_collect sample_view sym_oid 5 (doc_root base_doc) (doc_root ours_doc) (doc_root theirs_doc) =
      Some (Inr answer)" by (auto split: option.splits sum.splits)
  with checked_merge_sound [of sample_view sym_oid 5 "doc_root base_doc" "doc_root ours_doc" "doc_root theirs_doc"]
    checked_merge_sound [of gap_view sym_oid 5 "doc_root base_doc" "doc_root changed_doc" "doc_root theirs_doc" gap_id] gap
  show ?thesis by blast
qed

text \<open>
  C5. A merge over a store without cycles answers, and the answer does not depend on the fuel once
  there is enough of it.
\<close>

theorem merge_answers_always:
  assumes "view_dag v"
  shows "\<exists>r k. \<forall>n > k. try_three_way_merge_collect v oid n base ours theirs = Some r"
proof -
  from assms obtain rank where "view_ranked rank v" by (auto simp: view_dag_def)
  from merge_answers [OF this] obtain r st where
    "\<forall>n > rank ours. merge_roots v oid n base ours theirs = Some (r, st)" by (metis surj_pair)
  then have "\<forall>n > rank ours. try_three_way_merge_collect v oid n base ours theirs =
      Some (case mg_missing st of Some i \<Rightarrow> Inl i | None \<Rightarrow> Inr (r, mg_created st))"
    by (simp add: try_three_way_merge_collect_def)
  then show ?thesis by blast
qed

theorem merge_answers_always_witness:
  "\<exists>r k. \<forall>n > k. try_three_way_merge_collect sample_view sym_oid n (doc_root base_doc)
     (doc_root ours_doc) (doc_root theirs_doc) = Some r"
  by (rule merge_answers_always) simp

subsection \<open>Diff\<close>

text \<open>
  C6. Every operation of a diff is true: at the path it names both trees have a value, and the
  operation describes how the two differ (a changed atom with both its values, a key or element that
  only one side has with its value, a changed type).
\<close>

theorem diff_sound:
  assumes "view_addressed oid v" "view_closed v" "i \<in> dom v" "j \<in> dom v"
    and "diff v n i j = Some ops" "op \<in> set ops"
  shows "\<exists>p x y. view_get v i p = Some x \<and> view_get v j p = Some y \<and>
    op_describes v (path_display p) x y op"
proof -
  from assms(3,4) obtain x y where xy: "v i = Some x" "v j = Some y" by blast
  with assms(5,6) have "diff_objects v n [] x y = Some ops"
    by (auto simp: diff_def split: if_splits)
  from diff_objects_sound [OF assms(1,2) xy this assms(6)] xy show ?thesis
    by (auto simp: op_holds_def view_get_def)
qed

abbreviation sample_change :: DiffOp where
  "sample_change \<equiv> SetValue ''/a'' (DvString ''1'') (DvString ''2'')"

theorem diff_sound_witness:
  "diff sample_view 5 (doc_root base_doc) (doc_root ours_doc) = Some [sample_change] \<and>
   (\<exists>p x y. view_get sample_view (doc_root base_doc) p = Some x \<and>
      view_get sample_view (doc_root ours_doc) p = Some y \<and>
      op_describes sample_view (path_display p) x y sample_change)"
proof -
  have run: "diff sample_view 5 (doc_root base_doc) (doc_root ours_doc) = Some [sample_change]"
    by code_simp
  with diff_sound [OF sample_addressed sample_closed sample_roots(1,2) run, of sample_change]
  show ?thesis by simp
qed

text \<open>
  C7. No changed value is missed: where two trees have different atoms at the same path, the diff
  sets the one to the other at that path.
\<close>

theorem diff_complete:
  assumes "view_get v i p = Some (OAtom a)" "view_get v j p = Some (OAtom b)"
    and "a \<noteq> b" "\<not> atom_eq a b" "diff v n i j = Some ops"
  shows "SetValue (path_display p) (dv_from_atom a) (dv_from_atom b) \<in> set ops"
proof -
  from assms(1,2) obtain x y where xy: "v i = Some x" "v j = Some y"
    "view_nav v x p = Some (OAtom a)" "view_nav v y p = Some (OAtom b)"
    by (auto simp: view_get_def split: option.splits)
  then have "i \<noteq> j" using assms(3) by auto
  with assms(5) xy have "diff_objects v n [] x y = Some ops" by (simp add: diff_def)
  from diff_objects_atom [OF xy(3,4) assms(4,3) this] show ?thesis by simp
qed

theorem diff_complete_witness:
  "\<exists>ops. diff sample_view 5 (doc_root base_doc) (doc_root theirs_doc) = Some ops \<and>
     SetValue ''/m/k'' (DvBool True) (DvBool False) \<in> set ops"
proof -
  have "view_get sample_view (doc_root base_doc) [Key ''m'', Key ''k''] = Some (OAtom (ABool True))"
    "view_get sample_view (doc_root theirs_doc) [Key ''m'', Key ''k''] = Some (OAtom (ABool False))"
    by code_simp+
  moreover have "diff sample_view 5 (doc_root base_doc) (doc_root theirs_doc) \<noteq> None" by code_simp
  then obtain ops where "diff sample_view 5 (doc_root base_doc) (doc_root theirs_doc) = Some ops" by blast
  ultimately show ?thesis
    using diff_complete [of sample_view "doc_root base_doc" "[Key ''m'', Key ''k'']" "ABool True"
        "doc_root theirs_doc" "ABool False" 5 ops] by (simp add: path_display_def)
qed

text \<open>
  The diff of two stored trees is empty exactly when they are the same tree. Two trees that
  differ only in the sign of a float zero are excluded: the source compares atoms with \<open>==\<close>.
\<close>

lemma diff_empty_exact:
  assumes "view_addressed oid v" "view_closed v" "view_no_signed_zero v" "i \<in> dom v" "j \<in> dom v"
  shows "diff v n i j = Some [] \<longleftrightarrow> i = j"
  by (rule diff_empty_iff [OF assms])

text \<open>
  The exclusion in C8 is needed: a tree whose value changes from \<open>0.0\<close> to \<open>-0.0\<close> has another
  root, and the diff is empty.
\<close>

lemma diff_misses_signed_zero:
  "\<exists>v i j. view_addressed sym_oid v \<and> view_closed v \<and> i \<in> dom v \<and> j \<in> dom v \<and> i \<noteq> j \<and>
     diff v 5 i j = Some []"
proof -
  define x y where "x = object_float 0" and "y = object_float 0x8000000000000000"
  then have eq: "object_eq x y" and ok: "object_ok x" "object_ok y" and ne: "x \<noteq> y"
    and leaf: "child_ids x = []" "child_ids y = []" 
    by (simp_all add: object_float_def object_ok_def f64_eq_def f64_is_nan_def f64_is_finite_def
        f64_magnitude_def)
  let ?v = "[sym_oid x \<mapsto> x, sym_oid y \<mapsto> y]"
  have "view_addressed sym_oid ?v" using ok by (simp add: view_addressed_def)
  moreover have "view_closed ?v" using leaf by (simp add: view_closed_def)
  moreover have "diff ?v 5 (sym_oid x) (sym_oid y) = Some []"
    using eq ne by (simp add: diff_def eval_nat_numeral)
  ultimately show ?thesis using ne
    by (intro exI [of _ ?v] exI [of _ "sym_oid x"] exI [of _ "sym_oid y"]) simp
qed

text \<open>
  A diff over a store without cycles answers, and the answer does not depend on the fuel once
  there is enough of it.
\<close>

lemma diff_answers_always:
  assumes "view_dag v"
  shows "\<exists>ops k. \<forall>n > k. diff v n i j = Some ops"
  using assms diff_answers unfolding view_dag_def by blast

end
