(* ===== verification/Tree_Walks.thy ===== *)
theory Tree_Walks
  imports Tree_Json
begin

text \<open>
  The walks over whole trees, from \<open>crates/agentstategraph/src/tree.rs\<close>: listing paths, searching values,
  collecting leaves and the difference of the leaves of two trees, by which the leaf index follows a
  commit. How a float prints is the parameter \<open>show_f64\<close>, lower-casing the parameter \<open>lower\<close>.
\<close>

definition LIST_PATHS_HARD_CEILING :: nat where "LIST_PATHS_HARD_CEILING = 128"

definition LIST_PATHS_MAX_RESULTS :: nat where "LIST_PATHS_MAX_RESULTS = 10000"

text \<open>A loop over a vector whose body can fail and updates an accumulator.\<close>

fun try_fold :: "('a \<Rightarrow> 'b \<Rightarrow> 'e + 'b) \<Rightarrow> 'a list \<Rightarrow> 'b \<Rightarrow> 'e + 'b" where
  "try_fold f [] acc = Inr acc"
| "try_fold f (x # xs) acc = (case f x acc of Inl e \<Rightarrow> Inl e | Inr acc' \<Rightarrow> try_fold f xs acc')"

section \<open>Paths of children\<close>

fun keyed_children :: "Node \<Rightarrow> (string \<times> ObjectId) list" where
  "keyed_children (NMap entries) = entries"
| "keyed_children (NList items) = map (\<lambda>(n, i). (show_nat n, i)) (enumerate 0 items)"
| "keyed_children (NSet items) = map (\<lambda>(n, i). (show_nat n, i)) (enumerate 0 items)"

definition child_path :: "string \<Rightarrow> string \<Rightarrow> string" where
  "child_path p k = p @ ''/'' @ k"

definition leaf_path :: "string \<Rightarrow> string" where
  "leaf_path p = (if p = [] then ''/'' else p)"

section \<open>Listing paths\<close>

function collect_paths ::
  "'s ObjectStore \<Rightarrow> 's \<Rightarrow> Object \<Rightarrow> string \<Rightarrow> nat \<Rightarrow> nat \<Rightarrow> string list \<Rightarrow> TreeError + string list" where
  "collect_paths S s obj p max_depth depth paths =
     (if max_depth < depth then Inr paths
      else if LIST_PATHS_MAX_RESULTS \<le> length paths then Inr paths
      else case obj of
        OAtom _ \<Rightarrow> Inr (paths @ [leaf_path p])
      | ONode node \<Rightarrow>
          if node = NMap [] then Inr (paths @ [leaf_path p])
          else try_fold (\<lambda>(key, child_id) paths. case load_object S s child_id of
                   Inl e \<Rightarrow> Inl e
                 | Inr child \<Rightarrow> collect_paths S s child (child_path p key) max_depth (depth + 1) paths)
                 (keyed_children node) paths)"
  by pat_completeness auto
termination
  by (relation "measure (\<lambda>(S, s, obj, p, max_depth, depth, paths). Suc max_depth - depth)") auto

declare collect_paths.simps [simp del]

definition tree_list_paths ::
  "'s ObjectStore \<Rightarrow> 's \<Rightarrow> ObjectId \<Rightarrow> string \<Rightarrow> nat \<Rightarrow> TreeError + string list" where
  "tree_list_paths S s root prefix max_depth =
     try_bind (load_object S s root) (\<lambda>root_obj.
     try_bind (if prefix = [] \<or> prefix = ''/'' then Inr (root_obj, [])
               else try_bind (map_err (\<lambda>e. TPathNotFound (path_error_string e)) (path_parse prefix)) (\<lambda>path.
                    try_bind (tree_get S s root path) (\<lambda>obj. Inr (obj, prefix)))) (\<lambda>(start_obj, base_path).
     let depth = min max_depth LIST_PATHS_HARD_CEILING in
     try_bind (prefetch_load S s start_obj (depth + 1)) (\<lambda>objects.
     try_bind (collect_paths (prefetched_store S objects) s start_obj base_path depth 0 []) (\<lambda>paths.
     Inr (take LIST_PATHS_MAX_RESULTS paths)))))"

section \<open>Leaf values\<close>

definition show_int :: "int \<Rightarrow> string" where
  "show_int n = (if n < 0 then ''-'' @ show_nat (nat (- n)) else show_nat (nat n))"

fun atom_value_string :: "(f64 \<Rightarrow> string) \<Rightarrow> Atom \<Rightarrow> string option" where
  "atom_value_string show_f64 (AString s) = Some s"
| "atom_value_string show_f64 (AInt i) = Some (show_int (sint i))"
| "atom_value_string show_f64 (AUInt u) = Some (show_int (uint u))"
| "atom_value_string show_f64 (AFloat x) = Some (show_f64 x)"
| "atom_value_string show_f64 (ABool b) = Some (if b then ''true'' else ''false'')"
| "atom_value_string show_f64 ANull = None"
| "atom_value_string show_f64 (ABytes b) = None"

section \<open>Searching\<close>

text \<open>The loop over the children stops when enough results were found; for the entries of a map it also
  matches the key.\<close>

fun key_match :: "(string \<Rightarrow> string) \<Rightarrow> string \<Rightarrow> Node \<Rightarrow> string \<Rightarrow> string \<Rightarrow> (string \<times> string) list" where
  "key_match lower query (NMap _) p key =
     (if str_contains (lower key) query then [(child_path p key, ''[key match: '' @ key @ '']'')] else [])"
| "key_match lower query _ p key = []"

function search_recursive ::
  "(f64 \<Rightarrow> string) \<Rightarrow> (string \<Rightarrow> string) \<Rightarrow> 's ObjectStore \<Rightarrow> 's \<Rightarrow> Object \<Rightarrow> string \<Rightarrow> string \<Rightarrow> nat \<Rightarrow> nat \<Rightarrow>
   (string \<times> string) list \<Rightarrow> TreeError + (string \<times> string) list" where
  "search_recursive show_f64 lower S s obj p query max_results depth results =
     (if max_results \<le> length results then Inr results
      else if LIST_PATHS_HARD_CEILING < depth then Inr results
      else case obj of
        OAtom atom \<Rightarrow>
          (case atom_value_string show_f64 atom of
             None \<Rightarrow> Inr results
           | Some value \<Rightarrow>
               Inr (if str_contains (lower value) query then results @ [(leaf_path p, value)] else results))
      | ONode node \<Rightarrow>
          try_fold (\<lambda>(key, child_id) results.
              if max_results \<le> length results then Inr results
              else case load_object S s child_id of
                Inl e \<Rightarrow> Inl e
              | Inr child \<Rightarrow>
                  search_recursive show_f64 lower S s child (child_path p key) query max_results (depth + 1)
                    (results @ key_match lower query node p key))
            (keyed_children node) results)"
  by pat_completeness auto
termination
  by (relation "measure (\<lambda>(show_f64, lower, S, s, obj, p, query, max_results, depth, results).
        Suc LIST_PATHS_HARD_CEILING - depth)") auto

declare search_recursive.simps [simp del]

definition tree_search_values ::
  "(f64 \<Rightarrow> string) \<Rightarrow> (string \<Rightarrow> string) \<Rightarrow> 's ObjectStore \<Rightarrow> 's \<Rightarrow> ObjectId \<Rightarrow> string \<Rightarrow> nat \<Rightarrow>
   TreeError + (string \<times> string) list" where
  "tree_search_values show_f64 lower S s root query max_results =
     try_bind (load_object S s root) (\<lambda>root_obj.
     try_bind (prefetch_load S s root_obj (LIST_PATHS_HARD_CEILING + 1)) (\<lambda>objects.
     search_recursive show_f64 lower (prefetched_store S objects) s root_obj [] (lower query)
       (min max_results LIST_PATHS_MAX_RESULTS) 0 []))"

section \<open>Collecting leaves\<close>

function collect_leaves_recursive ::
  "(f64 \<Rightarrow> string) \<Rightarrow> 's ObjectStore \<Rightarrow> 's \<Rightarrow> Object \<Rightarrow> string \<Rightarrow> nat \<Rightarrow> (string \<times> string) list \<Rightarrow>
   TreeError + (string \<times> string) list" where
  "collect_leaves_recursive show_f64 S s obj p depth out =
     (if LIST_PATHS_HARD_CEILING < depth then Inr out
      else case obj of
        OAtom atom \<Rightarrow>
          (case atom_value_string show_f64 atom of
             None \<Rightarrow> Inr out
           | Some value \<Rightarrow> Inr (out @ [(leaf_path p, value)]))
      | ONode node \<Rightarrow>
          try_fold (\<lambda>(key, child_id) out. case load_object S s child_id of
              Inl e \<Rightarrow> Inl e
            | Inr child \<Rightarrow> collect_leaves_recursive show_f64 S s child (child_path p key) (depth + 1) out)
            (keyed_children node) out)"
  by pat_completeness auto
termination
  by (relation "measure (\<lambda>(show_f64, S, s, obj, p, depth, out). Suc LIST_PATHS_HARD_CEILING - depth)") auto

function collect_leaf_paths ::
  "(f64 \<Rightarrow> string) \<Rightarrow> 's ObjectStore \<Rightarrow> 's \<Rightarrow> Object \<Rightarrow> string \<Rightarrow> nat \<Rightarrow> string list \<Rightarrow>
   TreeError + string list" where
  "collect_leaf_paths show_f64 S s obj p depth out =
     (if LIST_PATHS_HARD_CEILING < depth then Inr out
      else case obj of
        OAtom atom \<Rightarrow>
          Inr (if atom_value_string show_f64 atom \<noteq> None then out @ [leaf_path p] else out)
      | ONode node \<Rightarrow>
          try_fold (\<lambda>(key, child_id) out. case load_object S s child_id of
              Inl e \<Rightarrow> Inl e
            | Inr child \<Rightarrow> collect_leaf_paths show_f64 S s child (child_path p key) (depth + 1) out)
            (keyed_children node) out)"
  by pat_completeness auto
termination
  by (relation "measure (\<lambda>(show_f64, S, s, obj, p, depth, out). Suc LIST_PATHS_HARD_CEILING - depth)") auto

declare collect_leaves_recursive.simps [simp del] collect_leaf_paths.simps [simp del]

definition collect_leaves ::
  "(f64 \<Rightarrow> string) \<Rightarrow> 's ObjectStore \<Rightarrow> 's \<Rightarrow> Object \<Rightarrow> string \<Rightarrow> nat \<Rightarrow> (string \<times> string) list \<Rightarrow>
   TreeError + (string \<times> string) list" where
  "collect_leaves show_f64 S s obj p depth out =
     try_bind (prefetch_load S s obj (LIST_PATHS_HARD_CEILING + 1 - depth)) (\<lambda>objects.
       collect_leaves_recursive show_f64 (prefetched_store S objects) s obj p depth out)"

definition collect_paths_of ::
  "(f64 \<Rightarrow> string) \<Rightarrow> 's ObjectStore \<Rightarrow> 's \<Rightarrow> Object \<Rightarrow> string \<Rightarrow> nat \<Rightarrow> string list \<Rightarrow>
   TreeError + string list" where
  "collect_paths_of show_f64 S s obj p depth out =
     try_bind (prefetch_load S s obj (LIST_PATHS_HARD_CEILING + 1 - depth)) (\<lambda>objects.
       collect_leaf_paths show_f64 (prefetched_store S objects) s obj p depth out)"

definition tree_collect_leaves ::
  "(f64 \<Rightarrow> string) \<Rightarrow> 's ObjectStore \<Rightarrow> 's \<Rightarrow> ObjectId \<Rightarrow> TreeError + (string \<times> string) list" where
  "tree_collect_leaves show_f64 S s root =
     try_bind (load_object S s root) (\<lambda>root_obj. collect_leaves show_f64 S s root_obj [] 0 [])"

section \<open>The difference of leaves\<close>

definition opt_object :: "'s ObjectStore \<Rightarrow> 's \<Rightarrow> ObjectId option \<Rightarrow> TreeError + Object option" where
  "opt_object S s i = (case i of None \<Rightarrow> Inr None | Some i \<Rightarrow> map_err TStorage (os_get S s i))"

definition nth_opt :: "'a list \<Rightarrow> nat \<Rightarrow> 'a option" where
  "nth_opt xs n = (if n < length xs then Some (xs ! n) else None)"

text \<open>The children of two containers of the same kind, matched by key or by position.\<close>

fun matched_children :: "Node \<Rightarrow> Node \<Rightarrow> (string \<times> ObjectId option \<times> ObjectId option) list option" where
  "matched_children (NMap oe) (NMap ne) =
     Some (map (\<lambda>k. (k, map_of oe k, map_of ne k)) (bts_of_list (map fst oe @ map fst ne)))"
| "matched_children (NMap _) _ = None"
| "matched_children _ (NMap _) = None"
| "matched_children old new =
     (let oi = child_ids (ONode old); ni = child_ids (ONode new) in
      Some (map (\<lambda>i. (show_nat i, nth_opt oi i, nth_opt ni i)) [0..<max (length oi) (length ni)]))"

function diff_recursive ::
  "(f64 \<Rightarrow> string) \<Rightarrow> 's ObjectStore \<Rightarrow> 's \<Rightarrow> ObjectId option \<Rightarrow> ObjectId option \<Rightarrow> string \<Rightarrow> nat \<Rightarrow>
   string list \<times> (string \<times> string) list \<Rightarrow> TreeError + string list \<times> (string \<times> string) list" where
  "diff_recursive show_f64 S s old_id new_id p depth acc =
     (if old_id = new_id then Inr acc
      else if LIST_PATHS_HARD_CEILING < depth then Inr acc
      else
        try_bind (opt_object S s old_id) (\<lambda>old_obj.
        try_bind (opt_object S s new_id) (\<lambda>new_obj.
        let removed = fst acc; added = snd acc;
            remove_all = (\<lambda>x. collect_paths_of show_f64 S s x p depth removed);
            add_all = (\<lambda>x. collect_leaves show_f64 S s x p depth added);
            add_value = (\<lambda>atom. case atom_value_string show_f64 atom of
                Some v \<Rightarrow> added @ [(leaf_path p, v)] | None \<Rightarrow> added) in
        case (old_obj, new_obj) of
          (None, None) \<Rightarrow> Inr acc
        | (Some old, None) \<Rightarrow> try_bind (remove_all old) (\<lambda>removed. Inr (removed, added))
        | (None, Some new) \<Rightarrow> try_bind (add_all new) (\<lambda>added. Inr (removed, added))
        | (Some (OAtom _), Some (OAtom new_atom)) \<Rightarrow> Inr (removed @ [leaf_path p], add_value new_atom)
        | (Some (ONode old_node), Some (OAtom new_atom)) \<Rightarrow>
            try_bind (remove_all (ONode old_node)) (\<lambda>removed. Inr (removed, add_value new_atom))
        | (Some (OAtom _), Some (ONode new_node)) \<Rightarrow>
            try_bind (add_all (ONode new_node)) (\<lambda>added. Inr (removed @ [leaf_path p], added))
        | (Some (ONode old_node), Some (ONode new_node)) \<Rightarrow>
            (case matched_children old_node new_node of
               Some children \<Rightarrow>
                 try_fold (\<lambda>(key, old, new) acc. diff_recursive show_f64 S s old new (child_path p key) (depth + 1) acc)
                   children acc
             | None \<Rightarrow>
                 try_bind (remove_all (ONode old_node)) (\<lambda>removed.
                 try_bind (add_all (ONode new_node)) (\<lambda>added. Inr (removed, added)))))))"
  by pat_completeness auto
termination
  by (relation "measure (\<lambda>(show_f64, S, s, old_id, new_id, p, depth, acc).
        Suc LIST_PATHS_HARD_CEILING - depth)") auto

declare diff_recursive.simps [simp del]

definition tree_diff_leaves ::
  "(f64 \<Rightarrow> string) \<Rightarrow> 's ObjectStore \<Rightarrow> 's \<Rightarrow> ObjectId option \<Rightarrow> ObjectId \<Rightarrow>
   TreeError + string list \<times> (string \<times> string) list" where
  "tree_diff_leaves show_f64 S s old_root new_root =
     diff_recursive show_f64 S s old_root (Some new_root) [] 0 ([], [])"

end
