(* ===== verification/Tree_Walk_Laws.thy ===== *)
theory Tree_Walk_Laws
  imports Tree_Walks Memory_Laws
begin

text \<open>
  What the walks over a tree compute: the leaves of a stored tree as a function of its objects, and that
  the difference of leaves turns the leaves of the old tree into those of the new one.
\<close>

section \<open>Leaves of a view\<close>

fun view_leaves :: "view \<Rightarrow> (f64 \<Rightarrow> string) \<Rightarrow> nat \<Rightarrow> string \<Rightarrow> Object \<Rightarrow> (string \<times> string) list" where
  "view_leaves v show_f64 0 p x = []"
| "view_leaves v show_f64 (Suc n) p (OAtom a) =
     (case atom_value_string show_f64 a of Some w \<Rightarrow> [(leaf_path p, w)] | None \<Rightarrow> [])"
| "view_leaves v show_f64 (Suc n) p (ONode node) =
     concat (map (\<lambda>(k, i). case v i of Some y \<Rightarrow> view_leaves v show_f64 n (child_path p k) y | None \<Rightarrow> [])
       (keyed_children node))"

definition leaves_at :: "view \<Rightarrow> (f64 \<Rightarrow> string) \<Rightarrow> nat \<Rightarrow> string \<Rightarrow> ObjectId option \<Rightarrow> (string \<times> string) list" where
  "leaves_at v show_f64 n p i =
     (case i of None \<Rightarrow> [] | Some i \<Rightarrow> (case v i of Some y \<Rightarrow> view_leaves v show_f64 n p y | None \<Rightarrow> []))"

lemma view_leaves_node:
  "view_leaves v show_f64 (Suc n) p (ONode node) =
     concat (map (\<lambda>(k, i). leaves_at v show_f64 n (child_path p k) (Some i)) (keyed_children node))"
  by (simp add: leaves_at_def)

lemma keyed_children_ids: "snd ` set (keyed_children node) = set (child_ids (ONode node))"
proof -
  have "map snd (keyed_children node) = child_ids (ONode node)"
    by (cases node) (simp_all add: comp_def case_prod_unfold)
  then show ?thesis by (metis set_map)
qed

lemma try_fold_append:
  "\<forall>x \<in> set xs. \<forall>acc. f x acc = Inr (acc @ g x) \<Longrightarrow> try_fold f xs acc = Inr (acc @ concat (map g xs))"
  by (induction xs arbitrary: acc) simp_all

text \<open>A store that reads as the view \<open>v\<close>.\<close>

definition reads_as :: "'s ObjectStore \<Rightarrow> 's \<Rightarrow> view \<Rightarrow> bool" where
  "reads_as S s v \<longleftrightarrow> (\<forall>i. load_object S s i = ok_or (TObjectNotFound i) (v i))"

lemma collect_leaves_recursive_eq:
  assumes "reads_as S s v" "view_closed v"
  shows "set (child_ids x) \<subseteq> dom v \<Longrightarrow>
    collect_leaves_recursive show_f64 S s x p d out =
      Inr (out @ view_leaves v show_f64 (Suc LIST_PATHS_HARD_CEILING - d) p x)"
proof (induction "Suc LIST_PATHS_HARD_CEILING - d" arbitrary: d x p out)
  case 0
  then show ?case by (subst collect_leaves_recursive.simps) simp
next
  case (Suc n)
  then have le: "\<not> LIST_PATHS_HARD_CEILING < d" and n: "n = Suc LIST_PATHS_HARD_CEILING - (d + 1)"
    "Suc LIST_PATHS_HARD_CEILING - d = Suc n" by auto
  show ?case
  proof (cases x)
    case (OAtom a)
    with le n show ?thesis by (subst collect_leaves_recursive.simps) (simp split: option.split)
  next
    case (ONode node)
    have "(case load_object S s i of Inl e \<Rightarrow> Inl e
        | Inr child \<Rightarrow> collect_leaves_recursive show_f64 S s child (child_path p k) (d + 1) acc) =
        Inr (acc @ leaves_at v show_f64 n (child_path p k) (Some i))"
      if "(k, i) \<in> set (keyed_children node)" for k i acc
    proof -
      from that have "i \<in> dom v" using Suc.prems ONode keyed_children_ids [of node] by force
      then obtain y where y: "v i = Some y" by auto
      then have "set (child_ids y) \<subseteq> dom v" using assms(2) by (auto simp: view_closed_def)
      with Suc.hyps(1) [OF n(1), of y] y assms(1) n(1) show ?thesis
        by (simp add: reads_as_def leaves_at_def)
    qed
    then have "try_fold (\<lambda>(k, i) out. case load_object S s i of Inl e \<Rightarrow> Inl e
        | Inr child \<Rightarrow> collect_leaves_recursive show_f64 S s child (child_path p k) (d + 1) out)
        (keyed_children node) out = Inr (out @ view_leaves v show_f64 (Suc n) p x)"
      unfolding ONode view_leaves_node by (intro try_fold_append) auto
    with le n ONode show ?thesis by (subst collect_leaves_recursive.simps) simp
  qed
qed

lemma collect_leaf_paths_eq:
  assumes "reads_as S s v" "view_closed v"
  shows "set (child_ids x) \<subseteq> dom v \<Longrightarrow>
    collect_leaf_paths show_f64 S s x p d out =
      Inr (out @ map fst (view_leaves v show_f64 (Suc LIST_PATHS_HARD_CEILING - d) p x))"
proof (induction "Suc LIST_PATHS_HARD_CEILING - d" arbitrary: d x p out)
  case 0
  then show ?case by (subst collect_leaf_paths.simps) simp
next
  case (Suc n)
  then have le: "\<not> LIST_PATHS_HARD_CEILING < d" and n: "n = Suc LIST_PATHS_HARD_CEILING - (d + 1)"
    "Suc LIST_PATHS_HARD_CEILING - d = Suc n" by auto
  show ?case
  proof (cases x)
    case (OAtom a)
    with le n show ?thesis by (subst collect_leaf_paths.simps) (auto split: option.split)
  next
    case (ONode node)
    have "(case load_object S s i of Inl e \<Rightarrow> Inl e
        | Inr child \<Rightarrow> collect_leaf_paths show_f64 S s child (child_path p k) (d + 1) acc) =
        Inr (acc @ map fst (leaves_at v show_f64 n (child_path p k) (Some i)))"
      if "(k, i) \<in> set (keyed_children node)" for k i acc
    proof -
      from that have "i \<in> dom v" using Suc.prems ONode keyed_children_ids [of node] by force
      then obtain y where y: "v i = Some y" by auto
      then have "set (child_ids y) \<subseteq> dom v" using assms(2) by (auto simp: view_closed_def)
      with Suc.hyps(1) [OF n(1), of y] y assms(1) n(1) show ?thesis
        by (simp add: reads_as_def leaves_at_def)
    qed
    then have "try_fold (\<lambda>(k, i) out. case load_object S s i of Inl e \<Rightarrow> Inl e
        | Inr child \<Rightarrow> collect_leaf_paths show_f64 S s child (child_path p k) (d + 1) out)
        (keyed_children node) out =
        Inr (out @ concat (map (\<lambda>(k, i). map fst (leaves_at v show_f64 n (child_path p k) (Some i))) (keyed_children node)))"
      by (intro try_fold_append) auto
    with le n ONode show ?thesis
      by (subst collect_leaf_paths.simps) (simp add: view_leaves_node map_concat comp_def case_prod_unfold del: view_leaves.simps)
  qed
qed

section \<open>Paths beneath a path\<close>

definition beneath :: "string \<Rightarrow> string \<Rightarrow> bool" where
  "beneath p q \<longleftrightarrow> q = p \<or> (\<exists>r. q = p @ ''/'' @ r)"

text \<open>The segment of \<open>q\<close> that follows \<open>p\<close>.\<close>

definition segment_after :: "string \<Rightarrow> string \<Rightarrow> string" where
  "segment_after p q = takeWhile (\<lambda>c. c \<noteq> CHR ''/'') (drop (Suc (length p)) q)"

lemma segment_beneath:
  assumes "beneath (child_path p k) q" "CHR ''/'' \<notin> set k"
  shows "segment_after p q = k"
proof -
  have "takeWhile (\<lambda>c. c \<noteq> CHR ''/'') (k @ r) = k @ takeWhile (\<lambda>c. c \<noteq> CHR ''/'') r" for r
    using assms(2) by (intro takeWhile_append2) auto
  note k = this
  from assms(1) consider "q = p @ ''/'' @ k" | r where "q = p @ ''/'' @ k @ ''/'' @ r"
    unfolding beneath_def child_path_def by auto
  then show ?thesis
  proof cases
    case 1
    then show ?thesis using k [of "[]"] by (simp add: segment_after_def)
  next
    case 2
    then show ?thesis using k [of "CHR ''/'' # r"] by (simp add: segment_after_def)
  qed
qed

lemma beneath_child: "beneath (child_path p k) q \<Longrightarrow> beneath p q"
  by (auto simp: beneath_def child_path_def)

lemma beneath_leaf_path: "beneath p (leaf_path p)"
  by (auto simp: beneath_def leaf_path_def)

lemma view_leaves_beneath: "(q, w) \<in> set (view_leaves v show_f64 n p x) \<Longrightarrow> beneath p q"
proof (induction n arbitrary: p x)
  case (Suc n)
  then show ?case
    by (cases x) (auto simp: beneath_leaf_path split: option.splits dest!: Suc.IH intro: beneath_child)
qed simp

lemma leaves_at_beneath: "(q, w) \<in> set (leaves_at v show_f64 n p i) \<Longrightarrow> beneath p q"
  by (auto simp: leaves_at_def dest: view_leaves_beneath split: option.splits)

section \<open>Matching children\<close>

definition keys_plain :: "view \<Rightarrow> bool" where
  "keys_plain v \<longleftrightarrow> (\<forall>i entries. v i = Some (ONode (NMap entries)) \<longrightarrow>
     distinct (map fst entries) \<and> (\<forall>k \<in> fst ` set entries. CHR ''/'' \<notin> set k))"

lemma nth_opt_Some: "nth_opt xs n = Some x \<longleftrightarrow> n < length xs \<and> xs ! n = x"
  by (simp add: nth_opt_def)

lemma show_nat_inject: "show_nat m = show_nat n \<longleftrightarrow> m = n"
  by (metis digits_val_show_nat)

lemma matched_children_correct:
  assumes "matched_children old new = Some cs"
    and "\<And>entries. old = NMap entries \<or> new = NMap entries \<Longrightarrow>
      distinct (map fst entries) \<and> (\<forall>k \<in> fst ` set entries. CHR ''/'' \<notin> set k)"
  shows "distinct (map fst cs) \<and> (\<forall>c \<in> set cs. CHR ''/'' \<notin> set (fst c)) \<and>
    set (keyed_children old) = {(k, i). \<exists>n. (k, Some i, n) \<in> set cs} \<and>
    set (keyed_children new) = {(k, i). \<exists>m. (k, m, Some i) \<in> set cs}"
proof (cases "\<exists>oe ne. old = NMap oe \<and> new = NMap ne")
  case True
  then obtain oe ne where on: "old = NMap oe" "new = NMap ne" by blast
  let ?ks = "bts_of_list (map fst oe @ map fst ne)"
  have cs: "cs = map (\<lambda>k. (k, map_of oe k, map_of ne k)) ?ks" using assms(1) on by simp
  have d: "distinct (map fst oe)" "distinct (map fst ne)" using assms(2) on by blast+
  have ks: "set ?ks = fst ` set oe \<union> fst ` set ne" "distinct ?ks"
    using bts_of_list_sorted [of "map fst oe @ map fst ne"]
    by (auto simp: bts_of_list_set strict_sorted_iff)
  have keys: "map fst cs = ?ks" unfolding cs by (simp add: comp_def)
  then have "fst ` set cs = fst ` set oe \<union> fst ` set ne" using ks(1) by (metis set_map)
  then have "\<forall>c \<in> set cs. fst c \<in> fst ` set oe \<or> fst c \<in> fst ` set ne" by (metis UnE imageI)
  then have "\<forall>c \<in> set cs. CHR ''/'' \<notin> set (fst c)" using assms(2) [of oe] assms(2) [of ne] on by metis
  moreover have in_cs: "(k, m, n) \<in> set cs \<longleftrightarrow>
      k \<in> fst ` set oe \<union> fst ` set ne \<and> m = map_of oe k \<and> n = map_of ne k" for k m n
    unfolding cs ks(1) [symmetric] by auto
  have "(k, i) \<in> set oe \<longleftrightarrow> k \<in> fst ` set oe \<union> fst ` set ne \<and> map_of oe k = Some i"
    "(k, i) \<in> set ne \<longleftrightarrow> k \<in> fst ` set oe \<union> fst ` set ne \<and> map_of ne k = Some i" for k i
    using map_of_eq_Some_iff [OF d(1)] map_of_eq_Some_iff [OF d(2)] by (metis Un_iff fst_conv image_eqI)+
  then have "set (keyed_children old) = {(k, i). \<exists>n. (k, Some i, n) \<in> set cs}"
    "set (keyed_children new) = {(k, i). \<exists>m. (k, m, Some i) \<in> set cs}"
    unfolding in_cs on by auto
  ultimately show ?thesis using ks(2) keys by simp
next
  case False
  then obtain oi ni where seq: "child_ids (ONode old) = oi" "child_ids (ONode new) = ni"
    "cs = map (\<lambda>i. (show_nat i, nth_opt oi i, nth_opt ni i)) [0..<max (length oi) (length ni)]"
    "keyed_children old = map (\<lambda>(n, i). (show_nat n, i)) (enumerate 0 oi)"
    "keyed_children new = map (\<lambda>(n, i). (show_nat n, i)) (enumerate 0 ni)"
    using assms(1) by (cases old; cases new) auto
  have keyed: "set (map (\<lambda>(n, i). (show_nat n, i)) (enumerate 0 xs)) =
      {(k, i). \<exists>n. k = show_nat n \<and> nth_opt xs n = Some i}"
    for xs :: "ObjectId list" by (force simp: in_set_enumerate_eq nth_opt_Some)
  have "(k, m, n) \<in> set cs \<longleftrightarrow> (\<exists>j < max (length oi) (length ni). k = show_nat j \<and> m = nth_opt oi j \<and> n = nth_opt ni j)"
    for k m n unfolding seq(3) by auto
  then have "(\<exists>n. (k, Some i, n) \<in> set cs) \<longleftrightarrow> (\<exists>j. k = show_nat j \<and> nth_opt oi j = Some i)"
    "(\<exists>m. (k, m, Some i) \<in> set cs) \<longleftrightarrow> (\<exists>j. k = show_nat j \<and> nth_opt ni j = Some i)" for k i
    by (auto simp: nth_opt_Some) (metis nth_opt_Some max.strict_coboundedI1 max.strict_coboundedI2)+
  moreover have "distinct (map fst cs)" "\<forall>c \<in> set cs. CHR ''/'' \<notin> set (fst c)"
    unfolding seq(3) by (auto simp: distinct_map inj_on_def show_nat_inject show_nat_no_slash)
  ultimately show ?thesis unfolding seq(4,5) keyed by simp
qed

section \<open>Following a change\<close>

text \<open>Dropping the rows of the removed paths and adding the new rows turns one set of rows into another.\<close>

definition follows :: "('a \<times> 'b) list \<Rightarrow> 'a list \<Rightarrow> ('a \<times> 'b) list \<Rightarrow> ('a \<times> 'b) list \<Rightarrow> bool" where
  "follows L R A L' \<longleftrightarrow> set L' = {e \<in> set L. fst e \<notin> set R} \<union> set A"

definition stays_beneath :: "string \<Rightarrow> string list \<Rightarrow> (string \<times> 'b) list \<Rightarrow> bool" where
  "stays_beneath p R A \<longleftrightarrow> (\<forall>q \<in> set R. beneath p q) \<and> (\<forall>e \<in> set A. beneath p (fst e))"

lemma follows_all: "follows L (map fst L) L' L'"
  by (force simp: follows_def)

lemma try_fold_follows:
  assumes "\<And>c acc. c \<in> set cs \<Longrightarrow> \<exists>R A. f c acc = Inr (fst acc @ R, snd acc @ A) \<and>
      stays_beneath (child_path p (fst c)) R A \<and> follows (L c) R A (L' c)"
    and "\<And>c e. c \<in> set cs \<Longrightarrow> e \<in> set (L c) \<Longrightarrow> beneath (child_path p (fst c)) (fst e)"
    and "distinct (map fst cs)" "\<forall>c \<in> set cs. CHR ''/'' \<notin> set (fst c)"
  shows "\<exists>R A. try_fold f cs acc = Inr (fst acc @ R, snd acc @ A) \<and> stays_beneath p R A \<and>
    (\<forall>q \<in> set R. segment_after p q \<in> fst ` set cs) \<and>
    follows (concat (map L cs)) R A (concat (map L' cs))"
  using assms
proof (induction cs arbitrary: acc)
  case Nil
  then show ?case by (simp add: follows_def stays_beneath_def)
next
  case (Cons c cs)
  obtain R A where h: "f c acc = Inr (fst acc @ R, snd acc @ A)"
    "stays_beneath (child_path p (fst c)) R A" "follows (L c) R A (L' c)" using Cons.prems(1) [of c acc] by auto
  have "\<exists>R' A'. try_fold f cs (fst acc @ R, snd acc @ A) =
      Inr (fst (fst acc @ R, snd acc @ A) @ R', snd (fst acc @ R, snd acc @ A) @ A') \<and> stays_beneath p R' A' \<and>
      (\<forall>q \<in> set R'. segment_after p q \<in> fst ` set cs) \<and>
      follows (concat (map L cs)) R' A' (concat (map L' cs))"
    by (rule Cons.IH) (use Cons.prems in auto)
  then obtain R' A' where t: "try_fold f cs (fst acc @ R, snd acc @ A) = Inr ((fst acc @ R) @ R', (snd acc @ A) @ A')"
    "stays_beneath p R' A'" "\<forall>q \<in> set R'. segment_after p q \<in> fst ` set cs"
    "follows (concat (map L cs)) R' A' (concat (map L' cs))" unfolding fst_conv snd_conv by blast
  have seg: "\<forall>q \<in> set R. segment_after p q = fst c"
    using h(2) Cons.prems(4) by (auto simp: stays_beneath_def intro: segment_beneath)
  have sL: "segment_after p (fst e) = fst b" if "b \<in> set (c # cs)" "e \<in> set (L b)" for b e
    using Cons.prems(2) [OF that] Cons.prems(4) that(1) by (intro segment_beneath) auto
  have new: "fst c \<notin> fst ` set cs" using Cons.prems(3) by simp
  have "fst e \<notin> set R'" if "e \<in> set (L c)" for e
    using t(3) sL [of c e] that new by (metis list.set_intros(1))
  moreover have "fst e \<notin> set R" if "e \<in> set (concat (map L cs))" for e
  proof -
    from that obtain b where b: "b \<in> set cs" "e \<in> set (L b)" by auto
    with sL [of b e] have "segment_after p (fst e) = fst b" by simp
    with b(1) new seg show ?thesis by (metis imageI)
  qed
  ultimately have "follows (concat (map L (c # cs))) (R @ R') (A @ A') (concat (map L' (c # cs)))"
    using h(3) t(4) unfolding follows_def by (auto simp del: set_concat)
  moreover have "stays_beneath p (R @ R') (A @ A')"
    using h(2) t(2) by (auto simp: stays_beneath_def intro: beneath_child)
  moreover have "\<forall>q \<in> set (R @ R'). segment_after p q \<in> fst ` set (c # cs)" using seg t(3) by auto
  ultimately show ?case using h(1) t(1) by (intro exI [of _ "R @ R'"] exI [of _ "A @ A'"]) simp
qed

lemma matched_leaves:
  assumes "set (keyed_children node) = {(k, i). \<exists>m. (k, Some i, m) \<in> set cs}"
  shows "set (view_leaves v show_f64 (Suc n) p (ONode node)) =
    set (concat (map (\<lambda>c. leaves_at v show_f64 n (child_path p (fst c)) (fst (snd c))) cs))"
proof (rule set_eqI)
  fix e
  let ?F = "\<lambda>k. leaves_at v show_f64 n (child_path p k)"
  have "e \<in> set (view_leaves v show_f64 (Suc n) p (ONode node)) \<longleftrightarrow>
      (\<exists>k i. (k, i) \<in> set (keyed_children node) \<and> e \<in> set (?F k (Some i)))"
    unfolding view_leaves_node by fastforce
  also have "\<dots> \<longleftrightarrow> (\<exists>k i m. (k, Some i, m) \<in> set cs \<and> e \<in> set (?F k (Some i)))" unfolding assms by blast
  also have "\<dots> \<longleftrightarrow> (\<exists>c \<in> set cs. e \<in> set (?F (fst c) (fst (snd c))))"
  proof
    assume "\<exists>c \<in> set cs. e \<in> set (?F (fst c) (fst (snd c)))"
    then obtain c where c: "c \<in> set cs" "e \<in> set (?F (fst c) (fst (snd c)))" by blast
    then obtain i where "fst (snd c) = Some i" by (cases "fst (snd c)") (auto simp: leaves_at_def)
    with c show "\<exists>k i m. (k, Some i, m) \<in> set cs \<and> e \<in> set (?F k (Some i))" by (metis prod.collapse)
  qed force
  finally show "e \<in> set (view_leaves v show_f64 (Suc n) p (ONode node)) \<longleftrightarrow>
      e \<in> set (concat (map (\<lambda>c. ?F (fst c) (fst (snd c))) cs))" by simp
qed

lemma matched_leaves_new:
  assumes "set (keyed_children node) = {(k, i). \<exists>m. (k, m, Some i) \<in> set cs}"
  shows "set (view_leaves v show_f64 (Suc n) p (ONode node)) =
    set (concat (map (\<lambda>c. leaves_at v show_f64 n (child_path p (fst c)) (snd (snd c))) cs))"
proof (rule set_eqI)
  fix e
  let ?F = "\<lambda>k. leaves_at v show_f64 n (child_path p k)"
  have "e \<in> set (view_leaves v show_f64 (Suc n) p (ONode node)) \<longleftrightarrow>
      (\<exists>k i. (k, i) \<in> set (keyed_children node) \<and> e \<in> set (?F k (Some i)))"
    unfolding view_leaves_node by fastforce
  also have "\<dots> \<longleftrightarrow> (\<exists>k i m. (k, m, Some i) \<in> set cs \<and> e \<in> set (?F k (Some i)))" unfolding assms by blast
  also have "\<dots> \<longleftrightarrow> (\<exists>c \<in> set cs. e \<in> set (?F (fst c) (snd (snd c))))"
  proof
    assume "\<exists>c \<in> set cs. e \<in> set (?F (fst c) (snd (snd c)))"
    then obtain c where c: "c \<in> set cs" "e \<in> set (?F (fst c) (snd (snd c)))" by blast
    then obtain i where "snd (snd c) = Some i" by (cases "snd (snd c)") (auto simp: leaves_at_def)
    with c show "\<exists>k i m. (k, m, Some i) \<in> set cs \<and> e \<in> set (?F k (Some i))" by (metis prod.collapse)
  qed force
  finally show "e \<in> set (view_leaves v show_f64 (Suc n) p (ONode node)) \<longleftrightarrow>
      e \<in> set (concat (map (\<lambda>c. ?F (fst c) (snd (snd c))) cs))" by simp
qed

context object_store
begin

lemma reads_as_view: "inv s \<Longrightarrow> reads_as S s (view s)"
  by (simp add: reads_as_def load_object_eq)

lemma reads_as_prefetched:
  assumes "inv s"
  obtains objects where "prefetch_load S s x n = Inr objects" "reads_as (prefetched_store S objects) s (view s)"
  using prefetch_load_many_held [OF assms, of "[x]" n] load_object_prefetched [OF assms] load_object_eq [OF assms]
  unfolding prefetch_load_def reads_as_def by metis

lemma collect_leaves_eq:
  assumes "inv s" "view_closed (view s)" "set (child_ids x) \<subseteq> dom (view s)"
  shows "collect_leaves show_f64 S s x p d out =
    Inr (out @ view_leaves (view s) show_f64 (Suc LIST_PATHS_HARD_CEILING - d) p x)"
proof -
  obtain objects where "prefetch_load S s x (LIST_PATHS_HARD_CEILING + 1 - d) = Inr objects"
    "reads_as (prefetched_store S objects) s (view s)" using reads_as_prefetched [OF assms(1)] by blast
  with collect_leaves_recursive_eq [OF _ assms(2,3)] show ?thesis by (simp add: collect_leaves_def)
qed

lemma collect_paths_of_eq:
  assumes "inv s" "view_closed (view s)" "set (child_ids x) \<subseteq> dom (view s)"
  shows "collect_paths_of show_f64 S s x p d out =
    Inr (out @ map fst (view_leaves (view s) show_f64 (Suc LIST_PATHS_HARD_CEILING - d) p x))"
proof -
  obtain objects where "prefetch_load S s x (LIST_PATHS_HARD_CEILING + 1 - d) = Inr objects"
    "reads_as (prefetched_store S objects) s (view s)" using reads_as_prefetched [OF assms(1)] by blast
  with collect_leaf_paths_eq [OF _ assms(2,3)] show ?thesis by (simp add: collect_paths_of_def)
qed

lemma opt_object_eq: "inv s \<Longrightarrow> opt_object S s i = Inr (Option.bind i (view s))"
  by (cases i) (simp_all add: opt_object_def get_law)

lemma diff_recursive_follows:
  assumes "inv s" "view_closed (view s)" "keys_plain (view s)"
  shows "set_option old \<subseteq> dom (view s) \<Longrightarrow> set_option new \<subseteq> dom (view s) \<Longrightarrow>
    \<exists>R A. diff_recursive show_f64 S s old new p d acc = Inr (fst acc @ R, snd acc @ A) \<and> stays_beneath p R A \<and>
      follows (leaves_at (view s) show_f64 (Suc LIST_PATHS_HARD_CEILING - d) p old) R A
        (leaves_at (view s) show_f64 (Suc LIST_PATHS_HARD_CEILING - d) p new)"
proof (induction "Suc LIST_PATHS_HARD_CEILING - d" arbitrary: d old new p acc)
  case 0
  have "leaves_at (view s) show_f64 0 p i = []" for i by (simp add: leaves_at_def split: option.split)
  moreover have "diff_recursive show_f64 S s old new p d acc = Inr (fst acc @ [], snd acc @ [])"
    using 0 by (subst diff_recursive.simps) simp
  ultimately show ?case using 0 unfolding follows_def stays_beneath_def by fastforce
next
  case (Suc n)
  let ?v = "view s" and ?L = "\<lambda>x. view_leaves (view s) show_f64 (Suc n) p x"
  have le: "\<not> LIST_PATHS_HARD_CEILING < d" and n: "n = Suc LIST_PATHS_HARD_CEILING - (d + 1)"
    "Suc LIST_PATHS_HARD_CEILING - d = Suc n" using Suc.hyps(2) by auto
  have kids: "set (child_ids x) \<subseteq> dom ?v" if "Option.bind i ?v = Some x" for i x
    using that assms(2) by (cases i) (auto simp: view_closed_def)
  note walks = collect_leaves_eq [OF assms(1,2)] collect_paths_of_eq [OF assms(1,2)]
  have L: "leaves_at ?v show_f64 (Suc n) p i = (case Option.bind i ?v of None \<Rightarrow> [] | Some x \<Rightarrow> ?L x)" for i
    by (cases i) (simp_all add: leaves_at_def)
  have under: "stays_beneath p (map fst (?L x)) (?L y)" "stays_beneath p [leaf_path p] (?L y)"
    "stays_beneath p (map fst (?L x)) []" "stays_beneath p [] (?L y)" for x y
    using view_leaves_beneath [of _ _ ?v show_f64 "Suc n" p]
    by (auto simp: stays_beneath_def beneath_leaf_path simp del: view_leaves.simps)
  have atoms: "follows (?L (OAtom a)) [leaf_path p] (?L y) (?L y)" for a y
    by (auto simp: follows_def split: option.splits)
  show ?case
  proof (cases "old = new")
    case True
    then have "diff_recursive show_f64 S s old new p d acc = Inr (fst acc @ [], snd acc @ [])"
      by (subst diff_recursive.simps) simp
    with True show ?thesis unfolding follows_def stays_beneath_def by fastforce
  next
    case False
    note step = diff_recursive.simps [of show_f64 S s old new p d acc] opt_object_eq [OF assms(1)]
    consider (none) "Option.bind old ?v = None" "Option.bind new ?v = None"
      | (gone) x where "Option.bind old ?v = Some x" "Option.bind new ?v = None"
      | (fresh) y where "Option.bind old ?v = None" "Option.bind new ?v = Some y"
      | (to_atom) x a where "Option.bind old ?v = Some x" "Option.bind new ?v = Some (OAtom a)"
      | (from_atom) a node where "Option.bind old ?v = Some (OAtom a)" "Option.bind new ?v = Some (ONode node)"
      | (nodes) m m' where "Option.bind old ?v = Some (ONode m)" "Option.bind new ?v = Some (ONode m')"
      by (metis Object.exhaust not_Some_eq)
    then show ?thesis
    proof cases
      case none
      with False le have "diff_recursive show_f64 S s old new p d acc = Inr (fst acc @ [], snd acc @ [])"
        by (simp add: step)
      with none show ?thesis unfolding n(2) L follows_def stays_beneath_def by fastforce
    next
      case gone
      with False le kids [OF gone(1)] have "diff_recursive show_f64 S s old new p d acc =
          Inr (fst acc @ map fst (?L x), snd acc @ [])"
        by (cases x) (simp_all add: step walks n(2) del: view_leaves.simps)
      with gone under(3) [of x] follows_all [of "?L x" "[]"] show ?thesis
        unfolding n(2) L by (metis option.simps(4,5))
    next
      case fresh
      with False le kids [OF fresh(2)] under(4) [of y] show ?thesis
        by (cases y) (auto simp: step L n(2) walks follows_def simp del: view_leaves.simps)
    next
      case to_atom
      let ?A = "?L (OAtom a)"
      have A: "(case atom_value_string show_f64 a of Some v \<Rightarrow> snd acc @ [(leaf_path p, v)] | None \<Rightarrow> snd acc) =
          snd acc @ ?A" by (simp split: option.split)
      show ?thesis
      proof (cases x)
        case (OAtom b)
        with to_atom False le have "diff_recursive show_f64 S s old new p d acc =
            Inr (fst acc @ [leaf_path p], snd acc @ ?A)" by (simp add: step A del: view_leaves.simps)
        with OAtom to_atom under(2) [of "OAtom a"] atoms [of b "OAtom a"] show ?thesis
          unfolding n(2) L by (metis option.simps(5))
      next
        case (ONode m)
        with to_atom False le kids [OF to_atom(1)] have "diff_recursive show_f64 S s old new p d acc =
            Inr (fst acc @ map fst (?L x), snd acc @ ?A)" by (simp add: step A walks n(2) del: view_leaves.simps)
        with to_atom under(1) [of x "OAtom a"] follows_all [of "?L x" ?A] show ?thesis
          unfolding n(2) L by (metis option.simps(5))
      qed
    next
      case from_atom
      with False le kids [OF from_atom(2)] have "diff_recursive show_f64 S s old new p d acc =
          Inr (fst acc @ [leaf_path p], snd acc @ ?L (ONode node))"
        by (simp add: step walks n(2) del: view_leaves.simps)
      with from_atom under(2) [of "ONode node"] atoms [of a "ONode node"] show ?thesis
        unfolding n(2) L by (metis option.simps(5))
    next
      case nodes
      show ?thesis
      proof (cases "matched_children m m'")
        case None
        with nodes False le kids [OF nodes(1)] kids [OF nodes(2)] have "diff_recursive show_f64 S s old new p d acc =
            Inr (fst acc @ map fst (?L (ONode m)), snd acc @ ?L (ONode m'))"
          by (simp add: step walks n(2) del: view_leaves.simps)
        with nodes under(1) [of "ONode m" "ONode m'"] follows_all [of "?L (ONode m)" "?L (ONode m')"] show ?thesis
          unfolding n(2) L by (metis option.simps(5))
      next
        case (Some cs)
        have plain: "distinct (map fst entries) \<and> (\<forall>k \<in> fst ` set entries. CHR ''/'' \<notin> set k)"
          if "m = NMap entries \<or> m' = NMap entries" for entries
          using that nodes assms(3) unfolding keys_plain_def by (auto simp: bind_eq_Some_conv)
        note mc = matched_children_correct [OF Some plain]
        let ?f = "\<lambda>(key, old, new) acc. diff_recursive show_f64 S s old new (child_path p key) (d + 1) acc"
        let ?O = "\<lambda>c. leaves_at ?v show_f64 n (child_path p (fst c)) (fst (snd c))"
        let ?N = "\<lambda>c. leaves_at ?v show_f64 n (child_path p (fst c)) (snd (snd c))"
        have dom: "set_option (fst (snd c)) \<subseteq> dom ?v" "set_option (snd (snd c)) \<subseteq> dom ?v" if "c \<in> set cs" for c
        proof -
          have "i \<in> dom ?v" if "fst (snd c) = Some i \<or> snd (snd c) = Some i" for i
          proof -
            have "(fst c, i) \<in> set (keyed_children m) \<or> (fst c, i) \<in> set (keyed_children m')"
              using that \<open>c \<in> set cs\<close> mc by (cases c) auto
            then have "i \<in> set (child_ids (ONode m)) \<union> set (child_ids (ONode m'))"
              unfolding keyed_children_ids [symmetric] by force
            with kids [OF nodes(1)] kids [OF nodes(2)] show ?thesis by blast
          qed
          then show "set_option (fst (snd c)) \<subseteq> dom ?v" "set_option (snd (snd c)) \<subseteq> dom ?v" by auto
        qed
        have "\<exists>R A. ?f c acc = Inr (fst acc @ R, snd acc @ A) \<and> stays_beneath (child_path p (fst c)) R A \<and>
            follows (?O c) R A (?N c)" if "c \<in> set cs" for c acc
          using Suc.hyps(1) [OF n(1) dom [OF that], of "child_path p (fst c)" acc] n(1)
          by (cases c) simp
        from try_fold_follows [of cs ?f p ?O ?N acc, OF this _ conjunct1 [OF mc] conjunct1 [OF conjunct2 [OF mc]]]
        obtain R A where RA: "try_fold ?f cs acc = Inr (fst acc @ R, snd acc @ A)" "stays_beneath p R A"
          "follows (concat (map ?O cs)) R A (concat (map ?N cs))"
          using leaves_at_beneath by (metis (no_types, lifting) prod.collapse)
        have "follows (?L (ONode m)) R A (?L (ONode m'))"
          using RA(3) matched_leaves [of m cs ?v show_f64 n p] matched_leaves_new [of m' cs ?v show_f64 n p] mc
          unfolding follows_def by (simp del: view_leaves.simps set_concat)
        moreover have "diff_recursive show_f64 S s old new p d acc = try_fold ?f cs acc"
          using nodes False le Some by (simp add: step del: view_leaves.simps)
        ultimately show ?thesis using RA(1,2) nodes unfolding n(2) L by (metis option.simps(5))
      qed
    qed
  qed
qed

lemma tree_diff_leaves_follows:
  assumes "inv s" "view_closed (view s)" "keys_plain (view s)"
    and "set_option old \<subseteq> dom (view s)" "new \<in> dom (view s)"
  shows "\<exists>R A L'. tree_diff_leaves show_f64 S s old new = Inr (R, A) \<and>
    tree_collect_leaves show_f64 S s new = Inr L' \<and>
    (case old of None \<Rightarrow> follows [] R A L'
     | Some i \<Rightarrow> \<exists>L. tree_collect_leaves show_f64 S s i = Inr L \<and> follows L R A L')"
proof -
  have walk: "tree_collect_leaves show_f64 S s i = Inr (leaves_at (view s) show_f64 (Suc LIST_PATHS_HARD_CEILING) [] (Some i))"
    if "i \<in> dom (view s)" for i
    using that collect_leaves_eq [OF assms(1,2), of _ show_f64 "[]" 0 "[]"] assms(1,2)
    by (fastforce simp: tree_collect_leaves_def load_object_eq leaves_at_def view_closed_def
        simp del: view_leaves.simps)
  from diff_recursive_follows [OF assms(1-4), of "Some new" show_f64 "[]" 0 "([], [])"] assms(5) obtain R A where
    "tree_diff_leaves show_f64 S s old new = Inr (R, A)"
    "follows (leaves_at (view s) show_f64 (Suc LIST_PATHS_HARD_CEILING) [] old) R A
       (leaves_at (view s) show_f64 (Suc LIST_PATHS_HARD_CEILING) [] (Some new))"
    by (auto simp: tree_diff_leaves_def)
  with walk [OF assms(5)] walk assms(4) show ?thesis
    by (cases old) (auto simp: leaves_at_def [of _ _ _ _ None])
qed

end

end
