(* ===== verification/Tree_Properties.thy ===== *)
theory Tree_Properties
  imports Samples Tree_Walk_Laws
begin

text \<open>
  What a caller of \<open>tree.rs\<close> relies on, for trees kept in the in-memory store: reads after writes,
  deletions, batched reads, refused writes, and the round trip of documents.
\<close>

section \<open>Trees in the in-memory store\<close>

text \<open>
  C11. Writing a value at a path and reading it back gives the value; a read at a path that leaves
  the written one before either ends gives what it gave before, under the new root; and every read
  under any older root gives what it gave before, so older commits keep their state.
\<close>

theorem tree_set_get:
  assumes "collision_free oid" "objects_inv oid s" "object_ok value"
    and "tree_set (memory_store oid) s r p value = (s', Inr r')"
  shows "tree_get (memory_store oid) s' r' p = Inr value \<and>
    (\<forall>q z. diverges p q \<and> tree_get (memory_store oid) s r q = Inr z \<longrightarrow>
       tree_get (memory_store oid) s' r' q = Inr z) \<and>
    (\<forall>old q z. tree_get (memory_store oid) s old q = Inr z \<longrightarrow>
       tree_get (memory_store oid) s' old q = Inr z)"
  using content_store.tree_set_correct [OF memory_content_store [OF assms(1)] assms(2-4)]
    content_store.tree_set_keeps_snapshots [OF memory_content_store [OF assms(1)] assms(2-4)]
    mem.tree_get_Inr assms(2) by auto

abbreviation sample_path :: StatePath where
  "sample_path \<equiv> [Key ''m'', Key ''k'']"

abbreviation sample_set :: "MemoryStorage \<times> (TreeError + ObjectId)" where
  "sample_set \<equiv> tree_set (memory_store sym_oid) sample_store (doc_root base_doc) sample_path
     (object_string ''v'')"

lemma sample_set_run: "\<exists>s' r'. sample_set = (s', Inr r')"
proof -
  have "case sample_set of (_, Inr _) \<Rightarrow> True | _ \<Rightarrow> False" by code_simp
  then show ?thesis by (auto split: prod.splits sum.splits)
qed

lemma object_string_ok: "object_ok (object_string x)"
  by (simp add: object_ok_def object_string_def)

theorem tree_set_get_witness:
  "\<exists>s' r'. sample_set = (s', Inr r') \<and>
     tree_get (memory_store sym_oid) s' r' sample_path = Inr (object_string ''v'') \<and>
     tree_get (memory_store sym_oid) s' r' [Key ''a''] = Inr (object_string ''1'') \<and>
     tree_get (memory_store sym_oid) s' (doc_root base_doc) sample_path = Inr (object_bool True)"
proof -
  obtain s' r' where run: "sample_set = (s', Inr r')" using sample_set_run by blast
  have "tree_get (memory_store sym_oid) sample_store (doc_root base_doc) [Key ''a''] = Inr (object_string ''1'')"
    "tree_get (memory_store sym_oid) sample_store (doc_root base_doc) sample_path = Inr (object_bool True)"
    by code_simp+
  moreover have "diverges sample_path [Key ''a'']" by code_simp
  ultimately show ?thesis
    using tree_set_get [OF sym_oid_collision_free sample_inv object_string_ok run] run by blast
qed

text \<open>
  C12. Writes and deletions keep the store a directed acyclic graph in which no object refers to one
  that is not stored, and the new root is stored.
\<close>

theorem tree_writes_keep_dag:
  assumes "objects_inv oid s" "view_dag (memory_view s)"
  shows "(object_ok value \<and> set (child_ids value) \<subseteq> dom (memory_view s) \<and>
       tree_set (memory_store oid) s r p value = (s', Inr r') \<longrightarrow>
       objects_inv oid s' \<and> view_dag (memory_view s') \<and> r' \<in> dom (memory_view s')) \<and>
    (tree_delete (memory_store oid) s r p = (s', Inr r') \<longrightarrow>
       objects_inv oid s' \<and> view_dag (memory_view s') \<and> r' \<in> dom (memory_view s'))"
  using mem.tree_set_dag [OF assms] mem.tree_delete_dag [OF assms] by blast

theorem tree_writes_keep_dag_witness:
  "\<exists>s' r'. sample_set = (s', Inr r') \<and> view_dag (memory_view s') \<and> r' \<in> dom (memory_view s')"
proof -
  obtain s' r' where run: "sample_set = (s', Inr r')" using sample_set_run by blast
  have "set (child_ids (object_string ''v'')) \<subseteq> dom sample_view"
    by (simp add: object_string_def)
  with tree_writes_keep_dag [OF sample_inv sample_dag] object_string_ok run show ?thesis by blast
qed

text \<open>
  A value is never replaced by a container to make room for a path below it: a write below an
  atom other than null fails with a type mismatch that names the depth and the kind of the atom, and
  everything stored before is still read as before.
\<close>

lemma tree_set_below_value:
  assumes "objects_inv oid s" "object_ok value" "a \<noteq> ANull"
    and "tree_get (memory_store oid) s r q = Inr (OAtom a)"
  shows "\<exists>s'. tree_set (memory_store oid) s r (q @ c # rest) value =
    (s', Inl (TTypeMismatch (at_depth (length q)) ''map or list'' (''a '' @ atom_kind a @ '' value''))) \<and>
    (\<forall>old p z. tree_get (memory_store oid) s old p = Inr z \<longrightarrow> tree_get (memory_store oid) s' old p = Inr z)"
proof -
  from mem.tree_set_atom [OF assms] obtain s' where
    "tree_set (memory_store oid) s r (q @ c # rest) value =
      (s', Inl (TTypeMismatch (at_depth (length q)) ''map or list'' (''a '' @ atom_kind a @ '' value'')))"
    "objects_inv oid s'" "memory_view s \<subseteq>\<^sub>m memory_view s'" by blast
  then show ?thesis using view_get_mono assms(1) by (auto simp: mem.tree_get_Inr)
qed

text \<open>
  C14. A deletion removes exactly its target. Its parent, read at the same path under the new root, is
  the old parent without that child (for a list the later elements move down by one); a deleted map
  key is no longer found; and paths that leave the parent's path before either ends are untouched.
\<close>

theorem tree_delete_removes:
  assumes "collision_free oid" "objects_inv oid s"
    and "tree_delete (memory_store oid) s r (q @ [c]) = (s', Inr r')"
  shows "(\<exists>px py. tree_get (memory_store oid) s r q = Inr px \<and> remove_child_at px c = Some py \<and>
      tree_get (memory_store oid) s' r' q = Inr py) \<and>
    (\<forall>k z. c = Key k \<longrightarrow> tree_get (memory_store oid) s' r' (q @ [c]) \<noteq> Inr z) \<and>
    (\<forall>p z. diverges q p \<and> tree_get (memory_store oid) s r p = Inr z \<longrightarrow>
       tree_get (memory_store oid) s' r' p = Inr z)"
proof -
  note del = content_store.tree_delete_correct [OF memory_content_store [OF assms(1)] assms(2,3)]
  then obtain px py where inv: "objects_inv oid s'"
    and p: "view_get (memory_view s) r q = Some px" "remove_child_at px c = Some py"
      "view_get (memory_view s') r' q = Some py" by blast
  have "view_get (memory_view s') r' (q @ [Key k]) \<noteq> Some z" if "c = Key k" for k z
    using p(2,3) that remove_child_at_key(1) [of px k py]
    by (auto simp: view_get_def view_nav_append split: option.splits)
  with del p inv assms(2) show ?thesis by (auto simp: mem.tree_get_Inr)
qed

theorem tree_delete_removes_witness:
  "\<exists>s' r'. tree_delete (memory_store sym_oid) sample_store (doc_root base_doc) ([Key ''m''] @ [Key ''k'']) =
      (s', Inr r') \<and>
     tree_get (memory_store sym_oid) s' r' [Key ''a''] = Inr (object_string ''1'') \<and>
     (\<forall>z. tree_get (memory_store sym_oid) s' r' ([Key ''m''] @ [Key ''k'']) \<noteq> Inr z)"
proof -
  let ?d = "tree_delete (memory_store sym_oid) sample_store (doc_root base_doc) ([Key ''m''] @ [Key ''k''])"
  have "case ?d of (_, Inr _) \<Rightarrow> True | _ \<Rightarrow> False" by code_simp
  then obtain s' r' where run: "?d = (s', Inr r')" by (auto split: prod.splits sum.splits)
  have "tree_get (memory_store sym_oid) sample_store (doc_root base_doc) [Key ''a''] = Inr (object_string ''1'')"
    "diverges [Key ''m''] [Key ''a'']" by code_simp+
  moreover note del = tree_delete_removes [OF sym_oid_collision_free sample_inv run]
  ultimately have "tree_get (memory_store sym_oid) s' r' [Key ''a''] = Inr (object_string ''1'')"
    by (metis (no_types))
  moreover have "\<forall>z. tree_get (memory_store sym_oid) s' r' ([Key ''m''] @ [Key ''k'']) \<noteq> Inr z"
    using del by metis
  ultimately show ?thesis using run by metis
qed

text \<open>
  C15. The batched read agrees with reading one path at a time: in a store without dangling references
  it answers every path, with the object \<open>tree_get\<close> finds there, or nothing where \<open>tree_get\<close> fails.
\<close>

theorem tree_get_many_agrees:
  assumes "objects_inv oid s" "view_closed (memory_view s)" "r \<in> dom (memory_view s)"
  shows "tree_get_many (memory_store oid) s r paths =
    Inr (map (\<lambda>p. case tree_get (memory_store oid) s r p of Inl _ \<Rightarrow> None | Inr x \<Rightarrow> Some x) paths)"
proof -
  have "view_get (memory_view s) r p =
      (case tree_get (memory_store oid) s r p of Inl _ \<Rightarrow> None | Inr x \<Rightarrow> Some x)" for p
    using mem.tree_get_Inr [OF assms(1), of r p]
    by (cases "view_get (memory_view s) r p"; cases "tree_get (memory_store oid) s r p") auto
  with mem.tree_get_many_correct [OF assms] show ?thesis by simp
qed

theorem tree_get_many_agrees_witness:
  "tree_get_many (memory_store sym_oid) sample_store (doc_root base_doc)
     [[Key ''m'', Key ''k''], [Key ''a'', Index 0], []] =
   Inr (map (\<lambda>p. case tree_get (memory_store sym_oid) sample_store (doc_root base_doc) p of
       Inl _ \<Rightarrow> None | Inr x \<Rightarrow> Some x) [[Key ''m'', Key ''k''], [Key ''a'', Index 0], []])"
  by (rule tree_get_many_agrees) simp_all

text \<open>
  C16. Storing a JSON document and reading the tree back gives the document, key order and number
  representations included, whatever the store held before.
\<close>

theorem json_tree_roundtrip:
  assumes "collision_free oid" "objects_inv oid s" "json_wf j"
    and "json_to_tree oid (memory_store oid) s j = (s', r)"
  shows "\<exists>root x. r = Inr root \<and> tree_get (memory_store oid) s' root [] = Inr x \<and>
    (\<forall>n \<ge> json_depth j. tree_to_json n (memory_store oid) s' x = Some (Inr j))"
proof -
  from content_store.json_to_tree_correct [OF memory_content_store [OF assms(1)] assms(2-4)]
  obtain x where x: "r = Inr (oid x)" "objects_inv oid s'" "memory_view s' (oid x) = Some x"
    "represents (memory_view s') j x" by blast
  then have "tree_get (memory_store oid) s' (oid x) [] = Inr x"
    by (simp add: mem.tree_get_Inr view_get_def)
  moreover have "tree_to_json n (memory_store oid) s' x = Some (Inr j)" if "json_depth j \<le> n" for n
    using mem.to_json_represents [OF x(2,4) assms(3) that] mem.tree_to_json_eq [OF x(2)] by simp
  ultimately show ?thesis using x(1) by blast
qed

theorem json_tree_roundtrip_witness:
  "\<exists>root x. snd (json_to_tree sym_oid (memory_store sym_oid) sample_store base_doc) = Inr root \<and>
     tree_get (memory_store sym_oid) (store_doc sample_store base_doc) root [] = Inr x \<and>
     tree_to_json 9 (memory_store sym_oid) (store_doc sample_store base_doc) x = Some (Inr base_doc)"
proof -
  obtain s' r where run: "json_to_tree sym_oid (memory_store sym_oid) sample_store base_doc = (s', r)" by force
  have "json_depth base_doc \<le> 9" by code_simp
  with json_tree_roundtrip [OF sym_oid_collision_free sample_inv docs_wf(1) run] run show ?thesis
    by (auto simp: store_doc_def)
qed

text \<open>
  Reading a stored tree as JSON always ends with a document: in a store that is a directed acyclic
  graph without dangling references the recursion of \<open>to_json\<close> ends, it meets no missing object, and
  the document does not depend on the fuel once there is enough of it.
\<close>

lemma tree_to_json_ends:
  assumes "objects_inv oid s" "view_dag (memory_view s)" "tree_get (memory_store oid) s r p = Inr x"
  shows "\<exists>j k. \<forall>n \<ge> k. tree_to_json n (memory_store oid) s x = Some (Inr j)"
  by (rule mem.tree_to_json_answers [OF assms])

section \<open>The index of leaves\<close>

text \<open>
  C25. The incremental maintenance of the leaf index agrees with indexing from scratch. For a change from
  an old tree, or from none, to a new one, the difference of leaves is computed without error, and
  dropping the rows of the removed paths and adding the new rows turns the leaves of the old tree into
  exactly the leaves of the new tree. The keys of the maps must not contain a slash.
\<close>

theorem leaf_index_follows:
  assumes "objects_inv oid s" "view_closed (memory_view s)" "keys_plain (memory_view s)"
    and "set_option old \<subseteq> dom (memory_view s)" "new \<in> dom (memory_view s)"
  shows "\<exists>removed added rows. tree_diff_leaves show_f64 (memory_store oid) s old new = Inr (removed, added) \<and>
    tree_collect_leaves show_f64 (memory_store oid) s new = Inr rows \<and>
    (case old of
       None \<Rightarrow> removed = [] \<and> set rows = set added
     | Some i \<Rightarrow> \<exists>old_rows. tree_collect_leaves show_f64 (memory_store oid) s i = Inr old_rows \<and>
         set rows = {e \<in> set old_rows. fst e \<notin> set removed} \<union> set added)"
proof -
  have "removed = []" if "tree_diff_leaves show_f64 (memory_store oid) s None new = Inr (removed, added)" for removed added
    using that by (auto simp: tree_diff_leaves_def diff_recursive.simps [of _ _ _ None] opt_object_def
        try_bind_def map_err_def split: sum.splits option.splits if_splits Object.splits)
  with mem.tree_diff_leaves_follows [OF assms, of show_f64] show ?thesis
    by (cases old) (fastforce simp: follows_def)+
qed

lemma sample_keys_plain: "keys_plain sample_view"
proof -
  have "list_all (\<lambda>(i, x). case x of ONode (NMap es) \<Rightarrow>
      distinct (map fst es) \<and> list_all (\<lambda>e. CHR ''/'' \<notin> set (fst e)) es | _ \<Rightarrow> True) (ms_objects sample_store)"
    by code_simp
  then show ?thesis unfolding keys_plain_def memory_view_def list_all_iff by (fastforce dest!: map_of_SomeD)
qed

theorem leaf_index_follows_witness:
  "\<exists>removed added rows old_rows.
     tree_diff_leaves (\<lambda>_. []) (memory_store sym_oid) sample_store (Some (doc_root base_doc)) (doc_root ours_doc) =
       Inr (removed, added) \<and>
     tree_collect_leaves (\<lambda>_. []) (memory_store sym_oid) sample_store (doc_root ours_doc) = Inr rows \<and>
     tree_collect_leaves (\<lambda>_. []) (memory_store sym_oid) sample_store (doc_root base_doc) = Inr old_rows \<and>
     set rows = {e \<in> set old_rows. fst e \<notin> set removed} \<union> set added"
  using leaf_index_follows [OF sample_inv sample_closed sample_keys_plain, of "Some (doc_root base_doc)" "doc_root ours_doc"
      "\<lambda>_. []"] sample_roots by fastforce

text \<open>
  A key with a slash makes two leaves share a path: a change of one of them drops the row of the other.
\<close>

lemma leaf_index_slash_key:
  "let old = JObject [(''a'', JObject [(''b'', JString ''1'')]), (''a/b'', JString ''2'')];
       new = JObject [(''a'', JObject [(''b'', JString ''9'')]), (''a/b'', JString ''2'')];
       s = store_doc (store_doc memory_new old) new in
   tree_diff_leaves (\<lambda>_. []) (memory_store sym_oid) s (Some (doc_root old)) (doc_root new) =
     Inr ([''/a/b''], [(''/a/b'', ''9'')]) \<and>
   tree_collect_leaves (\<lambda>_. []) (memory_store sym_oid) s (doc_root new) =
     Inr [(''/a/b'', ''9''), (''/a/b'', ''2'')]"
  by code_simp

end
