(* ===== verification/Memory_Steps.thy ===== *)
theory Memory_Steps
  imports Memory_Laws
begin

text \<open>
  The in-memory store under concurrent calls. Most methods hold their lock from start to end and are one step.
  The ref operations look the namespace up under one lock and write under another, and
  \<open>delete_namespace\<close> removes the name under one lock and its refs under another: between the two sections
  anything can happen. A configuration is the store with the calls that stand between their sections.
\<close>

section \<open>Steps\<close>

text \<open>The second section of a call on refs; \<open>RcPurge\<close> is that of \<open>delete_namespace\<close>.\<close>

datatype ref_call =
    RcSet (call_ns: Namespace) string ObjectId
  | RcCas (call_ns: Namespace) string ObjectId ObjectId
  | RcCreate (call_ns: Namespace) string ObjectId
  | RcCasDelete (call_ns: Namespace) string ObjectId
  | RcDelete (call_ns: Namespace) string
  | RcPurge (call_ns: Namespace)

fun ref_phase :: "MemoryStorage \<Rightarrow> ref_call \<Rightarrow> MemoryStorage" where
  "ref_phase s (RcSet ns name target) = set_ref_write s ns name target"
| "ref_phase s (RcCas ns name expected new) = fst (cas_ref_swap s ns name expected new)"
| "ref_phase s (RcCreate ns name target) = fst (create_ref_write s ns name target)"
| "ref_phase s (RcCasDelete ns name expected) = fst (cas_delete_ref_write s ns name expected)"
| "ref_phase s (RcDelete ns name) = fst (delete_ref_write s ns name)"
| "ref_phase s (RcPurge ns) = refs_purged s ns"

fun is_purge :: "ref_call \<Rightarrow> bool" where
  "is_purge (RcPurge _) \<longleftrightarrow> True"
| "is_purge _ \<longleftrightarrow> False"

text \<open>Run without interruption, the sections are the whole call.\<close>

lemma ref_phases:
  assumes "require_namespace s ns = Inr ()"
  shows "fst (set_ref s ns name t) = ref_phase s (RcSet ns name t)"
    and "fst (cas_ref s ns name x t) = ref_phase s (RcCas ns name x t)"
    and "fst (create_ref s ns name t) = ref_phase s (RcCreate ns name t)"
    and "fst (cas_delete_ref s ns name x) = ref_phase s (RcCasDelete ns name x)"
    and "fst (delete_ref s ns name) = ref_phase s (RcDelete ns name)"
    and "ns_str ns \<noteq> DEFAULT_NS \<Longrightarrow>
      fst (delete_namespace s ns) = ref_phase (namespace_removed s ns) (RcPurge ns)"
  using assms
  by (simp_all add: set_ref_def cas_ref_def create_ref_def cas_delete_ref_def delete_ref_def delete_namespace_def
      require_namespace_def split: prod.splits if_splits)

text \<open>A call of a method that holds its lock throughout, with any arguments of the source's types: a
  \<open>Namespace\<close> has passed \<open>Namespace::new\<close>, a \<open>BTreeMap\<close> is ordered.\<close>

inductive memory_step :: "(Object \<Rightarrow> ObjectId) \<Rightarrow> MemoryStorage \<Rightarrow> MemoryStorage \<Rightarrow> bool"
  for oid where
  put_object: "object_ok x \<Longrightarrow> memory_step oid s (fst (put_object oid s x))"
| put_commit: "memory_step oid s (fst (put_commit s c))"
| set_commit_trace: "memory_step oid s (fst (set_commit_trace s i tr))"
| create_namespace: "namespace_new (ns_str ns) = Inr ns \<Longrightarrow>
    memory_step oid s (fst (create_namespace s ns))"
| create_epoch: "memory_step oid s (fst (create_epoch s e))"
| seal_epoch: "memory_step oid s (fst (seal_epoch s i summary at cs h))"
| assign_epoch_namespace: "memory_step oid s (fst (assign_epoch_namespace s i n))"
| archive_epoch: "memory_step oid s (fst (archive_epoch s i))"
| set_commit_epoch: "memory_step oid s (fst (set_commit_epoch s c i))"
| create_session: "memory_step oid s (fst (create_session s x))"
| end_session: "memory_step oid s (fst (end_session s i st at))"
| set_commit_session: "memory_step oid s (fst (set_commit_session s c i))"
| create_taint: "memory_step oid s (fst (create_taint s t))"
| resolve_taint: "memory_step oid s (fst (resolve_taint s i resolver reason prf at))"
| set_taint_commit_id: "memory_step oid s (fst (set_taint_commit_id s i c))"

inductive_cases memory_stepE: "memory_step oid s s'"

text \<open>With \<open>strict\<close> no namespace is removed while a call on its refs stands between its sections.\<close>

inductive store_step ::
  "(Object \<Rightarrow> ObjectId) \<Rightarrow> bool \<Rightarrow> MemoryStorage \<times> ref_call list \<Rightarrow> MemoryStorage \<times> ref_call list \<Rightarrow> bool"
  for oid strict where
  whole: "memory_step oid s s' \<Longrightarrow> store_step oid strict (s, calls) (s', calls)"
| looked_up: "require_namespace s (call_ns c) = Inr () \<Longrightarrow> \<not> is_purge c \<Longrightarrow>
    store_step oid strict (s, calls) (s, c # calls)"
| removed: "ns_str ns \<noteq> DEFAULT_NS \<Longrightarrow> ns_str ns \<in> set (ms_namespaces s) \<Longrightarrow>
    strict \<longrightarrow> (\<forall>c \<in> set calls. call_ns c = ns \<longrightarrow> is_purge c) \<Longrightarrow>
    store_step oid strict (s, calls) (namespace_removed s ns, RcPurge ns # calls)"
| written: "store_step oid strict (s, before @ c # after) (ref_phase s c, before @ after)"

inductive_cases store_stepE: "store_step oid strict (s, calls) (s', calls')"

text \<open>What is between the sections of refs and namespaces touches nothing else.\<close>

lemma ref_phase_fields [simp]:
  "ms_objects (ref_phase s c) = ms_objects s" "ms_commits (ref_phase s c) = ms_commits s"
  "ms_commit_traces (ref_phase s c) = ms_commit_traces s" "ms_namespaces (ref_phase s c) = ms_namespaces s"
  "ms_epochs (ref_phase s c) = ms_epochs s" "ms_commit_epoch (ref_phase s c) = ms_commit_epoch s"
  "ms_sessions (ref_phase s c) = ms_sessions s" "ms_commit_session (ref_phase s c) = ms_commit_session s"
  "ms_taints (ref_phase s c) = ms_taints s"
  by (cases c; simp add: set_ref_write_def cas_ref_swap_def create_ref_write_def cas_delete_ref_write_def
      delete_ref_write_def refs_purged_def split: option.splits)+

lemma namespace_removed_fields [simp]:
  "ms_objects (namespace_removed s ns) = ms_objects s" "ms_commits (namespace_removed s ns) = ms_commits s"
  "ms_commit_traces (namespace_removed s ns) = ms_commit_traces s" "ms_refs (namespace_removed s ns) = ms_refs s"
  "ms_epochs (namespace_removed s ns) = ms_epochs s" "ms_commit_epoch (namespace_removed s ns) = ms_commit_epoch s"
  "ms_sessions (namespace_removed s ns) = ms_sessions s"
  "ms_commit_session (namespace_removed s ns) = ms_commit_session s" "ms_taints (namespace_removed s ns) = ms_taints s"
  "ms_namespaces (namespace_removed s ns) = removeAll (ns_str ns) (ms_namespaces s)"
  by (simp_all add: namespace_removed_def)

text \<open>A property of the other fields that whole calls keep is kept by every step.\<close>

definition off_refs :: "MemoryStorage \<Rightarrow> MemoryStorage" where
  "off_refs s = s\<lparr>ms_refs := [], ms_namespaces := []\<rparr>"

lemma store_step_off_refs:
  "store_step oid strict (s, calls) (s', calls') \<Longrightarrow> memory_step oid s s' \<or> off_refs s' = off_refs s"
  by (erule store_stepE) (auto simp: off_refs_def intro!: MemoryStorage.equality)

lemma store_run_keeps:
  assumes "(store_step oid strict)\<^sup>*\<^sup>* (s, calls) (s', calls')" "P (off_refs s)"
    and "\<And>s s'. memory_step oid s s' \<Longrightarrow> P (off_refs s) \<Longrightarrow> P (off_refs s')"
  shows "P (off_refs s')"
  using assms(1)
proof (induction "(s', calls')" arbitrary: s' calls' rule: rtranclp_induct)
  case base
  show ?case by (rule assms(2))
next
  case (step y)
  obtain t ds where y: "y = (t, ds)" by (cases y)
  from store_step_off_refs [OF step.hyps(2) [unfolded y]] step.hyps(3) [OF y] assms(3) show ?case by metis
qed

section \<open>What every step keeps\<close>

lemmas memory_op_defs = put_object_def put_commit_def set_commit_trace_def create_namespace_def create_epoch_def
  seal_epoch_def assign_epoch_namespace_def archive_epoch_def set_commit_epoch_def create_session_def
  end_session_def set_commit_session_def create_taint_def resolve_taint_def set_taint_commit_id_def

lemma memory_step_objects:
  "memory_step oid s s' \<Longrightarrow> objects_inv oid s \<Longrightarrow> objects_inv oid s' \<and> memory_view s \<subseteq>\<^sub>m memory_view s'"
proof (erule memory_stepE)
  fix x assume a: "objects_inv oid s" "s' = fst (put_object oid s x)" "object_ok x"
  then show "objects_inv oid s' \<and> memory_view s \<subseteq>\<^sub>m memory_view s'"
    using objects_inv_put memory_view_put view_put_le by simp
qed (auto simp: memory_op_defs objects_inv_def memory_view_def split: option.splits if_splits)

lemma memory_step_commits: "memory_step oid s s' \<Longrightarrow> commits_inv s \<Longrightarrow> commits_inv s'"
proof (erule memory_stepE)
  fix c assume "commits_inv s" "s' = fst (put_commit s c)"
  then show "commits_inv s'"
    using set_bt_insert [of "cm_id c" c "ms_commits s"] by (auto simp: put_commit_def commits_inv_def)
qed (auto simp: memory_op_defs commits_inv_def split: option.splits if_splits)

lemma memory_step_epochs: "memory_step oid s s' \<Longrightarrow> epochs_inv s \<Longrightarrow> epochs_inv s'"
proof (erule memory_stepE)
  fix c i assume a: "epochs_inv s" "s' = fst (set_commit_epoch s c i)"
  show "epochs_inv s'"
  proof (cases "find_epoch i (ms_epochs s)")
    case (Some e)
    then have "i \<in> ep_id ` set (ms_epochs s)" by (auto dest: find_epoch_SomeD)
    then have "snd ` set (relink c i (ms_commit_epoch s)) \<subseteq> ep_id ` set (ms_epochs s)"
      using relink_range [of c i "ms_commit_epoch s"] a(1) unfolding epochs_inv_def by blast
    then show ?thesis
      using a Some by (simp add: set_commit_epoch_def epochs_inv_def relink_distinct)
  qed (use a in \<open>simp add: set_commit_epoch_def\<close>)
qed (auto simp: memory_op_defs epochs_inv_def split: option.splits if_splits)

lemma memory_step_sessions: "memory_step oid s s' \<Longrightarrow> sessions_inv s \<Longrightarrow> sessions_inv s'"
proof (erule memory_stepE)
  fix x assume "sessions_inv s" "s' = fst (create_session s x)"
  then show "sessions_inv s'"
    using set_bt_insert [of "se_id x" x "ms_sessions s"]
    by (auto simp: create_session_def sessions_inv_def bt_keys_insert)
next
  fix i st at assume a: "sessions_inv s" "s' = fst (end_session s i st at)"
  show "sessions_inv s'"
  proof (cases "\<exists>x. map_of (ms_sessions s) i = Some x \<and> se_status x = SActive")
    case True
    then obtain x where x: "map_of (ms_sessions s) i = Some x" "se_status x = SActive" by blast
    let ?x' = "x\<lparr>se_status := st, se_ended_at := Some at\<rparr>"
    have "se_id x = i" using a(1) x(1) by (auto simp: sessions_inv_def dest!: map_of_SomeD)
    then show ?thesis
      using a x set_bt_insert [of i ?x' "ms_sessions s"]
      by (auto simp: end_session_def sessions_inv_def bt_keys_insert)
  qed (use a in \<open>auto simp: end_session_def split: option.splits\<close>)
next
  fix c i assume a: "sessions_inv s" "s' = fst (set_commit_session s c i)"
  show "sessions_inv s'"
  proof (cases "\<exists>x. map_of (ms_sessions s) i = Some x \<and> se_status x = SActive")
    case True
    then obtain x where x: "map_of (ms_sessions s) i = Some x" "se_status x = SActive" by blast
    from x(1) have "i \<in> fst ` set (ms_sessions s)" by (metis domI dom_map_of_conv_image_fst)
    then have "snd ` set (relink c i (ms_commit_session s)) \<subseteq> fst ` set (ms_sessions s)"
      using relink_range [of c i "ms_commit_session s"] a(1) unfolding sessions_inv_def by blast
    then show ?thesis
      using a x by (simp add: set_commit_session_def sessions_inv_def relink_distinct)
  qed (use a in \<open>auto simp: set_commit_session_def split: option.splits\<close>)
qed (auto simp: memory_op_defs sessions_inv_def split: option.splits if_splits)

lemma taints_inv_create: "taints_inv s \<Longrightarrow> taints_inv (fst (create_taint s t))"
  by (auto simp: create_taint_def taints_inv_def sorted_wrt_append same_active_taint_def)

lemma taints_inv_resolve: "taints_inv s \<Longrightarrow> taints_inv (fst (resolve_taint s i resolver reason prf at))"
  by (auto simp: resolve_taint_def taints_inv_def split: option.splits)
    (rule update_taint_inv; simp add: same_active_taint_def)

lemma taints_inv_commit: "taints_inv s \<Longrightarrow> taints_inv (fst (set_taint_commit_id s i c))"
  by (auto simp: set_taint_commit_id_def taints_inv_def split: option.splits)
    (rule update_taint_inv; simp add: same_active_taint_def)

lemma memory_step_taints: "memory_step oid s s' \<Longrightarrow> taints_inv s \<Longrightarrow> taints_inv s'"
  by (erule memory_stepE; (simp add: taints_inv_create taints_inv_resolve taints_inv_commit; fail)?)
    (auto simp: memory_op_defs taints_inv_def split: option.splits if_splits)

lemma off_refs_inv [simp]:
  "objects_inv oid (off_refs s) \<longleftrightarrow> objects_inv oid s" "commits_inv (off_refs s) \<longleftrightarrow> commits_inv s"
  "epochs_inv (off_refs s) \<longleftrightarrow> epochs_inv s" "sessions_inv (off_refs s) \<longleftrightarrow> sessions_inv s"
  "taints_inv (off_refs s) \<longleftrightarrow> taints_inv s"
  by (simp_all add: off_refs_def objects_inv_def memory_view_def commits_inv_def epochs_inv_def sessions_inv_def taints_inv_def)

lemma memory_new_inv:
  "objects_inv oid memory_new" "commits_inv memory_new" "epochs_inv memory_new" "sessions_inv memory_new"
  "taints_inv memory_new" "namespaces_inv memory_new" "refs_inv memory_new"
  using default_ns_valid
  by (simp_all add: memory_new_def objects_inv_def memory_view_def view_addressed_def namespaces_inv_def refs_inv_def
      commits_inv_def epochs_inv_def sessions_inv_def taints_inv_def default_ns_def)

lemma store_run_inv:
  assumes "(store_step oid strict)\<^sup>*\<^sup>* (memory_new, []) (s, calls)"
  shows "objects_inv oid s" "commits_inv s" "epochs_inv s" "sessions_inv s" "taints_inv s"
  using store_run_keeps [OF assms, of "objects_inv oid"] store_run_keeps [OF assms, of commits_inv]
    store_run_keeps [OF assms, of epochs_inv] store_run_keeps [OF assms, of sessions_inv]
    store_run_keeps [OF assms, of taints_inv]
    memory_step_objects memory_step_commits memory_step_epochs memory_step_sessions memory_step_taints
  by (simp_all add: memory_new_inv)

text \<open>Refs and namespaces: the names stay valid, and in a \<open>strict\<close> run a ref without a namespace waits for
  its purge.\<close>

definition ref_calls_inv :: "bool \<Rightarrow> MemoryStorage \<times> ref_call list \<Rightarrow> bool" where
  "ref_calls_inv strict = (\<lambda>(s, calls). bt_wf (ms_refs s) \<and> namespaces_inv s \<and>
     (strict \<longrightarrow> (\<forall>k \<in> fst ` set (ms_refs s). fst k \<in> set (ms_namespaces s) \<or> RcPurge (Namespace (fst k)) \<in> set calls) \<and>
        (\<forall>c \<in> set calls. is_purge c \<or> ns_str (call_ns c) \<in> set (ms_namespaces s))))"

lemma ref_phase_refs:
  "bt_wf (ms_refs s) \<Longrightarrow> bt_wf (ms_refs (ref_phase s c))"
  "k \<in> fst ` set (ms_refs (ref_phase s c)) \<Longrightarrow>
     if is_purge c then k \<in> fst ` set (ms_refs s) \<and> fst k \<noteq> ns_str (call_ns c)
     else k \<in> fst ` set (ms_refs s) \<or> fst k = ns_str (call_ns c)"
proof -
  have "bt_wf m \<Longrightarrow> bt_wf (filter P m)" for P and m :: "(string \<times> string, ObjectId) btree"
    by (auto simp: bt_wf_def sorted_wrt_map intro: sorted_wrt_filter)
  then show "bt_wf (ms_refs s) \<Longrightarrow> bt_wf (ms_refs (ref_phase s c))"
    by (cases c) (auto simp: set_ref_write_def cas_ref_swap_def create_ref_write_def cas_delete_ref_write_def
        delete_ref_write_def refs_purged_def split: option.splits)
  show "k \<in> fst ` set (ms_refs (ref_phase s c)) \<Longrightarrow>
     if is_purge c then k \<in> fst ` set (ms_refs s) \<and> fst k \<noteq> ns_str (call_ns c)
     else k \<in> fst ` set (ms_refs s) \<or> fst k = ns_str (call_ns c)"
    by (cases c) (force simp: set_ref_write_def cas_ref_swap_def create_ref_write_def cas_delete_ref_write_def
        delete_ref_write_def refs_purged_def split: option.splits if_splits
        dest!: subsetD [OF set_bt_insert] subsetD [OF set_bt_remove])+
qed

lemma memory_step_names:
  assumes "memory_step oid s s'"
  shows "ms_refs s' = ms_refs s" "set (ms_namespaces s) \<subseteq> set (ms_namespaces s')" "namespaces_inv s \<Longrightarrow> namespaces_inv s'"
  using assms by (auto elim!: memory_stepE simp: memory_op_defs namespaces_inv_def split: option.splits if_splits)

lemma store_step_refs:
  assumes "store_step oid strict x y" "ref_calls_inv strict x"
  shows "ref_calls_inv strict y"
  using assms
proof (induction rule: store_step.induct)
  case (whole s s' calls)
  from memory_step_names [OF whole.hyps] whole.prems show ?case by (auto simp: ref_calls_inv_def)
next
  case (looked_up s c calls)
  then show ?case by (auto simp: ref_calls_inv_def require_namespace_def split: if_splits)
next
  case (removed ns s calls)
  have ns: "RcPurge (Namespace (ns_str ns)) = RcPurge ns" by (cases ns) simp
  have "is_purge c \<or> ns_str (call_ns c) \<in> set (removeAll (ns_str ns) (ms_namespaces s))" if "strict" "c \<in> set calls" for c
    using that removed.hyps(3) removed.prems by (auto simp: ref_calls_inv_def Namespace_eq_iff)
  moreover have "fst k \<in> set (removeAll (ns_str ns) (ms_namespaces s)) \<or> RcPurge (Namespace (fst k)) \<in> set (RcPurge ns # calls)"
    if "strict" "k \<in> fst ` set (ms_refs s)" for k
    using that removed.prems ns by (cases "fst k = ns_str ns") (force simp: ref_calls_inv_def)+
  ultimately show ?case
    using removed.prems removed.hyps(1) by (simp add: ref_calls_inv_def namespaces_inv_def distinct_removeAll)
next
  case (written s before c after)
  have "fst k \<in> set (ms_namespaces s) \<or> RcPurge (Namespace (fst k)) \<in> set (before @ after)"
    if "strict" "k \<in> fst ` set (ms_refs (ref_phase s c))" for k
  proof -
    from written.prems that(1) have inv: "\<forall>k \<in> fst ` set (ms_refs s). fst k \<in> set (ms_namespaces s) \<or>
        RcPurge (Namespace (fst k)) \<in> set (before @ c # after)" "is_purge c \<or> ns_str (call_ns c) \<in> set (ms_namespaces s)"
      by (auto simp: ref_calls_inv_def)
    from ref_phase_refs(2) [OF that(2)] inv show ?thesis by (cases "is_purge c") auto
  qed
  with written.prems ref_phase_refs(1) [of s c] show ?case by (auto simp: ref_calls_inv_def namespaces_inv_def)
qed

lemma store_run_refs:
  "(store_step oid strict)\<^sup>*\<^sup>* (memory_new, []) x \<Longrightarrow> ref_calls_inv strict x"
proof (induction rule: rtranclp_induct)
  case base
  show ?case using memory_new_inv(6,7) by (simp add: ref_calls_inv_def refs_inv_def)
qed (rule store_step_refs)

section \<open>Sealed epochs\<close>

text \<open>What later calls can change of an epoch that is sealed or archived, as \<open>get_epoch\<close> reads it: it is
  archived, it is given the namespace it did not have, and it loses commits that are linked to another epoch.\<close>

definition epoch_preserved :: "Epoch \<Rightarrow> Epoch \<Rightarrow> bool" where
  "epoch_preserved e e' \<longleftrightarrow> (\<exists>st n P. e' = e\<lparr>ep_status := st, ep_namespace := n, ep_commits := filter P (ep_commits e)\<rparr> \<and>
     (st = ep_status e \<or> ep_status e = ESealed \<and> st = EArchived) \<and> (ep_namespace e \<noteq> None \<longrightarrow> n = ep_namespace e))"

lemma epoch_preservedI:
  "st = ep_status e \<or> ep_status e = ESealed \<and> st = EArchived \<Longrightarrow> ep_namespace e \<noteq> None \<longrightarrow> n = ep_namespace e \<Longrightarrow>
   cs = filter P (ep_commits e) \<Longrightarrow> epoch_preserved e (e\<lparr>ep_status := st, ep_namespace := n, ep_commits := cs\<rparr>)"
  unfolding epoch_preserved_def by blast

lemma epoch_preserved_refl [simp]: "epoch_preserved e e"
  using epoch_preservedI [of "ep_status e" e "ep_namespace e" "ep_commits e" "\<lambda>_. True"] by simp

lemma epoch_preserved_active: "epoch_preserved e e' \<Longrightarrow> ep_status e \<noteq> EActive \<Longrightarrow> ep_status e' \<noteq> EActive"
  by (auto simp: epoch_preserved_def)

lemma epoch_preserved_trans:
  assumes "epoch_preserved e e'" "epoch_preserved e' e''"
  shows "epoch_preserved e e''"
proof -
  from assms(1) obtain st n P where 1: "e' = e\<lparr>ep_status := st, ep_namespace := n, ep_commits := filter P (ep_commits e)\<rparr>"
    "st = ep_status e \<or> ep_status e = ESealed \<and> st = EArchived" "ep_namespace e \<noteq> None \<longrightarrow> n = ep_namespace e"
    by (auto simp: epoch_preserved_def)
  from assms(2) obtain st' n' Q where 2: "e'' = e'\<lparr>ep_status := st', ep_namespace := n', ep_commits := filter Q (ep_commits e')\<rparr>"
    "st' = ep_status e' \<or> ep_status e' = ESealed \<and> st' = EArchived" "ep_namespace e' \<noteq> None \<longrightarrow> n' = ep_namespace e'"
    by (auto simp: epoch_preserved_def)
  have "e'' = e\<lparr>ep_status := st', ep_namespace := n', ep_commits := filter (\<lambda>x. P x \<and> Q x) (ep_commits e)\<rparr>"
    using 1(1) 2(1) by simp
  moreover have "st' = ep_status e \<or> ep_status e = ESealed \<and> st' = EArchived" "ep_namespace e \<noteq> None \<longrightarrow> n' = ep_namespace e"
    using 1 2(2,3) by auto
  ultimately show ?thesis unfolding epoch_preserved_def by blast
qed

lemma get_epoch_Some:
  "get_epoch s i = Inr (Some e) \<longleftrightarrow> (\<exists>row. find_epoch i (ms_epochs s) = Some row \<and>
     e = row\<lparr>ep_commits := map fst (filter (\<lambda>(_, j). j = i) (ms_commit_epoch s))\<rparr>)"
  by (auto simp: get_epoch_def split: option.splits)

lemma relink_other: "j \<noteq> i \<Longrightarrow> map fst (filter (\<lambda>(_, k). k = i) (relink c j as)) = filter (\<lambda>x. x \<noteq> c) (map fst (filter (\<lambda>(_, k). k = i) as))"
  by (induction as) (auto simp: relink_def)

lemma memory_step_sealed:
  assumes "memory_step oid s s'" "get_epoch s i = Inr (Some e)" "ep_status e \<noteq> EActive"
  shows "\<exists>e'. get_epoch s' i = Inr (Some e') \<and> epoch_preserved e e'"
proof -
  let ?cs = "\<lambda>s. map fst (filter (\<lambda>(_, j). j = i) (ms_commit_epoch s))"
  from assms(2) obtain row where row: "find_epoch i (ms_epochs s) = Some row" "e = row\<lparr>ep_commits := ?cs s\<rparr>"
    by (auto simp: get_epoch_Some)
  have st: "ep_status row \<noteq> EActive" using assms(3) row(2) by simp
  have same: ?thesis if "find_epoch i (ms_epochs s') = Some row" "ms_commit_epoch s' = ms_commit_epoch s"
    using that row by (auto simp: get_epoch_Some)
  show ?thesis
    using assms(1)
  proof (rule memory_stepE)
    fix j assume s': "s' = fst (archive_epoch s j)"
    show ?thesis
    proof (cases "j = i \<and> ep_status row = ESealed")
      case True
      with s' row(1) have "get_epoch s' i = Inr (Some (row\<lparr>ep_status := EArchived, ep_commits := ?cs s\<rparr>))"
        by (simp add: get_epoch_def archive_epoch_def find_epoch_update)
      moreover have "epoch_preserved e (row\<lparr>ep_status := EArchived, ep_commits := ?cs s\<rparr>)"
        using epoch_preservedI [of EArchived e "ep_namespace e" "ep_commits e" "\<lambda>_. True"] True row(2) by simp
      ultimately show ?thesis by blast
    qed (intro same; use s' row(1) in \<open>auto simp: archive_epoch_def find_epoch_update split: option.splits\<close>)
  next
    fix j n assume s': "s' = fst (assign_epoch_namespace s j n)"
    show ?thesis
    proof (cases "j = i \<and> ep_namespace row = None")
      case True
      with s' row(1) have "get_epoch s' i = Inr (Some (row\<lparr>ep_namespace := Some n, ep_commits := ?cs s\<rparr>))"
        by (simp add: get_epoch_def assign_epoch_namespace_def find_epoch_update)
      moreover have "epoch_preserved e (row\<lparr>ep_namespace := Some n, ep_commits := ?cs s\<rparr>)"
        using epoch_preservedI [of "ep_status e" e "Some n" "ep_commits e" "\<lambda>_. True"] True row(2) by simp
      ultimately show ?thesis by blast
    qed (intro same; use s' row(1) in \<open>auto simp: assign_epoch_namespace_def find_epoch_update split: option.splits\<close>)
  next
    fix j summary at cs h assume "s' = fst (seal_epoch s j summary at cs h)"
    then show ?thesis
      using row(1) st by (intro same; cases "ep_status row") (auto simp: seal_epoch_def find_epoch_update split: option.splits)
  next
    fix c j assume s': "s' = fst (set_commit_epoch s c j)"
    show ?thesis
    proof (cases "s' = s")
      case False
      then have s'_eq: "s' = s\<lparr>ms_commit_epoch := relink c j (ms_commit_epoch s)\<rparr>" "j \<noteq> i"
        using s' row(1) st by (auto simp: set_commit_epoch_def split: option.splits if_splits) (cases "ep_status row"; simp)
      have "get_epoch s' i = Inr (Some (row\<lparr>ep_commits := filter (\<lambda>x. x \<noteq> c) (?cs s)\<rparr>))"
        using row(1) relink_other [OF s'_eq(2)] by (simp add: get_epoch_def s'_eq(1))
      moreover have "epoch_preserved e (row\<lparr>ep_commits := filter (\<lambda>x. x \<noteq> c) (?cs s)\<rparr>)"
        using epoch_preservedI [of "ep_status e" e "ep_namespace e" "filter (\<lambda>x. x \<noteq> c) (?cs s)" "\<lambda>x. x \<noteq> c"] row(2) by simp
      ultimately show ?thesis by blast
    qed (use assms(2) epoch_preserved_refl in blast)
  qed (intro same; use row(1) in \<open>auto simp: memory_op_defs find_epoch_append split: option.splits if_splits\<close>)+
qed

lemma get_epoch_off_refs [simp]: "get_epoch (off_refs s) i = get_epoch s i"
  by (simp add: get_epoch_def off_refs_def split: option.splits)

lemma store_run_sealed:
  assumes "(store_step oid strict)\<^sup>*\<^sup>* (s, calls) (s', calls')" "get_epoch s i = Inr (Some e)" "ep_status e \<noteq> EActive"
  shows "\<exists>e'. get_epoch s' i = Inr (Some e') \<and> epoch_preserved e e'"
proof -
  let ?P = "\<lambda>s. \<exists>e'. get_epoch s i = Inr (Some e') \<and> epoch_preserved e e'"
  have "?P (off_refs s')"
  proof (rule store_run_keeps [OF assms(1)])
    show "?P (off_refs s)" using assms(2) by simp
    fix t t' assume step: "memory_step oid t t'" and "?P (off_refs t)"
    then obtain e' where e': "get_epoch t i = Inr (Some e')" "epoch_preserved e e'" by auto
    from memory_step_sealed [OF step e'(1) epoch_preserved_active [OF e'(2) assms(3)]] epoch_preserved_trans [OF e'(2)]
    show "?P (off_refs t')" by simp blast
  qed
  then show ?thesis by simp
qed

end
