(* ===== verification/Memory_Properties.thy ===== *)
theory Memory_Properties
  imports Samples Memory_Steps
begin

text \<open>
  What the repository layer relies on of the in-memory backend: the invariant of every state concurrent
  calls can reach, compare-and-swap of refs, the permanence of sealed epochs, the commit walk, and the
  taint check as storage and evaluation compose it.
\<close>

section \<open>The store\<close>

text \<open>
  C18. Every state that concurrent calls of the in-memory store can reach, with the two critical sections
  of its ref operations and of \<open>delete_namespace\<close> interleaved in any way, is well formed: objects stand
  under their content address, refs are ordered, the namespaces are distinct valid names with the default
  one among them, commits stand under the id they carry, epoch and session links name existing epochs and
  sessions with at most one link for a commit, and no two active taints have the same path, name and
  kind. Listing the namespaces, which unwraps each stored name as a valid one, cannot panic. When no
  namespace is removed while a call on its refs stands between its sections, a ref whose namespace does
  not exist is one a deletion is about to purge, so when no call is under way every ref belongs to a
  namespace that exists.
\<close>

theorem memory_invariant:
  assumes "(store_step oid strict)\<^sup>*\<^sup>* (memory_new, []) (s, calls)"
  shows "objects_inv oid s \<and> bt_wf (ms_refs s) \<and> namespaces_inv s \<and> commits_inv s \<and> epochs_inv s \<and> sessions_inv s \<and>
    taints_inv s \<and>
    (\<exists>names. list_namespaces s = Some (Inr names) \<and> ns_str ` set names = set (ms_namespaces s)) \<and>
    (strict \<longrightarrow> (\<forall>n name target. ((n, name), target) \<in> set (ms_refs s) \<longrightarrow>
       n \<in> set (ms_namespaces s) \<or> RcPurge (Namespace n) \<in> set calls)) \<and>
    (strict \<and> calls = [] \<longrightarrow> refs_inv s)"
proof -
  note refs = store_run_refs [OF assms, unfolded ref_calls_inv_def]
  then have "strict \<longrightarrow> (\<forall>n name target. ((n, name), target) \<in> set (ms_refs s) \<longrightarrow>
       n \<in> set (ms_namespaces s) \<or> RcPurge (Namespace n) \<in> set calls)" by force
  with refs store_run_inv [OF assms] list_namespaces_total [of s] show ?thesis by (auto simp: refs_inv_def)
qed

lemma whole_steps: "(memory_step oid)\<^sup>*\<^sup>* s s' \<Longrightarrow> (store_step oid strict)\<^sup>*\<^sup>* (s, calls) (s', calls)"
  by (induction rule: rtranclp_induct) (auto intro: rtranclp.rtrancl_into_rtrancl store_step.whole)

lemma create_ref_run:
  assumes "require_namespace s ns = Inr ()"
  shows "(store_step oid strict)\<^sup>*\<^sup>* (s, calls) (fst (create_ref s ns name t), calls)"
proof -
  have "store_step oid strict (s, calls) (s, RcCreate ns name t # calls)" using assms by (intro looked_up) simp_all
  moreover have "store_step oid strict (s, RcCreate ns name t # calls) (fst (create_ref s ns name t), calls)"
    unfolding ref_phases(3) [OF assms] using written [of oid strict s "[]" "RcCreate ns name t" calls] by simp
  ultimately show ?thesis by (meson r_into_rtranclp rtranclp.rtrancl_into_rtrancl)
qed

text \<open>A namespace with a ref, and a deletion of the namespace that stands between its sections.\<close>

abbreviation work_ns :: Namespace where "work_ns \<equiv> Namespace ''w''"

definition work_store :: MemoryStorage where
  "work_store = fst (create_ref (fst (create_namespace memory_new work_ns)) work_ns ''main'' (sym_oid object_null))"

lemma work_run: "(store_step sym_oid strict)\<^sup>*\<^sup>* (memory_new, []) (work_store, [])"
proof -
  have "memory_step sym_oid memory_new (fst (create_namespace memory_new work_ns))"
    by (rule memory_step.create_namespace) code_simp
  then have "(store_step sym_oid strict)\<^sup>*\<^sup>* (memory_new, []) (fst (create_namespace memory_new work_ns), [])"
    by (intro whole_steps) blast
  moreover have "require_namespace (fst (create_namespace memory_new work_ns)) work_ns = Inr ()" by code_simp
  note create_ref_run [OF this, of sym_oid strict "[]" "''main''" "sym_oid object_null"]
  ultimately show ?thesis unfolding work_store_def by (rule rtranclp_trans)
qed

theorem memory_invariant_witness:
  "\<exists>s. ms_refs s = [((''w'', ''main''), sym_oid object_null)] \<and> refs_inv s \<and>
     ''w'' \<notin> set (ms_namespaces (namespace_removed s work_ns)) \<and>
     (\<exists>names. list_namespaces (namespace_removed s work_ns) = Some (Inr names)) \<and> commits_inv (namespace_removed s work_ns)"
proof -
  have refs: "ms_refs work_store = [((''w'', ''main''), sym_oid object_null)]" "''w'' \<in> set (ms_namespaces work_store)"
    "ns_str work_ns \<noteq> DEFAULT_NS" by code_simp+
  then have "store_step sym_oid True (work_store, []) (namespace_removed work_store work_ns, [RcPurge work_ns])"
    by (intro removed) simp_all
  from rtranclp.rtrancl_into_rtrancl [OF work_run this] have run:
    "(store_step sym_oid True)\<^sup>*\<^sup>* (memory_new, []) (namespace_removed work_store work_ns, [RcPurge work_ns])" .
  from memory_invariant [OF this] memory_invariant [OF work_run, of True] refs show ?thesis
    by (intro exI [of _ work_store]) auto
qed

text \<open>
  Of any number of writers that read the same target of a ref and then try to swap it, one after
  the other in any order, exactly the first succeeds; the ref has its target afterwards and no other
  ref of any namespace changes.
\<close>

lemma cas_ref_one_winner:
  assumes "get_ref s ns name = Inr (Some x)" "t \<noteq> x"
  shows "\<exists>s'. cas_attempts cas_ref s ns name x (t # ts) =
      (s', Inr True # replicate (length ts) (Inr False)) \<and>
    get_ref s' ns name = Inr (Some t) \<and>
    (\<forall>ns' name'. (ns', name') \<noteq> (ns, name) \<longrightarrow> get_ref s' ns' name' = get_ref s ns' name')"
  by (rule memref.one_winner [OF assms])

abbreviation main_store :: MemoryStorage where
  "main_store \<equiv> fst (create_ref memory_new default_ns ''main'' (sym_oid object_null))"

lemma main_store_get: "get_ref main_store default_ns ''main'' = Inr (Some (sym_oid object_null))"
  by code_simp

text \<open>
  C20. A sealed epoch is permanent: whatever calls follow and however they interleave, \<open>get_epoch\<close> still
  finds it, never active again, with the same description, tags, times, seal summary, seal hash and
  sealed commits. It can be archived once, and be given a namespace if it had none. Its list of linked
  commits never grows and keeps its order, but it can shrink, since a commit can be linked to another
  epoch; the sealed commits of the seal do not.
\<close>

theorem sealed_epoch_permanent:
  assumes "(store_step oid strict)\<^sup>*\<^sup>* (s, calls) (s', calls')" "get_epoch s i = Inr (Some e)" "ep_status e \<noteq> EActive"
  shows "\<exists>st n P. get_epoch s' i =
      Inr (Some (e\<lparr>ep_status := st, ep_namespace := n, ep_commits := filter P (ep_commits e)\<rparr>)) \<and>
    (st = ep_status e \<or> ep_status e = ESealed \<and> st = EArchived) \<and> (ep_namespace e \<noteq> None \<longrightarrow> n = ep_namespace e)"
  using store_run_sealed [OF assms] by (auto simp: epoch_preserved_def)

abbreviation linked_store :: MemoryStorage where
  "linked_store \<equiv> fst (set_commit_epoch (fst (create_epoch memory_new (epoch_new 0 ''e1'' ''first'' [])))
     (commit_name 0) ''e1'')"

abbreviation sealed_store :: MemoryStorage where
  "sealed_store \<equiv> fst (seal_epoch linked_store ''e1'' ''done'' 5 [commit_name 0] (sym_oid object_null))"

theorem sealed_epoch_permanent_witness:
  "\<exists>e st n P. get_epoch sealed_store ''e1'' = Inr (Some e) \<and> ep_commits e = [commit_name 0] \<and>
     ep_sealed_commits e = [commit_name 0] \<and>
     get_epoch (fst (archive_epoch sealed_store ''e1'')) ''e1'' =
       Inr (Some (e\<lparr>ep_status := st, ep_namespace := n, ep_commits := filter P (ep_commits e)\<rparr>)) \<and> st = EArchived"
proof -
  obtain e where e: "get_epoch sealed_store ''e1'' = Inr (Some e)" "ep_status e = ESealed" "ep_commits e = [commit_name 0]"
    "ep_sealed_commits e = [commit_name 0]"
    by (simp add: get_epoch_def seal_epoch_def set_commit_epoch_def relink_def create_epoch_def memory_new_def epoch_new_def
        find_epoch_def)
  have "(store_step sym_oid True)\<^sup>*\<^sup>* (sealed_store, []) (fst (archive_epoch sealed_store ''e1''), [])"
    by (rule whole_steps) (rule r_into_rtranclp, rule memory_step.archive_epoch)
  from sealed_epoch_permanent [OF this e(1)] e(2) obtain st n P where
    after: "get_epoch (fst (archive_epoch sealed_store ''e1'')) ''e1'' =
       Inr (Some (e\<lparr>ep_status := st, ep_namespace := n, ep_commits := filter P (ep_commits e)\<rparr>))" by auto
  have "(case get_epoch (fst (archive_epoch sealed_store ''e1'')) ''e1'' of
      Inr (Some e) \<Rightarrow> ep_status e = EArchived | _ \<Rightarrow> False)"
    by (simp add: get_epoch_def archive_epoch_def seal_epoch_def set_commit_epoch_def relink_def create_epoch_def
        memory_new_def epoch_new_def find_epoch_def)
  with after have "st = EArchived" by simp
  with e after show ?thesis by blast
qed

text \<open>
  C21. The breadth-first commit walk visits only ancestors of its start, each stored one at most once
  and at most \<open>limit\<close> of them; when it does not report truncation it returned every stored ancestor,
  and when it does it returned exactly \<open>limit\<close> commits.
\<close>

theorem commit_walk_complete:
  assumes "(store_step oid strict)\<^sup>*\<^sup>* (memory_new, []) (s, calls)"
  shows "\<exists>w. list_commits_dag (get_commit s) start limit = Inr w \<and>
    distinct (map cm_id (cw_commits w)) \<and> length (cw_commits w) \<le> limit \<and>
    (\<forall>c \<in> set (cw_commits w). get_commit s (cm_id c) = Inr (Some c) \<and>
       (parent_edge (get_commit s))\<^sup>*\<^sup>* start (cm_id c)) \<and>
    (cw_truncated w \<longrightarrow> length (cw_commits w) = limit) \<and>
    (\<not> cw_truncated w \<longrightarrow> (\<forall>i c. (parent_edge (get_commit s))\<^sup>*\<^sup>* start i \<and>
       get_commit s i = Inr (Some c) \<longrightarrow> i \<in> set (map cm_id (cw_commits w))))"
proof -
  have "commits_inv s" by (rule store_run_inv [OF assms])
  from memory_dag_walk [OF this, of start limit] obtain w where
    w: "list_commits_dag (get_commit s) start limit = Inr w"
    "walk_result (get_commit s) start limit w (map cm_id (cw_commits w))" by blast
  then have "get_commit s (cm_id c) = Inr (Some c)" if "c \<in> set (cw_commits w)" for c
    using that by (auto simp: walk_result_def list_all2_map1 list_all2_same)
  with w show ?thesis unfolding walk_result_def by (intro exI [of _ w]) simp
qed

lemma diamond_run: "(store_step sym_oid True)\<^sup>*\<^sup>* (memory_new, []) (diamond_store, [])"
proof -
  have step: "(memory_step sym_oid)\<^sup>*\<^sup>* memory_new s \<Longrightarrow>
      (memory_step sym_oid)\<^sup>*\<^sup>* memory_new (fst (put_commit s c))" for s c
    by (erule rtranclp.rtrancl_into_rtrancl) (rule memory_step.put_commit)
  have "(memory_step sym_oid)\<^sup>*\<^sup>* memory_new diamond_store"
    unfolding diamond_store_def by (intro step rtranclp.rtrancl_refl)
  then show ?thesis by (rule whole_steps)
qed

theorem commit_walk_complete_witness:
  "\<exists>w. list_commits_dag (get_commit diamond_store) (commit_name 0) 10 = Inr w \<and> \<not> cw_truncated w \<and>
     set (map cm_id (cw_commits w)) = {commit_name 0, commit_name 1, commit_name 2, commit_name 3} \<and>
     distinct (map cm_id (cw_commits w)) \<and>
     (\<forall>c \<in> set (cw_commits w). (parent_edge (get_commit diamond_store))\<^sup>*\<^sup>* (commit_name 0) (cm_id c))"
proof -
  have run: "list_commits_dag (get_commit diamond_store) (commit_name 0) 10 =
      Inr \<lparr> cw_commits = map snd (ms_commits diamond_store), cw_truncated = False \<rparr>" by code_simp
  have "map cm_id (map snd (ms_commits diamond_store)) = [commit_name 0, commit_name 1, commit_name 2, commit_name 3]"
    by code_simp
  with run commit_walk_complete [OF diamond_run, of "commit_name 0" 10] show ?thesis by auto
qed

text \<open>
  The flag of the walk overstates truncation: on a diamond of four commits with a limit of four
  the walk returns every commit of the store and still reports that history was left unexplored,
  because the shared ancestor stands in the queue a second time when the limit is reached.
\<close>

lemma commit_walk_false_truncation:
  "\<exists>s w i. (store_step sym_oid True)\<^sup>*\<^sup>* (memory_new, []) (s, []) \<and>
     list_commits_dag (get_commit s) i 4 = Inr w \<and> cw_truncated w \<and>
     map cm_id (cw_commits w) = [i, commit_name 1, commit_name 2, commit_name 3] \<and>
     set (cw_commits w) = snd ` set (ms_commits s)"
proof -
  have "list_commits_dag (get_commit diamond_store) (commit_name 0) 4 =
      Inr \<lparr> cw_commits = map snd (ms_commits diamond_store), cw_truncated = True \<rparr>"
    by code_simp
  moreover have "map cm_id (map snd (ms_commits diamond_store)) =
      [commit_name 0, commit_name 1, commit_name 2, commit_name 3]"
    by code_simp
  ultimately show ?thesis using diamond_run
    by (intro exI [of _ diamond_store] exI [of _ "commit_name 0"]
        exI [of _ "\<lparr> cw_commits = map snd (ms_commits diamond_store), cw_truncated = True \<rparr>"]) simp
qed

section \<open>Refs and namespaces\<close>

text \<open>
  The ref operations look a namespace up and write the ref under two separate locks. When a
  namespace is deleted between the two steps of \<open>set_ref\<close>, the write leaves a ref of a namespace that
  does not exist, and the ref comes back when a namespace of that name is created again.
\<close>

lemma set_ref_race_leaves_orphan:
  "\<exists>s. (store_step sym_oid False)\<^sup>*\<^sup>* (memory_new, []) (s, []) \<and> \<not> refs_inv s \<and>
     get_ref (fst (create_namespace s work_ns)) work_ns ''late'' = Inr (Some (sym_oid object_null))"
proof -
  let ?c = "RcSet work_ns ''late'' (sym_oid object_null)"
  let ?s1 = "namespace_removed work_store work_ns" and ?s = "ref_phase (refs_purged (namespace_removed work_store work_ns) work_ns)"
  have "store_step sym_oid False (work_store, []) (work_store, [?c])" by (intro looked_up) (code_simp, simp)
  moreover have "store_step sym_oid False (work_store, [?c]) (?s1, [RcPurge work_ns, ?c])"
    by (intro removed) (code_simp, code_simp, simp)
  moreover have "store_step sym_oid False (?s1, [RcPurge work_ns, ?c]) (refs_purged ?s1 work_ns, [?c])"
    using written [of sym_oid False ?s1 "[]" "RcPurge work_ns" "[?c]"] by simp
  moreover have "store_step sym_oid False (refs_purged ?s1 work_ns, [?c]) (?s ?c, [])"
    using written [of sym_oid False "refs_purged ?s1 work_ns" "[]" ?c "[]"] by simp
  ultimately have "(store_step sym_oid False)\<^sup>*\<^sup>* (memory_new, []) (?s ?c, [])"
    using work_run [of False] by (meson rtranclp.rtrancl_into_rtrancl)
  moreover have "((''w'', ''late''), sym_oid object_null) \<in> set (ms_refs (?s ?c))" "''w'' \<notin> set (ms_namespaces (?s ?c))"
    by code_simp+
  then have "\<not> refs_inv (?s ?c)" by (force simp: refs_inv_def)
  moreover have "get_ref (fst (create_namespace (?s ?c) work_ns)) work_ns ''late'' = Inr (Some (sym_oid object_null))" by code_simp
  ultimately show ?thesis by blast
qed

text \<open>
  The purge of a deletion that comes late takes refs of a namespace that was created again in between.
\<close>

lemma late_purge_loses_ref:
  "\<exists>s s'. (store_step sym_oid True)\<^sup>*\<^sup>* (memory_new, []) (s, [RcPurge work_ns]) \<and>
     get_ref s work_ns ''fresh'' = Inr (Some (sym_oid object_null)) \<and>
     store_step sym_oid True (s, [RcPurge work_ns]) (s', []) \<and> get_ref s' work_ns ''fresh'' = Inr None"
proof -
  let ?s1 = "namespace_removed work_store work_ns"
  let ?s2 = "fst (create_namespace ?s1 work_ns)"
  let ?s = "fst (create_ref ?s2 work_ns ''fresh'' (sym_oid object_null))"
  have "store_step sym_oid True (work_store, []) (?s1, [RcPurge work_ns])" by (intro removed) (code_simp, code_simp, simp)
  moreover have "memory_step sym_oid ?s1 ?s2" by (rule memory_step.create_namespace) code_simp
  then have "store_step sym_oid True (?s1, [RcPurge work_ns]) (?s2, [RcPurge work_ns])" by (rule whole)
  moreover have "require_namespace ?s2 work_ns = Inr ()" by code_simp
  note create_ref_run [OF this, of sym_oid True "[RcPurge work_ns]" "''fresh''" "sym_oid object_null"]
  ultimately have "(store_step sym_oid True)\<^sup>*\<^sup>* (memory_new, []) (?s, [RcPurge work_ns])"
    using work_run [of True] by (meson rtranclp.rtrancl_into_rtrancl rtranclp_trans)
  moreover have "store_step sym_oid True (?s, [RcPurge work_ns]) (refs_purged ?s work_ns, [])"
    using written [of sym_oid True ?s "[]" "RcPurge work_ns" "[]"] by simp
  moreover have "get_ref ?s work_ns ''fresh'' = Inr (Some (sym_oid object_null))" "get_ref (refs_purged ?s work_ns) work_ns ''fresh'' = Inr None"
    by code_simp+
  ultimately show ?thesis by blast
qed

section \<open>Taints\<close>

text \<open>
  C24. The access check grants a write exactly when no active taint that covers the path denies it (a
  blocking taint, or a quarantine that does not list the agent) and the confidence is not below the
  threshold, which is 0.9 when a covering review taint is active and 0 otherwise. Not below is the
  comparison of IEEE numbers: a confidence that is not a number passes every threshold.
\<close>

theorem taint_write_decision:
  "tc_can_write (evaluate_access p agent c ts now) \<longleftrightarrow>
   (\<forall>t \<in> set ts. taint_is_active t now \<and> taint_covers p t \<longrightarrow> \<not> taint_denies agent t) \<and>
   \<not> f64_less c (if \<exists>t \<in> set ts. taint_is_active t now \<and> taint_covers p t \<and> taint_reviews t
                 then REVIEW_CONFIDENCE_THRESHOLD else f64_zero)"
  by (auto simp: evaluate_access_can_write ancestor_candidates_def)

text \<open>
  Checking against the taints the store preselects for a path decides what checking against all of
  its taints would, and adding taints never turns a refusal into a permission.
\<close>

lemma stored_taint_check:
  assumes "check_taint s now p = Inr found"
  shows "evaluate_access p agent c found now = evaluate_access p agent c (ms_taints s) now \<and>
    (\<forall>more. tc_can_write (evaluate_access p agent c (more @ ms_taints s) now) \<longrightarrow>
       tc_can_write (evaluate_access p agent c found now))"
proof -
  have "found = ancestor_candidates p (ms_taints s) now"
    using assms by (auto simp: check_taint_def ancestor_candidates_def intro!: filter_cong)
  then have "evaluate_access p agent c found now = evaluate_access p agent c (ms_taints s) now"
    by (simp add: evaluate_access_prefiltered)
  moreover have "set (ms_taints s) \<subseteq> set (more @ ms_taints s)" for more by simp
  ultimately show ?thesis using evaluate_access_antimono by metis
qed

definition frozen_taint :: Taint where
  "frozen_taint =
     \<lparr> ta_id = ''t1'', ta_path = ''/prod'', ta_name = ''freeze'', ta_kind = TkTaint, ta_effect = EffBlock,
       ta_severity = SevHigh, ta_reason = '''', ta_agent_id = ''ops'', ta_commit_id = '''',
       ta_created_at = 0, ta_expires_at = None, ta_resolved_at = None, ta_resolved_by = None,
       ta_resolved_reason = None, ta_resolved_proof = None, ta_propagate = True, ta_metadata = [] \<rparr>"

lemma frozen_covers: "taint_is_active frozen_taint 1" "taint_covers ''/prod/db'' frozen_taint"
  "\<not> taint_covers ''/production'' frozen_taint" "taint_denies ''bot'' frozen_taint"
  by (simp_all add: frozen_taint_def taint_is_active_def taint_covers_def taint_denies_def
      ends_with_slash_def)

theorem taint_write_decision_witness:
  "\<not> tc_can_write (evaluate_access ''/prod/db'' ''bot'' f64_one [frozen_taint] 1) \<and>
   tc_can_write (evaluate_access ''/production'' ''bot'' f64_one [frozen_taint] 1)"
proof -
  have "\<not> f64_less f64_one f64_zero"
    by (simp add: f64_less_def f64_key_def f64_one_def f64_zero_def f64_magnitude_def)
  with frozen_covers show ?thesis by (simp add: taint_write_decision)
qed

end
