(* ===== verification/Query_Filter.thy ===== *)
theory Query_Filter
  imports Commit_Model
begin

text \<open>
  Commit queries, from \<open>crates/agentstategraph-core/src/query.rs\<close>. Two functions of the
  standard library that rest on Unicode tables are parameters: \<open>lower\<close> is
  \<open>str::to_lowercase\<close>, \<open>dbg\<close> is the \<open>Debug\<close> form of a string.
\<close>

datatype QueryTarget = TState | TCommits | TIntents | TAgents | TEpochs

record QueryFilters =
  qf_path :: "string option"
  qf_agent_id :: "string option"
  qf_intent_category :: "string option"
  qf_tags :: "string list option"
  qf_authority_principal :: "string option"
  qf_reasoning_contains :: "string option"
  qf_confidence_range :: "(f64 \<times> f64) option"
  qf_intent_status :: "string option"
  qf_outcome :: "string option"
  qf_date_from :: "timestamp option"
  qf_date_to :: "timestamp option"
  qf_has_deviations :: "bool option"

record QueryOptions =
  qo_limit :: "nat option"
  qo_offset :: "nat option"
  qo_order_by :: "string option"

record Query =
  q_target :: QueryTarget
  q_ref_name :: "string option"
  q_filters :: QueryFilters
  q_options :: QueryOptions

definition no_filters :: QueryFilters where
  "no_filters = \<lparr> qf_path = None, qf_agent_id = None, qf_intent_category = None, qf_tags = None,
     qf_authority_principal = None, qf_reasoning_contains = None, qf_confidence_range = None,
     qf_intent_status = None, qf_outcome = None, qf_date_from = None, qf_date_to = None,
     qf_has_deviations = None \<rparr>"

text \<open>\<open>{:?}\<close> of the two enums the filters compare by name.\<close>

fun category_debug :: "(string \<Rightarrow> string) \<Rightarrow> IntentCategory \<Rightarrow> string" where
  "category_debug dbg Explore = ''Explore''"
| "category_debug dbg Refine = ''Refine''"
| "category_debug dbg Fix = ''Fix''"
| "category_debug dbg Rollback = ''Rollback''"
| "category_debug dbg Checkpoint = ''Checkpoint''"
| "category_debug dbg Merge = ''Merge''"
| "category_debug dbg Migrate = ''Migrate''"
| "category_debug dbg Plan = ''Plan''"
| "category_debug dbg Taint = ''Taint''"
| "category_debug dbg Untaint = ''Untaint''"
| "category_debug dbg Quarantine = ''Quarantine''"
| "category_debug dbg Unquarantine = ''Unquarantine''"
| "category_debug dbg Watch = ''Watch''"
| "category_debug dbg Unwatch = ''Unwatch''"
| "category_debug dbg PolicyPropose = ''PolicyPropose''"
| "category_debug dbg PolicyRatify = ''PolicyRatify''"
| "category_debug dbg PolicySupersede = ''PolicySupersede''"
| "category_debug dbg PolicySign = ''PolicySign''"
| "category_debug dbg (CustomCategory s) = ''Custom('' @ dbg s @ '')''"

fun status_debug :: "IntentStatus \<Rightarrow> string" where
  "status_debug Proposed = ''Proposed''"
| "status_debug Authorized = ''Authorized''"
| "status_debug InProgress = ''InProgress''"
| "status_debug Completed = ''Completed''"
| "status_debug Failed = ''Failed''"
| "status_debug Blocked = ''Blocked''"

definition eq_ignore_ascii_case :: "string \<Rightarrow> string \<Rightarrow> bool" where
  "eq_ignore_ascii_case a b \<longleftrightarrow> map to_ascii_lower a = map to_ascii_lower b"

definition matches_filters ::
  "(string \<Rightarrow> string) \<Rightarrow> (string \<Rightarrow> string) \<Rightarrow> Commit \<Rightarrow> QueryFilters \<Rightarrow> bool" where
  "matches_filters lower dbg commit filters =
     (if (case qf_agent_id filters of Some agent \<Rightarrow> cm_agent_id commit \<noteq> agent | None \<Rightarrow> False)
      then False
      else if (case qf_intent_category filters of
                 Some category \<Rightarrow>
                   \<not> eq_ignore_ascii_case (category_debug dbg (in_category (cm_intent commit))) category
               | None \<Rightarrow> False)
      then False
      else if (case qf_tags filters of
                 Some tags \<Rightarrow> \<not> list_all (\<lambda>tag. tag \<in> set (in_tags (cm_intent commit))) tags
               | None \<Rightarrow> False)
      then False
      else if (case qf_authority_principal filters of
                 Some who \<Rightarrow> au_principal (cm_authority commit) \<noteq> who | None \<Rightarrow> False)
      then False
      else if (case qf_reasoning_contains filters of
                 Some query \<Rightarrow>
                   \<not> ((case cm_reasoning commit of
                         Some r \<Rightarrow> str_contains (lower r) (lower query) | None \<Rightarrow> False)
                      \<or> str_contains (lower (in_description (cm_intent commit))) (lower query))
               | None \<Rightarrow> False)
      then False
      else if (case qf_confidence_range filters of
                 Some (lo, hi) \<Rightarrow>
                   (case cm_confidence commit of
                      Some c \<Rightarrow> \<not> (f64_le lo c \<and> f64_le c hi) | None \<Rightarrow> True)
               | None \<Rightarrow> False)
      then False
      else if (case qf_intent_status filters of
                 Some status \<Rightarrow>
                   \<not> eq_ignore_ascii_case
                       (status_debug (lc_status (in_lifecycle (cm_intent commit)))) status
               | None \<Rightarrow> False)
      then False
      else if (case qf_date_from filters of Some from \<Rightarrow> cm_timestamp commit < from | None \<Rightarrow> False)
      then False
      else if (case qf_date_to filters of Some to \<Rightarrow> cm_timestamp commit > to | None \<Rightarrow> False)
      then False
      else if qf_has_deviations filters = Some True \<and>
              \<not> (case lc_resolution (in_lifecycle (cm_intent commit)) of
                   Some r \<Rightarrow> res_deviations r \<noteq> [] | None \<Rightarrow> False)
      then False
      else True)"

definition filter_commits ::
  "(string \<Rightarrow> string) \<Rightarrow> (string \<Rightarrow> string) \<Rightarrow> Commit list \<Rightarrow> QueryFilters \<Rightarrow> Commit list" where
  "filter_commits lower dbg commits filters =
     filter (\<lambda>c. matches_filters lower dbg c filters) commits"

record BlameEntry =
  be_path :: string
  be_commit_id :: string
  be_agent_id :: string
  be_intent_category :: string
  be_intent_description :: string
  be_reasoning :: "string option"
  be_timestamp :: timestamp
  be_timestamp_anomaly :: bool

text \<open>The path and outcome filters take no part in matching.\<close>

lemma matches_filters_ignores:
  "matches_filters lower dbg c (f\<lparr>qf_path := p, qf_outcome := out\<rparr>) = matches_filters lower dbg c f"
  by (simp add: matches_filters_def)

lemma matches_no_filters: "matches_filters lower dbg c no_filters"
  by (simp add: matches_filters_def no_filters_def)

text \<open>Conjunction of filters on disjoint fields is composition of filtering.\<close>

lemma filter_commits_dates:
  "filter_commits lower dbg cs (no_filters\<lparr>qf_date_from := Some a, qf_date_to := Some b\<rparr>) =
   filter (\<lambda>c. a \<le> cm_timestamp c \<and> cm_timestamp c \<le> b) cs"
  by (auto simp: filter_commits_def matches_filters_def no_filters_def not_less intro: filter_cong)

end
