(* ===== verification/Core_Properties.thy ===== *)
theory Core_Properties
  imports Query_Filter State_Path
begin

text \<open>
  Properties of the value types of the core crate: state paths, object ids, intent lifecycles, commits
  and commit queries.
\<close>

text \<open>
  C26. A parsed path keeps to the limits (at most 64 components; keys of 1 to 4096 bytes without a
  slash; indices of 64 bits), and printing it and parsing the result gives it back. A segment that
  reads as a number is always an index, so a map key made of digits cannot be addressed.
\<close>

theorem path_parse_bounded:
  assumes "path_parse s = Inr p"
  shows "length p \<le> 64 \<and> path_parse (path_display p) = Inr p \<and>
    (\<forall>k. Key k \<in> set p \<longrightarrow> k \<noteq> [] \<and> length k \<le> 4096 \<and> CHR ''/'' \<notin> set k \<and> parse_usize k = None) \<and>
    (\<forall>i. Index i \<in> set p \<longrightarrow> i < 2 ^ 64)"
proof -
  have wf: "path_wf p" using assms by (rule path_parse_wf)
  then have "list_all component_wf p" "length p \<le> 64" by (simp_all add: path_wf_def MAX_PATH_DEPTH_def)
  with path_parse_display [OF wf] show ?thesis
    by (auto simp: list_all_iff MAX_SEGMENT_LEN_def)
qed

theorem path_parse_bounded_witness:
  "path_parse ''/tasks/007/x'' = Inr [Key ''tasks'', Index 7, Key ''x''] \<and>
   path_parse (path_display [Key ''tasks'', Index 7, Key ''x'']) = Inr [Key ''tasks'', Index 7, Key ''x'']"
proof -
  have "path_parse ''/tasks/007/x'' = Inr [Key ''tasks'', Index 7, Key ''x'']"
    by (simp add: path_parse_def strip_prefix_def parse_segment_def parse_usize_def digits_val_def
        is_digit_def digit_val_def MAX_SEGMENT_LEN_def MAX_PATH_DEPTH_def)
  with path_parse_bounded [OF this] show ?thesis by blast
qed

text \<open>
  Both printed forms of an object id, plain and with the \<open>sg_\<close> prefix of its display, are read
  back as the same id, and whatever \<open>from_hex\<close> accepts is an id of 32 bytes that prints as the
  accepted digits in lower case.
\<close>

lemma object_id_hex_roundtrip:
  "(oid_wf i \<longrightarrow> from_hex (to_hex i) = Some i \<and> from_hex (''sg_'' @ to_hex i) = Some i) \<and>
   (from_hex s = Some i \<longrightarrow> oid_wf i \<and> to_hex i = map to_ascii_lower (strip_sg s))"
proof -
  have "from_hex (to_hex i) = Some i \<and> from_hex (''sg_'' @ to_hex i) = Some i" if "oid_wf i"
    using that hex_of_bytes_all(1) [of "oid_bytes i"]
    by (simp add: from_hex_def to_hex_def oid_wf_def strip_sg_hex
        strip_sg_display [simplified] from_bytes_def Let_def)
  with from_hex_Some [of s i] show ?thesis by blast
qed

text \<open>
  In every state an intent can reach from its proposal it carries a resolution exactly when it is
  completed or failed, and from such a state no transition is accepted, whatever its arguments.
\<close>

lemma lifecycle_resolution:
  assumes "lifecycle_reachable l"
  shows "(lc_resolution l \<noteq> None \<longleftrightarrow> lc_status l = Completed \<or> lc_status l = Failed) \<and>
    (lc_status l = Completed \<or> lc_status l = Failed \<longrightarrow>
       transition l to r = Inl (InvalidTransition (lc_status l) to))"
  using lifecycle_reachable_inv [OF assms] terminal_no_transition [of "lc_status l" to]
  by (auto simp: lifecycle_inv_def lc_terminal_def transition_def)

text \<open>
  C29. A built commit is within the size caps and intact (its id is the hash of its fields); reading
  caps any stored commit without touching its id, state root or parents, and leaves one that is within
  the caps as it is.
\<close>

theorem commit_caps:
  "within_caps (builder_build cid now b) \<and>
   compute_id cid (builder_build cid now b) = cm_id (builder_build cid now b) \<and>
   within_caps (enforce_caps c) \<and> cm_id (enforce_caps c) = cm_id c \<and>
   cm_state_root (enforce_caps c) = cm_state_root c \<and> cm_parents (enforce_caps c) = cm_parents c \<and>
   enforce_caps (enforce_caps c) = enforce_caps c \<and>
   enforce_caps (builder_build cid now b) = builder_build cid now b"
  by (simp add: builder_build_caps builder_build_intact within_caps_enforce enforce_caps_id
      enforce_caps_fields)

text \<open>
  Two filters of a commit query are never consulted: whatever the path and the outcome asked for,
  the result is the one without them.
\<close>

lemma query_ignores_path_and_outcome:
  "filter_commits lower dbg cs (f\<lparr>qf_path := p, qf_outcome := out\<rparr>) = filter_commits lower dbg cs f"
  by (simp add: filter_commits_def matches_filters_ignores)

end
