(* ===== verification/Commit_Graph.thy ===== *)
theory Commit_Graph
  imports Memory_Storage
begin

text \<open>
  The graph searches of \<open>repo.rs\<close>: \<open>load_ancestry\<close>, \<open>reachable_in\<close>, \<open>generations\<close>,
  \<open>deepest_common_ancestor\<close> and the search of \<open>find_common_ancestor\<close> over commits, \<open>reachable_commits_from\<close>, and
  \<open>first_missing_reachable\<close> over objects. The loops keep an explicit stack, a vector popped from its
  end; here the head of the list is its top. The store they read is a finite map, which bounds them.

  The main result is that the merge base is a best common ancestor: no other common ancestor
  descends from it.
\<close>

definition succs :: "('a \<times> 'a list) list \<Rightarrow> 'a \<Rightarrow> 'a list" where
  "succs g x = (case map_of g x of Some ps \<Rightarrow> ps | None \<Rightarrow> [])"

definition edge :: "('a \<times> 'a list) list \<Rightarrow> 'a \<Rightarrow> 'a \<Rightarrow> bool" where
  "edge g x y \<longleftrightarrow> y \<in> set (succs g x)"

section \<open>Reachability\<close>

function reachable_walk :: "('a \<times> 'a list) list \<Rightarrow> 'a list \<Rightarrow> 'a list \<Rightarrow> 'a list" where
  "reachable_walk g seen [] = seen"
| "reachable_walk g seen (x # stack) =
     (if x \<in> set seen then reachable_walk g seen stack
      else reachable_walk g (x # seen)
             (rev (filter (\<lambda>p. p \<notin> set (x # seen)) (succs g x)) @ stack))"
  by pat_completeness auto

lemma card_fresh_key:
  assumes "k \<in> fst ` set g" "k \<notin> A"
  shows "card (fst ` set g - insert k A) < card (fst ` set g - A)"
  using assms by (intro psubset_card_mono) auto

lemma succs_Nil: "x \<notin> fst ` set g \<Longrightarrow> succs g x = []"
  by (auto simp: succs_def map_of_eq_None_iff split: option.splits) (metis domI dom_map_of_conv_image_fst)

termination reachable_walk
proof (relation "measures [\<lambda>(g, seen, stack). card (fst ` set g - set seen), \<lambda>(g, seen, stack). length stack]")
  fix g :: "('a \<times> 'a list) list" and seen stack :: "'a list" and x :: 'a
  assume "x \<notin> set seen"
  then show "((g, x # seen, rev (filter (\<lambda>p. p \<notin> set (x # seen)) (succs g x)) @ stack), g, seen, x # stack)
      \<in> measures [\<lambda>(g, seen, stack). card (fst ` set g - set seen), \<lambda>(g, seen, stack). length stack]"
    using card_fresh_key [of x g "set seen"] succs_Nil [of x g]
    by (cases "x \<in> fst ` set g") auto
qed auto

definition reachable_in :: "('a \<times> 'a list) list \<Rightarrow> 'a \<Rightarrow> 'a list" where
  "reachable_in parents start = reachable_walk parents [] [start]"

lemma reachable_walk_set:
  assumes "\<forall>x \<in> set seen. set (succs g x) \<subseteq> set seen \<union> set stack"
  shows "set (reachable_walk g seen stack) = {y. \<exists>x \<in> set seen \<union> set stack. (edge g)\<^sup>*\<^sup>* x y}"
  using assms
proof (induction g seen stack rule: reachable_walk.induct)
  case (1 g seen)
  have "y \<in> set seen" if "(edge g)\<^sup>*\<^sup>* x y" "x \<in> set seen" for x y
    using that by (induction rule: rtranclp_induct) (use 1 in \<open>auto simp: edge_def\<close>)
  then show ?case by auto
next
  case (2 g seen x stack)
  show ?case
  proof (cases "x \<in> set seen")
    case True
    with 2 show ?thesis by (simp add: insert_absorb)
  next
    case False
    let ?new = "rev (filter (\<lambda>p. p \<notin> set (x # seen)) (succs g x)) @ stack"
    have "\<forall>y \<in> set (x # seen). set (succs g y) \<subseteq> set (x # seen) \<union> set ?new"
      using "2.prems" by auto
    from "2.IH"(2) [OF False this] False
    have "set (reachable_walk g seen (x # stack)) =
        {y. \<exists>z \<in> set (x # seen) \<union> set ?new. (edge g)\<^sup>*\<^sup>* z y}" by simp
    also have "\<dots> = {y. \<exists>z \<in> set seen \<union> set (x # stack). (edge g)\<^sup>*\<^sup>* z y}"
      by (auto simp: edge_def intro: converse_rtranclp_into_rtranclp)
    finally show ?thesis .
  qed
qed

lemma reachable_in_set: "set (reachable_in g a) = {y. (edge g)\<^sup>*\<^sup>* a y}"
  using reachable_walk_set [of "[]" g "[a]"]
  by (simp add: reachable_in_def del: reachable_walk.simps)

section \<open>Ancestry\<close>

definition commit_parents :: "(ObjectId, Commit) btree \<Rightarrow> (ObjectId \<times> ObjectId list) list" where
  "commit_parents store = map (\<lambda>(i, c). (i, cm_parents c)) store"

function load_ancestry_walk ::
  "(ObjectId, Commit) btree \<Rightarrow> (ObjectId \<times> ObjectId list) list \<Rightarrow> ObjectId list \<Rightarrow>
   (ObjectId \<times> ObjectId list) list" where
  "load_ancestry_walk store parents [] = parents"
| "load_ancestry_walk store parents (i # stack) =
     (if map_of parents i \<noteq> None then load_ancestry_walk store parents stack
      else let ps = (case map_of store i of Some c \<Rightarrow> cm_parents c | None \<Rightarrow> [])
           in load_ancestry_walk store ((i, ps) # parents)
                (rev (filter (\<lambda>p. map_of parents p = None) ps) @ stack))"
  by pat_completeness auto

termination load_ancestry_walk
proof (relation "measures [\<lambda>(store, parents, stack). card (fst ` set store - fst ` set parents),
    \<lambda>(store, parents, stack). length stack]")
  fix store :: "(ObjectId, Commit) btree" and parents :: "(ObjectId \<times> ObjectId list) list"
    and i and stack ps :: "ObjectId list"
  assume "\<not> map_of parents i \<noteq> None" "ps = (case map_of store i of Some c \<Rightarrow> cm_parents c | None \<Rightarrow> [])"
  moreover from this have "i \<notin> fst ` set parents" by (simp add: map_of_eq_None_iff)
  ultimately show "((store, (i, ps) # parents, rev (filter (\<lambda>p. map_of parents p = None) ps) @ stack),
      store, parents, i # stack)
    \<in> measures [\<lambda>(store, parents, stack). card (fst ` set store - fst ` set parents),
         \<lambda>(store, parents, stack). length stack]"
    using card_fresh_key [of i store "fst ` set parents"] map_of_eq_None_iff [of store i]
    by (cases "i \<in> fst ` set store") auto
qed auto

definition load_ancestry :: "(ObjectId, Commit) btree \<Rightarrow> ObjectId list \<Rightarrow> (ObjectId \<times> ObjectId list) list" where
  "load_ancestry store roots = load_ancestry_walk store [] (rev roots)"

lemma map_of_commit_parents: "map_of (commit_parents store) i = map_option cm_parents (map_of store i)"
  by (induction store) (auto simp: commit_parents_def)

lemma succs_commit_parents:
  "succs (commit_parents store) i = (case map_of store i of Some c \<Rightarrow> cm_parents c | None \<Rightarrow> [])"
  by (simp add: succs_def map_of_commit_parents split: option.splits)

lemma load_ancestry_walk_correct:
  assumes "\<forall>(i, ps) \<in> set parents. ps = succs (commit_parents store) i \<and>
      set ps \<subseteq> fst ` set parents \<union> set stack"
  shows "(\<forall>(i, ps) \<in> set (load_ancestry_walk store parents stack). ps = succs (commit_parents store) i) \<and>
    fst ` set (load_ancestry_walk store parents stack) =
      {y. \<exists>x \<in> fst ` set parents \<union> set stack. (edge (commit_parents store))\<^sup>*\<^sup>* x y}"
  using assms
proof (induction store parents stack rule: load_ancestry_walk.induct)
  case (1 store parents)
  let ?g = "commit_parents store"
  have "y \<in> fst ` set parents" if "(edge ?g)\<^sup>*\<^sup>* x y" "x \<in> fst ` set parents" for x y
    using that by (induction rule: rtranclp_induct) (use 1 in \<open>fastforce simp: edge_def\<close>)+
  then have "{y. \<exists>x \<in> fst ` set parents \<union> set []. (edge ?g)\<^sup>*\<^sup>* x y} = fst ` set parents"
    by (simp only: list.set(1) Un_empty_right) blast
  with 1 show ?case by fastforce
next
  case (2 store parents i stack)
  let ?g = "commit_parents store"
  show ?case
  proof (cases "map_of parents i \<noteq> None")
    case True
    then have "i \<in> fst ` set parents" by (auto simp: map_of_eq_None_iff)
    then have eq: "fst ` set parents \<union> set (i # stack) = fst ` set parents \<union> set stack" by auto
    have step: "load_ancestry_walk store parents (i # stack) = load_ancestry_walk store parents stack"
      using True by simp
    from "2.IH"(1) [OF True] "2.prems" show ?thesis unfolding step eq by blast
  next
    case False
    let ?ps = "succs ?g i"
    let ?new = "rev (filter (\<lambda>p. map_of parents p = None) ?ps) @ stack"
    have "p \<in> fst ` set parents" if "map_of parents p \<noteq> None" for p
      using that by (auto simp: map_of_eq_None_iff)
    then have inv: "\<forall>(j, ps) \<in> set ((i, ?ps) # parents). ps = succs ?g j \<and>
        set ps \<subseteq> fst ` set ((i, ?ps) # parents) \<union> set ?new"
      using "2.prems" by fastforce
    have step: "load_ancestry_walk store parents (i # stack) =
        load_ancestry_walk store ((i, ?ps) # parents) ?new"
      using False by (simp add: succs_commit_parents Let_def)
    have "{y. \<exists>x \<in> fst ` set ((i, ?ps) # parents) \<union> set ?new. (edge ?g)\<^sup>*\<^sup>* x y} =
        {y. \<exists>x \<in> fst ` set parents \<union> set (i # stack). (edge ?g)\<^sup>*\<^sup>* x y}"
      by (auto simp: edge_def intro: converse_rtranclp_into_rtranclp)
    with "2.IH"(2) [OF False refl, folded succs_commit_parents, OF inv] step show ?thesis by simp
  qed
qed

lemma load_ancestry_correct:
  "(\<forall>(i, ps) \<in> set (load_ancestry store roots). ps = succs (commit_parents store) i) \<and>
   fst ` set (load_ancestry store roots) =
     {y. \<exists>x \<in> set roots. (edge (commit_parents store))\<^sup>*\<^sup>* x y}"
  using load_ancestry_walk_correct [of "[]" store "rev roots"] by (simp add: load_ancestry_def)

lemma load_ancestry_edge:
  assumes "\<exists>r \<in> set roots. (edge (commit_parents store))\<^sup>*\<^sup>* r x"
  shows "edge (load_ancestry store roots) x y \<longleftrightarrow> edge (commit_parents store) x y"
proof -
  from assms load_ancestry_correct [of store roots] have "x \<in> fst ` set (load_ancestry store roots)" by blast
  then obtain ps where ps: "map_of (load_ancestry store roots) x = Some ps"
    using map_of_eq_None_iff [of "load_ancestry store roots" x] by auto
  from map_of_SomeD [OF this] load_ancestry_correct [of store roots]
  have "ps = succs (commit_parents store) x" by blast
  with ps have "succs (load_ancestry store roots) x = succs (commit_parents store) x"
    by (simp add: succs_def [of "load_ancestry store roots"])
  then show ?thesis by (simp add: edge_def)
qed

lemma load_ancestry_reach:
  assumes "r \<in> set roots" "(edge (commit_parents store))\<^sup>*\<^sup>* r x"
  shows "(edge (load_ancestry store roots))\<^sup>*\<^sup>* x y \<longleftrightarrow> (edge (commit_parents store))\<^sup>*\<^sup>* x y"
proof
  let ?g = "commit_parents store" and ?p = "load_ancestry store roots"
  have same: "edge ?p z w \<longleftrightarrow> edge ?g z w" if "(edge ?g)\<^sup>*\<^sup>* x z" for z w
    using assms rtranclp_trans [OF assms(2) that] by (intro load_ancestry_edge) blast
  show "(edge ?g)\<^sup>*\<^sup>* x y" if "(edge ?p)\<^sup>*\<^sup>* x y"
    using that by (induction rule: rtranclp_induct) (use same in \<open>blast intro: rtranclp.intros\<close>)+
  show "(edge ?p)\<^sup>*\<^sup>* x y" if "(edge ?g)\<^sup>*\<^sup>* x y"
    using that by (induction rule: rtranclp_induct) (use same in \<open>blast intro: rtranclp.intros\<close>)+
qed

section \<open>Generations\<close>

text \<open>The post-order pass: an entry \<open>(i, False)\<close> waits to be expanded, \<open>(i, True)\<close> to be numbered.\<close>

definition generation_of :: "('a \<times> 'a list) list \<Rightarrow> ('a \<times> nat) list \<Rightarrow> 'a \<Rightarrow> nat" where
  "generation_of g gen i =
     (case List.map_filter (map_of gen) (succs g i) of
        [] \<Rightarrow> 0
      | n # ns \<Rightarrow> Max (set (map Suc (n # ns))))"

function generation_walk ::
  "('a \<times> 'a list) list \<Rightarrow> ('a \<times> nat) list \<Rightarrow> 'a list \<Rightarrow> ('a \<times> bool) list \<Rightarrow> ('a \<times> nat) list \<times> 'a list" where
  "generation_walk g gen expanding [] = (gen, expanding)"
| "generation_walk g gen expanding ((i, children_done) # stack) =
     (if map_of gen i \<noteq> None then generation_walk g gen expanding stack
      else if children_done
      then generation_walk g ((i, generation_of g gen i) # gen) (removeAll i expanding) stack
      else if i \<notin> set expanding
      then generation_walk g gen (i # expanding)
             (rev (map (\<lambda>p. (p, False))
                     (filter (\<lambda>p. map_of gen p = None \<and> p \<notin> set (i # expanding)) (succs g i)))
              @ (i, True) # stack)
      else generation_walk g gen expanding stack)"
  by pat_completeness auto

termination generation_walk
proof (relation "measures [\<lambda>(g, gen, expanding, stack). card (fst ` set g - (fst ` set gen \<union> set expanding)),
    \<lambda>(g, gen, expanding, stack). sum_list (map (\<lambda>(i, d). if d then 1 else 2) stack)]")
  fix g :: "('a \<times> 'a list) list" and gen :: "('a \<times> nat) list" and expanding :: "'a list" and i
    and d :: bool and stack :: "('a \<times> bool) list"
  let ?m = "measures [\<lambda>(g, gen, expanding, stack). card (fst ` set g - (fst ` set gen \<union> set expanding)),
    \<lambda>(g, gen, expanding, stack). sum_list (map (\<lambda>(i, d). if d then 1 else 2) stack)]"
  assume gen: "\<not> map_of gen i \<noteq> None"
  show "((g, (i, generation_of g gen i) # gen, removeAll i expanding, stack), g, gen, expanding, (i, d) # stack) \<in> ?m"
    if "d"
  proof -
    have "fst ` set g - (fst ` set ((i, generation_of g gen i) # gen) \<union> set (removeAll i expanding))
        \<subseteq> fst ` set g - (fst ` set gen \<union> set expanding)" by auto
    then have "card (fst ` set g - (fst ` set ((i, generation_of g gen i) # gen) \<union> set (removeAll i expanding)))
        \<le> card (fst ` set g - (fst ` set gen \<union> set expanding))" by (intro card_mono) auto
    with that show ?thesis by (auto simp: le_less)
  qed
  show "((g, gen, i # expanding,
        rev (map (\<lambda>p. (p, False)) (filter (\<lambda>p. map_of gen p = None \<and> p \<notin> set (i # expanding)) (succs g i)))
          @ (i, True) # stack), g, gen, expanding, (i, d) # stack) \<in> ?m" if "\<not> d" "i \<notin> set expanding"
  proof (cases "i \<in> fst ` set g")
    case True
    from gen have "i \<notin> fst ` set gen" by (simp add: map_of_eq_None_iff)
    with True that(2) card_fresh_key [of i g "fst ` set gen \<union> set expanding"] show ?thesis
      by (simp add: insert_commute)
  next
    case False
    then have "fst ` set g - (fst ` set gen \<union> set (i # expanding)) = fst ` set g - (fst ` set gen \<union> set expanding)"
      by auto
    with False that succs_Nil [of i g] show ?thesis by simp
  qed
qed (auto)

fun generation_roots ::
  "('a \<times> 'a list) list \<Rightarrow> 'a list \<Rightarrow> ('a \<times> nat) list \<Rightarrow> 'a list \<Rightarrow> ('a \<times> nat) list" where
  "generation_roots g [] gen expanding = gen"
| "generation_roots g (root # roots) gen expanding =
     (if map_of gen root \<noteq> None then generation_roots g roots gen expanding
      else case generation_walk g gen expanding [(root, False)] of
             (gen', expanding') \<Rightarrow> generation_roots g roots gen' expanding')"

definition generations :: "('a \<times> 'a list) list \<Rightarrow> ('a \<times> nat) list" where
  "generations parents = generation_roots parents (map fst parents) [] []"

text \<open>On an acyclic graph the numbers grow along every edge.\<close>

definition acyclic_graph :: "('a \<times> 'a list) list \<Rightarrow> bool" where
  "acyclic_graph g \<longleftrightarrow> (\<forall>x. \<not> (edge g)\<^sup>+\<^sup>+ x x)"

definition numbered :: "('a \<times> 'a list) list \<Rightarrow> ('a \<times> nat) list \<Rightarrow> bool" where
  "numbered g gen \<longleftrightarrow> (\<forall>x n. map_of gen x = Some n \<longrightarrow>
     (\<forall>p. edge g x p \<longrightarrow> (\<exists>m. map_of gen p = Some m \<and> m < n)))"

fun covered :: "('a \<times> 'a list) list \<Rightarrow> 'a set \<Rightarrow> ('a \<times> bool) list \<Rightarrow> bool" where
  "covered g known [] \<longleftrightarrow> True"
| "covered g known ((x, d) # stack) \<longleftrightarrow>
     (d \<longrightarrow> (\<forall>p. edge g x p \<longrightarrow> p \<in> known)) \<and> covered g (insert x known) stack"

definition generation_inv ::
  "('a \<times> 'a list) list \<Rightarrow> ('a \<times> nat) list \<Rightarrow> 'a list \<Rightarrow> ('a \<times> bool) list \<Rightarrow> bool" where
  "generation_inv g gen expanding stack \<longleftrightarrow>
     numbered g gen \<and> (\<forall>x \<in> set expanding. (x, True) \<in> set stack \<or> x \<in> dom (map_of gen)) \<and>
     sorted_wrt (\<lambda>a b. snd b \<longrightarrow> (edge g)\<^sup>+\<^sup>+ (fst b) (fst a)) stack \<and>
     covered g (dom (map_of gen)) stack"

lemma covered_mono: "covered g K stack \<Longrightarrow> K \<subseteq> L \<Longrightarrow> covered g L stack"
  by (induction g K stack arbitrary: L rule: covered.induct) (auto 4 3)

lemma covered_waiting:
  "covered g K (map (\<lambda>p. (p, False)) ps @ stack) \<longleftrightarrow> covered g (K \<union> set ps) stack"
  by (induction ps arbitrary: K) auto

lemma sorted_wrt_waiting: "sorted_wrt (\<lambda>a b. snd b \<longrightarrow> P a b) (map (\<lambda>p. (p, False)) ps)"
  by (induction ps) auto

lemma generation_of_greater:
  assumes "p \<in> set (succs g i)" "map_of gen p = Some m"
  shows "m < generation_of g gen i"
proof -
  have "m \<in> set (List.map_filter (map_of gen) (succs g i))"
    using assms by (force simp: List.map_filter_def)
  moreover define ns where "ns = List.map_filter (map_of gen) (succs g i)"
  ultimately have "Suc m \<le> Max (set (map Suc ns))" "ns \<noteq> []" by (auto intro: Max_ge)
  then show ?thesis by (auto simp: generation_of_def ns_def [symmetric] Suc_le_eq split: list.split)
qed

lemma numbered_extend:
  assumes "numbered g gen" "map_of gen i = None" "\<forall>p. edge g i p \<longrightarrow> p \<in> dom (map_of gen)"
  shows "numbered g ((i, generation_of g gen i) # gen)"
proof -
  have "\<exists>m. map_of gen p = Some m \<and> m < generation_of g gen i" if "edge g i p" for p
    using assms(3) that generation_of_greater [of p g i gen] by (auto simp: edge_def)
  with assms show ?thesis by (fastforce simp: numbered_def)
qed

lemma generation_inv_expand:
  assumes "acyclic_graph g" and inv: "generation_inv g gen expanding ((i, False) # stack)"
    and i: "map_of gen i = None" "i \<notin> set expanding"
  defines "fresh \<equiv> filter (\<lambda>p. map_of gen p = None \<and> p \<notin> set (i # expanding)) (succs g i)"
  shows "generation_inv g gen (i # expanding) (rev (map (\<lambda>p. (p, False)) fresh) @ (i, True) # stack)"
proof -
  let ?K = "dom (map_of gen)"
  from inv have path: "(edge g)\<^sup>+\<^sup>+ (fst b) i" if "b \<in> set stack" "snd b" for b
    using that by (auto simp: generation_inv_def)
  have up: "(edge g)\<^sup>+\<^sup>+ i p" if "p \<in> set fresh" for p
    using that by (auto simp: fresh_def edge_def intro: tranclp.r_into_trancl)
  have parents: "p \<in> ?K \<union> set fresh" if "edge g i p" for p
  proof (rule ccontr)
    assume "p \<notin> ?K \<union> set fresh"
    with that have "p = i \<or> p \<in> set expanding" "p \<notin> ?K" by (auto simp: fresh_def edge_def)
    moreover from this inv have "p = i \<or> (p, True) \<in> set stack" by (auto simp: generation_inv_def)
    ultimately have "p = i \<or> (edge g)\<^sup>+\<^sup>+ p i" using path by fastforce
    with that have "(edge g)\<^sup>+\<^sup>+ i i" by (auto intro: tranclp_into_tranclp2)
    with assms(1) show False by (simp add: acyclic_graph_def)
  qed
  have "covered g (insert i (?K \<union> set fresh)) stack"
    using inv covered_mono [of g "insert i ?K" stack] by (auto simp: generation_inv_def)
  then have "covered g ?K (rev (map (\<lambda>p. (p, False)) fresh) @ (i, True) # stack)"
    using parents by (simp add: rev_map covered_waiting)
  moreover have "sorted_wrt (\<lambda>a b. snd b \<longrightarrow> (edge g)\<^sup>+\<^sup>+ (fst b) (fst a))
      (rev (map (\<lambda>p. (p, False)) fresh) @ (i, True) # stack)"
    using inv up path
    by (auto simp: generation_inv_def sorted_wrt_append rev_map sorted_wrt_waiting
        intro: tranclp_trans)
  ultimately show ?thesis using inv by (auto simp: generation_inv_def)
qed

lemma generation_walk_correct:
  assumes "acyclic_graph g" "generation_inv g gen expanding stack"
    and "generation_walk g gen expanding stack = (gen', expanding')"
  shows "generation_inv g gen' expanding' [] \<and> dom (map_of gen) \<union> fst ` set stack \<subseteq> dom (map_of gen')"
  using assms
proof (induction g gen expanding stack rule: generation_walk.induct)
  case (2 g gen expanding i d stack)
  note inv = "2.prems"(2)
  consider (known) "map_of gen i \<noteq> None" | (number) "map_of gen i = None" "d"
    | (expand) "map_of gen i = None" "\<not> d" by blast
  then show ?case
  proof cases
    case known
    then have "insert i (dom (map_of gen)) = dom (map_of gen)" by auto
    with inv known have "generation_inv g gen expanding stack" by (auto simp: generation_inv_def)
    with 2 known show ?thesis by auto
  next
    case number
    with inv have "numbered g ((i, generation_of g gen i) # gen)"
      by (intro numbered_extend) (auto simp: generation_inv_def)
    moreover have eq: "dom (map_of ((i, generation_of g gen i) # gen)) = insert i (dom (map_of gen))" by auto
    ultimately have "generation_inv g ((i, generation_of g gen i) # gen) (removeAll i expanding) stack"
      using inv number by (auto simp: generation_inv_def)
    moreover have "generation_walk g ((i, generation_of g gen i) # gen) (removeAll i expanding) stack =
        (gen', expanding')" using "2.prems"(3) number by simp
    ultimately show ?thesis using "2.IH"(2) "2.prems"(1) number unfolding eq by auto
  next
    case expand
    have "i \<notin> set expanding"
    proof
      assume "i \<in> set expanding"
      with inv expand have "(i, True) \<in> set stack" by (auto simp: generation_inv_def)
      with inv have "(edge g)\<^sup>+\<^sup>+ i i" by (auto simp: generation_inv_def)
      with "2.prems"(1) show False by (simp add: acyclic_graph_def)
    qed
    with 2 expand generation_inv_expand [of g gen expanding i stack] show ?thesis by force
  qed
qed auto

lemma generation_roots_correct:
  "acyclic_graph g \<Longrightarrow> generation_inv g gen expanding [] \<Longrightarrow>
   numbered g (generation_roots g roots gen expanding) \<and>
   dom (map_of gen) \<union> set roots \<subseteq> dom (map_of (generation_roots g roots gen expanding))"
proof (induction g roots gen expanding rule: generation_roots.induct)
  case (2 g root roots gen expanding)
  show ?case
  proof (cases "map_of gen root \<noteq> None")
    case True
    with 2 show ?thesis by auto
  next
    case False
    obtain gen' expanding' where walk: "generation_walk g gen expanding [(root, False)] = (gen', expanding')"
      by force
    from "2.prems"(2) have "generation_inv g gen expanding [(root, False)]"
      by (auto simp: generation_inv_def)
    from generation_walk_correct [OF "2.prems"(1) this walk]
    have "generation_inv g gen' expanding' []" "dom (map_of gen) \<union> {root} \<subseteq> dom (map_of gen')" by auto
    with "2.IH"(2) [OF False walk [symmetric] "2.prems"(1)] walk False show ?thesis by auto
  qed
qed (auto simp: generation_inv_def)

lemma generations_correct:
  assumes "acyclic_graph g"
  shows "numbered g (generations g)" "fst ` set g \<subseteq> dom (map_of (generations g))"
proof -
  have "generation_inv g [] [] []" by (simp add: generation_inv_def numbered_def)
  from generation_roots_correct [OF assms this, of "map fst g"]
  show "numbered g (generations g)" "fst ` set g \<subseteq> dom (map_of (generations g))"
    by (auto simp: generations_def)
qed

lemma numbered_ancestor:
  assumes "numbered g gen" "(edge g)\<^sup>+\<^sup>+ x y" "map_of gen x = Some n"
  shows "\<exists>m. map_of gen y = Some m \<and> m < n"
  using assms(2,3)
proof (induction arbitrary: n rule: tranclp_induct)
  case (base y)
  with assms(1) show ?case by (auto simp: numbered_def)
next
  case (step y z)
  with assms(1) show ?case by (fastforce simp: numbered_def)
qed

section \<open>The merge base\<close>

text \<open>\<open>Iterator::max\<close> of pairs: the last of the greatest.\<close>

definition deepest_common_ancestor ::
  "(ObjectId \<times> ObjectId list) list \<Rightarrow> ObjectId \<Rightarrow> ObjectId \<Rightarrow> ObjectId option" where
  "deepest_common_ancestor parents a b =
     (let of_a = reachable_in parents a;
          of_b = reachable_in parents b;
          generation = generations parents;
          common = map (\<lambda>i. (case map_of generation i of Some n \<Rightarrow> n | None \<Rightarrow> 0, i))
                     (filter (\<lambda>i. i \<in> set of_b) of_a)
      in if common = [] then None else Some (snd (Max (set common))))"

lemma deepest_common_ancestor_None:
  "deepest_common_ancestor g a b = None \<longleftrightarrow> \<not> (\<exists>c. (edge g)\<^sup>*\<^sup>* a c \<and> (edge g)\<^sup>*\<^sup>* b c)"
  by (auto simp: deepest_common_ancestor_def Let_def filter_empty_conv reachable_in_set)

lemma deepest_common_ancestor_best:
  assumes "acyclic_graph g" "{y. (edge g)\<^sup>*\<^sup>* a y} \<subseteq> fst ` set g"
    and "deepest_common_ancestor g a b = Some c"
  shows "(edge g)\<^sup>*\<^sup>* a c \<and> (edge g)\<^sup>*\<^sup>* b c \<and>
    (\<forall>d. (edge g)\<^sup>*\<^sup>* a d \<and> (edge g)\<^sup>*\<^sup>* b d \<longrightarrow> \<not> (edge g)\<^sup>+\<^sup>+ d c)"
proof -
  define gen where "gen = generations g"
  define pair where "pair i = (case map_of gen i of Some n \<Rightarrow> n | None \<Rightarrow> 0, i)" for i
  define C where "C = pair ` {i. (edge g)\<^sup>*\<^sup>* a i \<and> (edge g)\<^sup>*\<^sup>* b i}"
  have "C = set (map pair (filter (\<lambda>i. i \<in> set (reachable_in g b)) (reachable_in g a)))"
    by (auto simp: C_def reachable_in_set)
  then have fin: "finite C" and c: "c = snd (Max C)" "C \<noteq> {}"
    using assms(3) by (auto simp: deepest_common_ancestor_def Let_def pair_def [abs_def] gen_def
        filter_empty_conv split: if_splits)
  from Max_in [OF fin c(2)] obtain i where i: "Max C = pair i" "(edge g)\<^sup>*\<^sup>* a i" "(edge g)\<^sup>*\<^sup>* b i"
    by (auto simp: C_def)
  then have c_eq: "c = i" using c(1) by (simp add: pair_def)
  have "\<not> (edge g)\<^sup>+\<^sup>+ d i" if d: "(edge g)\<^sup>*\<^sup>* a d" "(edge g)\<^sup>*\<^sup>* b d" for d
  proof
    assume "(edge g)\<^sup>+\<^sup>+ d i"
    moreover have "d \<in> dom (map_of gen)"
      using assms(2) d(1) generations_correct(2) [OF assms(1)] unfolding gen_def by blast
    then obtain n where n: "map_of gen d = Some n" by auto
    ultimately obtain m where m: "map_of gen i = Some m" "m < n"
      using numbered_ancestor [OF generations_correct(1) [OF assms(1)], of d i n]
      unfolding gen_def by blast
    have "pair d \<in> C" using d by (auto simp: C_def)
    from Max_ge [OF fin this] i(1) n m show False by (simp add: pair_def less_eq_prod_def)
  qed
  with i c_eq show ?thesis by blast
qed

definition common_ancestor :: "MemoryStorage \<Rightarrow> ObjectId \<Rightarrow> ObjectId \<Rightarrow> ObjectId option" where
  "common_ancestor s a b =
     (if a = b then Some a
      else deepest_common_ancestor (load_ancestry (ms_commits s) [a, b]) a b)"

abbreviation history :: "MemoryStorage \<Rightarrow> ObjectId \<Rightarrow> ObjectId \<Rightarrow> bool" where
  "history s \<equiv> edge (commit_parents (ms_commits s))"

lemma load_ancestry_sub:
  assumes "edge (load_ancestry store roots) x y"
  shows "edge (commit_parents store) x y"
proof -
  from assms obtain ps where ps: "map_of (load_ancestry store roots) x = Some ps" "y \<in> set ps"
    by (cases "map_of (load_ancestry store roots) x") (simp_all add: edge_def succs_def)
  from map_of_SomeD [OF ps(1)] load_ancestry_correct [of store roots]
  have "ps = succs (commit_parents store) x" by blast
  with ps(2) show ?thesis unfolding edge_def by blast
qed

lemma common_ancestor_best:
  assumes "acyclic_graph (commit_parents (ms_commits s))" "common_ancestor s a b = Some c"
  shows "(history s)\<^sup>*\<^sup>* a c \<and> (history s)\<^sup>*\<^sup>* b c \<and>
    (\<forall>d. (history s)\<^sup>*\<^sup>* a d \<and> (history s)\<^sup>*\<^sup>* b d \<longrightarrow> \<not> (history s)\<^sup>+\<^sup>+ d c)"
proof (cases "a = b")
  case True
  with assms show ?thesis
    by (auto simp: common_ancestor_def acyclic_graph_def dest: rtranclp_tranclp_tranclp)
next
  case False
  let ?g = "commit_parents (ms_commits s)" and ?p = "load_ancestry (ms_commits s) [a, b]"
  have sub: "(edge ?p)\<^sup>+\<^sup>+ x y \<Longrightarrow> (edge ?g)\<^sup>+\<^sup>+ x y" for x y
    by (erule tranclp_induct) (blast intro: tranclp.intros load_ancestry_sub)+
  then have acyclic: "acyclic_graph ?p" using assms(1) by (auto simp: acyclic_graph_def)
  have reach: "(edge ?p)\<^sup>*\<^sup>* r y \<longleftrightarrow> (edge ?g)\<^sup>*\<^sup>* r y" if "r = a \<or> r = b" for r y
    using that by (intro load_ancestry_reach) auto
  then have "{y. (edge ?p)\<^sup>*\<^sup>* a y} \<subseteq> fst ` set ?p"
    using load_ancestry_correct [of "ms_commits s" "[a, b]"] by auto
  moreover have "deepest_common_ancestor ?p a b = Some c"
    using assms(2) False by (simp add: common_ancestor_def)
  ultimately have best: "(edge ?p)\<^sup>*\<^sup>* a c \<and> (edge ?p)\<^sup>*\<^sup>* b c \<and>
      (\<forall>d. (edge ?p)\<^sup>*\<^sup>* a d \<and> (edge ?p)\<^sup>*\<^sup>* b d \<longrightarrow> \<not> (edge ?p)\<^sup>+\<^sup>+ d c)"
    by (rule deepest_common_ancestor_best [OF acyclic])
  have "\<not> (edge ?g)\<^sup>+\<^sup>+ d c" if d: "(edge ?g)\<^sup>*\<^sup>* a d" "(edge ?g)\<^sup>*\<^sup>* b d" for d
  proof
    assume "(edge ?g)\<^sup>+\<^sup>+ d c"
    then obtain e where e: "edge ?g d e" "(edge ?g)\<^sup>*\<^sup>* e c" by (meson tranclpD)
    have "edge ?p d e" using e(1) d(1) by (subst load_ancestry_edge) auto
    moreover have "(edge ?p)\<^sup>*\<^sup>* e c"
      using load_ancestry_reach [of a "[a, b]" "ms_commits s" e c] d(1) e
      by (auto intro: rtranclp.rtrancl_into_rtrancl)
    ultimately have "(edge ?p)\<^sup>+\<^sup>+ d c" by (rule rtranclp_into_tranclp2)
    with best d reach show False by blast
  qed
  with best reach show ?thesis by blast
qed

lemma common_ancestor_None:
  "common_ancestor s a b = None \<longleftrightarrow> \<not> (\<exists>c. (history s)\<^sup>*\<^sup>* a c \<and> (history s)\<^sup>*\<^sup>* b c)"
proof (cases "a = b")
  case False
  have "(edge (load_ancestry (ms_commits s) [a, b]))\<^sup>*\<^sup>* r y \<longleftrightarrow> (history s)\<^sup>*\<^sup>* r y" if "r = a \<or> r = b" for r y
    using that by (intro load_ancestry_reach) auto
  with False show ?thesis by (simp add: common_ancestor_def deepest_common_ancestor_None)
qed (auto simp: common_ancestor_def)

definition reachable_commits_from :: "MemoryStorage \<Rightarrow> ObjectId \<Rightarrow> ObjectId list" where
  "reachable_commits_from s head = reachable_walk (commit_parents (ms_commits s)) [] [head]"

lemma reachable_commits_from_set: "set (reachable_commits_from s i) = {y. (history s)\<^sup>*\<^sup>* i y}"
  using reachable_in_set [of "commit_parents (ms_commits s)" i]
  by (simp add: reachable_commits_from_def reachable_in_def)

section \<open>Missing objects\<close>

function first_missing_walk ::
  "(ObjectId, Object) btree \<Rightarrow> ObjectId list \<Rightarrow> ObjectId list \<Rightarrow> ObjectId option" where
  "first_missing_walk objects seen [] = None"
| "first_missing_walk objects seen (i # stack) =
     (if i \<in> set seen then first_missing_walk objects seen stack
      else case map_of objects i of
             None \<Rightarrow> Some i
           | Some obj \<Rightarrow> first_missing_walk objects (i # seen) (rev (child_ids obj) @ stack))"
  by pat_completeness auto

termination first_missing_walk
proof (relation "measures [\<lambda>(objects, seen, stack). card (fst ` set objects - set seen),
    \<lambda>(objects, seen, stack). length stack]")
  fix objects :: "(ObjectId, Object) btree" and i seen stack obj
  assume "i \<notin> set seen" "map_of objects i = Some obj"
  moreover from this have "i \<in> fst ` set objects" by (force dest: map_of_SomeD)
  ultimately show "((objects, i # seen, rev (child_ids obj) @ stack), objects, seen, i # stack)
      \<in> measures [\<lambda>(objects, seen, stack). card (fst ` set objects - set seen),
          \<lambda>(objects, seen, stack). length stack]"
    using card_fresh_key [of i objects "set seen"] by simp
qed auto

definition first_missing_reachable :: "MemoryStorage \<Rightarrow> ObjectId \<Rightarrow> ObjectId option" where
  "first_missing_reachable s root = first_missing_walk (ms_objects s) [] [root]"

abbreviation refers :: "(ObjectId \<rightharpoonup> Object) \<Rightarrow> ObjectId \<Rightarrow> ObjectId \<Rightarrow> bool" where
  "refers v i j \<equiv> \<exists>x. v i = Some x \<and> j \<in> set (child_ids x)"

lemma first_missing_walk_Some:
  "first_missing_walk objects seen stack = Some i \<Longrightarrow>
   i \<notin> dom (map_of objects) \<and> (\<exists>k \<in> set stack. (refers (map_of objects))\<^sup>*\<^sup>* k i)"
proof (induction objects seen stack rule: first_missing_walk.induct)
  case (2 objects seen j stack)
  show ?case
  proof (cases "j \<in> set seen")
    case False
    show ?thesis
    proof (cases "map_of objects j")
      case (Some x)
      with 2 False obtain k where k: "k \<in> set (child_ids x) \<union> set stack"
        "(refers (map_of objects))\<^sup>*\<^sup>* k i" "i \<notin> dom (map_of objects)" by auto
      with Some have "k \<in> set (child_ids x) \<Longrightarrow> (refers (map_of objects))\<^sup>*\<^sup>* j i"
        by (auto intro: converse_rtranclp_into_rtranclp)
      with k show ?thesis by auto
    qed (use 2 False in auto)
  qed (use 2 in auto)
qed simp

lemma first_missing_walk_None:
  "first_missing_walk objects seen stack = None \<Longrightarrow>
   \<forall>i \<in> set seen. \<exists>x. map_of objects i = Some x \<and> set (child_ids x) \<subseteq> set seen \<union> set stack \<Longrightarrow>
   \<exists>A. set seen \<union> set stack \<subseteq> A \<and> (\<forall>i \<in> A. \<exists>x. map_of objects i = Some x \<and> set (child_ids x) \<subseteq> A)"
proof (induction objects seen stack rule: first_missing_walk.induct)
  case (1 objects seen)
  then show ?case by (intro exI [of _ "set seen"]) simp
next
  case (2 objects seen j stack)
  show ?case
  proof (cases "j \<in> set seen")
    case True
    then have "set seen \<union> set (j # stack) = set seen \<union> set stack" by auto
    with 2 True show ?thesis by auto
  next
    case False
    with "2.prems"(1) obtain x where x: "map_of objects j = Some x"
      "first_missing_walk objects (j # seen) (rev (child_ids x) @ stack) = None"
      by (auto split: option.splits)
    have "\<forall>i \<in> set (j # seen). \<exists>x'. map_of objects i = Some x' \<and>
        set (child_ids x') \<subseteq> set (j # seen) \<union> set (rev (child_ids x) @ stack)"
      using "2.prems"(2) x(1) by fastforce
    from "2.IH"(2) [OF False x this] show ?thesis by auto
  qed
qed

lemma first_missing_reachable_correct:
  "(first_missing_reachable s root = Some i \<longrightarrow>
      map_of (ms_objects s) i = None \<and> (refers (map_of (ms_objects s)))\<^sup>*\<^sup>* root i) \<and>
   (first_missing_reachable s root = None \<longrightarrow>
      (\<forall>j. (refers (map_of (ms_objects s)))\<^sup>*\<^sup>* root j \<longrightarrow> map_of (ms_objects s) j \<noteq> None))"
proof -
  let ?v = "map_of (ms_objects s)"
  have "?v j \<noteq> None" if none: "first_missing_reachable s root = None" and r: "(refers ?v)\<^sup>*\<^sup>* root j" for j
  proof -
    from first_missing_walk_None [of "ms_objects s" "[]" "[root]"] none obtain A where
      A: "root \<in> A" "\<forall>i \<in> A. \<exists>x. ?v i = Some x \<and> set (child_ids x) \<subseteq> A"
      by (auto simp: first_missing_reachable_def simp del: first_missing_walk.simps)
    from r A have "j \<in> A" by (induction rule: rtranclp_induct) fastforce+
    with A(2) show ?thesis by auto
  qed
  with first_missing_walk_Some [of "ms_objects s" "[]" "[root]" i] show ?thesis
    by (auto simp: first_missing_reachable_def simp del: first_missing_walk.simps)
qed

end
