(* ===== verification/Repo_Model.thy ===== *)
theory Repo_Model
  imports Commit_Graph Diff Merge Tree_Json Query_Filter
begin

text \<open>
  The repository of \<open>repo.rs\<close> over the in-memory store: ref resolution, guards, commits, reads,
  writes, branches, merges, history and epochs, with the pre-commit hook of \<open>taint.rs\<close> and the
  write-through of \<open>control_repo.rs\<close>.

  A handle (\<open>Repository\<close>) is a record of its settings; the store is passed through. What a call takes
  from outside the program is the record \<open>Env\<close>: the two hashes, the clock, fresh ids, the active
  trace, the debug form of strings, and \<open>ev_edit\<close>, the editor of the control tree
  (\<open>ControlEdit\<close> of \<open>control.rs\<close>), which builds the root a control commit gets.

  A write reads the head of its ref, builds a commit on it and moves the ref by compare-and-swap, and
  retries when another writer came first. The other writers are the argument \<open>others\<close>: what they did
  to the store between the read and the swap of each attempt; \<open>ev_at_check\<close> of \<open>Env\<close> is what they had done of
  it when the seals were checked.
\<close>

section \<open>Errors and settings\<close>

datatype TaintError =
    TeBlocked string string string
  | TeNotAuthorized string string
  | TeInsufficientConfidence string string f64 f64
  | TeNotFound string
  | TeAlreadyResolved string
  | TeStorage string
  | TeInvalidTaint string

datatype SpecHandle = SpecHandle (spec_id: u64)

datatype SpecError =
    SpNotFound SpecHandle
  | SpTooMany nat nat
  | SpTree TreeError
  | SpStorage StorageError

datatype RepoError =
    RBranchNotFound string
  | RBranchAlreadyExists string
  | RRefNotFound string
  | RCommitNotFound string
  | RAmbiguousCommitPrefix string nat
  | RNotInitialized
  | RReservedPath string
  | RMergeConflicts "Conflict list"
  | RMergeWouldDelete "string list"
  | RIntegrityViolation ObjectId ObjectId
  | RWriteConflict
  | RSpeculation SpecError
  | RTree TreeError
  | RStorage StorageError
  | REpochSealViolated string "ObjectId list"
  | RInvalidOperation string
  | RCommitRefNotAllowed string
  | RReservedRef string
  | RNamespaceNotFound string
  | RCrossNamespaceAccessDenied
  | RTaint TaintError "string option"

fun spec_error_code :: "SpecError \<Rightarrow> string" where
  "spec_error_code (SpNotFound _) = ''speculation_not_found''"
| "spec_error_code (SpTooMany _ _) = ''too_many_speculations''"
| "spec_error_code (SpTree e) = tree_error_code e"
| "spec_error_code (SpStorage e) = storage_error_code e"

fun repo_error_code :: "RepoError \<Rightarrow> string" where
  "repo_error_code (RBranchNotFound _) = ''branch_not_found''"
| "repo_error_code (RBranchAlreadyExists _) = ''branch_already_exists''"
| "repo_error_code (RRefNotFound _) = ''ref_not_found''"
| "repo_error_code (RCommitNotFound _) = ''commit_not_found''"
| "repo_error_code (RAmbiguousCommitPrefix _ _) = ''ambiguous_commit_prefix''"
| "repo_error_code RNotInitialized = ''not_initialized''"
| "repo_error_code (RReservedPath _) = ''reserved_path''"
| "repo_error_code (RMergeConflicts _) = ''merge_conflict''"
| "repo_error_code (RMergeWouldDelete _) = ''merge_would_delete''"
| "repo_error_code (RIntegrityViolation _ _) = ''integrity_violation''"
| "repo_error_code RWriteConflict = ''write_conflict''"
| "repo_error_code (RSpeculation e) = spec_error_code e"
| "repo_error_code (RTree e) = tree_error_code e"
| "repo_error_code (RStorage e) = storage_error_code e"
| "repo_error_code (REpochSealViolated _ _) = ''epoch_sealed''"
| "repo_error_code (RInvalidOperation _) = ''invalid_operation''"
| "repo_error_code (RCommitRefNotAllowed _) = ''commit_ref_not_allowed''"
| "repo_error_code (RReservedRef _) = ''reserved_ref''"
| "repo_error_code (RNamespaceNotFound _) = ''namespace_not_found''"
| "repo_error_code RCrossNamespaceAccessDenied = ''cross_namespace_denied''"
| "repo_error_code (RTaint _ _) = ''taint_blocked''"

record CommitOptions =
  co_agent_id :: string
  co_authority :: Authority
  co_intent :: Intent
  co_reasoning :: "string option"
  co_confidence :: "f64 option"
  co_tool_calls :: "ToolCall list"

record Repository =
  rp_namespace :: Namespace
  rp_active_epoch :: "string option"
  rp_active_session :: "string option"
  rp_active_session_namespace :: "Namespace option"
  rp_epoch_seal_strict :: bool
  rp_branch_refs_only :: bool

datatype ControlKind = CkTaint | CkReminder | CkEpoch

datatype Stage = StRecord ControlKind string | StMember string ObjectId

record Env =
  ev_oid :: "Object \<Rightarrow> ObjectId"
  ev_cid :: "CommitHashInput \<Rightarrow> ObjectId"
  ev_hash :: "string \<Rightarrow> ObjectId"
  ev_now :: timestamp
  ev_clock :: "nat \<Rightarrow> timestamp"
  ev_uuid :: "nat \<Rightarrow> string"
  ev_trace :: "CommitTrace option"
  ev_debug :: "string \<Rightarrow> string"
  ev_edit :: "MemoryStorage \<Rightarrow> ObjectId option \<Rightarrow> Stage \<Rightarrow> MemoryStorage \<times> (RepoError + ObjectId)"
  ev_at_check :: "nat \<Rightarrow> MemoryStorage \<Rightarrow> MemoryStorage"

type_synonym 'a repo_result = "MemoryStorage \<times> (RepoError + 'a)"

text \<open>\<open>?\<close> in a method that changes the store, and on a storage or tree call.\<close>

definition rbind :: "'a repo_result \<Rightarrow> (MemoryStorage \<Rightarrow> 'a \<Rightarrow> 'b repo_result) \<Rightarrow> 'b repo_result" where
  "rbind m f = (case m of (s, Inl e) \<Rightarrow> (s, Inl e) | (s, Inr x) \<Rightarrow> f s x)"

abbreviation on_storage :: "MemoryStorage \<times> (StorageError + 'a) \<Rightarrow> 'a repo_result" where
  "on_storage r \<equiv> map_prod id (map_err RStorage) r"

abbreviation on_tree :: "MemoryStorage \<times> (TreeError + 'a) \<Rightarrow> 'a repo_result" where
  "on_tree r \<equiv> map_prod id (map_err RTree) r"

definition options_new :: "Env \<Rightarrow> string \<Rightarrow> IntentCategory \<Rightarrow> string \<Rightarrow> CommitOptions" where
  "options_new E agent_id category description =
     \<lparr> co_agent_id = agent_id, co_authority = authority_simple (ev_now E) agent_id,
       co_intent = intent_new (ev_uuid E 0) category description, co_reasoning = None,
       co_confidence = None, co_tool_calls = [] \<rparr>"

definition with_authority :: "CommitOptions \<Rightarrow> Authority \<Rightarrow> CommitOptions" where
  "with_authority opts a = opts\<lparr>co_authority := a\<rparr>"

definition with_principal :: "Env \<Rightarrow> CommitOptions \<Rightarrow> string \<Rightarrow> CommitOptions" where
  "with_principal E opts who = opts\<lparr>co_authority := authority_simple (ev_now E) who\<rparr>"

definition with_reasoning :: "CommitOptions \<Rightarrow> string \<Rightarrow> CommitOptions" where
  "with_reasoning opts r = opts\<lparr>co_reasoning := Some r\<rparr>"

definition with_confidence :: "CommitOptions \<Rightarrow> f64 \<Rightarrow> CommitOptions" where
  "with_confidence opts c = opts\<lparr>co_confidence := Some c\<rparr>"

definition with_tool_calls :: "CommitOptions \<Rightarrow> ToolCall list \<Rightarrow> CommitOptions" where
  "with_tool_calls opts calls = opts\<lparr>co_tool_calls := calls\<rparr>"

definition with_tags :: "CommitOptions \<Rightarrow> string list \<Rightarrow> CommitOptions" where
  "with_tags opts tags = opts\<lparr>co_intent := intent_with_tags (co_intent opts) tags\<rparr>"

section \<open>Guards\<close>

definition META_PATH_PREFIX :: string where "META_PATH_PREFIX = ''/_meta''"
definition META_SECRET_PREFIX :: string where "META_SECRET_PREFIX = ''/_meta/_secret''"
definition META_SCHEMA_VERSION_PATH :: string where "META_SCHEMA_VERSION_PATH = ''/_meta/schema_version''"
definition SCHEMA_VERSION :: string where "SCHEMA_VERSION = ''0.4.0''"
definition TRACKING_PREFIX :: string where "TRACKING_PREFIX = ''remotes/''"
definition CONTROL_PREFIX :: string where "CONTROL_PREFIX = ''_control''"
definition CONTROL_REF :: string where "CONTROL_REF = ''_control''"
definition INDEXED_REF :: string where "INDEXED_REF = ''_control-indexed''"
definition PENDING_PREFIX :: string where "PENDING_PREFIX = ''_control-pending/''"
definition MAX_ATTEMPTS :: nat where "MAX_ATTEMPTS = 64"
definition MAX_REF_CAS_ATTEMPTS :: nat where "MAX_REF_CAS_ATTEMPTS = 256"
definition COMMIT_QUERY_SCAN_FLOOR :: nat where "COMMIT_QUERY_SCAN_FLOOR = 10000"

definition path_is_reserved :: "string \<Rightarrow> bool" where
  "path_is_reserved path \<longleftrightarrow> path = META_PATH_PREFIX \<or> is_prefix (META_PATH_PREFIX @ ''/'') path"

definition path_is_secret :: "string \<Rightarrow> bool" where
  "path_is_secret path \<longleftrightarrow> path = META_SECRET_PREFIX \<or> is_prefix (META_SECRET_PREFIX @ ''/'') path"

definition is_taint_lifecycle_intent :: "IntentCategory \<Rightarrow> bool" where
  "is_taint_lifecycle_intent c \<longleftrightarrow>
     c \<in> set [IntentCategory.Taint, Untaint, Quarantine, Unquarantine, Watch, Unwatch]"

definition check_meta_guard :: "string \<Rightarrow> Intent \<Rightarrow> RepoError + unit" where
  "check_meta_guard path intent =
     (if path_is_reserved path \<and> in_category intent \<noteq> Migrate then Inl (RReservedPath path) else Inr ())"

definition check_secret_read_guard :: "string \<Rightarrow> Intent \<Rightarrow> RepoError + unit" where
  "check_secret_read_guard path intent =
     (if path_is_secret path \<and> in_category intent \<noteq> Migrate then Inl (RReservedPath path) else Inr ())"

definition is_tracking_ref :: "string \<Rightarrow> bool" where
  "is_tracking_ref name = is_prefix TRACKING_PREFIX name"

definition is_reserved_ref :: "string \<Rightarrow> bool" where
  "is_reserved_ref name = is_prefix CONTROL_PREFIX name"

definition refuse_reserved_ref :: "string \<Rightarrow> RepoError + unit" where
  "refuse_reserved_ref name =
     (if is_reserved_ref name \<or> is_tracking_ref name then Inl (RReservedRef name) else Inr ())"

definition refuse_deleting_main :: "string \<Rightarrow> RepoError + unit" where
  "refuse_deleting_main name =
     (if name = ''main''
      then Inl (RInvalidOperation (''refusing to delete '' @ [CHR 0x27] @ ''main'' @ [CHR 0x27] @
             '': every branch forks from it, and the next init() would replace it with an empty one''))
      else Inr ())"

fun diff_candidate :: "DiffOp \<Rightarrow> string" where
  "diff_candidate (SetValue path _ _) = path"
| "diff_candidate (AddKey path key _) =
     (if path = ''/'' \<or> path = [] then ''/'' @ key else path @ ''/'' @ key)"
| "diff_candidate (RemoveKey path key _) =
     (if path = ''/'' \<or> path = [] then ''/'' @ key else path @ ''/'' @ key)"
| "diff_candidate (AddElement path _ _) = path"
| "diff_candidate (RemoveElement path _ _) = path"
| "diff_candidate (AddToSet path _) = path"
| "diff_candidate (RemoveFromSet path _) = path"
| "diff_candidate (ChangeType path _ _) = path"

definition reserved_path_in_diff :: "DiffOp list \<Rightarrow> string option" where
  "reserved_path_in_diff ops = find path_is_reserved (map diff_candidate ops)"

section \<open>Namespaces and refs\<close>

definition active_namespace :: "Repository \<Rightarrow> Namespace" where
  "active_namespace r = (case rp_active_session_namespace r of Some ns \<Rightarrow> ns | None \<Rightarrow> rp_namespace r)"

fun namespace_error_string :: "Env \<Rightarrow> NamespaceError \<Rightarrow> string" where
  "namespace_error_string E NsEmpty = ''namespace name must not be empty''"
| "namespace_error_string E (NsTooLong n) =
     ''namespace name is too long ('' @ show_nat n @ '' bytes, max '' @ show_nat MAX_NAMESPACE_LEN @ '')''"
| "namespace_error_string E (NsInvalidChars name) =
     ''namespace name contains invalid characters: '' @ ev_debug E name @
     '' (only ASCII alphanumerics, hyphens, and underscores are allowed)''"

definition parse_path :: "string \<Rightarrow> RepoError + StatePath" where
  "parse_path path = map_err (\<lambda>e. RTree (TPathNotFound (path_error_string e))) (path_parse path)"

definition resolve_commit_ref :: "MemoryStorage \<Rightarrow> string \<Rightarrow> RepoError + ObjectId" where
  "resolve_commit_ref s ref_name =
     (case from_hex ref_name of
        Some i \<Rightarrow>
          try_bind (map_err RStorage (has_commit s i))
            (\<lambda>found. if found then Inr i else Inl (RCommitNotFound ref_name))
      | None \<Rightarrow>
          (case normalize_hex_prefix ref_name of
             None \<Rightarrow> Inl (RBranchNotFound ref_name)
           | Some prefix \<Rightarrow>
               try_bind (map_err RStorage (all_commit_ids s))
                 (\<lambda>ids. let matches = remdups_adj (sort (filter (\<lambda>i. is_prefix prefix (to_hex i)) ids))
                   in case matches of
                        [] \<Rightarrow> Inl (RCommitNotFound ref_name)
                      | [i] \<Rightarrow> Inr i
                      | _ \<Rightarrow> Inl (RAmbiguousCommitPrefix ref_name (length matches)))))"

definition resolve_ref :: "Repository \<Rightarrow> MemoryStorage \<Rightarrow> string \<Rightarrow> RepoError + ObjectId" where
  "resolve_ref r s ref_name =
     try_bind (map_err RStorage (get_ref s (active_namespace r) ref_name))
       (\<lambda>target. case target of
          Some i \<Rightarrow> Inr i
        | None \<Rightarrow>
            if rp_branch_refs_only r
            then Inl (if from_hex ref_name \<noteq> None \<or> normalize_hex_prefix ref_name \<noteq> None
                      then RCommitRefNotAllowed ref_name else RBranchNotFound ref_name)
            else resolve_commit_ref s ref_name)"

definition head_for_write :: "Repository \<Rightarrow> MemoryStorage \<Rightarrow> string \<Rightarrow> RepoError + ObjectId \<times> bool" where
  "head_for_write r s ref_name =
     try_bind (refuse_reserved_ref ref_name)
       (\<lambda>_. try_bind (map_err RStorage (get_ref s (active_namespace r) ref_name))
          (\<lambda>target. case target of
             Some i \<Rightarrow> Inr (i, True)
           | None \<Rightarrow> try_bind (resolve_ref r s ref_name) (\<lambda>i. Inr (i, False))))"

definition commit_or :: "RepoError \<Rightarrow> MemoryStorage \<Rightarrow> ObjectId \<Rightarrow> RepoError + Commit" where
  "commit_or e s i = try_bind (map_err RStorage (get_commit s i)) (ok_or e)"

section \<open>Sealed epochs\<close>

definition epoch_binds_namespace :: "Epoch \<Rightarrow> Namespace \<Rightarrow> bool" where
  "epoch_binds_namespace e ns \<longleftrightarrow> ep_namespace e = Some (ns_str ns)"

record EpochViolation =
  vi_epoch_id :: string
  vi_unreachable_commits :: "ObjectId list"

definition check_epoch_seal_violations ::
  "Repository \<Rightarrow> MemoryStorage \<Rightarrow> ObjectId \<Rightarrow> RepoError + EpochViolation list" where
  "check_epoch_seal_violations r s new_target =
     try_bind (map_err RStorage (list_epochs s))
       (\<lambda>epochs.
          let binding = filter (\<lambda>e. (ep_status e = ESealed \<or> ep_status e = EArchived) \<and>
                                   epoch_binds_namespace e (active_namespace r)) epochs
          in if binding = [] then Inr []
             else let reachable = set (reachable_commits_from s new_target)
                  in Inr (filter (\<lambda>v. vi_unreachable_commits v \<noteq> [])
                       (map (\<lambda>e. \<lparr> vi_epoch_id = ep_id e, vi_unreachable_commits =
                                    filter (\<lambda>c. c \<notin> reachable) (ep_sealed_commits e) \<rparr>) binding)))"

definition enforce_epoch_seals ::
  "Repository \<Rightarrow> MemoryStorage \<Rightarrow> string \<Rightarrow> ObjectId \<Rightarrow> RepoError + unit" where
  "enforce_epoch_seals r s ref_name new_target =
     try_bind (check_epoch_seal_violations r s new_target)
       (\<lambda>violations. case violations of
          [] \<Rightarrow> Inr ()
        | v # _ \<Rightarrow>
            if ref_name \<noteq> ''main'' then Inr ()
            else if rp_epoch_seal_strict r
            then Inl (REpochSealViolated (vi_epoch_id v) (vi_unreachable_commits v))
            else Inr ())"

section \<open>Moving refs\<close>

text \<open>The leaf index is updated only when the backend has built one, which the in-memory store never
  does, and \<open>commit_landed\<close> only reports: neither changes the store. The seals are checked before the
  write and under no lock that covers both: \<open>checked\<close> is the store as the check reads it, \<open>s\<close> the store as
  the write finds it. A caller that built its commit in \<open>t\<close> passes \<open>ev_at_check E k t\<close>, which holds what
  others did until the check, and \<open>others k t\<close>, which holds all they did until the write.\<close>

definition guarded_set_ref ::
  "Repository \<Rightarrow> MemoryStorage \<Rightarrow> MemoryStorage \<Rightarrow> string \<Rightarrow> ObjectId \<Rightarrow> unit repo_result" where
  "guarded_set_ref r checked s ref_name new_target =
     (case refuse_reserved_ref ref_name of
        Inl e \<Rightarrow> (s, Inl e)
      | Inr _ \<Rightarrow>
          (case enforce_epoch_seals r checked ref_name new_target of
             Inl e \<Rightarrow> (s, Inl e)
           | Inr _ \<Rightarrow> on_storage (set_ref s (active_namespace r) ref_name new_target)))"

definition advance_ref ::
  "Repository \<Rightarrow> MemoryStorage \<Rightarrow> MemoryStorage \<Rightarrow> string \<Rightarrow> ObjectId \<Rightarrow> ObjectId \<Rightarrow> bool repo_result" where
  "advance_ref r checked s ref_name expected new_target =
     (case refuse_reserved_ref ref_name of
        Inl e \<Rightarrow> (s, Inl e)
      | Inr _ \<Rightarrow>
          (case enforce_epoch_seals r checked ref_name new_target of
             Inl e \<Rightarrow> (s, Inl e)
           | Inr _ \<Rightarrow> on_storage (cas_ref s (active_namespace r) ref_name expected new_target)))"

definition fast_forward_ref ::
  "MemoryStorage \<Rightarrow> Namespace \<Rightarrow> string \<Rightarrow> ObjectId \<Rightarrow> ObjectId \<Rightarrow> bool repo_result" where
  "fast_forward_ref s ns ref_name expected new_target =
     on_storage (cas_ref s ns ref_name expected new_target)"

definition move_ref ::
  "Repository \<Rightarrow> MemoryStorage \<Rightarrow> MemoryStorage \<Rightarrow> string \<Rightarrow> ObjectId \<Rightarrow> bool \<Rightarrow> ObjectId \<Rightarrow>
   bool repo_result" where
  "move_ref r checked s ref_name expected is_branch new_target =
     (if is_branch then advance_ref r checked s ref_name expected new_target
      else rbind (guarded_set_ref r checked s ref_name new_target) (\<lambda>s' _. (s', Inr True)))"

definition repo_set_ref ::
  "Env \<Rightarrow> (nat \<Rightarrow> MemoryStorage \<Rightarrow> MemoryStorage) \<Rightarrow> Repository \<Rightarrow> MemoryStorage \<Rightarrow> string \<Rightarrow> ObjectId \<Rightarrow>
   unit repo_result" where
  "repo_set_ref E others r s ref_name target =
     guarded_set_ref r (ev_at_check E 0 s) (others 0 s) ref_name target"

section \<open>The control ref\<close>

fun kind_str :: "ControlKind \<Rightarrow> string" where
  "kind_str CkTaint = ''taint''"
| "kind_str CkReminder = ''reminder''"
| "kind_str CkEpoch = ''epoch''"

fun stage_record :: "Stage \<Rightarrow> ControlKind \<times> string" where
  "stage_record (StRecord kind i) = (kind, i)"
| "stage_record (StMember epoch _) = (CkEpoch, epoch)"

fun control_commit_attempts ::
  "nat \<Rightarrow> Env \<Rightarrow> nat \<Rightarrow> MemoryStorage \<Rightarrow> CommitOptions \<Rightarrow> Stage \<Rightarrow> (ObjectId option \<times> ObjectId) repo_result" where
  "control_commit_attempts 0 E k s options stage = (s, Inl RWriteConflict)"
| "control_commit_attempts (Suc n) E k s options stage =
     (case map_err RStorage (get_ref s default_ns CONTROL_REF) of
        Inl e \<Rightarrow> (s, Inl e)
      | Inr head \<Rightarrow>
          (case (case head of
                   Some h \<Rightarrow> try_bind (commit_or (RCommitNotFound (display_id h)) s h)
                               (\<lambda>c. Inr (Some (cm_state_root c)))
                 | None \<Rightarrow> Inr None) of
             Inl e \<Rightarrow> (s, Inl e)
           | Inr base \<Rightarrow>
               rbind (ev_edit E s base stage)
                 (\<lambda>s1 root.
                    if head \<noteq> None \<and> base = Some root then (s1, Inr (head, the head))
                    else
                      let commit = builder_build (ev_cid E) (ev_clock E k)
                            (builder_parents (builder_new root (co_agent_id options)
                               (co_authority options) (co_intent options))
                               (case head of Some h \<Rightarrow> [h] | None \<Rightarrow> []))
                      in rbind (on_storage (put_commit s1 commit))
                        (\<lambda>s2 _. rbind (on_storage
                            (case head of
                               Some h \<Rightarrow> cas_ref s2 default_ns CONTROL_REF h (cm_id commit)
                             | None \<Rightarrow> create_ref s2 default_ns CONTROL_REF (cm_id commit)))
                           (\<lambda>s3 landed. if landed then (s3, Inr (head, cm_id commit))
                                        else control_commit_attempts n E k s3 options stage)))))"

definition control_commit ::
  "Env \<Rightarrow> nat \<Rightarrow> MemoryStorage \<Rightarrow> CommitOptions \<Rightarrow> Stage \<Rightarrow> (ObjectId option \<times> ObjectId) repo_result" where
  "control_commit = control_commit_attempts MAX_ATTEMPTS"

definition pending_mark :: "Env \<Rightarrow> nat \<Rightarrow> Stage \<Rightarrow> string" where
  "pending_mark E k stage =
     (case stage_record stage of (kind, i) \<Rightarrow>
        PENDING_PREFIX @ kind_str kind @ ''/'' @ i @ ''/'' @ ev_uuid E k)"

definition write_through ::
  "Env \<Rightarrow> nat \<Rightarrow> MemoryStorage \<Rightarrow> Stage \<Rightarrow> CommitOptions \<Rightarrow> (MemoryStorage \<Rightarrow> 'a repo_result) \<Rightarrow>
   'a repo_result" where
  "write_through E k s stage options table =
     (let mark = pending_mark E k stage; marked = ev_hash E mark in
      rbind (on_storage (set_ref s default_ns mark marked))
        (\<lambda>s1 _. case table s1 of
           (s2, Inl e) \<Rightarrow> (fst (cas_delete_ref s2 default_ns mark marked), Inl e)
         | (s2, Inr out) \<Rightarrow>
             (case control_commit E k s2 options stage of
                (s3, Inr (before, after)) \<Rightarrow>
                  let s4 = (case before of
                              Some b \<Rightarrow> if b \<noteq> after then fst (cas_ref s3 default_ns INDEXED_REF b after) else s3
                            | None \<Rightarrow> s3)
                  in (fst (cas_delete_ref s4 default_ns mark marked), Inr out)
              | (s3, Inl e) \<Rightarrow> (s3, Inr out))))"

section \<open>Commits\<close>

definition commit_builder ::
  "ObjectId \<Rightarrow> ObjectId list \<Rightarrow> CommitOptions \<Rightarrow> CommitBuilder" where
  "commit_builder state_root parents options =
     (let b = builder_parents (builder_new state_root (co_agent_id options) (co_authority options)
                (co_intent options)) parents;
          b = (case co_reasoning options of Some x \<Rightarrow> builder_reasoning b x | None \<Rightarrow> b);
          b = (case co_confidence options of Some x \<Rightarrow> builder_confidence b x | None \<Rightarrow> b)
      in if co_tool_calls options \<noteq> [] then builder_tool_calls b (co_tool_calls options) else b)"

definition store_commit :: "Env \<Rightarrow> MemoryStorage \<Rightarrow> Commit \<Rightarrow> unit repo_result" where
  "store_commit E s commit =
     (case put_commit_traced s commit (ev_trace E) of
        (s1, Inr _) \<Rightarrow> (s1, Inr ())
      | (s1, Inl e) \<Rightarrow>
          if ev_trace E = None then (s1, Inl (RStorage e)) else on_storage (put_commit s1 commit))"

definition system_options :: "Env \<Rightarrow> IntentCategory \<Rightarrow> string \<Rightarrow> CommitOptions" where
  "system_options E category description = options_new E ''system'' category description"

definition create_commit ::
  "Env \<Rightarrow> nat \<Rightarrow> Repository \<Rightarrow> MemoryStorage \<Rightarrow> ObjectId \<Rightarrow> ObjectId list \<Rightarrow> CommitOptions \<Rightarrow>
   Commit repo_result" where
  "create_commit E k r s state_root parents options =
     (let commit = builder_build (ev_cid E) (ev_clock E k) (commit_builder state_root parents options) in
      rbind (store_commit E s commit)
        (\<lambda>s1 _. rbind
           (case rp_active_epoch r of
              Some epoch \<Rightarrow>
                write_through E k s1 (StMember epoch (cm_id commit))
                  (system_options E Checkpoint
                     (''epoch '' @ epoch @ '': add '' @ display_id (cm_id commit)))
                  (\<lambda>s. on_storage (set_commit_epoch s (cm_id commit) epoch))
            | None \<Rightarrow> (s1, Inr ()))
           (\<lambda>s2 _. rbind
              (case rp_active_session r of
                 Some session \<Rightarrow> on_storage (set_commit_session s2 (cm_id commit) session)
               | None \<Rightarrow> (s2, Inr ()))
              (\<lambda>s3 _. (s3, Inr commit)))))"

definition repo_create_namespace :: "Env \<Rightarrow> MemoryStorage \<Rightarrow> string \<Rightarrow> unit repo_result" where
  "repo_create_namespace E s name =
     (case namespace_new name of
        Inl e \<Rightarrow> (s, Inl (RInvalidOperation (namespace_error_string E e)))
      | Inr ns \<Rightarrow>
          (case create_namespace s ns of
             (s1, Inr _) \<Rightarrow> (s1, Inr ())
           | (s1, Inl (SNamespaceAlreadyExists _)) \<Rightarrow> (s1, Inr ())
           | (s1, Inl e) \<Rightarrow> (s1, Inl (RStorage e))))"

definition repo_delete_namespace :: "Env \<Rightarrow> MemoryStorage \<Rightarrow> string \<Rightarrow> bool repo_result" where
  "repo_delete_namespace E s name =
     (case namespace_new name of
        Inl e \<Rightarrow> (s, Inl (RInvalidOperation (namespace_error_string E e)))
      | Inr ns \<Rightarrow> on_storage (delete_namespace s ns))"

definition repo_init :: "Env \<Rightarrow> Repository \<Rightarrow> MemoryStorage \<Rightarrow> ObjectId repo_result" where
  "repo_init E r s =
     (let ns = active_namespace r; S = memory_store (ev_oid E) in
      rbind (repo_create_namespace E s (ns_str ns)) (\<lambda>s1 _.
        case map_err RStorage (get_ref s1 ns ''main'') of
          Inl e \<Rightarrow> (s1, Inl e)
        | Inr (Some i) \<Rightarrow> (s1, Inr i)
        | Inr None \<Rightarrow>
            rbind (on_storage (put_object (ev_oid E) s1 empty_map)) (\<lambda>s2 empty_root.
              case parse_path META_SCHEMA_VERSION_PATH of
                Inl e \<Rightarrow> (s2, Inl e)
              | Inr version_path \<Rightarrow>
                  rbind (on_tree (tree_set S s2 empty_root version_path (object_string SCHEMA_VERSION)))
                    (\<lambda>s3 stamped_root.
                       let commit = builder_build (ev_cid E) (ev_clock E 0)
                             (builder_new stamped_root ''system'' (authority_simple (ev_now E) ''system'')
                                (intent_new (ev_uuid E 0) Checkpoint ''Initialize empty state''))
                       in rbind (on_storage (put_commit s3 commit)) (\<lambda>s4 _.
                            rbind (on_storage (create_ref s4 ns ''main'' (cm_id commit))) (\<lambda>s5 created.
                              if created then (s5, Inr (cm_id commit))
                              else (s5, try_bind (map_err RStorage (get_ref s5 ns ''main''))
                                          (ok_or RNotInitialized))))))))"

section \<open>Reads\<close>

definition ref_commit :: "Repository \<Rightarrow> MemoryStorage \<Rightarrow> string \<Rightarrow> RepoError + Commit" where
  "ref_commit r s ref_name =
     try_bind (resolve_ref r s ref_name) (commit_or (RRefNotFound ref_name) s)"

definition read_at ::
  "Env \<Rightarrow> Repository \<Rightarrow> MemoryStorage \<Rightarrow> string \<Rightarrow> string \<Rightarrow> RepoError + Object" where
  "read_at E r s ref_name path =
     try_bind (ref_commit r s ref_name)
       (\<lambda>commit. try_bind (parse_path path)
          (\<lambda>p. map_err RTree (tree_get (memory_store (ev_oid E)) s (cm_state_root commit) p)))"

definition repo_get :: "Env \<Rightarrow> Repository \<Rightarrow> MemoryStorage \<Rightarrow> string \<Rightarrow> string \<Rightarrow> RepoError + Object" where
  "repo_get E r s ref_name path =
     (if path_is_secret path then Inl (RReservedPath path) else read_at E r s ref_name path)"

definition repo_get_with_intent ::
  "Env \<Rightarrow> Repository \<Rightarrow> MemoryStorage \<Rightarrow> string \<Rightarrow> string \<Rightarrow> Intent \<Rightarrow> RepoError + Object" where
  "repo_get_with_intent E r s ref_name path intent =
     try_bind (check_secret_read_guard path intent) (\<lambda>_. read_at E r s ref_name path)"

definition repo_get_json ::
  "nat \<Rightarrow> Env \<Rightarrow> Repository \<Rightarrow> MemoryStorage \<Rightarrow> string \<Rightarrow> string \<Rightarrow> (RepoError + json) option" where
  "repo_get_json fuel E r s ref_name path =
     (case repo_get E r s ref_name path of
        Inl e \<Rightarrow> Some (Inl e)
      | Inr obj \<Rightarrow> map_option (map_err RTree) (tree_to_json fuel (memory_store (ev_oid E)) s obj))"

definition repo_get_json_capped ::
  "Env \<Rightarrow> Repository \<Rightarrow> MemoryStorage \<Rightarrow> string \<Rightarrow> string \<Rightarrow> nat \<Rightarrow> RepoError + json" where
  "repo_get_json_capped E r s ref_name path max_depth =
     try_bind (repo_get E r s ref_name path)
       (\<lambda>obj. map_err RTree (tree_to_json_capped (memory_store (ev_oid E)) s obj max_depth))"

definition repo_get_json_many ::
  "nat \<Rightarrow> Env \<Rightarrow> Repository \<Rightarrow> MemoryStorage \<Rightarrow> string \<Rightarrow> string list \<Rightarrow>
   (RepoError + json option list) option" where
  "repo_get_json_many fuel E r s ref_name paths =
     (case find path_is_secret paths of
        Some secret \<Rightarrow> Some (Inl (RReservedPath secret))
      | None \<Rightarrow>
          (case try_bind (collect_results (map parse_path paths))
                  (\<lambda>parsed. try_bind (ref_commit r s ref_name)
                     (\<lambda>commit. map_err RTree
                        (tree_get_many (memory_store (ev_oid E)) s (cm_state_root commit) parsed))) of
             Inl e \<Rightarrow> Some (Inl e)
           | Inr objs \<Rightarrow> map_option (map_err RTree) (trees_to_json fuel (memory_store (ev_oid E)) s objs)))"

definition repo_head :: "Repository \<Rightarrow> MemoryStorage \<Rightarrow> string \<Rightarrow> RepoError + ObjectId" where
  "repo_head r s ref_name = resolve_ref r s ref_name"

section \<open>The pre-commit hook\<close>

definition repo_check_taint ::
  "MemoryStorage \<Rightarrow> timestamp \<Rightarrow> string \<Rightarrow> string \<Rightarrow> f64 \<Rightarrow> RepoError + TaintCheck" where
  "repo_check_taint s now path agent_id confidence =
     try_bind (map_err RStorage (check_taint s now path))
       (\<lambda>candidates. Inr (evaluate_access path agent_id confidence candidates now))"

definition taint_warning :: "Taint \<Rightarrow> string" where
  "taint_warning t = ''taint '' @ ta_name t @ '' on '' @ ta_path t @ '': '' @ ta_reason t"

definition taint_refusal :: "string \<Rightarrow> string \<Rightarrow> f64 \<Rightarrow> TaintCheck \<Rightarrow> RepoError option" where
  "taint_refusal p agent_id confidence check =
     (if tc_can_write check then None
      else case find (\<lambda>q. agent_id \<notin> set (taint_authorized_agents q)) (tc_quarantines check) of
        Some q \<Rightarrow> Some (RTaint (TeNotAuthorized p agent_id) (Some (ta_id q)))
      | None \<Rightarrow>
          (case find (\<lambda>t. ta_effect t = EffBlock) (tc_taints check) of
             Some t \<Rightarrow> Some (RTaint (TeBlocked p (ta_name t) (ta_reason t)) (Some (ta_id t)))
           | None \<Rightarrow>
               (case find (\<lambda>t. ta_effect t = EffReview) (tc_taints check) of
                  Some t \<Rightarrow>
                    Some (RTaint (TeInsufficientConfidence p (ta_name t) (tc_required_confidence check)
                            confidence) (Some (ta_id t)))
                | None \<Rightarrow> None)))"

fun pre_commit_taint_check ::
  "MemoryStorage \<Rightarrow> timestamp \<Rightarrow> string list \<Rightarrow> CommitOptions \<Rightarrow> RepoError + string list" where
  "pre_commit_taint_check s now [] options = Inr []"
| "pre_commit_taint_check s now (p # ps) options =
     (let confidence = (case co_confidence options of Some c \<Rightarrow> c | None \<Rightarrow> f64_one) in
      try_bind (repo_check_taint s now p (co_agent_id options) confidence)
        (\<lambda>check. case taint_refusal p (co_agent_id options) confidence check of
           Some e \<Rightarrow> Inl e
         | None \<Rightarrow>
             try_bind (pre_commit_taint_check s now ps options)
               (\<lambda>ws. Inr (map taint_warning
                  (filter (\<lambda>t. ta_effect t = EffWarn \<or> ta_effect t = EffIsolate) (tc_taints check)) @ ws))))"

definition write_guards ::
  "Env \<Rightarrow> MemoryStorage \<Rightarrow> string \<Rightarrow> CommitOptions \<Rightarrow> RepoError + StatePath" where
  "write_guards E s path options =
     try_bind (check_meta_guard path (co_intent options))
       (\<lambda>_. try_bind (if is_taint_lifecycle_intent (in_category (co_intent options)) then Inr []
                     else pre_commit_taint_check s (ev_now E) [path] options)
          (\<lambda>_. parse_path path))"

section \<open>Writes\<close>

text \<open>The read-modify-write loop of \<open>set\<close>, \<open>delete\<close> and \<open>write_taint_intent\<close>: \<open>update\<close> is what the
  operation does to the tree of the head.\<close>

fun write_attempts ::
  "nat \<Rightarrow> nat \<Rightarrow> Env \<Rightarrow> (nat \<Rightarrow> MemoryStorage \<Rightarrow> MemoryStorage) \<Rightarrow> Repository \<Rightarrow> MemoryStorage \<Rightarrow> string \<Rightarrow>
   (MemoryStorage \<Rightarrow> ObjectId \<Rightarrow> ObjectId repo_result) \<Rightarrow> CommitOptions \<Rightarrow> ObjectId repo_result" where
  "write_attempts 0 k E others r s ref_name update options = (s, Inl RWriteConflict)"
| "write_attempts (Suc n) k E others r s ref_name update options =
     (case head_for_write r s ref_name of
        Inl e \<Rightarrow> (s, Inl e)
      | Inr (commit_id, is_branch) \<Rightarrow>
          (case commit_or (RRefNotFound ref_name) s commit_id of
             Inl e \<Rightarrow> (s, Inl e)
           | Inr commit \<Rightarrow>
               rbind (update s (cm_state_root commit)) (\<lambda>s1 new_root.
                 rbind (create_commit E k r s1 new_root [commit_id] options) (\<lambda>s2 new_commit.
                   rbind (move_ref r (ev_at_check E k s2) (others k s2) ref_name commit_id is_branch (cm_id new_commit))
                     (\<lambda>s3 moved.
                        if moved then (s3, Inr (cm_id new_commit))
                        else write_attempts n (Suc k) E others r s3 ref_name update options)))))"

definition repo_set ::
  "Env \<Rightarrow> (nat \<Rightarrow> MemoryStorage \<Rightarrow> MemoryStorage) \<Rightarrow> Repository \<Rightarrow> MemoryStorage \<Rightarrow> string \<Rightarrow> string \<Rightarrow>
   Object \<Rightarrow> CommitOptions \<Rightarrow> ObjectId repo_result" where
  "repo_set E others r s ref_name path value options =
     (case write_guards E s path options of
        Inl e \<Rightarrow> (s, Inl e)
      | Inr p \<Rightarrow>
          write_attempts MAX_REF_CAS_ATTEMPTS 0 E others r s ref_name
            (\<lambda>s root. on_tree (tree_set (memory_store (ev_oid E)) s root p value)) options)"

definition repo_delete ::
  "Env \<Rightarrow> (nat \<Rightarrow> MemoryStorage \<Rightarrow> MemoryStorage) \<Rightarrow> Repository \<Rightarrow> MemoryStorage \<Rightarrow> string \<Rightarrow> string \<Rightarrow>
   CommitOptions \<Rightarrow> ObjectId repo_result" where
  "repo_delete E others r s ref_name path options =
     (case write_guards E s path options of
        Inl e \<Rightarrow> (s, Inl e)
      | Inr p \<Rightarrow>
          write_attempts MAX_REF_CAS_ATTEMPTS 0 E others r s ref_name
            (\<lambda>s root. on_tree (tree_delete (memory_store (ev_oid E)) s root p)) options)"

definition write_taint_intent ::
  "Env \<Rightarrow> (nat \<Rightarrow> MemoryStorage \<Rightarrow> MemoryStorage) \<Rightarrow> Repository \<Rightarrow> MemoryStorage \<Rightarrow> string \<Rightarrow>
   IntentCategory \<Rightarrow> string \<Rightarrow> string \<Rightarrow> string option \<Rightarrow> ObjectId repo_result" where
  "write_taint_intent E others r s ref_name category description agent_id reasoning =
     (let options = options_new E agent_id category description;
          options = (case reasoning of Some x \<Rightarrow> with_reasoning options x | None \<Rightarrow> options)
      in write_attempts MAX_REF_CAS_ATTEMPTS 0 E others r s ref_name (\<lambda>s root. (s, Inr root)) options)"

end
