(* ===== verification/Repo_Merge.thy ===== *)
theory Repo_Merge
  imports Repo_Model
begin

text \<open>
  Branches, merges and diffs of a repository (\<open>repo.rs\<close>, from \<open>branch\<close> to \<open>diff_inner\<close>). A merge is
  computed against the heads of the two refs and lands by compare-and-swap; \<open>others\<close> is what other
  writers do to the store before the swap of each attempt. The recursion of the merge and the diff
  takes fuel, so these operations answer \<open>None\<close> when it runs out.
\<close>

section \<open>Branches\<close>

definition repo_branch :: "Repository \<Rightarrow> MemoryStorage \<Rightarrow> string \<Rightarrow> string \<Rightarrow> ObjectId repo_result" where
  "repo_branch r s name from_ref =
     (case try_bind (refuse_reserved_ref name)
             (\<lambda>_. try_bind (map_err RStorage (get_ref s (active_namespace r) name))
                (\<lambda>target. if target \<noteq> None then Inl (RBranchAlreadyExists name)
                          else resolve_ref r s from_ref)) of
        Inl e \<Rightarrow> (s, Inl e)
      | Inr commit_id \<Rightarrow>
          rbind (on_storage (create_ref s (active_namespace r) name commit_id))
            (\<lambda>s1 created. if created then (s1, Inr commit_id)
                          else (s1, Inl (RBranchAlreadyExists name))))"

definition delete_branch :: "Repository \<Rightarrow> MemoryStorage \<Rightarrow> string \<Rightarrow> bool repo_result" where
  "delete_branch r s name =
     (case try_bind (refuse_deleting_main name) (\<lambda>_. refuse_reserved_ref name) of
        Inl e \<Rightarrow> (s, Inl e)
      | Inr _ \<Rightarrow> on_storage (delete_ref s (active_namespace r) name))"

definition delete_branch_if ::
  "Repository \<Rightarrow> MemoryStorage \<Rightarrow> string \<Rightarrow> ObjectId \<Rightarrow> bool repo_result" where
  "delete_branch_if r s name expected =
     (case try_bind (refuse_deleting_main name) (\<lambda>_. refuse_reserved_ref name) of
        Inl e \<Rightarrow> (s, Inl e)
      | Inr _ \<Rightarrow> on_storage (cas_delete_ref s (active_namespace r) name expected))"

definition list_branches ::
  "Repository \<Rightarrow> MemoryStorage \<Rightarrow> string option \<Rightarrow> RepoError + (string \<times> ObjectId) list" where
  "list_branches r s prefix =
     try_bind (map_err RStorage (list_refs s (active_namespace r) (case prefix of Some p \<Rightarrow> p | None \<Rightarrow> [])))
       (\<lambda>refs. Inr (filter (\<lambda>(name, _). \<not> is_reserved_ref name \<and> \<not> is_tracking_ref name) refs))"

section \<open>The merge base\<close>

definition find_common_ancestor :: "MemoryStorage \<Rightarrow> ObjectId \<Rightarrow> ObjectId \<Rightarrow> RepoError + ObjectId" where
  "find_common_ancestor s a b =
     ok_or (RRefNotFound ''no common ancestor between refs'') (common_ancestor s a b)"

definition merge_base :: "Repository \<Rightarrow> MemoryStorage \<Rightarrow> string \<Rightarrow> string \<Rightarrow> RepoError + ObjectId" where
  "merge_base r s source target =
     try_bind (resolve_ref r s source)
       (\<lambda>source_commit_id. try_bind (resolve_ref r s target)
          (\<lambda>target_commit_id. find_common_ancestor s source_commit_id target_commit_id))"

definition get_json_at_merge_base ::
  "nat \<Rightarrow> Env \<Rightarrow> Repository \<Rightarrow> MemoryStorage \<Rightarrow> string \<Rightarrow> string \<Rightarrow> string \<Rightarrow>
   (RepoError + json option) option" where
  "get_json_at_merge_base fuel E r s source target path =
     (if path_is_secret path then Some (Inl (RReservedPath path))
      else case merge_base r s source target of
             Inl (RRefNotFound _) \<Rightarrow> Some (Inr None)
           | Inl e \<Rightarrow> Some (Inl e)
           | Inr base \<Rightarrow>
               (case try_bind (commit_or (RCommitNotFound (display_id base)) s base)
                       (\<lambda>commit. try_bind (parse_path path) (\<lambda>p. Inr (commit, p))) of
                  Inl e \<Rightarrow> Some (Inl e)
                | Inr (commit, p) \<Rightarrow>
                    (case tree_get (memory_store (ev_oid E)) s (cm_state_root commit) p of
                       Inr obj \<Rightarrow>
                         map_option (map_err RTree) (map_option (map_sum id Some)
                           (tree_to_json fuel (memory_store (ev_oid E)) s obj))
                     | Inl (TPathNotFound _) \<Rightarrow> Some (Inr None)
                     | Inl e \<Rightarrow> Some (Inl (RTree e)))))"

section \<open>Merging\<close>

record MergeComputation =
  mc_source_commit_id :: ObjectId
  mc_target_commit_id :: ObjectId
  mc_source_state_root :: ObjectId
  mc_target_state_root :: ObjectId
  mc_result :: MergeResult
  mc_created :: "Object list"

record MergePreview =
  mp_fast_forward :: bool
  mp_added :: "string list"
  mp_changed :: "string list"
  mp_removed :: "string list"
  mp_conflicts :: "Conflict list"

definition has_deletions :: "MergePreview \<Rightarrow> bool" where
  "has_deletions p \<longleftrightarrow> mp_removed p \<noteq> []"

fun map_entries :: "Object \<Rightarrow> (string, ObjectId) btree" where
  "map_entries (ONode (NMap entries)) = entries"
| "map_entries _ = []"

definition resolver :: "MemoryStorage \<Rightarrow> view" where
  "resolver s i = (case get_object s i of Inr x \<Rightarrow> x | Inl _ \<Rightarrow> None)"

definition compute_merge ::
  "nat \<Rightarrow> Env \<Rightarrow> Repository \<Rightarrow> MemoryStorage \<Rightarrow> string \<Rightarrow> string \<Rightarrow> (RepoError + MergeComputation) option" where
  "compute_merge fuel E r s source target =
     (case try_bind (resolve_ref r s source) (\<lambda>source_commit_id.
             try_bind (resolve_ref r s target) (\<lambda>target_commit_id.
               try_bind (commit_or (RRefNotFound source) s source_commit_id) (\<lambda>source_commit.
                 try_bind (commit_or (RRefNotFound target) s target_commit_id) (\<lambda>target_commit.
                   try_bind (find_common_ancestor s source_commit_id target_commit_id) (\<lambda>base_commit_id.
                     try_bind (commit_or (RRefNotFound ''base'') s base_commit_id) (\<lambda>base_commit.
                       Inr (source_commit_id, target_commit_id, source_commit, target_commit,
                            base_commit))))))) of
        Inl e \<Rightarrow> Some (Inl e)
      | Inr (source_commit_id, target_commit_id, source_commit, target_commit, base_commit) \<Rightarrow>
          map_option
            (\<lambda>merged. case merged of
               Inl missing \<Rightarrow> Inl (RIntegrityViolation (cm_state_root base_commit) missing)
             | Inr (result, created) \<Rightarrow>
                 Inr \<lparr> mc_source_commit_id = source_commit_id, mc_target_commit_id = target_commit_id,
                       mc_source_state_root = cm_state_root source_commit,
                       mc_target_state_root = cm_state_root target_commit,
                       mc_result = result, mc_created = created \<rparr>)
            (try_three_way_merge_collect (resolver s) (ev_oid E) fuel (cm_state_root base_commit)
               (cm_state_root target_commit) (cm_state_root source_commit)))"

definition top_level_entries :: "MemoryStorage \<Rightarrow> ObjectId \<Rightarrow> (string, ObjectId) btree" where
  "top_level_entries s root =
     (case map_of (ms_objects s) root of Some obj \<Rightarrow> map_entries obj | None \<Rightarrow> [])"

fun top_level_entries_of_obj ::
  "MemoryStorage \<Rightarrow> MergeResult \<Rightarrow> ObjectId \<Rightarrow> (string, ObjectId) btree" where
  "top_level_entries_of_obj s (MergeSuccess obj) fallback_root = map_entries obj"
| "top_level_entries_of_obj s (MergeConflicts obj _) fallback_root = map_entries obj"
| "top_level_entries_of_obj s (FastForward _) fallback_root = top_level_entries s fallback_root"

fun result_root :: "Env \<Rightarrow> MergeResult \<Rightarrow> ObjectId" where
  "result_root E (MergeSuccess obj) = ev_oid E obj"
| "result_root E (MergeConflicts partial _) = ev_oid E partial"
| "result_root E (FastForward state_root) = state_root"

definition top_level_removals :: "Env \<Rightarrow> MemoryStorage \<Rightarrow> MergeComputation \<Rightarrow> string list" where
  "top_level_removals E s mc =
     (let target_entries = top_level_entries s (mc_target_state_root mc);
          merged_entries = top_level_entries_of_obj s (mc_result mc) (result_root E (mc_result mc))
      in sort (filter (\<lambda>k. map_of merged_entries k = None) (bt_keys target_entries)))"

definition preview_merge ::
  "nat \<Rightarrow> Env \<Rightarrow> Repository \<Rightarrow> MemoryStorage \<Rightarrow> string \<Rightarrow> string \<Rightarrow> (RepoError + MergePreview) option" where
  "preview_merge fuel E r s source target =
     map_option (\<lambda>computed. try_bind computed (\<lambda>mc.
       let target_entries = top_level_entries s (mc_target_state_root mc);
           merged_entries = top_level_entries_of_obj s (mc_result mc) (result_root E (mc_result mc))
       in Inr \<lparr> mp_fast_forward = (case mc_result mc of FastForward _ \<Rightarrow> True | _ \<Rightarrow> False),
                mp_added = sort (filter (\<lambda>k. map_of target_entries k = None) (bt_keys merged_entries)),
                mp_changed = sort (map fst (filter (\<lambda>(k, v). case map_of target_entries k of
                                                     Some tv \<Rightarrow> tv \<noteq> v | None \<Rightarrow> False) merged_entries)),
                mp_removed = sort (filter (\<lambda>k. map_of merged_entries k = None) (bt_keys target_entries)),
                mp_conflicts = (case mc_result mc of MergeConflicts _ cs \<Rightarrow> cs | _ \<Rightarrow> []) \<rparr>))
       (compute_merge fuel E r s source target)"

text \<open>Storing the nodes a merge made and its root, and the integrity gate.\<close>

definition store_merged ::
  "Env \<Rightarrow> MemoryStorage \<Rightarrow> Object list \<Rightarrow> Object \<Rightarrow> ObjectId repo_result" where
  "store_merged E s created merged =
     rbind (on_storage (os_batch_put (memory_store (ev_oid E)) s (created @ [merged])))
       (\<lambda>s1 _. case first_missing_reachable s1 (ev_oid E merged) of
          Some missing \<Rightarrow> (s1, Inl (RIntegrityViolation (ev_oid E merged) missing))
        | None \<Rightarrow> (s1, Inr (ev_oid E merged)))"

definition then_some :: "'a \<Rightarrow> bool repo_result \<Rightarrow> 'a option repo_result" where
  "then_some x m = rbind m (\<lambda>s moved. (s, Inr (if moved then Some x else None)))"

fun land_merge ::
  "Env \<Rightarrow> nat \<Rightarrow> (MemoryStorage \<Rightarrow> MemoryStorage) \<Rightarrow> Repository \<Rightarrow> MemoryStorage \<Rightarrow> string \<Rightarrow> bool \<Rightarrow>
   CommitOptions \<Rightarrow> MergeComputation \<Rightarrow> MergeResult \<Rightarrow> ObjectId option repo_result" where
  "land_merge E k interfere r s target is_branch options mc (MergeSuccess merged_obj) =
     rbind (store_merged E s (mc_created mc) merged_obj) (\<lambda>s1 merged_root.
       rbind (create_commit E k r s1 merged_root [mc_target_commit_id mc, mc_source_commit_id mc] options)
         (\<lambda>s2 commit. then_some (cm_id commit)
            (move_ref r (ev_at_check E k s2) (interfere s2) target (mc_target_commit_id mc) is_branch (cm_id commit))))"
| "land_merge E k interfere r s target is_branch options mc (FastForward ff_id) =
     (let ff_commit = (if ff_id = mc_source_state_root mc then mc_source_commit_id mc
                       else mc_target_commit_id mc)
      in then_some ff_commit
           (move_ref r (ev_at_check E k s) (interfere s) target (mc_target_commit_id mc) is_branch ff_commit))"
| "land_merge E k interfere r s target is_branch options mc (MergeConflicts _ conflicts) =
     (s, Inl (RMergeConflicts conflicts))"

definition try_merge_checked ::
  "nat \<Rightarrow> Env \<Rightarrow> nat \<Rightarrow> (MemoryStorage \<Rightarrow> MemoryStorage) \<Rightarrow> Repository \<Rightarrow> MemoryStorage \<Rightarrow> string \<Rightarrow> string \<Rightarrow>
   CommitOptions \<Rightarrow> bool \<Rightarrow> ObjectId option repo_result option" where
  "try_merge_checked fuel E k interfere r s source target options allow_deletions =
     (case head_for_write r s target of
        Inl e \<Rightarrow> Some (s, Inl e)
      | Inr (_, target_is_branch) \<Rightarrow>
          map_option
            (\<lambda>computed. case computed of
               Inl e \<Rightarrow> (s, Inl e)
             | Inr mc \<Rightarrow>
                 let removed = top_level_removals E s mc in
                 if \<not> allow_deletions \<and> removed \<noteq> [] then (s, Inl (RMergeWouldDelete removed))
                 else land_merge E k interfere r s target target_is_branch options mc (mc_result mc))
            (compute_merge fuel E r s source target))"

fun merge_attempts ::
  "nat \<Rightarrow> nat \<Rightarrow> nat \<Rightarrow> Env \<Rightarrow> (nat \<Rightarrow> MemoryStorage \<Rightarrow> MemoryStorage) \<Rightarrow> Repository \<Rightarrow> MemoryStorage \<Rightarrow>
   string \<Rightarrow> string \<Rightarrow> CommitOptions \<Rightarrow> bool \<Rightarrow> ObjectId repo_result option" where
  "merge_attempts fuel 0 k E others r s source target options allow_deletions = Some (s, Inl RWriteConflict)"
| "merge_attempts fuel (Suc n) k E others r s source target options allow_deletions =
     (case try_merge_checked fuel E k (others k) r s source target options allow_deletions of
        None \<Rightarrow> None
      | Some (s1, Inl e) \<Rightarrow> Some (s1, Inl e)
      | Some (s1, Inr (Some i)) \<Rightarrow> Some (s1, Inr i)
      | Some (s1, Inr None) \<Rightarrow>
          merge_attempts fuel n (Suc k) E others r s1 source target options allow_deletions)"

definition merge_checked ::
  "nat \<Rightarrow> Env \<Rightarrow> (nat \<Rightarrow> MemoryStorage \<Rightarrow> MemoryStorage) \<Rightarrow> Repository \<Rightarrow> MemoryStorage \<Rightarrow> string \<Rightarrow>
   string \<Rightarrow> CommitOptions \<Rightarrow> bool \<Rightarrow> ObjectId repo_result option" where
  "merge_checked fuel E others r s source target options allow_deletions =
     merge_attempts fuel MAX_REF_CAS_ATTEMPTS 0 E others r s source target options allow_deletions"

definition repo_merge ::
  "nat \<Rightarrow> Env \<Rightarrow> (nat \<Rightarrow> MemoryStorage \<Rightarrow> MemoryStorage) \<Rightarrow> Repository \<Rightarrow> MemoryStorage \<Rightarrow> string \<Rightarrow>
   string \<Rightarrow> CommitOptions \<Rightarrow> ObjectId repo_result option" where
  "repo_merge fuel E others r s source target options =
     merge_checked fuel E others r s source target options True"

definition cross_namespace_merge ::
  "nat \<Rightarrow> Env \<Rightarrow> (nat \<Rightarrow> MemoryStorage \<Rightarrow> MemoryStorage) \<Rightarrow> Repository \<Rightarrow> MemoryStorage \<Rightarrow> string \<Rightarrow>
   string \<Rightarrow> string \<Rightarrow> CommitOptions \<Rightarrow> ObjectId repo_result option" where
  "cross_namespace_merge fuel E others r s source_namespace source_branch target_branch options =
     (case namespace_new source_namespace of
        Inl e \<Rightarrow> Some (s, Inl (RInvalidOperation (namespace_error_string E e)))
      | Inr source_ns \<Rightarrow>
          if source_ns = active_namespace r
          then repo_merge fuel E others r s source_branch target_branch options
          else Some (s, Inl RCrossNamespaceAccessDenied))"

section \<open>Diffs\<close>

definition repo_diff ::
  "nat \<Rightarrow> Repository \<Rightarrow> MemoryStorage \<Rightarrow> string \<Rightarrow> string \<Rightarrow> (RepoError + DiffOp list) option" where
  "repo_diff fuel r s ref_a ref_b =
     (case try_bind (resolve_ref r s ref_a) (\<lambda>commit_a.
             try_bind (resolve_ref r s ref_b) (\<lambda>commit_b.
               try_bind (commit_or (RRefNotFound ref_a) s commit_a) (\<lambda>ca.
                 try_bind (commit_or (RRefNotFound ref_b) s commit_b) (\<lambda>cb. Inr (ca, cb))))) of
        Inl e \<Rightarrow> Some (Inl e)
      | Inr (ca, cb) \<Rightarrow> map_option Inr (diff (resolver s) fuel (cm_state_root ca) (cm_state_root cb)))"

section \<open>Integrity\<close>

definition first_missing_object :: "MemoryStorage \<Rightarrow> ObjectId \<Rightarrow> RepoError + ObjectId option" where
  "first_missing_object s commit_id =
     try_bind (commit_or (RCommitNotFound (short_id commit_id)) s commit_id)
       (\<lambda>commit. Inr (first_missing_reachable s (cm_state_root commit)))"

end
