(* ===== verification/Repo_Speculation.thy ===== *)
theory Repo_Speculation
  imports Repo_Merge "HOL-Library.AList"
begin

text \<open>
  Speculations: the manager of \<open>speculation.rs\<close>, a table of isolated forks of the state, and the
  operations of \<open>repo.rs\<close> that open, change, land and discard them. The pins that keep a speculation's
  objects from garbage collection are no-ops of the in-memory store. Handles come from a counter that
  the whole process shares; it is part of the manager here.
\<close>

section \<open>The manager\<close>

record Speculation =
  sp_label :: "string option"
  sp_base_ref :: string
  sp_base_root :: ObjectId
  sp_current_root :: ObjectId

record SpeculationManager =
  sm_specs :: "(SpecHandle \<times> Speculation) list"
  sm_next :: u64

record SpecComparisonEntry =
  ce_handle :: SpecHandle
  ce_label :: "string option"
  ce_diff_from_base :: "DiffOp list"

record SpecComparison =
  sc_base_ref :: string
  sc_entries :: "SpecComparisonEntry list"

definition MAX_LIVE_SPECULATIONS :: nat where "MAX_LIVE_SPECULATIONS = 1024"

definition spec_new :: SpeculationManager where
  "spec_new = \<lparr> sm_specs = [], sm_next = 1 \<rparr>"

definition spec_create ::
  "SpeculationManager \<Rightarrow> string \<Rightarrow> ObjectId \<Rightarrow> string option \<Rightarrow> SpeculationManager \<times> (SpecError + SpecHandle)" where
  "spec_create m base_ref base_root label =
     (if MAX_LIVE_SPECULATIONS \<le> length (sm_specs m)
      then (m, Inl (SpTooMany (length (sm_specs m)) MAX_LIVE_SPECULATIONS))
      else let handle = SpecHandle (sm_next m) in
        (m\<lparr>sm_next := sm_next m + 1,
           sm_specs := AList.update handle \<lparr> sp_label = label, sp_base_ref = base_ref,
             sp_base_root = base_root, sp_current_root = base_root \<rparr> (sm_specs m)\<rparr>, Inr handle))"

definition spec_find :: "SpeculationManager \<Rightarrow> SpecHandle \<Rightarrow> SpecError + Speculation" where
  "spec_find m handle = ok_or (SpNotFound handle) (map_of (sm_specs m) handle)"

definition spec_path :: "string \<Rightarrow> SpecError + StatePath" where
  "spec_path path = map_err (\<lambda>e. SpTree (TPathNotFound (path_error_string e))) (path_parse path)"

text \<open>The overlay of a speculation is empty, so it resolves objects as the store does.\<close>

definition spec_get ::
  "Env \<Rightarrow> SpeculationManager \<Rightarrow> MemoryStorage \<Rightarrow> SpecHandle \<Rightarrow> string \<Rightarrow> SpecError + Object" where
  "spec_get E m s handle path =
     try_bind (spec_find m handle)
       (\<lambda>spec. try_bind (spec_path path)
          (\<lambda>p. if map_of (ms_objects s) (sp_current_root spec) = None
               then Inl (SpTree (TPathNotFound ''root not found''))
               else map_err SpTree (tree_get (memory_store (ev_oid E)) s (sp_current_root spec) p)))"

definition spec_move :: "SpeculationManager \<Rightarrow> SpecHandle \<Rightarrow> Speculation \<Rightarrow> ObjectId \<Rightarrow> SpeculationManager" where
  "spec_move m handle spec new_root =
     m\<lparr>sm_specs := AList.update handle (spec\<lparr>sp_current_root := new_root\<rparr>) (sm_specs m)\<rparr>"

definition spec_set ::
  "Env \<Rightarrow> SpeculationManager \<Rightarrow> MemoryStorage \<Rightarrow> SpecHandle \<Rightarrow> string \<Rightarrow> Object \<Rightarrow>
   SpeculationManager \<times> MemoryStorage \<times> (SpecError + unit)" where
  "spec_set E m s handle path value =
     (case try_bind (spec_find m handle) (\<lambda>spec. try_bind (spec_path path) (\<lambda>p. Inr (spec, p))) of
        Inl e \<Rightarrow> (m, s, Inl e)
      | Inr (spec, p) \<Rightarrow>
          (case put_object (ev_oid E) s value of
             (s1, Inl e) \<Rightarrow> (m, s1, Inl (SpStorage e))
           | (s1, Inr _) \<Rightarrow>
               (case tree_set (memory_store (ev_oid E)) s1 (sp_current_root spec) p value of
                  (s2, Inl e) \<Rightarrow> (m, s2, Inl (SpTree e))
                | (s2, Inr new_root) \<Rightarrow> (spec_move m handle spec new_root, s2, Inr ()))))"

definition spec_delete ::
  "Env \<Rightarrow> SpeculationManager \<Rightarrow> MemoryStorage \<Rightarrow> SpecHandle \<Rightarrow> string \<Rightarrow>
   SpeculationManager \<times> MemoryStorage \<times> (SpecError + unit)" where
  "spec_delete E m s handle path =
     (case try_bind (spec_find m handle) (\<lambda>spec. try_bind (spec_path path) (\<lambda>p. Inr (spec, p))) of
        Inl e \<Rightarrow> (m, s, Inl e)
      | Inr (spec, p) \<Rightarrow>
          (case tree_delete (memory_store (ev_oid E)) s (sp_current_root spec) p of
             (s1, Inl e) \<Rightarrow> (m, s1, Inl (SpTree e))
           | (s1, Inr new_root) \<Rightarrow> (spec_move m handle spec new_root, s1, Inr ())))"

fun compare_entries ::
  "nat \<Rightarrow> SpeculationManager \<Rightarrow> MemoryStorage \<Rightarrow> SpecHandle list \<Rightarrow>
   (SpecError + SpecComparisonEntry list) option" where
  "compare_entries fuel m s [] = Some (Inr [])"
| "compare_entries fuel m s (h # hs) =
     (case spec_find m h of
        Inl e \<Rightarrow> Some (Inl e)
      | Inr spec \<Rightarrow>
          (case diff (resolver s) fuel (sp_base_root spec) (sp_current_root spec) of
             None \<Rightarrow> None
           | Some ops \<Rightarrow>
               map_option (\<lambda>rest. try_bind rest (\<lambda>es. Inr (\<lparr> ce_handle = h, ce_label = sp_label spec,
                   ce_diff_from_base = ops \<rparr> # es))) (compare_entries fuel m s hs)))"

definition spec_compare ::
  "nat \<Rightarrow> SpeculationManager \<Rightarrow> MemoryStorage \<Rightarrow> SpecHandle list \<Rightarrow> (SpecError + SpecComparison) option" where
  "spec_compare fuel m s handles =
     map_option (\<lambda>es. try_bind es (\<lambda>entries.
         Inr \<lparr> sc_base_ref = (if handles = [] then []
                              else case map_of (sm_specs m) (last handles) of
                                Some spec \<Rightarrow> sp_base_ref spec | None \<Rightarrow> []),
               sc_entries = entries \<rparr>))
       (compare_entries fuel m s handles)"

definition spec_remove :: "SpeculationManager \<Rightarrow> SpecHandle \<Rightarrow> SpeculationManager" where
  "spec_remove m handle = m\<lparr>sm_specs := AList.delete handle (sm_specs m)\<rparr>"

definition spec_commit ::
  "SpeculationManager \<Rightarrow> SpecHandle \<Rightarrow> SpeculationManager \<times> (SpecError + ObjectId \<times> string)" where
  "spec_commit m handle =
     (spec_remove m handle, try_bind (spec_find m handle) (\<lambda>spec. Inr (sp_current_root spec, sp_base_ref spec)))"

definition commit_with_base ::
  "SpeculationManager \<Rightarrow> SpecHandle \<Rightarrow> SpeculationManager \<times> (SpecError + ObjectId \<times> ObjectId \<times> string)" where
  "commit_with_base m handle =
     (spec_remove m handle,
      try_bind (spec_find m handle) (\<lambda>spec. Inr (sp_current_root spec, sp_base_root spec, sp_base_ref spec)))"

definition spec_discard :: "SpeculationManager \<Rightarrow> SpecHandle \<Rightarrow> SpeculationManager \<times> (SpecError + unit)" where
  "spec_discard m handle = (spec_remove m handle, try_bind (spec_find m handle) (\<lambda>_. Inr ()))"

definition spec_current_root :: "SpeculationManager \<Rightarrow> SpecHandle \<Rightarrow> SpecError + ObjectId" where
  "spec_current_root m handle = try_bind (spec_find m handle) (\<lambda>spec. Inr (sp_current_root spec))"

definition spec_list :: "SpeculationManager \<Rightarrow> (SpecHandle \<times> string option) list" where
  "spec_list m = map (\<lambda>(h, spec). (h, sp_label spec)) (sm_specs m)"

definition spec_count :: "SpeculationManager \<Rightarrow> nat" where
  "spec_count m = length (sm_specs m)"

section \<open>The repository's operations\<close>

definition speculate ::
  "Repository \<Rightarrow> SpeculationManager \<Rightarrow> MemoryStorage \<Rightarrow> string \<Rightarrow> string option \<Rightarrow>
   SpeculationManager \<times> (RepoError + SpecHandle)" where
  "speculate r m s from_ref label =
     (case ref_commit r s from_ref of
        Inl e \<Rightarrow> (m, Inl e)
      | Inr commit \<Rightarrow> map_prod id (map_err RSpeculation) (spec_create m from_ref (cm_state_root commit) label))"

definition base_entry :: "(ObjectId, Object) btree \<Rightarrow> ObjectId option \<Rightarrow> string \<Rightarrow> ObjectId option" where
  "base_entry objects base k =
     (case base of
        None \<Rightarrow> None
      | Some b \<Rightarrow> (case map_of objects b of Some obj \<Rightarrow> map_of (map_entries obj) k | None \<Rightarrow> None))"

fun children_with_base ::
  "(ObjectId, Object) btree \<Rightarrow> ObjectId option \<Rightarrow> Object \<Rightarrow> (ObjectId \<times> ObjectId option) list" where
  "children_with_base objects base (OAtom _) = []"
| "children_with_base objects base (ONode (NMap entries)) =
     map (\<lambda>(k, child). (child, base_entry objects base k)) entries"
| "children_with_base objects base (ONode (NList items)) = map (\<lambda>c. (c, None)) items"
| "children_with_base objects base (ONode (NSet items)) = map (\<lambda>c. (c, None)) items"

function first_missing_new_walk ::
  "(ObjectId, Object) btree \<Rightarrow> ObjectId list \<Rightarrow> (ObjectId \<times> ObjectId option) list \<Rightarrow> ObjectId option" where
  "first_missing_new_walk objects seen [] = None"
| "first_missing_new_walk objects seen ((i, base) # stack) =
     (if Some i = base \<or> i \<in> set seen then first_missing_new_walk objects seen stack
      else case map_of objects i of
             None \<Rightarrow> Some i
           | Some obj \<Rightarrow>
               first_missing_new_walk objects (i # seen) (rev (children_with_base objects base obj) @ stack))"
  by pat_completeness auto

termination first_missing_new_walk
proof (relation "measures [\<lambda>(objects, seen, stack). card (fst ` set objects - set seen),
    \<lambda>(objects, seen, stack). length stack]")
  fix objects :: "(ObjectId, Object) btree" and i base seen stack obj
  assume "\<not> (Some i = base \<or> i \<in> set seen)" "map_of objects i = Some obj"
  moreover from this have "i \<in> fst ` set objects" by (force dest: map_of_SomeD)
  ultimately show "((objects, i # seen, rev (children_with_base objects base obj) @ stack),
      objects, seen, (i, base) # stack)
      \<in> measures [\<lambda>(objects, seen, stack). card (fst ` set objects - set seen),
          \<lambda>(objects, seen, stack). length stack]"
    using card_fresh_key [of i objects "set seen"] by simp
qed auto

definition first_missing_new :: "MemoryStorage \<Rightarrow> ObjectId \<Rightarrow> ObjectId \<Rightarrow> ObjectId option" where
  "first_missing_new s base_root new_root =
     first_missing_new_walk (ms_objects s) [] [(new_root, Some base_root)]"

text \<open>The check of reserved paths: \<open>None\<close> when the diff runs out of fuel.\<close>

definition spec_meta_guard ::
  "nat \<Rightarrow> MemoryStorage \<Rightarrow> ObjectId \<Rightarrow> ObjectId \<Rightarrow> CommitOptions \<Rightarrow> (RepoError + unit) option" where
  "spec_meta_guard fuel s base_root spec_root options =
     (if in_category (co_intent options) = Migrate then Some (Inr ())
      else map_option (\<lambda>ops. case reserved_path_in_diff ops of
             Some path \<Rightarrow> Inl (RReservedPath path) | None \<Rightarrow> Inr ())
           (diff (resolver s) fuel base_root spec_root))"

text \<open>The root a speculation lands: its own when the base has not moved, otherwise the merge of its
  changes onto the head, in which the speculation wins.\<close>

definition landing_root ::
  "nat \<Rightarrow> Env \<Rightarrow> MemoryStorage \<Rightarrow> ObjectId \<Rightarrow> ObjectId \<Rightarrow> ObjectId \<Rightarrow> ObjectId repo_result option" where
  "landing_root fuel E s spec_root base_root parent_root =
     (if parent_root = base_root
      then Some (case first_missing_new s base_root spec_root of
                   Some missing \<Rightarrow> (s, Inl (RIntegrityViolation spec_root missing))
                 | None \<Rightarrow> (s, Inr spec_root))
      else map_option
        (\<lambda>merged. case merged of
           Inl missing \<Rightarrow> (s, Inl (RIntegrityViolation spec_root missing))
         | Inr (FastForward i, created) \<Rightarrow> (s, Inr i)
         | Inr (MergeSuccess merged_obj, created) \<Rightarrow> store_merged E s created merged_obj
         | Inr (MergeConflicts partial _, created) \<Rightarrow> store_merged E s created partial)
        (try_three_way_merge_collect (resolver s) (ev_oid E) fuel base_root spec_root parent_root))"

fun spec_attempts ::
  "nat \<Rightarrow> nat \<Rightarrow> nat \<Rightarrow> Env \<Rightarrow> (nat \<Rightarrow> MemoryStorage \<Rightarrow> MemoryStorage) \<Rightarrow> Repository \<Rightarrow> MemoryStorage \<Rightarrow>
   string \<Rightarrow> ObjectId \<Rightarrow> ObjectId \<Rightarrow> CommitOptions \<Rightarrow> ObjectId repo_result option" where
  "spec_attempts fuel 0 k E others r s base_ref spec_root base_root options = Some (s, Inl RWriteConflict)"
| "spec_attempts fuel (Suc n) k E others r s base_ref spec_root base_root options =
     (case head_for_write r s base_ref of
        Inl e \<Rightarrow> Some (s, Inl e)
      | Inr (parent_id, is_branch) \<Rightarrow>
          (case commit_or (RRefNotFound base_ref) s parent_id of
             Inl e \<Rightarrow> Some (s, Inl e)
           | Inr parent \<Rightarrow>
               (case landing_root fuel E s spec_root base_root (cm_state_root parent) of
                  None \<Rightarrow> None
                | Some (s1, Inl e) \<Rightarrow> Some (s1, Inl e)
                | Some (s1, Inr new_root) \<Rightarrow>
                    (case create_commit E k r s1 new_root [parent_id] options of
                       (s2, Inl e) \<Rightarrow> Some (s2, Inl e)
                     | (s2, Inr commit) \<Rightarrow>
                         (case move_ref r (ev_at_check E k s2) (others k s2) base_ref parent_id is_branch (cm_id commit) of
                            (s3, Inl e) \<Rightarrow> Some (s3, Inl e)
                          | (s3, Inr True) \<Rightarrow> Some (s3, Inr (cm_id commit))
                          | (s3, Inr False) \<Rightarrow>
                              spec_attempts fuel n (Suc k) E others r s3 base_ref spec_root base_root
                                options)))))"

definition commit_speculation ::
  "nat \<Rightarrow> Env \<Rightarrow> (nat \<Rightarrow> MemoryStorage \<Rightarrow> MemoryStorage) \<Rightarrow> Repository \<Rightarrow> SpeculationManager \<Rightarrow>
   MemoryStorage \<Rightarrow> SpecHandle \<Rightarrow> CommitOptions \<Rightarrow> (SpeculationManager \<times> ObjectId repo_result) option" where
  "commit_speculation fuel E others r m s handle options =
     (case commit_with_base m handle of
        (m1, Inl e) \<Rightarrow> Some (m1, s, Inl (RSpeculation e))
      | (m1, Inr (spec_root, base_root, base_ref)) \<Rightarrow>
          map_option (Pair m1)
            (case spec_meta_guard fuel s base_root spec_root options of
               None \<Rightarrow> None
             | Some (Inl e) \<Rightarrow> Some (s, Inl e)
             | Some (Inr _) \<Rightarrow>
                 spec_attempts fuel MAX_REF_CAS_ATTEMPTS 0 E others r s base_ref spec_root base_root options))"

definition commit_speculation_cas ::
  "nat \<Rightarrow> Env \<Rightarrow> (MemoryStorage \<Rightarrow> MemoryStorage) \<Rightarrow> Repository \<Rightarrow> SpeculationManager \<Rightarrow> MemoryStorage \<Rightarrow>
   SpecHandle \<Rightarrow> ObjectId \<Rightarrow> CommitOptions \<Rightarrow> (SpeculationManager \<times> ObjectId repo_result) option" where
  "commit_speculation_cas fuel E interfere r m s handle expected_head options =
     (case commit_with_base m handle of
        (m1, Inl e) \<Rightarrow> Some (m1, s, Inl (RSpeculation e))
      | (m1, Inr (spec_root, base_root, base_ref)) \<Rightarrow>
          map_option (Pair m1)
            (case commit_or (RCommitNotFound (short_id expected_head)) s expected_head of
               Inl e \<Rightarrow> Some (s, Inl e)
             | Inr expected \<Rightarrow>
                 if base_root \<noteq> cm_state_root expected then Some (s, Inl RWriteConflict)
                 else case spec_meta_guard fuel s base_root spec_root options of
                        None \<Rightarrow> None
                      | Some (Inl e) \<Rightarrow> Some (s, Inl e)
                      | Some (Inr _) \<Rightarrow>
                          Some (case first_missing_new s base_root spec_root of
                              Some missing \<Rightarrow> (s, Inl (RIntegrityViolation spec_root missing))
                            | None \<Rightarrow>
                                rbind (create_commit E 0 r s spec_root [expected_head] options) (\<lambda>s1 commit.
                                  rbind (advance_ref r (ev_at_check E 0 s1) (interfere s1) base_ref expected_head (cm_id commit))
                                    (\<lambda>s2 moved. if moved then (s2, Inr (cm_id commit))
                                                else (s2, Inl RWriteConflict))))))"

definition discard_speculation ::
  "SpeculationManager \<Rightarrow> SpecHandle \<Rightarrow> SpeculationManager \<times> (RepoError + unit)" where
  "discard_speculation m handle = map_prod id (map_err RSpeculation) (spec_discard m handle)"

end
