(* ===== verification/Repo_Laws.thy ===== *)
theory Repo_Laws
  imports Repo_Merge Repo_Speculation Memory_Laws
begin

text \<open>
  Laws of the repository's operations: how a ref moves, what a commit adds to the store, what holds
  when a write, a merge or a speculation lands, and how sealed epochs bind \<open>main\<close>.
\<close>

section \<open>Sequencing\<close>

lemma rbind_simps [simp]: "rbind (s, Inl e) f = (s, Inl e)" "rbind (s, Inr x) f = f s x"
  by (simp_all add: rbind_def)

lemma rbind_InrE:
  assumes "rbind m f = (s', Inr y)"
  obtains s x where "m = (s, Inr x)" "f s x = (s', Inr y)"
  using assms by (auto simp: rbind_def split: prod.splits sum.splits)

lemma on_storage_Inr: "on_storage m = (s', Inr y) \<longleftrightarrow> m = (s', Inr y)"
  by (cases m; cases "snd m") (auto simp: map_err_def)

lemma on_tree_Inr: "on_tree m = (s', Inr y) \<longleftrightarrow> m = (s', Inr y)"
  by (cases m; cases "snd m") (auto simp: map_err_def)

section \<open>Tree writes only store objects\<close>

lemma store_child_keeps:
  assumes "\<And>s x. P s \<Longrightarrow> P (fst (os_put S s x))" "P (fst r)"
  shows "P (fst (store_child S r))"
  using assms(2) assms(1) [of "fst r"]
  by (cases r; cases "snd r") (simp_all add: store_child_def store_object_def split_beta)

lemma rebuild_keeps [simp]: "fst (rebuild f r) = fst r"
  by (cases r; cases "snd r") (simp_all add: rebuild_def)

lemma set_recursive_keeps:
  assumes put: "\<And>s x. P s \<Longrightarrow> P (fst (os_put S s x))"
  shows "P s \<Longrightarrow> P (fst (set_recursive S s x p d i))"
proof (induction p arbitrary: x d)
  case (Cons c p)
  note child = store_child_keeps [of P S, OF put]
  show ?case
  proof (cases x)
    case (OAtom a)
    with Cons child show ?thesis by (cases a; cases c) simp_all
  next
    case (ONode n)
    with Cons child show ?thesis
      by (cases n; cases c) (simp_all split: option.splits sum.splits)
  qed
qed simp

lemma delete_recursive_keeps:
  assumes put: "\<And>s x. P s \<Longrightarrow> P (fst (os_put S s x))"
  shows "P s \<Longrightarrow> P (fst (delete_recursive S s x p d))"
proof (induction p arbitrary: x d)
  case (Cons c p)
  note child = store_child_keeps [of P S, OF put]
  show ?case
  proof (cases x)
    case (ONode n)
    with Cons child show ?thesis
      by (cases n; cases c) (simp_all split: option.splits sum.splits)
  qed (use Cons in simp)
qed simp

lemma tree_set_keeps:
  assumes put: "\<And>s x. P s \<Longrightarrow> P (fst (os_put S s x))"
  shows "P s \<Longrightarrow> P (fst (tree_set S s root p v))"
proof -
  assume "P s"
  obtain s1 t where s1: "store_object S s v = (s1, t)" by force
  with put [OF \<open>P s\<close>, of v] have "P s1" by (simp add: store_object_def split_beta)
  with s1 store_child_keeps [of P S, OF put] set_recursive_keeps [of P S, OF put] show ?thesis
    by (cases t; cases "load_object S s1 root") (simp_all add: tree_set_def)
qed

lemma tree_delete_keeps:
  assumes put: "\<And>s x. P s \<Longrightarrow> P (fst (os_put S s x))"
  shows "P s \<Longrightarrow> P (fst (tree_delete S s root p))"
  using put [of s empty_map] store_child_keeps [of P S, OF put] delete_recursive_keeps [of P S, OF put]
  by (cases "load_object S s root") (simp_all add: tree_delete_def store_object_def split_beta)

definition same_but_objects :: "MemoryStorage \<Rightarrow> MemoryStorage \<Rightarrow> bool" where
  "same_but_objects s s' \<longleftrightarrow> s'\<lparr>ms_objects := []\<rparr> = s\<lparr>ms_objects := []\<rparr>"

lemma same_but_objects_fields:
  assumes "same_but_objects s s'"
  shows "ms_refs s' = ms_refs s \<and> ms_commits s' = ms_commits s \<and> ms_epochs s' = ms_epochs s \<and>
    ms_namespaces s' = ms_namespaces s \<and> ms_taints s' = ms_taints s \<and> ms_sessions s' = ms_sessions s \<and>
    ms_commit_epoch s' = ms_commit_epoch s \<and> ms_commit_session s' = ms_commit_session s \<and>
    ms_commit_traces s' = ms_commit_traces s"
  using assms unfolding same_but_objects_def by (cases s; cases s') simp

lemma same_but_objects_refl [simp]: "same_but_objects s s"
  by (simp add: same_but_objects_def)

lemma put_object_same: "same_but_objects s0 s \<Longrightarrow> same_but_objects s0 (fst (os_put (memory_store oid) s x))"
  by (simp add: same_but_objects_def memory_store_def put_object_def)

lemma memory_tree_writes_same:
  "tree_set (memory_store oid) s root p v = (s', t) \<Longrightarrow> same_but_objects s s'"
  "tree_delete (memory_store oid) s root p = (s', t) \<Longrightarrow> same_but_objects s s'"
  using tree_set_keeps [of "same_but_objects s" "memory_store oid", OF put_object_same, of s root p v]
    tree_delete_keeps [of "same_but_objects s" "memory_store oid", OF put_object_same, of s root p]
  by simp_all

text \<open>Reads of a tree see only the objects.\<close>

lemma load_object_cong:
  "ms_objects s' = ms_objects s \<Longrightarrow> load_object (memory_store oid) s' i = load_object (memory_store oid) s i"
  by (simp add: load_object_def memory_store_def get_object_def)

lemma navigate_cong:
  assumes "ms_objects s' = ms_objects s"
  shows "navigate (memory_store oid) s' x c p = navigate (memory_store oid) s x c p"
proof (cases x)
  case (ONode n)
  then show ?thesis
    by (cases n; cases c) (simp_all add: load_object_cong [OF assms] split: option.splits)
qed (cases c; simp)

lemma navigate_path_cong:
  assumes "ms_objects s' = ms_objects s"
  shows "navigate_path (memory_store oid) s' x cs p = navigate_path (memory_store oid) s x cs p"
  by (induction cs arbitrary: x) (simp_all add: navigate_cong [OF assms] split: sum.splits)

lemma tree_get_objects_cong:
  assumes "ms_objects s' = ms_objects s"
  shows "tree_get (memory_store oid) s' root p = tree_get (memory_store oid) s root p"
  by (simp add: tree_get_def load_object_cong [OF assms] navigate_path_cong [OF assms] split: sum.splits)

section \<open>Moving refs\<close>

definition ref_of :: "Repository \<Rightarrow> MemoryStorage \<Rightarrow> string \<Rightarrow> ObjectId option" where
  "ref_of r s name = map_of (ms_refs s) (ns_str (active_namespace r), name)"

definition has_active :: "Repository \<Rightarrow> MemoryStorage \<Rightarrow> bool" where
  "has_active r s \<longleftrightarrow> ns_str (active_namespace r) \<in> set (ms_namespaces s)"

lemma get_ref_active: "has_active r s \<Longrightarrow> get_ref s (active_namespace r) name = Inr (ref_of r s name)"
  by (simp add: has_active_def get_ref_def require_namespace_def ref_of_def)

definition ref_moved :: "Repository \<Rightarrow> MemoryStorage \<Rightarrow> string \<Rightarrow> ObjectId \<Rightarrow> MemoryStorage" where
  "ref_moved r s name new = set_ref_write s (active_namespace r) name new"

lemma ref_moved_fields [simp]:
  "ms_objects (ref_moved r s name new) = ms_objects s" "ms_commits (ref_moved r s name new) = ms_commits s"
  "ms_epochs (ref_moved r s name new) = ms_epochs s" "ms_namespaces (ref_moved r s name new) = ms_namespaces s"
  "ms_taints (ref_moved r s name new) = ms_taints s"
  by (simp_all add: ref_moved_def set_ref_write_def)

lemma ref_moved_refs:
  "map_of (ms_refs (ref_moved r s name new)) = (map_of (ms_refs s))((ns_str (active_namespace r), name) \<mapsto> new)"
  by (simp add: ref_moved_def set_ref_write_def btree_simps)

lemma ref_of_moved [simp]:
  "ref_of r (ref_moved r s name new) n = (if n = name then Some new else ref_of r s n)"
  by (simp add: ref_of_def ref_moved_refs)

lemma advance_ref_Inr:
  assumes "advance_ref r checked s name expected new = (s', Inr moved)"
  shows "refuse_reserved_ref name = Inr () \<and> enforce_epoch_seals r checked name new = Inr () \<and> has_active r s \<and>
    moved = (ref_of r s name = Some expected) \<and> s' = (if moved then ref_moved r s name new else s)"
  using assms
  by (auto simp: advance_ref_def on_storage_Inr cas_ref_def cas_ref_swap_def require_namespace_def
      ref_of_def has_active_def ref_moved_def split: sum.splits if_splits option.splits)

lemma guarded_set_ref_Inr:
  assumes "guarded_set_ref r checked s name new = (s', Inr u)"
  shows "refuse_reserved_ref name = Inr () \<and> enforce_epoch_seals r checked name new = Inr () \<and> has_active r s \<and>
    s' = ref_moved r s name new"
  using assms
  by (auto simp: guarded_set_ref_def on_storage_Inr set_ref_def require_namespace_def has_active_def
      ref_moved_def split: sum.splits if_splits)

lemma move_ref_landed:
  assumes "move_ref r checked s name expected is_branch new = (s', Inr True)"
  shows "refuse_reserved_ref name = Inr () \<and> enforce_epoch_seals r checked name new = Inr () \<and> has_active r s \<and>
    (is_branch \<longrightarrow> ref_of r s name = Some expected) \<and> s' = ref_moved r s name new"
proof (cases is_branch)
  case True
  with assms advance_ref_Inr [of r checked s name expected new s' True] show ?thesis by (simp add: move_ref_def)
next
  case False
  with assms guarded_set_ref_Inr [of r checked s name new s'] show ?thesis
    by (auto simp: move_ref_def elim!: rbind_InrE)
qed

lemma move_ref_lost:
  assumes "move_ref r checked s name expected is_branch new = (s', Inr False)"
  shows "is_branch \<and> ref_of r s name \<noteq> Some expected \<and> s' = s"
proof (cases is_branch)
  case True
  with assms advance_ref_Inr [of r checked s name expected new s' False] show ?thesis by (auto simp: move_ref_def)
next
  case False
  with assms show ?thesis by (auto simp: move_ref_def elim!: rbind_InrE)
qed

section \<open>Commits\<close>

lemma store_commit_eq:
  "\<exists>traces. store_commit E s c =
     (s\<lparr>ms_commits := bt_insert (cm_id c) c (ms_commits s), ms_commit_traces := traces\<rparr>, Inr ())"
proof (cases "ev_trace E")
  case None
  then have "store_commit E s c = (s\<lparr>ms_commits := bt_insert (cm_id c) c (ms_commits s),
      ms_commit_traces := ms_commit_traces s\<rparr>, Inr ())"
    by (simp add: store_commit_def put_commit_traced_def put_commit_def)
  then show ?thesis by blast
next
  case (Some t)
  then show ?thesis
    by (simp add: store_commit_def put_commit_traced_def put_commit_def set_commit_trace_def)
       metis
qed

definition new_commit :: "Env \<Rightarrow> nat \<Rightarrow> ObjectId \<Rightarrow> ObjectId list \<Rightarrow> CommitOptions \<Rightarrow> Commit" where
  "new_commit E k root parents options =
     builder_build (ev_cid E) (ev_clock E k) (commit_builder root parents options)"

lemma new_commit_fields [simp]:
  "cm_state_root (new_commit E k root parents options) = root"
  "cm_parents (new_commit E k root parents options) = parents"
  "cm_timestamp (new_commit E k root parents options) = ev_clock E k"
  by (simp_all add: new_commit_def builder_build_def commit_builder_def Let_def builder_parents_def
      builder_new_def builder_reasoning_def builder_confidence_def builder_tool_calls_def
      split: option.splits)

text \<open>With no active epoch, a commit adds itself and nothing else that the tree or the refs see.\<close>

lemma create_commit_Inr:
  assumes "rp_active_epoch r = None" "create_commit E k r s root parents options = (s', Inr c)"
  shows "c = new_commit E k root parents options \<and> ms_objects s' = ms_objects s \<and>
    ms_refs s' = ms_refs s \<and> ms_namespaces s' = ms_namespaces s \<and> ms_epochs s' = ms_epochs s \<and>
    ms_taints s' = ms_taints s \<and> ms_commits s' = bt_insert (cm_id c) c (ms_commits s)"
proof -
  let ?c = "new_commit E k root parents options"
  obtain traces where st: "store_commit E s ?c =
      (s\<lparr>ms_commits := bt_insert (cm_id ?c) ?c (ms_commits s), ms_commit_traces := traces\<rparr>, Inr ())"
    using store_commit_eq by blast
  from assms st show ?thesis
    by (auto simp: create_commit_def new_commit_def [symmetric] Let_def set_commit_session_def on_storage_Inr
        split: option.splits if_splits elim!: rbind_InrE)
qed

lemma create_commit_answers:
  assumes "rp_active_epoch r = None" "rp_active_session r = None"
  shows "\<exists>s'. create_commit E k r s root parents options = (s', Inr (new_commit E k root parents options))"
  using store_commit_eq [of E s "new_commit E k root parents options"] assms
  by (auto simp: create_commit_def new_commit_def [symmetric] Let_def)

section \<open>Landing\<close>

text \<open>Every operation that answers a commit id ended with a ref that moved to it. \<open>landed\<close> says so:
  \<open>checked\<close> is the store the seals were checked in, \<open>s0\<close> the store at the moment of the move.\<close>

definition landed ::
  "Repository \<Rightarrow> MemoryStorage \<Rightarrow> MemoryStorage \<Rightarrow> string \<Rightarrow> ObjectId \<Rightarrow> bool \<Rightarrow> ObjectId \<Rightarrow> MemoryStorage \<Rightarrow> bool" where
  "landed r checked s0 name expected is_branch new s' \<longleftrightarrow>
     move_ref r checked s0 name expected is_branch new = (s', Inr True)"

lemma write_attempts_landed:
  assumes "write_attempts n k E others r s name update options = (s', Inr i)" "J s"
    and "\<forall>s root s' x. J s \<and> update s root = (s', Inr x) \<longrightarrow> J s'"
    and "\<forall>k s root parents s' x. J s \<and> create_commit E k r s root parents options = (s', Inr x) \<longrightarrow> J s'"
    and "\<forall>k s. J s \<longrightarrow> J (others k s)"
  shows "\<exists>k' s1 s2 s3 h b c new_root commit. J s1 \<and>
    head_for_write r s1 name = Inr (h, b) \<and> map_of (ms_commits s1) h = Some c \<and>
    update s1 (cm_state_root c) = (s2, Inr new_root) \<and>
    create_commit E k' r s2 new_root [h] options = (s3, Inr commit) \<and> i = cm_id commit \<and>
    landed r (ev_at_check E k' s3) (others k' s3) name h b i s'"
  using assms(1,2)
proof (induction n arbitrary: k s)
  case (Suc n)
  from Suc.prems(1) obtain h b c where h: "head_for_write r s name = Inr (h, b)"
    "map_of (ms_commits s) h = Some c"
    by (auto simp: commit_or_def try_bind_def ok_or_def get_commit_def map_err_def
        split: sum.splits option.splits prod.splits)
  from Suc.prems(1) h have "rbind (update s (cm_state_root c)) (\<lambda>s1 new_root.
      rbind (create_commit E k r s1 new_root [h] options) (\<lambda>s2 new_commit.
        rbind (move_ref r (ev_at_check E k s2) (others k s2) name h b (cm_id new_commit)) (\<lambda>s3 moved.
          if moved then (s3, Inr (cm_id new_commit))
          else write_attempts n (Suc k) E others r s3 name update options))) = (s', Inr i)"
    by (simp add: commit_or_def try_bind_def ok_or_def get_commit_def map_err_def)
  then obtain s2 new_root s3 commit s4 moved where run: "update s (cm_state_root c) = (s2, Inr new_root)"
    "create_commit E k r s2 new_root [h] options = (s3, Inr commit)"
    "move_ref r (ev_at_check E k s3) (others k s3) name h b (cm_id commit) = (s4, Inr moved)"
    "(if moved then (s4, Inr (cm_id commit))
      else write_attempts n (Suc k) E others r s4 name update options) = (s', Inr i)"
    by (elim rbind_InrE) blast
  show ?case
  proof (cases moved)
    case True
    with h run Suc.prems(2) show ?thesis
      by (intro exI [of _ k] exI [of _ s] exI [of _ s2] exI [of _ s3] exI [of _ h] exI [of _ b]
          exI [of _ c] exI [of _ new_root] exI [of _ commit]) (simp add: landed_def)
  next
    case False
    with run(3) have "s4 = others k s3" using move_ref_lost by simp
    with run(1,2) Suc.prems(2) assms(3-5) have "J s4" by blast
    with False run(4) Suc.IH [of "Suc k" s4] show ?thesis by simp
  qed
qed simp

lemma then_some_Inr: "then_some x m = (s', Inr (Some y)) \<longleftrightarrow> m = (s', Inr True) \<and> y = x"
  by (cases m; cases "snd m") (auto simp: then_some_def)

lemma land_merge_landed:
  assumes "land_merge E k interfere r s target b options mc res = (s', Inr (Some i))"
  shows "\<exists>s0. landed r (ev_at_check E k s0) (interfere s0) target (mc_target_commit_id mc) b i s'"
  using assms
  by (cases res) (auto simp: landed_def then_some_Inr Let_def elim!: rbind_InrE)

lemma try_merge_checked_Inr:
  assumes "try_merge_checked fuel E k interfere r s source target options ad = Some (s', Inr x)"
  shows "\<exists>h b mc. head_for_write r s target = Inr (h, b) \<and>
    compute_merge fuel E r s source target = Some (Inr mc) \<and>
    (ad \<or> top_level_removals E s mc = []) \<and>
    land_merge E k interfere r s target b options mc (mc_result mc) = (s', Inr x)"
proof (cases "head_for_write r s target")
  case (Inr hb)
  then obtain h b where hb: "head_for_write r s target = Inr (h, b)" by (cases hb) simp
  with assms obtain computed where computed: "compute_merge fuel E r s source target = Some computed"
    by (auto simp: try_merge_checked_def)
  with assms hb obtain mc where "computed = Inr mc"
    by (cases computed) (simp_all add: try_merge_checked_def)
  with assms hb computed show ?thesis
    by (auto simp: try_merge_checked_def Let_def split: if_splits)
qed (use assms in \<open>simp add: try_merge_checked_def\<close>)

lemma merge_attempts_landed:
  assumes "merge_attempts fuel n k E others r s source target options ad = Some (s', Inr i)"
  shows "\<exists>k' s0 h b. landed r (ev_at_check E k' s0) (others k' s0) target h b i s'"
  using assms
proof (induction n arbitrary: k s)
  case (Suc n)
  from Suc.prems obtain s1 x where x: "try_merge_checked fuel E k (others k) r s source target options ad
      = Some (s1, Inr x)" by (auto split: option.splits sum.splits prod.splits)
  show ?case
  proof (cases x)
    case None
    with Suc.prems x Suc.IH [of "Suc k" s1] show ?thesis by simp
  next
    case (Some j)
    with Suc.prems x have "s1 = s'" "j = i" by simp_all
    with x Some obtain mc b where
      "land_merge E k (others k) r s target b options mc (mc_result mc) = (s', Inr (Some i))"
      using try_merge_checked_Inr by blast
    from land_merge_landed [OF this] show ?thesis by blast
  qed
qed simp

lemma spec_attempts_landed:
  assumes "spec_attempts fuel n k E others r s base_ref spec_root base_root options = Some (s', Inr i)"
  shows "\<exists>k' s0 h b. landed r (ev_at_check E k' s0) (others k' s0) base_ref h b i s'"
  using assms
proof (induction n arbitrary: k s)
  case (Suc n)
  from Suc.prems obtain h b c s1 new_root s2 commit s3 moved where run:
    "create_commit E k r s1 new_root [h] options = (s2, Inr commit)"
    "move_ref r (ev_at_check E k s2) (others k s2) base_ref h b (cm_id commit) = (s3, Inr moved)"
    "(if moved then Some (s3, Inr (cm_id commit))
      else spec_attempts fuel n (Suc k) E others r s3 base_ref spec_root base_root options) = Some (s', Inr i)"
    by (auto split: sum.splits prod.splits option.splits bool.splits)
  show ?case
  proof (cases moved)
    case True
    with run show ?thesis unfolding landed_def by auto
  next
    case False
    with run Suc.IH show ?thesis by simp
  qed
qed simp

text \<open>What each operation that moves a ref ends with.\<close>

definition moves_to ::
  "Env \<Rightarrow> (nat \<Rightarrow> MemoryStorage \<Rightarrow> MemoryStorage) \<Rightarrow> Repository \<Rightarrow> string \<Rightarrow> ObjectId \<Rightarrow> MemoryStorage \<Rightarrow> bool" where
  "moves_to E others r name i s' \<longleftrightarrow>
     (\<exists>k t h b. landed r (ev_at_check E k t) (others k t) name h b i s')"

lemma write_attempts_moves:
  "write_attempts n k E others r s name update options = (s', Inr i) \<Longrightarrow> moves_to E others r name i s'"
  unfolding moves_to_def by (drule write_attempts_landed [where J = "\<lambda>_. True"]) auto

lemma repo_set_moves: "repo_set E others r s name path v options = (s', Inr i) \<Longrightarrow> moves_to E others r name i s'"
  by (cases "write_guards E s path options") (simp_all add: repo_set_def write_attempts_moves)

lemma repo_delete_moves:
  "repo_delete E others r s name path options = (s', Inr i) \<Longrightarrow> moves_to E others r name i s'"
  by (cases "write_guards E s path options") (simp_all add: repo_delete_def write_attempts_moves)

lemma write_taint_intent_moves:
  "write_taint_intent E others r s name category description agent reasoning = (s', Inr i) \<Longrightarrow>
   moves_to E others r name i s'"
  unfolding write_taint_intent_def Let_def by (rule write_attempts_moves)

lemma merge_checked_moves:
  "merge_checked fuel E others r s source target options ad = Some (s', Inr i) \<Longrightarrow> moves_to E others r target i s'"
  unfolding merge_checked_def moves_to_def by (drule merge_attempts_landed) blast

lemma commit_with_base_spec:
  "map_of (sm_specs m) handle = Some spec \<Longrightarrow> commit_with_base m handle =
     (spec_remove m handle, Inr (sp_current_root spec, sp_base_root spec, sp_base_ref spec))"
  by (simp add: commit_with_base_def spec_find_def ok_or_def try_bind_def)

lemma commit_speculation_moves:
  assumes "commit_speculation fuel E others r m s handle options = Some (m', s', Inr i)"
    and "map_of (sm_specs m) handle = Some spec"
  shows "moves_to E others r (sp_base_ref spec) i s'"
proof -
  obtain n k where "spec_attempts fuel n k E others r s (sp_base_ref spec) (sp_current_root spec)
      (sp_base_root spec) options = Some (s', Inr i)"
    using assms(1) by (auto simp: commit_speculation_def commit_with_base_spec [OF assms(2)] split: option.splits sum.splits)
  from spec_attempts_landed [OF this] show ?thesis by (auto simp: moves_to_def)
qed

lemma advance_ref_moves:
  "advance_ref r (ev_at_check E k t) (others k t) name h i = (s', Inr True) \<Longrightarrow> moves_to E others r name i s'"
  unfolding moves_to_def landed_def
  by (intro exI [of _ k] exI [of _ t] exI [of _ h] exI [of _ True]) (simp add: move_ref_def)

lemma commit_speculation_cas_moves:
  assumes "commit_speculation_cas fuel E (others 0) r m s handle expected options = Some (m', s', Inr i)"
    and "map_of (sm_specs m) handle = Some spec"
  shows "moves_to E others r (sp_base_ref spec) i s'"
proof -
  obtain s1 where "advance_ref r (ev_at_check E 0 s1) (others 0 s1) (sp_base_ref spec) expected i = (s', Inr True)"
    using assms(1) by (auto simp: commit_speculation_cas_def commit_with_base_spec [OF assms(2)]
        split: option.splits sum.splits if_splits elim!: rbind_InrE)
  then show ?thesis by (rule advance_ref_moves)
qed

lemma repo_set_ref_moves: "repo_set_ref E others r s name i = (s', Inr ()) \<Longrightarrow> moves_to E others r name i s'"
  unfolding moves_to_def landed_def
  by (intro exI [of _ 0] exI [of _ s] exI [of _ i] exI [of _ False]) (simp add: repo_set_ref_def move_ref_def)

lemmas moves = repo_set_moves repo_delete_moves write_taint_intent_moves merge_checked_moves commit_speculation_moves
  commit_speculation_cas_moves repo_set_ref_moves

section \<open>Sealed epochs\<close>

text \<open>The epochs whose seals bind the active namespace.\<close>

definition binds :: "Repository \<Rightarrow> Epoch \<Rightarrow> bool" where
  "binds r e \<longleftrightarrow> (ep_status e = ESealed \<or> ep_status e = EArchived) \<and> epoch_binds_namespace e (active_namespace r)"

definition seals_hold :: "Repository \<Rightarrow> MemoryStorage \<Rightarrow> ObjectId \<Rightarrow> bool" where
  "seals_hold r s i \<longleftrightarrow>
     (\<forall>e \<in> set (ms_epochs s). binds r e \<longrightarrow> (\<forall>c \<in> set (ep_sealed_commits e). (history s)\<^sup>*\<^sup>* i c))"

lemma check_epoch_seal_violations_empty:
  "check_epoch_seal_violations r s i = Inr [] \<longleftrightarrow> seals_hold r s i"
  by (auto simp: check_epoch_seal_violations_def list_epochs_def map_err_def try_bind_def Let_def
      seals_hold_def binds_def filter_empty_conv reachable_commits_from_set)

lemma check_epoch_seal_violations_Inr: "\<exists>vs. check_epoch_seal_violations r s i = Inr vs"
  by (simp add: check_epoch_seal_violations_def list_epochs_def map_err_def try_bind_def Let_def)

lemma enforce_epoch_seals_main:
  assumes "rp_epoch_seal_strict r"
  shows "enforce_epoch_seals r s ''main'' i = Inr () \<longleftrightarrow> seals_hold r s i"
proof -
  obtain vs where "check_epoch_seal_violations r s i = Inr vs"
    using check_epoch_seal_violations_Inr by blast
  with assms check_epoch_seal_violations_empty [of r s i] show ?thesis
    by (cases vs) (auto simp: enforce_epoch_seals_def try_bind_def)
qed

lemma enforce_epoch_seals_violated:
  assumes "rp_epoch_seal_strict r" "\<not> seals_hold r s i"
  shows "\<exists>v xs. enforce_epoch_seals r s ''main'' i = Inl (REpochSealViolated v xs)"
proof -
  obtain vs where "check_epoch_seal_violations r s i = Inr vs"
    using check_epoch_seal_violations_Inr by blast
  with assms check_epoch_seal_violations_empty [of r s i] show ?thesis
    by (cases vs) (auto simp: enforce_epoch_seals_def try_bind_def)
qed

lemma enforce_epoch_seals_holds: "seals_hold r s i \<Longrightarrow> enforce_epoch_seals r s name i = Inr ()"
  using check_epoch_seal_violations_empty [of r s i] by (simp add: enforce_epoch_seals_def try_bind_def)

lemma history_mono:
  assumes "map_of (ms_commits s) \<subseteq>\<^sub>m map_of (ms_commits s')" "(history s)\<^sup>*\<^sup>* x y"
  shows "(history s')\<^sup>*\<^sup>* x y"
proof -
  have "history s \<le> history s'"
  proof (intro le_funI le_boolI)
    fix x y
    assume "history s x y"
    then obtain c where "map_of (ms_commits s) x = Some c" "y \<in> set (cm_parents c)"
      by (cases "map_of (ms_commits s) x") (auto simp: edge_def succs_commit_parents)
    moreover from this(1) assms(1) have "map_of (ms_commits s') x = Some c" by (metis domI map_le_def)
    ultimately show "history s' x y" by (simp add: edge_def succs_commit_parents)
  qed
  with assms(2) show ?thesis using rtranclp_mono by blast
qed

lemma moves_seals:
  assumes "rp_epoch_seal_strict r" "moves_to E others r ''main'' i s'"
    and "\<And>k t. map_of (ms_commits (ev_at_check E k t)) \<subseteq>\<^sub>m map_of (ms_commits (others k t))"
  shows "\<exists>k t. s' = ref_moved r (others k t) ''main'' i \<and>
    (\<forall>e \<in> set (ms_epochs (ev_at_check E k t)). binds r e \<longrightarrow>
       (\<forall>c \<in> set (ep_sealed_commits e). (history s')\<^sup>*\<^sup>* i c))"
proof -
  obtain k t h b where "move_ref r (ev_at_check E k t) (others k t) ''main'' h b i = (s', Inr True)"
    using assms(2) by (auto simp: moves_to_def landed_def)
  from move_ref_landed [OF this] enforce_epoch_seals_main [OF assms(1)]
  have l: "s' = ref_moved r (others k t) ''main'' i" "seals_hold r (ev_at_check E k t) i" by auto
  from assms(3) [of k t] l(1) have "map_of (ms_commits (ev_at_check E k t)) \<subseteq>\<^sub>m map_of (ms_commits s')" by simp
  from history_mono [OF this] l(2) have "\<forall>e \<in> set (ms_epochs (ev_at_check E k t)). binds r e \<longrightarrow>
       (\<forall>c \<in> set (ep_sealed_commits e). (history s')\<^sup>*\<^sup>* i c)" by (auto simp: seals_hold_def)
  with l(1) show ?thesis by blast
qed

section \<open>A commit on top of a head\<close>

lemma succs_insert:
  "succs (commit_parents (bt_insert n c m)) x = (if x = n then cm_parents c else succs (commit_parents m) x)"
  by (simp add: succs_commit_parents map_of_bt_insert)

lemma history_insert:
  assumes "ms_commits s' = bt_insert n c (ms_commits s)"
  shows "history s' x y \<longleftrightarrow> (if x = n then y \<in> set (cm_parents c) else history s x y)"
  unfolding edge_def assms succs_insert by (cases "x = n") simp_all

lemma history_fresh:
  assumes "ms_commits s' = bt_insert n c (ms_commits s)" "map_of (ms_commits s) n = None" "cm_parents c = [h]"
  shows "(history s')\<^sup>*\<^sup>* h y \<longleftrightarrow> (history s)\<^sup>*\<^sup>* h y"
proof
  assume "(history s')\<^sup>*\<^sup>* h y"
  then show "(history s)\<^sup>*\<^sup>* h y"
    by (induction rule: rtranclp_induct)
       (auto simp: history_insert [OF assms(1)] assms(3) split: if_splits intro: rtranclp.rtrancl_into_rtrancl)
next
  assume "(history s)\<^sup>*\<^sup>* h y"
  moreover have "history s \<le> history s'"
  proof (intro le_funI le_boolI)
    fix x y
    assume xy: "history s x y"
    have "succs (commit_parents (ms_commits s)) n = []" by (simp add: succs_commit_parents assms(2))
    with xy have "x \<noteq> n" unfolding edge_def by force
    with xy show "history s' x y" by (simp add: history_insert [OF assms(1)])
  qed
  ultimately show "(history s')\<^sup>*\<^sup>* h y" using rtranclp_mono by blast
qed

lemma history_new:
  assumes "ms_commits s' = bt_insert n c (ms_commits s)" "map_of (ms_commits s) n = None" "cm_parents c = [h]"
  shows "(history s')\<^sup>*\<^sup>* n y \<longleftrightarrow> y = n \<or> (history s)\<^sup>*\<^sup>* h y"
proof -
  have "(history s')\<^sup>*\<^sup>* n y \<longleftrightarrow> y = n \<or> (\<exists>z. history s' n z \<and> (history s')\<^sup>*\<^sup>* z y)"
    by (metis converse_rtranclpE converse_rtranclp_into_rtranclp rtranclp.rtrancl_refl)
  with history_fresh [OF assms] show ?thesis by (simp add: history_insert [OF assms(1)] assms(3))
qed

lemma seals_hold_new:
  assumes "ms_commits s' = bt_insert n c (ms_commits s)" "map_of (ms_commits s) n = None" "cm_parents c = [h]"
    and "ms_epochs s' = ms_epochs s"
  shows "seals_hold r s' n \<longleftrightarrow>
    (\<forall>e \<in> set (ms_epochs s). binds r e \<longrightarrow> (\<forall>x \<in> set (ep_sealed_commits e). x = n \<or> (history s)\<^sup>*\<^sup>* h x))"
  by (simp add: seals_hold_def assms(4) history_new [OF assms(1-3)])

section \<open>A write without interference\<close>

lemma head_for_write_branch:
  assumes "has_active r s" "ref_of r s name = Some h" "refuse_reserved_ref name = Inr ()"
  shows "head_for_write r s name = Inr (h, True)"
  using assms by (simp add: head_for_write_def get_ref_active map_err_def try_bind_def)

lemma resolve_ref_branch:
  "has_active r s \<Longrightarrow> ref_of r s name = Some h \<Longrightarrow> resolve_ref r s name = Inr h"
  by (simp add: resolve_ref_def get_ref_active map_err_def try_bind_def)

text \<open>The first attempt of a write on a branch whose head \<open>h\<close> holds commit \<open>c\<close>, when nobody interferes.\<close>

lemma write_attempts_first:
  assumes "rp_active_epoch r = None" "rp_active_session r = None" "others k = id \<and> ev_at_check E k = id"
    and "has_active r s" "ref_of r s name = Some h" "refuse_reserved_ref name = Inr ()"
    and "map_of (ms_commits s) h = Some c" "update s (cm_state_root c) = (s1, Inr root)"
    and "same_but_objects s s1" "n = new_commit E k root [h] options"
  shows "\<exists>s2. ms_objects s2 = ms_objects s1 \<and> ms_commits s2 = bt_insert (cm_id n) n (ms_commits s) \<and>
    ms_refs s2 = ms_refs s \<and> ms_namespaces s2 = ms_namespaces s \<and> ms_epochs s2 = ms_epochs s \<and>
    ms_taints s2 = ms_taints s \<and>
    write_attempts (Suc m) k E others r s name update options =
      (case enforce_epoch_seals r s2 name (cm_id n) of
         Inl e \<Rightarrow> (s2, Inl e)
       | Inr _ \<Rightarrow> (ref_moved r s2 name (cm_id n), Inr (cm_id n)))"
proof -
  note s1 = same_but_objects_fields [OF assms(9)]
  obtain s2 where s2: "create_commit E k r s1 root [h] options = (s2, Inr n)"
    using create_commit_answers [OF assms(1,2)] unfolding assms(10) by blast
  from create_commit_Inr [OF assms(1) s2] s1 have f: "ms_objects s2 = ms_objects s1"
    "ms_commits s2 = bt_insert (cm_id n) n (ms_commits s)" "ms_refs s2 = ms_refs s"
    "ms_namespaces s2 = ms_namespaces s" "ms_epochs s2 = ms_epochs s" "ms_taints s2 = ms_taints s"
    by simp_all
  have "move_ref r s2 s2 name h True (cm_id n) = (case enforce_epoch_seals r s2 name (cm_id n) of
      Inl e \<Rightarrow> (s2, Inl e) | Inr _ \<Rightarrow> (ref_moved r s2 name (cm_id n), Inr True))"
    using assms(4-6) f
    by (auto simp: move_ref_def advance_ref_def cas_ref_def cas_ref_swap_def require_namespace_def
        has_active_def ref_of_def ref_moved_def map_err_def split: sum.splits)
  with assms(3,7,8) s2 head_for_write_branch [OF assms(4-6)]
  have "write_attempts (Suc m) k E others r s name update options =
      (case enforce_epoch_seals r s2 name (cm_id n) of
         Inl e \<Rightarrow> (s2, Inl e)
       | Inr _ \<Rightarrow> (ref_moved r s2 name (cm_id n), Inr (cm_id n)))"
    by (simp add: commit_or_def get_commit_def map_err_def try_bind_def ok_or_def split: sum.splits)
  with f show ?thesis by blast
qed

lemma write_lands:
  assumes "rp_active_epoch r = None" "rp_active_session r = None" "others k = id \<and> ev_at_check E k = id"
    and "has_active r s" "ref_of r s name = Some h" "refuse_reserved_ref name = Inr ()"
    and "map_of (ms_commits s) h = Some c" "update s (cm_state_root c) = (s1, Inr root)"
    and "same_but_objects s s1" "n = new_commit E k root [h] options"
    and "map_of (ms_commits s) (cm_id n) = None" "seals_hold r s h"
  shows "\<exists>s'. write_attempts (Suc m) k E others r s name update options = (s', Inr (cm_id n)) \<and>
    map_of (ms_refs s') = (map_of (ms_refs s))((ns_str (active_namespace r), name) \<mapsto> cm_id n) \<and>
    map_of (ms_commits s') = (map_of (ms_commits s))(cm_id n \<mapsto> n) \<and>
    ms_objects s' = ms_objects s1 \<and> has_active r s' \<and> seals_hold r s' (cm_id n)"
proof -
  obtain s2 where s2: "ms_objects s2 = ms_objects s1" "ms_commits s2 = bt_insert (cm_id n) n (ms_commits s)"
    "ms_refs s2 = ms_refs s" "ms_namespaces s2 = ms_namespaces s" "ms_epochs s2 = ms_epochs s"
    "write_attempts (Suc m) k E others r s name update options =
      (case enforce_epoch_seals r s2 name (cm_id n) of
         Inl e \<Rightarrow> (s2, Inl e) | Inr _ \<Rightarrow> (ref_moved r s2 name (cm_id n), Inr (cm_id n)))"
    using write_attempts_first [of r others k E s name h c update s1 root n options m, OF assms(1-10)] by blast
  have "seals_hold r s2 (cm_id n)"
    using assms(12) seals_hold_new [OF s2(2) assms(11) _ s2(5), of h r] assms(10)
    by (auto simp: seals_hold_def)
  moreover have "seals_hold r (ref_moved r s2 name (cm_id n)) i \<longleftrightarrow> seals_hold r s2 i" for i
    by (simp add: seals_hold_def)
  ultimately show ?thesis
    using s2 assms(4) enforce_epoch_seals_holds [of r s2 "cm_id n" name]
    by (intro exI [of _ "ref_moved r s2 name (cm_id n)"])
       (simp add: ref_moved_refs map_of_bt_insert has_active_def)
qed

lemma read_at_landed:
  assumes "has_active r s" "ref_of r s name = Some i" "map_of (ms_commits s) i = Some n" "parse_path path = Inr p"
  shows "read_at E r s name path = map_err RTree (tree_get (memory_store (ev_oid E)) s (cm_state_root n) p)"
  using assms resolve_ref_branch [OF assms(1,2)]
  by (simp add: read_at_def ref_commit_def commit_or_def get_commit_def map_err_def try_bind_def ok_or_def)

lemma write_guards_parse: "write_guards E s path options = Inr p \<Longrightarrow> parse_path path = Inr p"
  by (auto simp: write_guards_def try_bind_def split: sum.splits if_splits)

lemma cas_attempts_Suc: obtains m where "MAX_REF_CAS_ATTEMPTS = Suc m"
  by (cases MAX_REF_CAS_ATTEMPTS) (simp_all add: MAX_REF_CAS_ATTEMPTS_def)

end
