(* ===== verification/Repo_Merge_Laws.thy ===== *)
theory Repo_Merge_Laws
  imports Repo_Laws Merge_Laws
begin

text \<open>
  What a merge that lands leaves in the store, whatever other writers do before the ref moves, and
  the fast-forward of a target whose state is that of the merge base.
\<close>

section \<open>What a merge leaves\<close>

text \<open>A tree that is complete in one store is complete, and the same, in a larger one.\<close>

definition complete_tree :: "(ObjectId \<rightharpoonup> Object) \<Rightarrow> ObjectId \<Rightarrow> bool" where
  "complete_tree v root \<longleftrightarrow> (\<forall>j. (refers v)\<^sup>*\<^sup>* root j \<longrightarrow> v j \<noteq> None)"

lemma complete_tree_mono:
  assumes "complete_tree v root" "v \<subseteq>\<^sub>m v'"
  shows "complete_tree v' root"
proof -
  have "(refers v)\<^sup>*\<^sup>* root j" if "(refers v')\<^sup>*\<^sup>* root j" for j
    using that
  proof (induction rule: rtranclp_induct)
    case (step j k)
    then obtain x where x: "v' j = Some x" "k \<in> set (child_ids x)" by blast
    from step.IH assms(1) obtain y where "v j = Some y" by (auto simp: complete_tree_def)
    with assms(2) x(1) have "v j = Some x" by (metis domI map_le_def option.sel)
    with x(2) have "refers v j k" by blast
    with step.IH show ?case by (rule rtranclp.rtrancl_into_rtrancl)
  qed simp
  moreover have "v' j \<noteq> None" if "v j \<noteq> None" for j
    using that assms(2) by (auto simp: map_le_def dom_def)
  ultimately show ?thesis using assms(1) unfolding complete_tree_def by blast
qed

lemma store_merged_Inr:
  assumes "store_merged E s created merged = (s', Inr root)"
  shows "root = ev_oid E merged \<and> complete_tree (map_of (ms_objects s')) root"
proof -
  from assms obtain s1 xs where "(case first_missing_reachable s1 (ev_oid E merged) of
      Some missing \<Rightarrow> (s1, Inl (RIntegrityViolation (ev_oid E merged) missing))
    | None \<Rightarrow> (s1, Inr (ev_oid E merged))) = (s', Inr root)"
    unfolding store_merged_def by (elim rbind_InrE) blast
  then have "first_missing_reachable s' (ev_oid E merged) = None" "root = ev_oid E merged"
    by (cases "first_missing_reachable s1 (ev_oid E merged)"; simp)+
  with first_missing_reachable_correct [of s' "ev_oid E merged"] show ?thesis
    unfolding complete_tree_def by blast
qed

text \<open>What a merge that lands leaves in \<open>s\<close>, by its result; \<open>s0\<close> is the store the merge was computed in.\<close>

fun merge_outcome ::
  "Env \<Rightarrow> MemoryStorage \<Rightarrow> MemoryStorage \<Rightarrow> MergeComputation \<Rightarrow> ObjectId \<Rightarrow> MergeResult \<Rightarrow> bool" where
  "merge_outcome E s0 s mc i (MergeSuccess x) \<longleftrightarrow>
     (\<exists>n. map_of (ms_commits s) i = Some n \<and>
        cm_parents n = [mc_target_commit_id mc, mc_source_commit_id mc] \<and>
        cm_state_root n = ev_oid E x \<and> complete_tree (map_of (ms_objects s)) (cm_state_root n))"
| "merge_outcome E s0 s mc i (FastForward root) \<longleftrightarrow>
     i = (if root = mc_source_state_root mc then mc_source_commit_id mc else mc_target_commit_id mc) \<and>
     (\<exists>n. map_of (ms_commits s) i = Some n \<and> cm_state_root n = root) \<and>
     (complete_tree (map_of (ms_objects s0)) root \<longrightarrow> complete_tree (map_of (ms_objects s)) root)"
| "merge_outcome E s0 s mc i (MergeConflicts _ _) \<longleftrightarrow> False"

text \<open>The store after the merge was stored and before the ref moves, and the store an attempt starts in: the
  first one in that of the call, a later one in what others left of the attempt before.\<close>

fun merged_state ::
  "Env \<Rightarrow> nat \<Rightarrow> Repository \<Rightarrow> MemoryStorage \<Rightarrow> CommitOptions \<Rightarrow> MergeComputation \<Rightarrow> MergeResult \<Rightarrow> MemoryStorage" where
  "merged_state E k r s options mc (MergeSuccess x) =
     fst (rbind (store_merged E s (mc_created mc) x) (\<lambda>s1 root.
       create_commit E k r s1 root [mc_target_commit_id mc, mc_source_commit_id mc] options))"
| "merged_state E k r s options mc (FastForward root) = s"
| "merged_state E k r s options mc (MergeConflicts _ _) = s"

definition attempt_start ::
  "(nat \<Rightarrow> MemoryStorage \<Rightarrow> MemoryStorage) \<Rightarrow> MemoryStorage \<Rightarrow> nat \<Rightarrow> MemoryStorage \<Rightarrow> MemoryStorage" where
  "attempt_start others s k u = (case k of 0 \<Rightarrow> s | Suc j \<Rightarrow> others j u)"

text \<open>The store attempt \<open>k\<close> starts in when the attempts before it lost.\<close>

fun merge_start ::
  "nat \<Rightarrow> Env \<Rightarrow> (nat \<Rightarrow> MemoryStorage \<Rightarrow> MemoryStorage) \<Rightarrow> Repository \<Rightarrow> MemoryStorage \<Rightarrow> string \<Rightarrow> string \<Rightarrow>
   CommitOptions \<Rightarrow> bool \<Rightarrow> nat \<Rightarrow> MemoryStorage option" where
  "merge_start fuel E others r s source target options ad 0 = Some s"
| "merge_start fuel E others r s source target options ad (Suc k) =
     (case merge_start fuel E others r s source target options ad k of
        None \<Rightarrow> None
      | Some t \<Rightarrow>
          (case try_merge_checked fuel E k (others k) r t source target options ad of
             Some (t', Inr None) \<Rightarrow> Some t'
           | _ \<Rightarrow> None))"

lemma compute_merge_Inr:
  assumes "compute_merge fuel E r s source target = Some (Inr mc)"
  shows "resolve_ref r s source = Inr (mc_source_commit_id mc)" "resolve_ref r s target = Inr (mc_target_commit_id mc)"
    and "\<exists>n. map_of (ms_commits s) (mc_source_commit_id mc) = Some n \<and> cm_state_root n = mc_source_state_root mc"
    and "\<exists>n. map_of (ms_commits s) (mc_target_commit_id mc) = Some n \<and> cm_state_root n = mc_target_state_root mc"
    and "mc_result mc = FastForward root \<Longrightarrow> root = mc_source_state_root mc \<or> root = mc_target_state_root mc"
proof -
  from assms obtain a b ca cb and cd :: Commit and result created where heads: "resolve_ref r s source = Inr a" "resolve_ref r s target = Inr b"
    "map_of (ms_commits s) a = Some ca" "map_of (ms_commits s) b = Some cb"
    and z: "try_three_way_merge_collect (resolver s) (ev_oid E) fuel (cm_state_root cd) (cm_state_root cb) (cm_state_root ca) =
      Some (Inr (result, created))"
    and m: "mc = \<lparr> mc_source_commit_id = a, mc_target_commit_id = b, mc_source_state_root = cm_state_root ca,
      mc_target_state_root = cm_state_root cb, mc_result = result, mc_created = created \<rparr>"
    by (auto simp: compute_merge_def commit_or_def get_commit_def map_err_def ok_or_def try_bind_def
        split: sum.splits option.splits)
  show "resolve_ref r s source = Inr (mc_source_commit_id mc)" "resolve_ref r s target = Inr (mc_target_commit_id mc)"
    "\<exists>n. map_of (ms_commits s) (mc_source_commit_id mc) = Some n \<and> cm_state_root n = mc_source_state_root mc"
    "\<exists>n. map_of (ms_commits s) (mc_target_commit_id mc) = Some n \<and> cm_state_root n = mc_target_state_root mc"
    using heads by (simp_all add: m)
  show "mc_result mc = FastForward root \<Longrightarrow> root = mc_source_state_root mc \<or> root = mc_target_state_root mc"
    using z by (auto simp: m try_three_way_merge_collect_def split: option.splits dest!: merge_roots_fast_forward)
qed

lemma land_merge_outcome:
  assumes "rp_active_epoch r = None" "compute_merge fuel E r s source target = Some (Inr mc)"
    and "land_merge E k interfere r s target b options mc (mc_result mc) = (s', Inr (Some i))"
    and "\<And>t. map_of (ms_objects t) \<subseteq>\<^sub>m map_of (ms_objects (interfere t))"
    and "\<And>t. map_of (ms_commits t) \<subseteq>\<^sub>m map_of (ms_commits (interfere t))"
  shows "merge_outcome E s s' mc i (mc_result mc) \<and>
    (b \<longrightarrow> ref_of r (interfere (merged_state E k r s options mc (mc_result mc))) target = Some (mc_target_commit_id mc)) \<and>
    s' = ref_moved r (interfere (merged_state E k r s options mc (mc_result mc))) target i"
proof (cases "mc_result mc")
  case (MergeSuccess x)
  with assms(3) obtain s1 root s2 n where run: "store_merged E s (mc_created mc) x = (s1, Inr root)"
    "create_commit E k r s1 root [mc_target_commit_id mc, mc_source_commit_id mc] options = (s2, Inr n)"
    "move_ref r (ev_at_check E k s2) (interfere s2) target (mc_target_commit_id mc) b (cm_id n) = (s', Inr True)" "i = cm_id n"
    by (auto simp: then_some_Inr elim!: rbind_InrE)
  note c = create_commit_Inr [OF assms(1) run(2)] and l = move_ref_landed [OF run(3)]
    and m = store_merged_Inr [OF run(1)]
  have t: "merged_state E k r s options mc (mc_result mc) = s2" using MergeSuccess run(1,2) by simp
  from c have "map_of (ms_commits s2) i = Some n" by (simp add: run(4) map_of_bt_insert)
  with assms(5) [of s2] have "map_of (ms_commits (interfere s2)) i = Some n" by (metis domI map_le_def)
  moreover have "complete_tree (map_of (ms_objects s2)) root" using m c by metis
  then have "complete_tree (map_of (ms_objects (interfere s2))) root"
    using complete_tree_mono assms(4) by blast
  ultimately have "merge_outcome E s s' mc i (mc_result mc)" using MergeSuccess c l m by auto
  with l run(4) show ?thesis unfolding t by auto
next
  case (FastForward root)
  with assms(3) have run: "i = (if root = mc_source_state_root mc then mc_source_commit_id mc else mc_target_commit_id mc)"
    "move_ref r (ev_at_check E k s) (interfere s) target (mc_target_commit_id mc) b i = (s', Inr True)"
    by (auto simp: then_some_Inr Let_def)
  note l = move_ref_landed [OF run(2)]
  from compute_merge_Inr(3,4) [OF assms(2)] compute_merge_Inr(5) [OF assms(2) FastForward] obtain n where
    "map_of (ms_commits s) i = Some n" "cm_state_root n = root" unfolding run(1)
    by (cases "root = mc_source_state_root mc") auto
  with assms(5) [of s] have "map_of (ms_commits (interfere s)) i = Some n" "cm_state_root n = root"
    by (metis domI map_le_def)+
  moreover have "complete_tree (map_of (ms_objects s)) root \<Longrightarrow> complete_tree (map_of (ms_objects (interfere s))) root"
    using complete_tree_mono assms(4) by blast
  ultimately show ?thesis using FastForward l run(1) by auto
qed (use assms(3) in auto)

lemma then_some_None: "then_some x m = (s', Inr None) \<longleftrightarrow> m = (s', Inr False)"
  by (cases m; cases "snd m") (auto simp: then_some_def)

lemma land_merge_lost:
  assumes "land_merge E k interfere r s target b options mc res = (s', Inr None)"
  shows "\<exists>t. s' = interfere t"
  using assms by (cases res) (auto simp: Let_def then_some_None elim!: rbind_InrE dest!: move_ref_lost)

lemma merge_attempts_outcome:
  assumes "rp_active_epoch r = None"
    and "merge_attempts fuel n k E others r (attempt_start others s k u) source target options ad = Some (s', Inr i)"
      "merge_start fuel E others r s source target options ad k = Some (attempt_start others s k u)"
    and "\<And>k t. map_of (ms_objects t) \<subseteq>\<^sub>m map_of (ms_objects (others k t))"
    and "\<And>k t. map_of (ms_commits t) \<subseteq>\<^sub>m map_of (ms_commits (others k t))"
  shows "\<exists>k u s0 t h b mc. s0 = attempt_start others s k u \<and>
    merge_start fuel E others r s source target options ad k = Some s0 \<and> t = others k (merged_state E k r s0 options mc (mc_result mc)) \<and>
    head_for_write r s0 target = Inr (h, b) \<and>
    compute_merge fuel E r s0 source target = Some (Inr mc) \<and> (ad \<or> top_level_removals E s0 mc = []) \<and>
    merge_outcome E s0 s' mc i (mc_result mc) \<and>
    (b \<longrightarrow> ref_of r t target = Some (mc_target_commit_id mc)) \<and> s' = ref_moved r t target i"
  using assms(2,3)
proof (induction n arbitrary: k u)
  case (Suc n)
  let ?s = "attempt_start others s k u"
  from Suc.prems(1) obtain s1 x where x: "try_merge_checked fuel E k (others k) r ?s source target options ad
      = Some (s1, Inr x)" by (auto split: option.splits sum.splits prod.splits)
  then obtain h b mc where run: "head_for_write r ?s target = Inr (h, b)"
    "compute_merge fuel E r ?s source target = Some (Inr mc)" "ad \<or> top_level_removals E ?s mc = []"
    "land_merge E k (others k) r ?s target b options mc (mc_result mc) = (s1, Inr x)"
    using try_merge_checked_Inr by blast
  show ?case
  proof (cases x)
    case None
    with land_merge_lost run(4) obtain t where t: "s1 = attempt_start others s (Suc k) t" by (fastforce simp: attempt_start_def)
    with None Suc.prems(2) x have "merge_start fuel E others r s source target options ad (Suc k) = Some (attempt_start others s (Suc k) t)"
      by simp
    with None Suc.prems(1) x t Suc.IH [of "Suc k" t] show ?thesis by simp
  next
    case (Some j)
    with Suc.prems x have "s1 = s'" "j = i" by simp_all
    with run(4) Some have "land_merge E k (others k) r ?s target b options mc (mc_result mc) = (s', Inr (Some i))" by simp
    note out = land_merge_outcome [OF assms(1) run(2) this assms(4,5)]
    show ?thesis
      by (intro exI conjI, rule refl, rule Suc.prems(2), rule refl, rule run(1), rule run(2), rule run(3)) (use out in blast)+
  qed
qed simp

section \<open>Fast-forwards\<close>

lemma merge_fast_forward:
  assumes "has_active r s" "ref_of r s target = Some h" "refuse_reserved_ref target = Inr ()"
    and "resolve_ref r s source = Inr a" "map_of (ms_commits s) a = Some ca" "map_of (ms_commits s) h = Some ch"
    and "common_ancestor s a h = Some d" "map_of (ms_commits s) d = Some cd"
    and "cm_state_root cd = cm_state_root ch" "seals_hold r (ev_at_check E 0 s) a"
  shows "merge_checked fuel E (\<lambda>_. id) r s source target options True = Some (ref_moved r s target a, Inr a)"
proof -
  have merged: "compute_merge fuel E r s source target = Some (Inr
      \<lparr> mc_source_commit_id = a, mc_target_commit_id = h, mc_source_state_root = cm_state_root ca,
        mc_target_state_root = cm_state_root ch, mc_result = FastForward (cm_state_root ca), mc_created = [] \<rparr>)"
    using assms resolve_ref_branch [OF assms(1,2)]
    by (simp add: compute_merge_def try_bind_def commit_or_def get_commit_def map_err_def ok_or_def
        find_common_ancestor_def try_three_way_merge_collect_def merge_roots_def merge_init_def)
  have "move_ref r (ev_at_check E 0 s) s target h True a = (ref_moved r s target a, Inr True)"
    using assms(1-3) enforce_epoch_seals_holds [OF assms(10), of target]
    by (simp add: move_ref_def advance_ref_def cas_ref_def cas_ref_swap_def require_namespace_def
        has_active_def ref_of_def ref_moved_def map_err_def)
  then have "try_merge_checked fuel E 0 id r s source target options True =
      Some (ref_moved r s target a, Inr (Some a))"
    using head_for_write_branch [OF assms(1-3)] by (simp add: try_merge_checked_def merged then_some_def Let_def)
  moreover obtain m where m: "MAX_REF_CAS_ATTEMPTS = Suc m" by (rule cas_attempts_Suc)
  ultimately show ?thesis unfolding merge_checked_def m by simp
qed

end
