(* ===== verification/Repo_History.thy ===== *)
theory Repo_History
  imports Repo_Model
begin

text \<open>
  The history of a repository (\<open>repo.rs\<close>): logs, paged queries, blame and timestamp anomalies; then
  the active epoch and session of a handle and the operations on epochs. Commits are capped again when
  they are read. The Unicode lower-casing of a query, \<open>lower\<close>, and the time format of an anomaly
  report, \<open>to_rfc3339\<close>, are parameters.
\<close>

section \<open>Logs and queries\<close>

definition repo_log :: "Repository \<Rightarrow> MemoryStorage \<Rightarrow> string \<Rightarrow> nat \<Rightarrow> RepoError + Commit list" where
  "repo_log r s ref_name limit =
     try_bind (resolve_ref r s ref_name)
       (\<lambda>commit_id. try_bind (map_err RStorage (list_commits s commit_id limit))
          (\<lambda>commits. Inr (map enforce_caps commits)))"

definition log_dag :: "Repository \<Rightarrow> MemoryStorage \<Rightarrow> string \<Rightarrow> nat \<Rightarrow> RepoError + CommitWalk" where
  "log_dag r s ref_name limit =
     try_bind (resolve_ref r s ref_name)
       (\<lambda>commit_id. try_bind (map_err RStorage (list_commits_dag (get_commit s) commit_id limit))
          (\<lambda>walk. Inr (walk\<lparr>cw_commits := map enforce_caps (cw_commits walk)\<rparr>)))"

definition repo_get_commit :: "MemoryStorage \<Rightarrow> ObjectId \<Rightarrow> RepoError + Commit option" where
  "repo_get_commit s i =
     try_bind (map_err RStorage (get_commit s i)) (\<lambda>c. Inr (map_option enforce_caps c))"

definition commit_query_scan :: "nat \<Rightarrow> nat \<Rightarrow> nat" where
  "commit_query_scan offset limit = max COMMIT_QUERY_SCAN_FLOOR (min USIZE_MAX (offset + limit))"

definition query_commits_paged ::
  "(string \<Rightarrow> string) \<Rightarrow> Env \<Rightarrow> Repository \<Rightarrow> MemoryStorage \<Rightarrow> string \<Rightarrow> QueryFilters \<Rightarrow> nat \<Rightarrow> nat \<Rightarrow>
   RepoError + Commit list" where
  "query_commits_paged lower E r s ref_name filters limit offset =
     try_bind (log_dag r s ref_name (commit_query_scan offset limit))
       (\<lambda>walk. Inr (take limit (drop offset (filter_commits lower (ev_debug E) (cw_commits walk) filters))))"

definition query_commits ::
  "(string \<Rightarrow> string) \<Rightarrow> Env \<Rightarrow> Repository \<Rightarrow> MemoryStorage \<Rightarrow> string \<Rightarrow> QueryFilters \<Rightarrow> nat \<Rightarrow>
   RepoError + Commit list" where
  "query_commits lower E r s ref_name filters limit = query_commits_paged lower E r s ref_name filters limit 0"

section \<open>Blame\<close>

definition commit_has_timestamp_anomaly :: "MemoryStorage \<Rightarrow> Commit \<Rightarrow> bool" where
  "commit_has_timestamp_anomaly s commit \<longleftrightarrow>
     list_ex (\<lambda>parent_id. case map_of (ms_commits s) parent_id of
         Some parent \<Rightarrow> cm_timestamp commit \<le> cm_timestamp (enforce_caps parent)
       | None \<Rightarrow> False) (cm_parents commit)"

definition blame_entry_for :: "Env \<Rightarrow> MemoryStorage \<Rightarrow> string \<Rightarrow> Commit \<Rightarrow> BlameEntry" where
  "blame_entry_for E s path commit =
     \<lparr> be_path = path, be_commit_id = short_id (cm_id commit), be_agent_id = cm_agent_id commit,
       be_intent_category = category_debug (ev_debug E) (in_category (cm_intent commit)),
       be_intent_description = in_description (cm_intent commit),
       be_reasoning = cm_reasoning commit, be_timestamp = cm_timestamp commit,
       be_timestamp_anomaly = commit_has_timestamp_anomaly s commit \<rparr>"

text \<open>Whether a commit holds a value no parent of it held.\<close>

definition value_at :: "Env \<Rightarrow> MemoryStorage \<Rightarrow> StatePath \<Rightarrow> Commit \<Rightarrow> Object option" where
  "value_at E s p commit =
     (case tree_get (memory_store (ev_oid E)) s (cm_state_root commit) p of Inr x \<Rightarrow> Some x | Inl _ \<Rightarrow> None)"

definition introduced_here :: "Env \<Rightarrow> MemoryStorage \<Rightarrow> StatePath \<Rightarrow> Commit \<Rightarrow> bool" where
  "introduced_here E s p commit \<longleftrightarrow>
     (case value_at E s p commit of
        None \<Rightarrow> False
      | Some here \<Rightarrow>
          \<not> list_ex (\<lambda>parent_id. case map_of (ms_commits s) parent_id of
               Some parent \<Rightarrow>
                 (case value_at E s p (enforce_caps parent) of
                    Some prev \<Rightarrow> object_eq prev here
                  | None \<Rightarrow> False)
             | None \<Rightarrow> False) (cm_parents commit))"

definition BLAME_LIMIT :: nat where "BLAME_LIMIT = 1000"

definition blame_inner ::
  "Env \<Rightarrow> Repository \<Rightarrow> MemoryStorage \<Rightarrow> string \<Rightarrow> string \<Rightarrow> RepoError + BlameEntry \<times> ObjectId" where
  "blame_inner E r s ref_name path =
     try_bind (log_dag r s ref_name BLAME_LIMIT)
       (\<lambda>walk. try_bind (parse_path path)
          (\<lambda>p. case find (introduced_here E s p) (sort_key (\<lambda>c. - cm_timestamp c) (cw_commits walk)) of
             Some commit \<Rightarrow> Inr (blame_entry_for E s path commit, cm_id commit)
           | None \<Rightarrow> Inl (RRefNotFound (''no commit found that modified '' @ path))))"

definition blame :: "Env \<Rightarrow> Repository \<Rightarrow> MemoryStorage \<Rightarrow> string \<Rightarrow> string \<Rightarrow> RepoError + BlameEntry" where
  "blame E r s ref_name path = try_bind (blame_inner E r s ref_name path) (\<lambda>(entry, _). Inr entry)"

definition blame_with_trace ::
  "Env \<Rightarrow> Repository \<Rightarrow> MemoryStorage \<Rightarrow> string \<Rightarrow> string \<Rightarrow> RepoError + BlameEntry \<times> CommitTrace option" where
  "blame_with_trace E r s ref_name path =
     try_bind (blame_inner E r s ref_name path)
       (\<lambda>(entry, commit_id). try_bind (map_err RStorage (get_commit_trace s commit_id))
          (\<lambda>trace. Inr (entry, trace)))"

definition anomaly_report :: "(timestamp \<Rightarrow> string) \<Rightarrow> Commit \<Rightarrow> Commit \<Rightarrow> string" where
  "anomaly_report to_rfc3339 commit parent =
     ''commit '' @ short_id (cm_id commit) @ '' timestamp '' @ to_rfc3339 (cm_timestamp commit) @
     '' <= parent '' @ short_id (cm_id parent) @ '' timestamp '' @ to_rfc3339 (cm_timestamp parent)"

definition anomaly_of ::
  "(timestamp \<Rightarrow> string) \<Rightarrow> MemoryStorage \<Rightarrow> Commit \<Rightarrow> (ObjectId \<times> string) option" where
  "anomaly_of to_rfc3339 s commit =
     map_option (\<lambda>parent. (cm_id commit, anomaly_report to_rfc3339 commit parent))
       (find (\<lambda>parent. cm_timestamp commit \<le> cm_timestamp parent)
          (map enforce_caps (List.map_filter (map_of (ms_commits s)) (cm_parents commit))))"

definition detect_timestamp_anomalies ::
  "(timestamp \<Rightarrow> string) \<Rightarrow> Repository \<Rightarrow> MemoryStorage \<Rightarrow> string \<Rightarrow> RepoError + (ObjectId \<times> string) list" where
  "detect_timestamp_anomalies to_rfc3339 r s ref_name =
     try_bind (log_dag r s ref_name USIZE_MAX)
       (\<lambda>walk. Inr (List.map_filter (anomaly_of to_rfc3339 s) (cw_commits walk)))"

section \<open>The active epoch and session\<close>

definition set_active_epoch :: "Repository \<Rightarrow> string option \<Rightarrow> Repository" where
  "set_active_epoch r i = r\<lparr>rp_active_epoch := i\<rparr>"

definition set_active_session ::
  "Repository \<Rightarrow> MemoryStorage \<Rightarrow> string option \<Rightarrow> Repository \<times> (RepoError + unit)" where
  "set_active_session r s i =
     (case (case i of
              Some session_id \<Rightarrow>
                try_bind (map_err RStorage (get_session s session_id))
                  (\<lambda>session. Inr (case session of Some x \<Rightarrow> se_scope_namespace x | None \<Rightarrow> None))
            | None \<Rightarrow> Inr None) of
        Inl e \<Rightarrow> (r, Inl e)
      | Inr ns_override \<Rightarrow>
          (r\<lparr>rp_active_session := i, rp_active_session_namespace := ns_override\<rparr>, Inr ()))"

section \<open>Epochs\<close>

definition epoch_through ::
  "Env \<Rightarrow> MemoryStorage \<Rightarrow> string \<Rightarrow> string \<Rightarrow> (MemoryStorage \<Rightarrow> 'a repo_result) \<Rightarrow> 'a repo_result" where
  "epoch_through E s i what table =
     write_through E 0 s (StRecord CkEpoch i)
       (system_options E Checkpoint (''epoch '' @ i @ '': '' @ what)) table"

definition repo_create_epoch ::
  "Env \<Rightarrow> Repository \<Rightarrow> MemoryStorage \<Rightarrow> string \<Rightarrow> string \<Rightarrow> string list \<Rightarrow> Epoch repo_result" where
  "repo_create_epoch E r s i description root_intents =
     (let epoch = epoch_with_namespace (epoch_new (ev_now E) i description root_intents)
                    (ns_str (active_namespace r))
      in rbind (epoch_through E s i ''create'' (\<lambda>s. on_storage (create_epoch s epoch)))
           (\<lambda>s1 _. (s1, Inr epoch)))"

definition create_epoch_scoped ::
  "Env \<Rightarrow> Repository \<Rightarrow> MemoryStorage \<Rightarrow> string \<Rightarrow> string \<Rightarrow> string list \<Rightarrow> EpochScope \<Rightarrow>
   Epoch repo_result" where
  "create_epoch_scoped E r s i description root_intents scope =
     (let epoch = epoch_with_scope (epoch_with_namespace (epoch_new (ev_now E) i description root_intents)
                    (ns_str (active_namespace r))) scope
      in rbind (epoch_through E s i ''create'' (\<lambda>s. on_storage (create_epoch s epoch)))
           (\<lambda>s1 _. (s1, Inr epoch)))"

definition repo_get_epoch :: "MemoryStorage \<Rightarrow> string \<Rightarrow> RepoError + Epoch" where
  "repo_get_epoch s i =
     try_bind (map_err RStorage (get_epoch s i)) (ok_or (RRefNotFound (''epoch not found: '' @ i)))"

definition id_chars :: "ObjectId \<Rightarrow> string" where
  "id_chars i = map (\<lambda>b. char_of (unat b)) (oid_bytes i)"

definition compute_seal_hash :: "Env \<Rightarrow> string \<Rightarrow> ObjectId list \<Rightarrow> ObjectId" where
  "compute_seal_hash E i sealed_commits =
     ev_hash E (''asg-epoch-seal-v1'' @ [CHR 0x00] @ i @ [CHR 0x00] @
                concat (map id_chars (sort sealed_commits)))"

definition sealed_set :: "Repository \<Rightarrow> MemoryStorage \<Rightarrow> Epoch \<Rightarrow> RepoError + ObjectId list" where
  "sealed_set r s epoch =
     (case seal_ref (ep_scope epoch) of
        Some ref_name \<Rightarrow>
          try_bind (map_err RStorage (get_ref s (active_namespace r) ref_name))
            (\<lambda>head. Inr (case head of Some h \<Rightarrow> reachable_commits_from s h | None \<Rightarrow> []))
      | None \<Rightarrow> Inr (ep_commits epoch))"

definition repo_seal_epoch ::
  "Env \<Rightarrow> Repository \<Rightarrow> MemoryStorage \<Rightarrow> string \<Rightarrow> string \<Rightarrow> unit repo_result" where
  "repo_seal_epoch E r s i summary =
     (case try_bind (repo_get_epoch s i) (sealed_set r s) of
        Inl e \<Rightarrow> (s, Inl e)
      | Inr sealed_commits \<Rightarrow>
          epoch_through E s i ''seal''
            (\<lambda>s. on_storage (seal_epoch s i summary (ev_now E) sealed_commits
                               (compute_seal_hash E i sealed_commits))))"

definition repo_assign_epoch_namespace ::
  "Env \<Rightarrow> MemoryStorage \<Rightarrow> string \<Rightarrow> string \<Rightarrow> bool repo_result" where
  "repo_assign_epoch_namespace E s i namespace =
     (case namespace_new namespace of
        Inl e \<Rightarrow> (s, Inl (RInvalidOperation (''invalid namespace: '' @ namespace_error_string E e)))
      | Inr _ \<Rightarrow>
          epoch_through E s i ''assign namespace''
            (\<lambda>s. on_storage (assign_epoch_namespace s i namespace)))"

definition repo_list_epochs :: "Repository \<Rightarrow> MemoryStorage \<Rightarrow> RepoError + EpochEntry list" where
  "repo_list_epochs r s =
     try_bind (map_err RStorage (list_epochs s))
       (\<lambda>epochs. Inr (map epoch_to_entry
          (filter (\<lambda>e. epoch_binds_namespace e (active_namespace r)) epochs)))"

definition list_all_epochs :: "MemoryStorage \<Rightarrow> RepoError + EpochEntry list" where
  "list_all_epochs s =
     try_bind (map_err RStorage (list_epochs s)) (\<lambda>epochs. Inr (map epoch_to_entry epochs))"

definition repo_archive_epoch :: "Env \<Rightarrow> MemoryStorage \<Rightarrow> string \<Rightarrow> unit repo_result" where
  "repo_archive_epoch E s i = epoch_through E s i ''archive'' (\<lambda>s. on_storage (archive_epoch s i))"

end
