(* ===== verification/Repo_History_Laws.thy ===== *)
theory Repo_History_Laws
  imports Repo_History Repo_Laws
begin

text \<open>
  What blame finds: the walk it searches, the order it searches it in, and that a value of the head
  was introduced somewhere.
\<close>

lemma parent_edge_history: "parent_edge (get_commit s) = history s"
proof (intro ext)
  fix i j
  show "parent_edge (get_commit s) i j = history s i j"
    unfolding edge_def succs_commit_parents
    by (cases "map_of (ms_commits s) i") (simp_all add: parent_edge_def get_commit_def)
qed

lemma introduced_here_caps [simp]: "introduced_here E s p (enforce_caps c) = introduced_here E s p c"
  unfolding introduced_here_def value_at_def enforce_caps_fields ..

lemma enforce_caps_timestamp [simp]: "cm_timestamp (enforce_caps c) = cm_timestamp c"
  by (simp add: enforce_caps_def cap_agent_id_def cap_description_def cap_reasoning_def cap_tool_calls_def
      split: option.splits)

text \<open>The commits of a log, as they are stored.\<close>

definition walked :: "MemoryStorage \<Rightarrow> ObjectId \<Rightarrow> nat \<Rightarrow> CommitWalk \<Rightarrow> bool" where
  "walked s h limit w \<longleftrightarrow>
     (\<forall>c \<in> set (cw_commits w). map_of (ms_commits s) (cm_id c) = Some c \<and> (history s)\<^sup>*\<^sup>* h (cm_id c)) \<and>
     distinct (map cm_id (cw_commits w)) \<and> (cw_truncated w \<longrightarrow> length (cw_commits w) = limit) \<and>
     (\<not> cw_truncated w \<longrightarrow>
        (\<forall>i c. (history s)\<^sup>*\<^sup>* h i \<and> map_of (ms_commits s) i = Some c \<longrightarrow> c \<in> set (cw_commits w)))"

lemma log_dag_walked:
  assumes "commits_inv s" "resolve_ref r s name = Inr h"
  shows "\<exists>w. walked s h limit w \<and>
    log_dag r s name limit = Inr (w\<lparr>cw_commits := map enforce_caps (cw_commits w)\<rparr>)"
proof -
  from memory_dag_walk [OF assms(1), of h limit] obtain w where
    w: "list_commits_dag (get_commit s) h limit = Inr w"
    "walk_result (get_commit s) h limit w (map cm_id (cw_commits w))" by blast
  have stored: "map_of (ms_commits s) (cm_id c) = Some c" if "c \<in> set (cw_commits w)" for c
    using w(2) that by (auto simp: walk_result_def list_all2_map1 list_all2_same get_commit_def)
  have "walked s h limit w"
    using w(2) stored unfolding walked_def walk_result_def parent_edge_history
    by (auto simp: get_commit_def)
  with w(1) assms(2) show ?thesis by (auto simp: log_dag_def try_bind_def map_err_def)
qed

lemma find_sorted_max:
  assumes "find P (sort_key (\<lambda>c. - f c) xs) = Some x"
  shows "x \<in> set xs \<and> P x \<and> (\<forall>y \<in> set xs. P y \<longrightarrow> f y \<le> (f x :: int))"
proof -
  let ?ys = "sort_key (\<lambda>c. - f c) xs"
  from assms obtain i where i: "i < length ?ys" "P (?ys ! i)" "x = ?ys ! i" "\<forall>j < i. \<not> P (?ys ! j)"
    by (auto simp: find_Some_iff)
  have "f y \<le> f x" if "y \<in> set xs" "P y" for y
  proof -
    from that obtain j where j: "j < length ?ys" "y = ?ys ! j"
      by (metis in_set_conv_nth set_sort)
    with i(4) that(2) have "i \<le> j" using leI by blast
    moreover have "sorted (map (\<lambda>c. - f c) ?ys)" by simp
    ultimately have "- f (?ys ! i) \<le> - f (?ys ! j)"
      using j(1) sorted_nth_mono [of "map (\<lambda>c. - f c) ?ys" i j] by simp
    with i(3) j(2) show ?thesis by simp
  qed
  moreover have "x \<in> set xs" using i(1,3) nth_mem [of i ?ys] by simp
  ultimately show ?thesis using i by blast
qed

text \<open>In a history without cycles a value of the head was introduced by a commit the head reaches.\<close>

lemma introduction_exists:
  assumes "acyclic_graph (commit_parents (ms_commits s))"
    and "map_of (ms_commits s) h = Some c" "value_at E s p c \<noteq> None"
  shows "\<exists>i d. (history s)\<^sup>*\<^sup>* h i \<and> map_of (ms_commits s) i = Some d \<and> introduced_here E s p d"
proof -
  define R where "R = {(j, i). history s i j}"
  define V where "V = {i. (history s)\<^sup>*\<^sup>* h i \<and> (\<exists>d. map_of (ms_commits s) i = Some d \<and> value_at E s p d \<noteq> None)}"
  have sub: "R \<subseteq> (\<Union>(i, d) \<in> set (ms_commits s). set (cm_parents d) \<times> {i})"
  proof
    fix x
    assume "x \<in> R"
    then obtain i j where x: "x = (j, i)" and j: "j \<in> set (succs (commit_parents (ms_commits s)) i)"
      by (auto simp: R_def edge_def)
    then obtain d where "map_of (ms_commits s) i = Some d" "j \<in> set (cm_parents d)"
      unfolding succs_commit_parents by (cases "map_of (ms_commits s) i") simp_all
    with x show "x \<in> (\<Union>(i, d) \<in> set (ms_commits s). set (cm_parents d) \<times> {i})"
      by (force dest: map_of_SomeD)
  qed
  have "finite R" by (rule finite_subset [OF sub]) auto
  moreover have "acyclic R"
  proof -
    have "(i, j) \<in> R\<^sup>+ \<Longrightarrow> (history s)\<^sup>+\<^sup>+ j i" for i j
      by (induction rule: trancl_induct) (auto simp: R_def intro: tranclp_into_tranclp2)
    with assms(1) show ?thesis by (auto simp: acyclic_def acyclic_graph_def)
  qed
  ultimately have "wf R" by (rule finite_acyclic_wf)
  moreover have "h \<in> V" using assms(2,3) by (auto simp: V_def)
  ultimately obtain i where i: "i \<in> V" "\<And>j. (j, i) \<in> R \<Longrightarrow> j \<notin> V" by (metis wfE_min)
  then obtain d where d: "(history s)\<^sup>*\<^sup>* h i" "map_of (ms_commits s) i = Some d" "value_at E s p d \<noteq> None"
    by (auto simp: V_def)
  have "value_at E s p (enforce_caps e) = None" if "j \<in> set (cm_parents d)" "map_of (ms_commits s) j = Some e" for j e
  proof -
    have ij: "history s i j" using that(1) d(2) unfolding edge_def succs_commit_parents by simp
    then have "j \<notin> V" using i(2) by (simp add: R_def)
    moreover have "(history s)\<^sup>*\<^sup>* h j" using d(1) ij by (rule rtranclp.rtrancl_into_rtrancl)
    ultimately have "value_at E s p e = None" using that(2) by (simp add: V_def)
    then show ?thesis by (simp add: value_at_def enforce_caps_fields)
  qed
  then have "introduced_here E s p d"
    using d(3) by (auto simp: introduced_here_def list_ex_iff split: option.splits)
  with d show ?thesis by blast
qed

end
