(* ===== verification/Repo_Taints.thy ===== *)
theory Repo_Taints
  imports Repo_Model
begin

text \<open>
  The taint, quarantine and watch operations of a repository (\<open>taint.rs\<close>): each writes a row of the
  taint table, an intent commit on a ref, and the row into the control tree. The taints raised when a
  watched metric crosses its threshold are in the theory \<open>Repo_Json\<close>, with the writes that raise them.
\<close>

section \<open>Parameters\<close>

record TaintParams =
  tp_name :: string
  tp_effect :: TaintEffect
  tp_reason :: string
  tp_severity :: TaintSeverity
  tp_expires_at :: "timestamp option"
  tp_propagate :: bool
  tp_metadata :: TaintMetadata
  tp_agent_id :: string

record UntaintParams =
  up_reason :: string
  up_proof :: "string option"
  up_agent_id :: string

record QuarantineParams =
  qp_name :: string
  qp_reason :: string
  qp_severity :: TaintSeverity
  qp_authorized_agents :: "string list"
  qp_expires_at :: "timestamp option"
  qp_propagate :: bool
  qp_agent_id :: string

datatype WatchDirection = Above | Below

record WatchParams =
  wp_name :: string
  wp_reason :: string
  wp_metric :: "string option"
  wp_threshold :: "f64 option"
  wp_direction :: WatchDirection
  wp_check_interval_secs :: "u64 option"
  wp_expires_at :: "timestamp option"
  wp_severity :: TaintSeverity
  wp_propagate :: bool
  wp_agent_id :: string

record UnwatchParams =
  nw_reason :: "string option"
  nw_agent_id :: string

section \<open>Creating\<close>

text \<open>The ids a call draws are \<open>ev_uuid E 1\<close> for the row and \<open>ev_uuid E 2\<close> for the pending mark.\<close>

definition taint_through ::
  "Env \<Rightarrow> MemoryStorage \<Rightarrow> string \<Rightarrow> string \<Rightarrow> IntentCategory \<Rightarrow> string \<Rightarrow>
   (MemoryStorage \<Rightarrow> unit repo_result) \<Rightarrow> unit repo_result" where
  "taint_through E s i agent_id category description table =
     write_through E 2 s (StRecord CkTaint i) (options_new E agent_id category description) table"

definition create_with_intent ::
  "Env \<Rightarrow> (nat \<Rightarrow> MemoryStorage \<Rightarrow> MemoryStorage) \<Rightarrow> Repository \<Rightarrow> string \<Rightarrow> IntentCategory \<Rightarrow> string \<Rightarrow>
   Taint \<Rightarrow> MemoryStorage \<Rightarrow> unit repo_result" where
  "create_with_intent E others r ref_name category description taint s =
     rbind (on_storage (create_taint s taint)) (\<lambda>s1 _.
       rbind (write_taint_intent E others r s1 ref_name category description (ta_agent_id taint)
                (Some (ta_reason taint)))
         (\<lambda>s2 commit_id. on_storage (set_taint_commit_id s2 (ta_id taint) (display_id commit_id))))"

definition apply_record ::
  "Env \<Rightarrow> (nat \<Rightarrow> MemoryStorage \<Rightarrow> MemoryStorage) \<Rightarrow> Repository \<Rightarrow> MemoryStorage \<Rightarrow> string \<Rightarrow>
   IntentCategory \<Rightarrow> string \<Rightarrow> Taint \<Rightarrow> string repo_result" where
  "apply_record E others r s ref_name category verb taint =
     (let description = verb @ '' '' @ ta_name taint @ '' on '' @ ta_path taint @ '': '' @ ta_reason taint
      in rbind (taint_through E s (ta_id taint) (ta_agent_id taint) category description
                  (create_with_intent E others r ref_name category description taint))
           (\<lambda>s1 _. (s1, Inr (ta_id taint))))"

definition taint_of_params :: "Env \<Rightarrow> string \<Rightarrow> TaintParams \<Rightarrow> Taint" where
  "taint_of_params E path params =
     \<lparr> ta_id = ev_uuid E 1, ta_path = path, ta_name = tp_name params, ta_kind = TkTaint,
       ta_effect = tp_effect params, ta_severity = tp_severity params, ta_reason = tp_reason params,
       ta_agent_id = tp_agent_id params, ta_commit_id = [], ta_created_at = ev_now E,
       ta_expires_at = tp_expires_at params, ta_resolved_at = None, ta_resolved_by = None,
       ta_resolved_reason = None, ta_resolved_proof = None, ta_propagate = tp_propagate params,
       ta_metadata = tp_metadata params \<rparr>"

definition repo_taint ::
  "Env \<Rightarrow> (nat \<Rightarrow> MemoryStorage \<Rightarrow> MemoryStorage) \<Rightarrow> Repository \<Rightarrow> MemoryStorage \<Rightarrow> string \<Rightarrow> string \<Rightarrow>
   TaintParams \<Rightarrow> string repo_result" where
  "repo_taint E others r s ref_name path params =
     apply_record E others r s ref_name IntentCategory.Taint ''taint'' (taint_of_params E path params)"

definition quarantine_of_params :: "Env \<Rightarrow> string \<Rightarrow> QuarantineParams \<Rightarrow> Taint" where
  "quarantine_of_params E path params =
     \<lparr> ta_id = ev_uuid E 1, ta_path = path, ta_name = qp_name params, ta_kind = TkQuarantine,
       ta_effect = EffBlock, ta_severity = qp_severity params, ta_reason = qp_reason params,
       ta_agent_id = qp_agent_id params, ta_commit_id = [], ta_created_at = ev_now E,
       ta_expires_at = qp_expires_at params, ta_resolved_at = None, ta_resolved_by = None,
       ta_resolved_reason = None, ta_resolved_proof = None, ta_propagate = qp_propagate params,
       ta_metadata = metadata_insert ''authorized_agents''
                       (JArray (map JString (qp_authorized_agents params))) [] \<rparr>"

definition repo_quarantine ::
  "Env \<Rightarrow> (nat \<Rightarrow> MemoryStorage \<Rightarrow> MemoryStorage) \<Rightarrow> Repository \<Rightarrow> MemoryStorage \<Rightarrow> string \<Rightarrow> string \<Rightarrow>
   QuarantineParams \<Rightarrow> string repo_result" where
  "repo_quarantine E others r s ref_name path params =
     apply_record E others r s ref_name Quarantine ''quarantine'' (quarantine_of_params E path params)"

fun direction_json :: "WatchDirection \<Rightarrow> json" where
  "direction_json Above = JString ''above''"
| "direction_json Below = JString ''below''"

definition watch_metadata :: "WatchParams \<Rightarrow> TaintMetadata" where
  "watch_metadata params =
     (let m = []; m = (case wp_metric params of
            Some x \<Rightarrow> metadata_insert ''metric'' (JString x) m | None \<Rightarrow> m);
          m = (case wp_threshold params of
            Some t \<Rightarrow> metadata_insert ''threshold'' (if f64_is_finite t then JNumber (JFloat t) else JNull) m
          | None \<Rightarrow> m);
          m = metadata_insert ''direction'' (direction_json (wp_direction params)) m
      in (case wp_check_interval_secs params of
            Some n \<Rightarrow> metadata_insert ''check_interval_secs'' (JNumber (JInt (uint n))) m | None \<Rightarrow> m))"

definition watch_of_params :: "Env \<Rightarrow> string \<Rightarrow> WatchParams \<Rightarrow> Taint" where
  "watch_of_params E path params =
     \<lparr> ta_id = ev_uuid E 1, ta_path = path, ta_name = wp_name params, ta_kind = TkWatch,
       ta_effect = EffAdvisory, ta_severity = wp_severity params, ta_reason = wp_reason params,
       ta_agent_id = wp_agent_id params, ta_commit_id = [], ta_created_at = ev_now E,
       ta_expires_at = wp_expires_at params, ta_resolved_at = None, ta_resolved_by = None,
       ta_resolved_reason = None, ta_resolved_proof = None, ta_propagate = wp_propagate params,
       ta_metadata = watch_metadata params \<rparr>"

definition watch_path ::
  "Env \<Rightarrow> (nat \<Rightarrow> MemoryStorage \<Rightarrow> MemoryStorage) \<Rightarrow> Repository \<Rightarrow> MemoryStorage \<Rightarrow> string \<Rightarrow> string \<Rightarrow>
   WatchParams \<Rightarrow> string repo_result" where
  "watch_path E others r s ref_name path params =
     apply_record E others r s ref_name Watch ''watch'' (watch_of_params E path params)"

section \<open>Resolving\<close>

definition resolve_kind ::
  "Env \<Rightarrow> (nat \<Rightarrow> MemoryStorage \<Rightarrow> MemoryStorage) \<Rightarrow> Repository \<Rightarrow> MemoryStorage \<Rightarrow> string \<Rightarrow> string \<Rightarrow>
   string \<Rightarrow> TaintKind \<Rightarrow> IntentCategory \<Rightarrow> UntaintParams \<Rightarrow> unit repo_result" where
  "resolve_kind E others r s ref_name path taint_name kind intent params =
     (case try_bind (map_err RStorage (list_taints s (Some path) (Some kind) False))
             (\<lambda>candidates. ok_or (RTaint (TeNotFound
                 (taint_kind_debug kind @ '':'' @ path @ '':'' @ taint_name)) None)
               (find (\<lambda>t. ta_path t = path \<and> ta_name t = taint_name) candidates)) of
        Inl e \<Rightarrow> (s, Inl e)
      | Inr target \<Rightarrow>
          let description = ''resolve '' @ taint_kind_debug kind @ '' '' @ taint_name @ '' on '' @ path in
          taint_through E s (ta_id target) (up_agent_id params) intent description
            (\<lambda>s. rbind (on_storage (resolve_taint s (ta_id target) (up_agent_id params)
                          (up_reason params) (up_proof params) (ev_now E)))
               (\<lambda>s1 _. rbind (write_taint_intent E others r s1 ref_name intent description
                                (up_agent_id params) (Some (up_reason params)))
                  (\<lambda>s2 _. (s2, Inr ())))))"

definition untaint ::
  "Env \<Rightarrow> (nat \<Rightarrow> MemoryStorage \<Rightarrow> MemoryStorage) \<Rightarrow> Repository \<Rightarrow> MemoryStorage \<Rightarrow> string \<Rightarrow> string \<Rightarrow>
   string \<Rightarrow> UntaintParams \<Rightarrow> unit repo_result" where
  "untaint E others r s ref_name path taint_name params =
     resolve_kind E others r s ref_name path taint_name TkTaint Untaint params"

definition unquarantine ::
  "Env \<Rightarrow> (nat \<Rightarrow> MemoryStorage \<Rightarrow> MemoryStorage) \<Rightarrow> Repository \<Rightarrow> MemoryStorage \<Rightarrow> string \<Rightarrow> string \<Rightarrow>
   string \<Rightarrow> UntaintParams \<Rightarrow> unit repo_result" where
  "unquarantine E others r s ref_name path taint_name params =
     resolve_kind E others r s ref_name path taint_name TkQuarantine Unquarantine params"

definition unwatch ::
  "Env \<Rightarrow> (nat \<Rightarrow> MemoryStorage \<Rightarrow> MemoryStorage) \<Rightarrow> Repository \<Rightarrow> MemoryStorage \<Rightarrow> string \<Rightarrow> string \<Rightarrow>
   string \<Rightarrow> UnwatchParams \<Rightarrow> unit repo_result" where
  "unwatch E others r s ref_name path watch_name params =
     resolve_kind E others r s ref_name path watch_name TkWatch Unwatch
       \<lparr> up_reason = (case nw_reason params of Some x \<Rightarrow> x | None \<Rightarrow> []), up_proof = None,
         up_agent_id = nw_agent_id params \<rparr>"

end
