(* ===== verification/Repo_Taint_Laws.thy ===== *)
theory Repo_Taint_Laws
  imports Repo_Laws Repo_Taints
begin

text \<open>
  The taint operations when the intent commit cannot be written: the row of the taint table has
  changed before the ref is looked at, and the write-through takes the error for a table write that
  did not happen. And what the guards of a write look at: the spelling of the path and what covers it.
\<close>

section \<open>Refused intents\<close>

lemma head_for_write_frame:
  assumes "ms_namespaces s' = ms_namespaces s" "ms_commits s' = ms_commits s"
    and "\<And>n. \<not> is_reserved_ref n \<Longrightarrow> map_of (ms_refs s') (ns, n) = map_of (ms_refs s) (ns, n)"
    and "ns = ns_str (active_namespace r)"
  shows "head_for_write r s' name = head_for_write r s name"
proof (cases "is_reserved_ref name")
  case False
  then have get: "get_ref s' (active_namespace r) name = get_ref s (active_namespace r) name"
    using assms by (simp add: get_ref_def require_namespace_def)
  moreover have "resolve_commit_ref s' name = resolve_commit_ref s name"
    unfolding resolve_commit_ref_def has_commit_def all_commit_ids_def assms(2) ..
  ultimately have "resolve_ref r s' name = resolve_ref r s name" by (simp only: resolve_ref_def)
  with get show ?thesis by (simp only: head_for_write_def)
qed (simp add: head_for_write_def refuse_reserved_ref_def try_bind_def)

lemma pending_mark_reserved: "is_reserved_ref (pending_mark E k stage)"
  by (simp add: pending_mark_def is_reserved_ref_def CONTROL_PREFIX_def PENDING_PREFIX_def split_beta)

lemma write_through_fails:
  assumes "DEFAULT_NS \<in> set (ms_namespaces s)"
    and "table (set_ref_write s default_ns (pending_mark E k stage) (ev_hash E (pending_mark E k stage))) = (s2, Inl e)"
  shows "write_through E k s stage options table =
    (fst (cas_delete_ref s2 default_ns (pending_mark E k stage) (ev_hash E (pending_mark E k stage))), Inl e)"
  using assms by (simp add: write_through_def Let_def set_ref_def require_namespace_def map_err_def
      default_ns_def)

lemma cas_delete_ref_taints [simp]: "ms_taints (fst (cas_delete_ref s ns name expected)) = ms_taints s"
  by (simp add: cas_delete_ref_def cas_delete_ref_write_def split: sum.splits)

lemma write_taint_intent_refused:
  "head_for_write r s name = Inl e \<Longrightarrow>
   write_taint_intent E others r s name category description agent reasoning = (s, Inl e)"
proof -
  assume "head_for_write r s name = Inl e"
  moreover obtain m where m: "MAX_REF_CAS_ATTEMPTS = Suc m" by (rule cas_attempts_Suc)
  ultimately show ?thesis unfolding write_taint_intent_def Let_def m by simp
qed

text \<open>A head that cannot be resolved stays so when a pending mark and taint rows are added.\<close>

lemma head_for_write_pending:
  assumes "head_for_write r s name = Inl e" "is_reserved_ref mark"
  shows "head_for_write r ((set_ref_write s ns mark x)\<lparr>ms_taints := ts\<rparr>) name = Inl e"
proof -
  have "head_for_write r ((set_ref_write s ns mark x)\<lparr>ms_taints := ts\<rparr>) name = head_for_write r s name"
    by (rule head_for_write_frame) (use assms(2) in \<open>auto simp: set_ref_write_def map_of_bt_insert\<close>)
  with assms(1) show ?thesis by simp
qed

lemma apply_record_refused:
  assumes "DEFAULT_NS \<in> set (ms_namespaces s)" "head_for_write r s ref_name = Inl e"
    and "\<not> (\<exists>x \<in> set (ms_taints s). ta_resolved_at x = None \<and> ta_path x = ta_path t \<and>
      ta_name x = ta_name t \<and> ta_kind x = ta_kind t)"
  shows "\<exists>s'. apply_record E others r s ref_name category verb t = (s', Inl e) \<and>
    ms_taints s' = ms_taints s @ [t]"
proof -
  let ?mark = "pending_mark E 2 (StRecord CkTaint (ta_id t))"
  let ?s1 = "set_ref_write s default_ns ?mark (ev_hash E ?mark)"
  let ?s2 = "?s1\<lparr>ms_taints := ms_taints s @ [t]\<rparr>"
  have "create_with_intent E others r ref_name category d t ?s1 = (?s2, Inl e)" for d
  proof -
    have "create_taint ?s1 t = (?s2, Inr ())"
      using assms(3) by (auto simp: create_taint_def set_ref_write_def)
    then show ?thesis
      using write_taint_intent_refused [OF head_for_write_pending [OF assms(2) pending_mark_reserved]]
      by (simp add: create_with_intent_def map_err_def)
  qed
  note write_through_fails [OF assms(1), of "create_with_intent E others r ref_name category d t" E 2
      "StRecord CkTaint (ta_id t)" ?s2 e for d, OF this]
  then show ?thesis
    by (simp add: apply_record_def taint_through_def Let_def)
qed

lemma resolve_kind_refused:
  assumes "DEFAULT_NS \<in> set (ms_namespaces s)" "head_for_write r s ref_name = Inl e"
    and "list_taints s (Some path) (Some kind) False = Inr candidates"
    and "find (\<lambda>t. ta_path t = path \<and> ta_name t = name) candidates = Some t"
    and "find_taint (ta_id t) (ms_taints s) = Some t" "ta_resolved_at t = None"
  shows "\<exists>s'. resolve_kind E others r s ref_name path name kind intent params = (s', Inl e) \<and>
    ms_taints s' = update_taint (ta_id t)
      (\<lambda>t. t\<lparr>ta_resolved_at := Some (ev_now E), ta_resolved_by := Some (up_agent_id params),
             ta_resolved_reason := Some (up_reason params), ta_resolved_proof := up_proof params\<rparr>) (ms_taints s)"
    (is "\<exists>s'. _ \<and> _ = ?ts")
proof -
  let ?mark = "pending_mark E 2 (StRecord CkTaint (ta_id t))"
  let ?s1 = "set_ref_write s default_ns ?mark (ev_hash E ?mark)"
  let ?s2 = "?s1\<lparr>ms_taints := ?ts\<rparr>"
  let ?table = "\<lambda>d s. rbind (on_storage (resolve_taint s (ta_id t) (up_agent_id params) (up_reason params)
      (up_proof params) (ev_now E))) (\<lambda>s1 _. rbind (write_taint_intent E others r s1 ref_name intent d
        (up_agent_id params) (Some (up_reason params))) (\<lambda>s2 _. (s2, Inr ())))"
  have "resolve_taint ?s1 (ta_id t) (up_agent_id params) (up_reason params) (up_proof params) (ev_now E) = (?s2, Inr ())"
    using assms(5,6) by (simp add: resolve_taint_def set_ref_write_def)
  then have "?table d ?s1 = (?s2, Inl e)" for d
    using write_taint_intent_refused [OF head_for_write_pending [OF assms(2) pending_mark_reserved]]
    by (simp add: map_err_def)
  note write_through_fails [OF assms(1), of "?table d" E 2 "StRecord CkTaint (ta_id t)" ?s2 e for d, OF this]
  then show ?thesis
    using assms(3,4) by (simp add: resolve_kind_def taint_through_def Let_def try_bind_def map_err_def ok_or_def)
qed

section \<open>The guards of a write\<close>

lemma fold_taints:
  "tc_taints (fold (apply_taint a) ts out) = tc_taints out @ filter (\<lambda>t. ta_kind t = TkTaint) ts"
  by (induction ts arbitrary: out) (auto simp: apply_taint_def Let_def split: TaintKind.splits TaintEffect.splits)

lemma repo_check_taint_eq:
  "repo_check_taint s now p a c = Inr (evaluate_access p a c (ms_taints s) now)"
proof -
  have "check_taint s now p = Inr (ancestor_candidates p (ms_taints s) now)"
    by (auto simp: check_taint_def ancestor_candidates_def intro!: filter_cong)
  then show ?thesis by (simp add: repo_check_taint_def map_err_def try_bind_def evaluate_access_prefiltered)
qed

text \<open>A path that no taint in force covers by its text passes the hook; a block that covers it refuses.\<close>

lemma pre_commit_uncovered:
  assumes "\<forall>t \<in> set (ms_taints s). taint_is_active t now \<longrightarrow> \<not> taint_covers p t"
  shows "pre_commit_taint_check s now [p] options = Inr []"
proof -
  have none: "ancestor_candidates p (ms_taints s) now = []"
    using assms by (auto simp: ancestor_candidates_def filter_empty_conv)
  then show ?thesis
    by (simp add: repo_check_taint_eq evaluate_access_def try_bind_def taint_refusal_def taint_check_clear_def Let_def)
qed

lemma pre_commit_blocked:
  assumes "t \<in> set (ms_taints s)" "taint_is_active t now" "taint_covers p t" "ta_kind t = TkTaint" "ta_effect t = EffBlock"
  shows "\<exists>e i. pre_commit_taint_check s now [p] options = Inl (RTaint e i)"
proof -
  let ?check = "\<lambda>c. evaluate_access p (co_agent_id options) c (ms_taints s) now"
  have t: "t \<in> set (ancestor_candidates p (ms_taints s) now)" using assms(1-3) by (simp add: ancestor_candidates_def)
  have "\<exists>e i. taint_refusal p (co_agent_id options) c (?check c) = Some (RTaint e i)" for c
  proof -
    have no: "\<not> tc_can_write (?check c)" using t assms(4,5) by (auto simp: evaluate_access_can_write taint_denies_def)
    have "t \<in> set (tc_taints (?check c))"
      using t assms(4) by (simp add: evaluate_access_def Let_def fold_taints taint_check_clear_def)
    with assms(5) obtain x where "find (\<lambda>t. ta_effect t = EffBlock) (tc_taints (?check c)) = Some x"
      by (cases "find (\<lambda>t. ta_effect t = EffBlock) (tc_taints (?check c))") (auto simp: find_None_iff)
    with no show ?thesis by (simp add: taint_refusal_def split: option.splits)
  qed
  from this [of "case co_confidence options of Some c \<Rightarrow> c | None \<Rightarrow> f64_one"] obtain e i where
    "taint_refusal p (co_agent_id options) (case co_confidence options of Some c \<Rightarrow> c | None \<Rightarrow> f64_one)
       (?check (case co_confidence options of Some c \<Rightarrow> c | None \<Rightarrow> f64_one)) = Some (RTaint e i)" by blast
  then show ?thesis by (simp only: pre_commit_taint_check.simps Let_def repo_check_taint_eq try_bind_def sum.case option.case)
     blast
qed

text \<open>Two spellings of an index name the same element.\<close>

lemma split_on_append_sep: "split_on c (xs @ c # ys) = split_on c xs @ split_on c ys"
  by (induction xs) (auto split: list.splits)

lemma parse_usize_no_slash: "parse_usize a = Some n \<Longrightarrow> a \<noteq> [] \<and> CHR ''/'' \<notin> set a"
  by (cases a) (auto simp: parse_usize_def Let_def list_all_iff is_digit_def split: if_splits)

lemma path_parse_alias:
  assumes "parse_usize a = Some n" "parse_usize b = Some n" "length a \<le> MAX_SEGMENT_LEN" "length b \<le> MAX_SEGMENT_LEN"
  shows "path_parse (base @ ''/'' @ a) = path_parse (base @ ''/'' @ b)"
proof -
  have seg: "parse_segment i a = Inr (Index n)" "parse_segment i b = Inr (Index n)" for i
    using assms parse_usize_no_slash [OF assms(1)] parse_usize_no_slash [OF assms(2)] by (simp_all add: parse_segment_def not_less)
  have split: "split_on CHR ''/'' a = [a]" "split_on CHR ''/'' b = [b]"
    using parse_usize_no_slash assms(1,2) split_on_single by metis+
  have ne: "a \<noteq> []" "b \<noteq> []" using parse_usize_no_slash assms(1,2) by blast+
  show ?thesis
  proof (cases base)
    case Nil
    with ne split seg show ?thesis by (simp add: path_parse_def strip_prefix_def)
  next
    case (Cons c q)
    with ne split seg show ?thesis
      by (cases "c = CHR ''/''") (simp_all add: path_parse_def strip_prefix_def split_on_append_sep enumerate_append_eq)
  qed
qed

lemma taint_covers_alias:
  assumes "ta_path t = base @ ''/'' @ a" "parse_usize a = Some n" "parse_usize b = Some n" "a \<noteq> b"
  shows "\<not> taint_covers (base @ ''/'' @ b) t" "\<not> taint_covers base t"
proof -
  have a: "a \<noteq> []" "CHR ''/'' \<notin> set a" and b: "CHR ''/'' \<notin> set b" using parse_usize_no_slash assms(2,3) by blast+
  then have "last a \<noteq> CHR ''/''" by (metis last_in_set)
  then have last: "\<not> ends_with_slash (ta_path t)" using assms(1) a(1) by (simp add: ends_with_slash_def)
  have "\<not> is_prefix (base @ ''/'' @ a @ ''/'') (base @ ''/'' @ b)" using b by (auto simp: is_prefix_iff)
  with last assms(1,4) show "\<not> taint_covers (base @ ''/'' @ b) t" by (simp add: taint_covers_def)
  have "\<not> is_prefix (base @ ''/'' @ a @ ''/'') base" by (auto simp: is_prefix_iff dest: arg_cong [of _ _ length])
  with last assms(1) show "\<not> taint_covers base t" by (simp add: taint_covers_def)
qed

end
