(* ===== verification/Repo_Samples.thy ===== *)
theory Repo_Samples
  imports Samples Repo_Merge_Laws Repo_History_Laws Repo_Taint_Laws
begin

text \<open>
  A concrete repository for the witnesses: a store with two branches that fork from one commit, and
  an environment with concrete hashes.
\<close>

definition sample_cid :: "CommitHashInput \<Rightarrow> ObjectId" where
  "sample_cid hi = ObjectId (7 # enc_list enc_oid (hi_parents hi) @ enc_oid (hi_state_root hi))"

definition sample_env :: Env where
  "sample_env =
     \<lparr> ev_oid = sym_oid, ev_cid = sample_cid, ev_hash = (\<lambda>x. ObjectId (8 # enc_string x)), ev_now = 0,
       ev_clock = int, ev_uuid = show_nat, ev_trace = None, ev_debug = id,
       ev_edit = (\<lambda>s base stage. (s, Inr (doc_root base_doc))), ev_at_check = (\<lambda>_ s. s) \<rparr>"

lemma sample_env_fields [simp]:
  "ev_oid sample_env = sym_oid" "ev_cid sample_env = sample_cid" "ev_now sample_env = 0"
  "ev_clock sample_env = int" "ev_at_check sample_env = (\<lambda>_ s. s)" "ev_trace sample_env = None" "ev_uuid sample_env = show_nat"
  by (simp_all add: sample_env_def)

definition sample_repo :: Repository where
  "sample_repo =
     \<lparr> rp_namespace = default_ns, rp_active_epoch = None, rp_active_session = None,
       rp_active_session_namespace = None, rp_epoch_seal_strict = True, rp_branch_refs_only = False \<rparr>"

lemma sample_repo_fields [simp]:
  "rp_active_epoch sample_repo = None" "rp_active_session sample_repo = None"
  "rp_epoch_seal_strict sample_repo" "active_namespace sample_repo = default_ns"
  by (simp_all add: sample_repo_def active_namespace_def)

definition sample_options :: CommitOptions where
  "sample_options = options_new sample_env ''a'' Refine ''d''"

definition doc_commit :: "nat \<Rightarrow> json \<Rightarrow> nat list \<Rightarrow> Commit" where
  "doc_commit n j parents = (sample_commit n parents)\<lparr>cm_state_root := doc_root j\<rparr>"

definition with_commit :: "Commit \<Rightarrow> MemoryStorage \<Rightarrow> MemoryStorage" where
  "with_commit c s = fst (put_commit s c)"

definition with_ref :: "string \<Rightarrow> ObjectId \<Rightarrow> MemoryStorage \<Rightarrow> MemoryStorage" where
  "with_ref name i s = fst (set_ref s default_ns name i)"

definition fork_store :: MemoryStorage where
  "fork_store =
     with_ref ''feature'' (commit_name 2) (with_ref ''main'' (commit_name 1)
       (with_commit (doc_commit 2 theirs_doc [0]) (with_commit (doc_commit 1 ours_doc [0])
         (with_commit (doc_commit 0 base_doc []) sample_store))))"

lemma sample_store_fields [simp]:
  "ms_commits sample_store = []" "ms_refs sample_store = []" "ms_namespaces sample_store = [DEFAULT_NS]"
  "ms_epochs sample_store = []" "ms_taints sample_store = []" "ms_commit_traces sample_store = []"
  by code_simp+

lemma default_namespace [simp]: "ns_str default_ns = DEFAULT_NS"
  by code_simp

lemmas fork_defs = fork_store_def with_ref_def with_commit_def set_ref_def set_ref_write_def put_commit_def
  require_namespace_def

lemma fork_objects [simp]: "ms_objects fork_store = ms_objects sample_store"
  by (simp add: fork_defs)

lemma fork_inv [simp]: "objects_inv sym_oid fork_store"
  using sample_inv by (simp add: objects_inv_def memory_view_def)

lemma fork_active [simp]: "has_active sample_repo fork_store"
  by (simp add: has_active_def fork_defs)

lemma fork_refs: "ref_of sample_repo fork_store ''main'' = Some (commit_name 1)"
  "ref_of sample_repo fork_store ''feature'' = Some (commit_name 2)"
  by (simp_all add: ref_of_def fork_defs)

lemma fork_commits:
  "map_of (ms_commits fork_store) (commit_name 0) = Some (doc_commit 0 base_doc [])"
  "map_of (ms_commits fork_store) (commit_name 1) = Some (doc_commit 1 ours_doc [0])"
  "map_of (ms_commits fork_store) (commit_name 2) = Some (doc_commit 2 theirs_doc [0])"
  by (simp_all add: fork_defs map_of_bt_insert doc_commit_def sample_commit_def commit_name_def)

lemma fork_epochs [simp]: "ms_epochs fork_store = []" "ms_taints fork_store = []"
  by (simp_all add: fork_defs)

lemmas parse_simps = parse_path_def path_parse_def strip_prefix_def parse_segment_def parse_usize_def
  digits_val_def is_digit_def digit_val_def MAX_SEGMENT_LEN_def MAX_PATH_DEPTH_def

lemmas guard_simps = write_guards_def check_meta_guard_def path_is_reserved_def META_PATH_PREFIX_def
  is_taint_lifecycle_intent_def

lemma sample_intent [simp]: "in_category (co_intent sample_options) = Refine"
  by code_simp

lemma no_taint_access:
  "tc_taints (evaluate_access p a c [] now) = []" "tc_quarantines (evaluate_access p a c [] now) = []"
  by (simp_all add: evaluate_access_def ancestor_candidates_def taint_check_clear_def Let_def)

lemma no_taint_passes:
  "ms_taints s = [] \<Longrightarrow> pre_commit_taint_check s now [path] options = Inr []"
  by (simp add: repo_check_taint_def check_taint_def map_err_def try_bind_def no_taint_access
      taint_refusal_def Let_def)

lemma fork_guards: "write_guards sample_env fork_store ''/a'' sample_options = Inr [Key ''a'']"
  by (simp add: guard_simps no_taint_passes parse_simps try_bind_def map_err_def
      del: pre_commit_taint_check.simps)

lemma fork_succs:
  "succs (commit_parents (ms_commits fork_store)) x =
     (if x = commit_name 1 \<or> x = commit_name 2 then [commit_name 0] else [])"
  by (simp add: fork_defs succs_insert doc_commit_def sample_commit_def commit_name_def)
     (simp add: commit_parents_def succs_def)

lemma fork_history:
  "history fork_store x y \<longleftrightarrow> y = commit_name 0 \<and> (x = commit_name 1 \<or> x = commit_name 2)"
  unfolding edge_def fork_succs by (cases "x = commit_name 1 \<or> x = commit_name 2") simp_all

lemma commit_name_eq [simp]: "commit_name 0 \<noteq> commit_name (Suc 0)" "commit_name 0 \<noteq> commit_name 2"
  "commit_name (Suc 0) \<noteq> commit_name 2" "commit_name 2 \<noteq> commit_name (Suc 0)"
  "commit_name 2 \<noteq> commit_name 0" "commit_name (Suc 0) \<noteq> commit_name 0"
  by (simp_all add: commit_name_def)

lemma fork_reach: "(history fork_store)\<^sup>*\<^sup>* x y \<Longrightarrow> y = x \<or> y = commit_name 0"
  by (induction rule: rtranclp_induct) (auto simp: fork_history)

lemma fork_acyclic: "acyclic_graph (commit_parents (ms_commits fork_store))"
proof -
  have "x \<noteq> commit_name 0 \<and> y = commit_name 0" if "(history fork_store)\<^sup>+\<^sup>+ x y" for x y
    using that by (induction rule: tranclp_induct) (auto simp: fork_history)
  then show ?thesis by (auto simp: acyclic_graph_def)
qed

lemma fork_resolve:
  "resolve_ref sample_repo fork_store ''main'' = Inr (commit_name 1)"
  "resolve_ref sample_repo fork_store ''feature'' = Inr (commit_name 2)"
  using resolve_ref_branch [OF fork_active] fork_refs by blast+

lemma fork_base:
  assumes "commit_parents (ms_commits s) = commit_parents (ms_commits fork_store)"
  shows "common_ancestor s (commit_name 2) (commit_name 1) = Some (commit_name 0)"
proof -
  have reach: "(history s)\<^sup>*\<^sup>* (commit_name 2) (commit_name 0)" "(history s)\<^sup>*\<^sup>* (commit_name 1) (commit_name 0)"
    by (auto simp: assms fork_history)
  with common_ancestor_None [of s "commit_name 2" "commit_name 1"] obtain c where
    c: "common_ancestor s (commit_name 2) (commit_name 1) = Some c" by auto
  with common_ancestor_best [of s "commit_name 2" "commit_name 1" c] fork_acyclic assms
  have "(history fork_store)\<^sup>*\<^sup>* (commit_name 2) c" "(history fork_store)\<^sup>*\<^sup>* (commit_name 1) c" by simp_all
  with fork_reach [of "commit_name 2" c] fork_reach [of "commit_name 1" c] have "c = commit_name 0" by auto
  with c show ?thesis by simp
qed

lemma sample_fresh:
  "map_of (ms_commits fork_store) (cm_id (new_commit sample_env k root parents options)) = None"
proof -
  let ?n = "new_commit sample_env k root parents options"
  have "cm_id ?n = sample_cid (hash_input ?n)"
    using builder_build_intact [of sample_cid "int k" "commit_builder root parents options"]
    by (simp add: new_commit_def compute_id_def)
  then show ?thesis
    by (simp add: fork_defs map_of_bt_insert commit_name_def doc_commit_def sample_commit_def sample_cid_def
        enc_list_def enc_nat_def)
qed

lemma fork_seals [simp]: "seals_hold sample_repo fork_store i"
  by (simp add: seals_hold_def)

abbreviation fork_set :: "MemoryStorage \<times> (TreeError + ObjectId)" where
  "fork_set \<equiv> tree_set (memory_store sym_oid) fork_store (doc_root ours_doc) [Key ''a''] (object_string ''9'')"

lemma fork_set_run: "\<exists>s1 root. fork_set = (s1, Inr root)"
proof -
  have "case fork_set of (_, Inr _) \<Rightarrow> True | _ \<Rightarrow> False" by code_simp
  then show ?thesis by (auto split: prod.splits sum.splits)
qed

lemma main_not_reserved [simp]: "refuse_reserved_ref ''main'' = Inr ()"
  by (simp add: refuse_reserved_ref_def is_reserved_ref_def is_tracking_ref_def CONTROL_PREFIX_def
      TRACKING_PREFIX_def)

text \<open>The fork with a sealed epoch that recorded the commits \<open>xs\<close>.\<close>

definition sealed_epoch :: "ObjectId list \<Rightarrow> Epoch" where
  "sealed_epoch xs = (epoch_with_namespace (epoch_with_scope (epoch_new 0 ''e'' ''d'' []) (EsBranch ''feature''))
     DEFAULT_NS)\<lparr>ep_status := ESealed, ep_sealed_commits := xs\<rparr>"

definition sealed_store :: "ObjectId list \<Rightarrow> MemoryStorage" where
  "sealed_store xs = fork_store\<lparr>ms_epochs := [sealed_epoch xs]\<rparr>"

lemma sealed_store_fields [simp]:
  "ms_commits (sealed_store xs) = ms_commits fork_store" "ms_refs (sealed_store xs) = ms_refs fork_store"
  "ms_objects (sealed_store xs) = ms_objects fork_store" "ms_taints (sealed_store xs) = []"
  "ms_namespaces (sealed_store xs) = ms_namespaces fork_store" "ms_epochs (sealed_store xs) = [sealed_epoch xs]"
  by (simp_all add: sealed_store_def)

lemma sealed_binds [simp]: "binds sample_repo (sealed_epoch xs)" "ep_sealed_commits (sealed_epoch xs) = xs"
  by (simp_all add: binds_def epoch_binds_namespace_def sealed_epoch_def epoch_with_namespace_def
      epoch_with_scope_def epoch_new_def)

text \<open>A fork whose \<open>main\<close> has only a commit that leaves the state as it was.\<close>

definition audit_store :: MemoryStorage where
  "audit_store = with_commit (doc_commit 1 base_doc [0]) fork_store"

lemma audit_store_fields [simp]:
  "ms_refs audit_store = ms_refs fork_store" "ms_namespaces audit_store = ms_namespaces fork_store"
  "ms_epochs audit_store = []"
  by (simp_all add: audit_store_def with_commit_def put_commit_def)

lemma audit_graph: "commit_parents (ms_commits audit_store) = commit_parents (ms_commits fork_store)"
  by (simp add: audit_store_def fork_defs commit_parents_def doc_commit_def sample_commit_def commit_name_def
      less_ObjectId_def)

lemma audit_commits:
  "map_of (ms_commits audit_store) (commit_name 0) = Some (doc_commit 0 base_doc [])"
  "map_of (ms_commits audit_store) (commit_name 1) = Some (doc_commit 1 base_doc [0])"
  "map_of (ms_commits audit_store) (commit_name 2) = Some (doc_commit 2 theirs_doc [0])"
  using fork_commits
  by (simp_all add: audit_store_def with_commit_def put_commit_def map_of_bt_insert)
     (simp_all add: doc_commit_def sample_commit_def)

lemma audit_facts:
  "has_active sample_repo audit_store" "ref_of sample_repo audit_store ''main'' = Some (commit_name 1)"
  "refuse_reserved_ref ''main'' = Inr ()"
  "resolve_ref sample_repo audit_store ''feature'' = Inr (commit_name 2)"
  "common_ancestor audit_store (commit_name 2) (commit_name 1) = Some (commit_name 0)"
  "cm_state_root (doc_commit 0 base_doc []) = cm_state_root (doc_commit 1 base_doc [0])"
  "seals_hold sample_repo audit_store (commit_name 2)"
proof -
  show active: "has_active sample_repo audit_store" using fork_active by (simp add: has_active_def)
  show "resolve_ref sample_repo audit_store ''feature'' = Inr (commit_name 2)"
    using fork_refs(2) by (intro resolve_ref_branch active) (simp add: ref_of_def)
  show "ref_of sample_repo audit_store ''main'' = Some (commit_name 1)"
    using fork_refs(1) by (simp add: ref_of_def)
  show "common_ancestor audit_store (commit_name 2) (commit_name 1) = Some (commit_name 0)"
    using fork_base audit_graph by blast
qed (simp_all add: doc_commit_def seals_hold_def)

end
