(* ===== verification/Repo_Json.thy ===== *)
theory Repo_Json
  imports Repo_Taints Repo_History Tree_Walks
begin

text \<open>
  JSON writes of a repository (\<open>set_json\<close>, \<open>set_json_cas\<close>), the taints a watch raises when such a write
  crosses its threshold (\<open>taint.rs\<close>), and the listing and search of a ref (\<open>repo.rs\<close>).

  A number of a document is read as a 64-bit float. The conversion of an integer is written out; parsing
  and printing a float are the fields of \<open>Floats\<close>.
\<close>

section \<open>Numbers\<close>

record Floats =
  fl_parse :: "string \<Rightarrow> f64 option"
  fl_show :: "f64 \<Rightarrow> string"

text \<open>The cast of an integer to \<open>f64\<close>: 53 significant bits, ties to even. A carry out of the mantissa
  moves into the exponent.\<close>

fun top_bit :: "nat \<Rightarrow> nat" where
  "top_bit n = (if n < 2 then 0 else Suc (top_bit (n div 2)))"

declare top_bit.simps [simp del]

definition round_shift :: "nat \<Rightarrow> nat \<Rightarrow> nat" where
  "round_shift n sh =
     (let q = n div 2 ^ sh; rest = n mod 2 ^ sh; half = 2 ^ sh div 2
      in if half < rest \<or> rest = half \<and> odd q then q + 1 else q)"

definition f64_of_nat :: "nat \<Rightarrow> nat" where
  "f64_of_nat n =
     (if n = 0 then 0
      else let e = top_bit n;
               mantissa = (if e \<le> 52 then n * 2 ^ (52 - e) else round_shift n (e - 52))
           in (e + 1023) * 2 ^ 52 + mantissa - 2 ^ 52)"

definition f64_of_int :: "int \<Rightarrow> f64" where
  "f64_of_int n = word_of_nat ((if n < 0 then 2 ^ 63 else 0) + f64_of_nat (nat \<bar>n\<bar>))"

fun json_as_f64 :: "json \<Rightarrow> f64 option" where
  "json_as_f64 (JNumber (JInt n)) = Some (f64_of_int n)"
| "json_as_f64 (JNumber (JFloat x)) = Some x"
| "json_as_f64 _ = None"

text \<open>\<open>Value::from(f64)\<close>: a number that is not finite becomes null.\<close>

definition json_of_f64 :: "f64 \<Rightarrow> json" where
  "json_of_f64 x = (if f64_is_finite x then JNumber (JFloat x) else JNull)"

section \<open>Watches that escalate\<close>

definition number_of :: "Floats \<Rightarrow> json \<Rightarrow> f64 option" where
  "number_of F v =
     (case json_as_f64 v of Some n \<Rightarrow> Some n | None \<Rightarrow> Option.bind (json_as_str v) (fl_parse F))"

definition extract_metric :: "Floats \<Rightarrow> json \<Rightarrow> string \<Rightarrow> f64 option" where
  "extract_metric F v metric =
     (case number_of F v of
        Some n \<Rightarrow> Some n
      | None \<Rightarrow> Option.bind (Option.bind (json_as_object v) (\<lambda>m. map_of m metric)) (number_of F))"

text \<open>The reading of a watch that a written value crosses: its metric, threshold, direction and the value.\<close>

definition crossing :: "Floats \<Rightarrow> json \<Rightarrow> Taint \<Rightarrow> (string \<times> f64 \<times> string \<times> f64) option" where
  "crossing F new_value w =
     (let direction = (case Option.bind (metadata_get (ta_metadata w) ''direction'') json_as_str of
            Some d \<Rightarrow> d | None \<Rightarrow> ''above'')
      in Option.bind (Option.bind (metadata_get (ta_metadata w) ''metric'') json_as_str) (\<lambda>metric.
         Option.bind (Option.bind (metadata_get (ta_metadata w) ''threshold'') json_as_f64) (\<lambda>threshold.
         Option.bind (extract_metric F new_value metric) (\<lambda>current.
           if (if direction = ''below'' then f64_less current threshold else f64_less threshold current)
           then Some (metric, threshold, direction, current) else None))))"

definition auto_name :: "Taint \<Rightarrow> string" where
  "auto_name w = ''watch-threshold-exceeded-'' @ ta_name w"

definition escalation_params :: "Floats \<Rightarrow> Taint \<Rightarrow> string \<Rightarrow> f64 \<Rightarrow> string \<Rightarrow> f64 \<Rightarrow> TaintParams" where
  "escalation_params F w metric threshold direction current =
     \<lparr> tp_name = auto_name w, tp_effect = EffWarn,
       tp_reason = ''Watch threshold exceeded: '' @ metric @ '' = '' @ fl_show F current @ '' '' @
         (if direction = ''below'' then ''<'' else ''>'') @ '' '' @ fl_show F threshold,
       tp_severity = ta_severity w, tp_expires_at = None, tp_propagate = ta_propagate w,
       tp_metadata = metadata_insert ''observed'' (json_of_f64 current)
         (metadata_insert ''threshold'' (json_of_f64 threshold)
           (metadata_insert ''metric'' (JString metric)
             (metadata_insert ''source_watch_id'' (JString (ta_id w))
               (metadata_insert ''auto_escalated'' (JBool True) [])))),
       tp_agent_id = ''watch/'' @ ta_id w \<rparr>"

text \<open>The environment of the \<open>j\<close>-th taint or attempt of a call: it draws its own ids and reads the clock again.\<close>

definition env_shift :: "Env \<Rightarrow> nat \<Rightarrow> Env" where
  "env_shift E j = E\<lparr>ev_now := ev_clock E j, ev_uuid := (\<lambda>n. ev_uuid E (n + 4 * Suc j))\<rparr>"

fun escalate_all ::
  "Env \<Rightarrow> Floats \<Rightarrow> (nat \<Rightarrow> nat \<Rightarrow> MemoryStorage \<Rightarrow> MemoryStorage) \<Rightarrow> Repository \<Rightarrow> string \<Rightarrow> json \<Rightarrow> nat \<Rightarrow>
   Taint list \<Rightarrow> MemoryStorage \<Rightarrow> string list repo_result" where
  "escalate_all E F others r ref_name new_value j [] s = (s, Inr [])"
| "escalate_all E F others r ref_name new_value j (w # ws) s =
     (case crossing F new_value w of
        None \<Rightarrow> escalate_all E F others r ref_name new_value (Suc j) ws s
      | Some (metric, threshold, direction, current) \<Rightarrow>
          (case list_taints s (Some (ta_path w)) (Some TkTaint) False of
             Inl e \<Rightarrow> (s, Inl (RStorage e))
           | Inr existing \<Rightarrow>
               if list_ex (\<lambda>t. ta_name t = auto_name w) existing
               then escalate_all E F others r ref_name new_value (Suc j) ws s
               else rbind (repo_taint (env_shift E j) (others j) r s ref_name (ta_path w)
                             (escalation_params F w metric threshold direction current)) (\<lambda>s1 i.
                    rbind (escalate_all E F others r ref_name new_value (Suc j) ws s1) (\<lambda>s2 is.
                      (s2, Inr (i # is))))))"

definition auto_escalate_watches ::
  "Env \<Rightarrow> Floats \<Rightarrow> (nat \<Rightarrow> nat \<Rightarrow> MemoryStorage \<Rightarrow> MemoryStorage) \<Rightarrow> Repository \<Rightarrow> MemoryStorage \<Rightarrow> string \<Rightarrow>
   string \<Rightarrow> json \<Rightarrow> string list repo_result" where
  "auto_escalate_watches E F others r s ref_name path new_value =
     (case check_taint s (ev_now E) path of
        Inl e \<Rightarrow> (s, Inl (RStorage e))
      | Inr candidates \<Rightarrow>
          escalate_all E F others r ref_name new_value 0 (filter (\<lambda>t. ta_kind t = TkWatch) candidates) s)"

section \<open>Writing documents\<close>

text \<open>The object a document is stored as, and what follows a landed write. \<open>others j\<close> interferes with the
  \<open>j\<close>-th write of a call: the write itself is number 0, the escalations follow.\<close>

definition store_value :: "Env \<Rightarrow> MemoryStorage \<Rightarrow> json \<Rightarrow> Object repo_result" where
  "store_value E s v =
     rbind (on_tree (json_to_tree (ev_oid E) (memory_store (ev_oid E)) s v)) (\<lambda>s1 root_id.
       (s1, try_bind (map_err RStorage (get_object s1 root_id)) (ok_or (RRefNotFound ''value''))))"

definition after_write ::
  "Env \<Rightarrow> Floats \<Rightarrow> (nat \<Rightarrow> nat \<Rightarrow> MemoryStorage \<Rightarrow> MemoryStorage) \<Rightarrow> Repository \<Rightarrow> MemoryStorage \<Rightarrow> string \<Rightarrow>
   string \<Rightarrow> json \<Rightarrow> CommitOptions \<Rightarrow> ObjectId \<Rightarrow> ObjectId repo_result" where
  "after_write E F others r s ref_name path v options commit_id =
     (if is_taint_lifecycle_intent (in_category (co_intent options)) then (s, Inr commit_id)
      else rbind (auto_escalate_watches E F (\<lambda>j. others (Suc j)) r s ref_name path v) (\<lambda>s1 _. (s1, Inr commit_id)))"

definition set_json ::
  "Env \<Rightarrow> Floats \<Rightarrow> (nat \<Rightarrow> nat \<Rightarrow> MemoryStorage \<Rightarrow> MemoryStorage) \<Rightarrow> Repository \<Rightarrow> MemoryStorage \<Rightarrow> string \<Rightarrow>
   string \<Rightarrow> json \<Rightarrow> CommitOptions \<Rightarrow> ObjectId repo_result" where
  "set_json E F others r s ref_name path v options =
     rbind (store_value E s v) (\<lambda>s1 obj.
     rbind (repo_set E (others 0) r s1 ref_name path obj options) (\<lambda>s2 commit_id.
       after_write E F others r s2 ref_name path v options commit_id))"

definition set_json_cas ::
  "Env \<Rightarrow> Floats \<Rightarrow> (nat \<Rightarrow> nat \<Rightarrow> MemoryStorage \<Rightarrow> MemoryStorage) \<Rightarrow> nat \<Rightarrow> Repository \<Rightarrow> MemoryStorage \<Rightarrow> string \<Rightarrow>
   ObjectId \<Rightarrow> string \<Rightarrow> json \<Rightarrow> CommitOptions \<Rightarrow> ObjectId repo_result" where
  "set_json_cas E F others k r s ref_name expected_head path v options =
     (case try_bind (check_meta_guard path (co_intent options))
             (\<lambda>_. if is_taint_lifecycle_intent (in_category (co_intent options)) then Inr []
                  else pre_commit_taint_check s (ev_now E) [path] options) of
        Inl e \<Rightarrow> (s, Inl e)
      | Inr _ \<Rightarrow>
          (case commit_or (RRefNotFound ref_name) s expected_head of
             Inl e \<Rightarrow> (s, Inl e)
           | Inr base_commit \<Rightarrow>
               rbind (store_value E s v) (\<lambda>s1 obj.
                 (case parse_path path of
                    Inl e \<Rightarrow> (s1, Inl e)
                  | Inr state_path \<Rightarrow>
                      rbind (on_tree (tree_set (memory_store (ev_oid E)) s1 (cm_state_root base_commit) state_path obj))
                        (\<lambda>s2 new_root.
                      rbind (create_commit E k r s2 new_root [expected_head] options) (\<lambda>s3 new_commit.
                      rbind (advance_ref r (ev_at_check E k s3) (others 0 k s3) ref_name expected_head (cm_id new_commit)) (\<lambda>s4 moved.
                        if moved then after_write E F others r s4 ref_name path v options (cm_id new_commit)
                        else (s4, Inl RWriteConflict))))))))"

section \<open>Listing and searching a ref\<close>

definition list_paths ::
  "Env \<Rightarrow> Repository \<Rightarrow> MemoryStorage \<Rightarrow> string \<Rightarrow> string \<Rightarrow> nat option \<Rightarrow> RepoError + string list" where
  "list_paths E r s ref_name prefix max_depth =
     (if path_is_secret prefix then Inl (RReservedPath prefix)
      else try_bind (ref_commit r s ref_name) (\<lambda>commit.
           try_bind (map_err RTree (tree_list_paths (memory_store (ev_oid E)) s (cm_state_root commit) prefix
                       (case max_depth of Some d \<Rightarrow> d | None \<Rightarrow> 50))) (\<lambda>paths.
           Inr (filter (\<lambda>p. \<not> path_is_secret p) paths))))"

definition get_tree ::
  "nat \<Rightarrow> Env \<Rightarrow> Repository \<Rightarrow> MemoryStorage \<Rightarrow> string \<Rightarrow> string \<Rightarrow> (RepoError + json) option" where
  "get_tree fuel E r s ref_name prefix = repo_get_json fuel E r s ref_name (if prefix = [] then ''/'' else prefix)"

text \<open>The search without a leaf index, which the in-memory store does not have.\<close>

definition search_values ::
  "(f64 \<Rightarrow> string) \<Rightarrow> (string \<Rightarrow> string) \<Rightarrow> Env \<Rightarrow> Repository \<Rightarrow> MemoryStorage \<Rightarrow> string \<Rightarrow> string \<Rightarrow> nat option \<Rightarrow>
   RepoError + (string \<times> string) list" where
  "search_values show_f64 lower E r s ref_name query max_results =
     try_bind (ref_commit r s ref_name) (\<lambda>commit.
     try_bind (map_err RTree (tree_search_values show_f64 lower (memory_store (ev_oid E)) s (cm_state_root commit) query
                 (case max_results of Some n \<Rightarrow> n | None \<Rightarrow> 50))) (\<lambda>results.
     Inr (filter (\<lambda>(p, _). \<not> path_is_secret p) results)))"

definition ref_state_root :: "MemoryStorage \<Rightarrow> Namespace \<Rightarrow> string \<Rightarrow> RepoError + ObjectId option" where
  "ref_state_root s ns ref_name =
     try_bind (map_err RStorage (get_ref s ns ref_name)) (\<lambda>head.
       case head of
         None \<Rightarrow> Inr None
       | Some h \<Rightarrow> try_bind (map_err RStorage (get_commit s h)) (\<lambda>c. Inr (map_option cm_state_root c)))"

section \<open>Views for a viewer\<close>

text \<open>How a commit's time and an optional float print is given by \<open>to_rfc3339\<close> and by the JSON of the
  number.\<close>

definition commit_node :: "Env \<Rightarrow> (timestamp \<Rightarrow> string) \<Rightarrow> Commit \<Rightarrow> json" where
  "commit_node E to_rfc3339 c =
     JObject (bt_from_list
       [(''id'', JString (short_id (cm_id c))), (''full_id'', JString (display_id (cm_id c))),
        (''parents'', JArray (map (\<lambda>p. JString (short_id p)) (cm_parents c))), (''agent'', JString (cm_agent_id c)),
        (''category'', JString (category_debug (ev_debug E) (in_category (cm_intent c)))),
        (''description'', JString (in_description (cm_intent c))),
        (''confidence'', case cm_confidence c of None \<Rightarrow> JNull | Some x \<Rightarrow> json_of_f64 x),
        (''timestamp'', JString (to_rfc3339 (cm_timestamp c))), (''is_merge'', JBool (1 < length (cm_parents c)))] [])"

definition commit_graph ::
  "Env \<Rightarrow> (timestamp \<Rightarrow> string) \<Rightarrow> Repository \<Rightarrow> MemoryStorage \<Rightarrow> string \<Rightarrow> nat \<Rightarrow> RepoError + json list" where
  "commit_graph E to_rfc3339 r s ref_name depth =
     try_bind (log_dag r s ref_name depth) (\<lambda>walk. Inr (map (commit_node E to_rfc3339) (cw_commits walk)))"

end
