(* ===== verification/Cas_Loop.thy ===== *)
theory Cas_Loop
  imports Repo_Json Repo_Merge
begin

text \<open>
  The loop by which the stores on top of a repository change a document: read the head of the ref, read what
  the change depends on, and land the new document with a compare-and-swap against that head, a fixed
  number of times. The record \<open>RepoPort\<close> holds the methods of \<open>Repository\<close> these stores call, over an
  arbitrary state; \<open>memory_repo\<close> is the repository of this development.

  The body of an attempt answers without a write or says what to write. Other writers act between the calls:
  \<open>others k 0\<close> after the head was read in attempt \<open>k\<close>, \<open>others k 1\<close>, \<open>others k 2\<close> between two reads of
  the body, \<open>others k 9\<close> before the write; the index \<open>MAX_CAS_RETRIES\<close>, which no attempt has, is for reads before
  the loop. How a store describes its commits, and its errors for a failed
  call of the repository and for giving up, are arguments.
\<close>

record 's RepoPort =
  tr_env :: "nat \<Rightarrow> Env"
  tr_head :: "'s \<Rightarrow> string \<Rightarrow> RepoError + ObjectId"
  tr_get_json :: "'s \<Rightarrow> string \<Rightarrow> string \<Rightarrow> RepoError + json"
  tr_list_paths :: "'s \<Rightarrow> string \<Rightarrow> string \<Rightarrow> nat option \<Rightarrow> RepoError + string list"
  tr_base_json :: "'s \<Rightarrow> string \<Rightarrow> string \<Rightarrow> string \<Rightarrow> RepoError + json option"
  tr_set_json_cas :: "nat \<Rightarrow> 's \<Rightarrow> string \<Rightarrow> ObjectId \<Rightarrow> string \<Rightarrow> json \<Rightarrow> CommitOptions \<Rightarrow> 's \<times> (RepoError + ObjectId)"
  tr_delete :: "'s \<Rightarrow> string \<Rightarrow> string \<Rightarrow> CommitOptions \<Rightarrow> 's \<times> (RepoError + ObjectId)"

definition MAX_CAS_RETRIES :: nat where "MAX_CAS_RETRIES = 32"

datatype ('d, 'a) outcome = Answer 'a | Write string json 'd "ObjectId \<Rightarrow> 'a"

fun cas_loop ::
  "nat \<Rightarrow> nat \<Rightarrow> 's RepoPort \<Rightarrow> (nat \<Rightarrow> 'd \<Rightarrow> CommitOptions) \<Rightarrow> (RepoError \<Rightarrow> 'e) \<Rightarrow> 'e \<Rightarrow> (nat \<Rightarrow> nat \<Rightarrow> 's \<Rightarrow> 's) \<Rightarrow>
   's \<Rightarrow> string \<Rightarrow> (nat \<Rightarrow> 's \<Rightarrow> 's \<times> ('e + ('d, 'a) outcome)) \<Rightarrow> 's \<times> ('e + 'a)" where
  "cas_loop 0 k R opts failed gave_up others s ref_name body = (s, Inl gave_up)"
| "cas_loop (Suc n) k R opts failed gave_up others s ref_name body =
     (case tr_head R s ref_name of
        Inl e \<Rightarrow> (s, Inl (failed e))
      | Inr head \<Rightarrow>
          (case body k (others k 0 s) of
             (s1, Inl e) \<Rightarrow> (s1, Inl e)
           | (s1, Inr (Answer x)) \<Rightarrow> (s1, Inr x)
           | (s1, Inr (Write path v description x)) \<Rightarrow>
               (case tr_set_json_cas R k (others k 9 s1) ref_name head path v (opts k description) of
                  (s2, Inr commit_id) \<Rightarrow> (s2, Inr (x commit_id))
                | (s2, Inl e) \<Rightarrow>
                    if e = RWriteConflict then cas_loop n (Suc k) R opts failed gave_up others s2 ref_name body
                    else (s2, Inl (failed e)))))"

end
