(* ===== verification/Cas_Contract.thy ===== *)
theory Cas_Contract
  imports Cas_Loop Tree_Laws
begin

text \<open>
  What the stores on top of a repository rely on, as the locale \<open>repo_port\<close>: on states \<open>ok\<close> a swap that
  succeeds found the head it expected, moves the ref, makes the written document readable and leaves
  documents at diverging paths alone; a swap that lost keeps the state usable. From these laws alone a loop
  that reads, changes and writes is atomic under other writers that only move the branch forward.
\<close>

definition paths_diverge :: "string \<Rightarrow> string \<Rightarrow> bool" where
  "paths_diverge a b \<longleftrightarrow> (\<exists>p q. path_parse a = Inr p \<and> path_parse b = Inr q \<and> diverges p q)"

text \<open>Other writers that keep the state usable and, whenever they change the ref, move it to a commit of a
  higher rank, so never back to an earlier head.\<close>

definition forward ::
  "'s RepoPort \<Rightarrow> string \<Rightarrow> ('s \<Rightarrow> bool) \<Rightarrow> (ObjectId \<Rightarrow> nat) \<Rightarrow> (nat \<Rightarrow> nat \<Rightarrow> 's \<Rightarrow> 's) \<Rightarrow> bool" where
  "forward R ref_name ok rank others \<longleftrightarrow>
     (\<forall>k j s. ok s \<longrightarrow> ok (others k j s) \<and>
       (\<forall>h h'. tr_head R s ref_name = Inr h \<and> tr_head R (others k j s) ref_name = Inr h' \<longrightarrow>
          rank h < rank h' \<or>
          h' = h \<and> (\<forall>p v. tr_get_json R s ref_name p = Inr v \<longrightarrow> tr_get_json R (others k j s) ref_name p = Inr v)))"

text \<open>Every document that can be read in \<open>s\<close> is read in \<open>t\<close> too.\<close>

definition reads_kept :: "'s RepoPort \<Rightarrow> string \<Rightarrow> 's \<Rightarrow> 's \<Rightarrow> bool" where
  "reads_kept R ref_name s t \<longleftrightarrow>
     (\<forall>p v. tr_get_json R s ref_name p = Inr v \<longrightarrow> tr_get_json R t ref_name p = Inr v)"

text \<open>An attempt that reads a document, changes it and writes it back, as an update of a task or a policy
  does.\<close>

definition read_change ::
  "(nat \<Rightarrow> nat \<Rightarrow> 's \<Rightarrow> 's) \<Rightarrow> ('s \<Rightarrow> 'e + 'x) \<Rightarrow> (nat \<Rightarrow> 's \<Rightarrow> 'x \<Rightarrow> 'e + 'y) \<Rightarrow> ('y \<Rightarrow> string) \<Rightarrow> ('y \<Rightarrow> json) \<Rightarrow> ('y \<Rightarrow> 'd) \<Rightarrow>
   ('y \<Rightarrow> 'a) \<Rightarrow> nat \<Rightarrow> 's \<Rightarrow> 's \<times> ('e + ('d, 'a) outcome)" where
  "read_change others read change path enc desc result k s =
     (case read s of
        Inl e \<Rightarrow> (s, Inl e)
      | Inr x \<Rightarrow> let s1 = others k 1 s in (s1, try_bind (change k s1 x) (\<lambda>y. Inr (Write (path y) (enc y) (desc y) (\<lambda>_. result y)))))"

lemma read_change_Write:
  "read_change others read change path enc desc result k s = (s1, Inr (Write p v d f)) \<longleftrightarrow>
     (\<exists>x y. read s = Inr x \<and> s1 = others k 1 s \<and> change k s1 x = Inr y \<and> p = path y \<and> v = enc y \<and> d = desc y \<and> f = (\<lambda>_. result y))"
  by (auto simp: read_change_def Let_def try_bind_eq_Inr split: sum.splits)

lemma read_change_no_answer: "read_change others read change path enc desc result k s \<noteq> (s1, Inr (Answer z))"
  by (auto simp: read_change_def Let_def try_bind_eq_Inr split: sum.splits)

text \<open>The states an attempt judges and lands in, by what others did since the head was read in \<open>u\<close>.\<close>

definition judging :: "(nat \<Rightarrow> nat \<Rightarrow> 's \<Rightarrow> 's) \<Rightarrow> nat \<Rightarrow> 's \<Rightarrow> 's" where
  "judging others k u = others k 1 (others k 0 u)"

definition landing :: "(nat \<Rightarrow> nat \<Rightarrow> 's \<Rightarrow> 's) \<Rightarrow> nat \<Rightarrow> 's \<Rightarrow> 's" where
  "landing others k u = others k 9 (judging others k u)"

locale repo_port =
  fixes R :: "'s RepoPort" and ref_name :: string and ok :: "'s \<Rightarrow> bool" and good :: "json \<Rightarrow> bool"
  assumes head_ok: "ok s \<Longrightarrow> \<exists>h. tr_head R s ref_name = Inr h"
    and cas_lost: "ok s \<Longrightarrow> good v \<Longrightarrow> tr_set_json_cas R k s ref_name h p v opts = (s', Inl RWriteConflict) \<Longrightarrow> ok s'"
    and cas_won: "ok s \<Longrightarrow> good v \<Longrightarrow> \<not> path_is_secret p \<Longrightarrow> tr_set_json_cas R k s ref_name h p v opts = (s', Inr c) \<Longrightarrow>
      ok s' \<and> tr_head R s ref_name = Inr h \<and> tr_head R s' ref_name = Inr c \<and> tr_get_json R s' ref_name p = Inr v \<and>
      (\<forall>q w. paths_diverge p q \<and> tr_get_json R s ref_name q = Inr w \<longrightarrow> tr_get_json R s' ref_name q = Inr w)"
begin

lemma forward_step:
  assumes "forward R ref_name ok rank others" "ok s"
  shows "ok (others k j s)"
    and "tr_head R s ref_name = Inr h \<Longrightarrow> tr_head R (others k j s) ref_name = Inr h' \<Longrightarrow>
      rank h < rank h' \<or> h' = h \<and> reads_kept R ref_name s (others k j s)"
  using assms unfolding forward_def reads_kept_def by blast+

text \<open>A loop that answers with a write read its head, ran its body and swapped that same head.\<close>

lemma cas_loop_landed:
  assumes "ok s" "forward R ref_name ok rank others"
    and "\<forall>k t t' p v d x. ok t \<and> body k t = (t', Inr (Write p v d x)) \<longrightarrow> ok t' \<and> good v"
    and "\<forall>k t t' x. body k t \<noteq> (t', Inr (Answer x))"
    and "cas_loop n k R opts failed gave_up others s ref_name body = (s', Inr y)"
  shows "\<exists>k t t' h p v d x c. ok t \<and> tr_head R t ref_name = Inr h \<and> body k (others k 0 t) = (t', Inr (Write p v d x)) \<and>
    tr_set_json_cas R k (others k 9 t') ref_name h p v (opts k d) = (s', Inr c) \<and> y = x c"
  using assms(1,5)
proof (induction n arbitrary: k s)
  case 0
  then show ?case by simp
next
  case (Suc n)
  obtain h where h: "tr_head R s ref_name = Inr h" using head_ok [OF Suc.prems(1)] by blast
  obtain t' o' where b: "body k (others k 0 s) = (t', o')" by force
  with Suc.prems(2) h assms(4) obtain p v d x where o': "o' = Inr (Write p v d x)"
    by (auto split: sum.splits outcome.splits)
  let ?cas = "tr_set_json_cas R k (others k 9 t') ref_name h p v (opts k d)"
  obtain s2 r2 where cas: "?cas = (s2, r2)" by force
  have ok: "ok (others k 9 t')" "good v"
    using assms(3) forward_step(1) [OF assms(2) Suc.prems(1)] b [unfolded o'] forward_step(1) [OF assms(2)] by blast+
  show ?case
  proof (cases r2)
    case (Inr c)
    with Suc.prems(2) h b o' cas have "s2 = s'" "y = x c" by auto
    with Suc.prems(1) h b o' cas Inr show ?thesis by blast
  next
    case (Inl e)
    with Suc.prems(2) h b o' cas have e: "e = RWriteConflict"
      and rest: "cas_loop n (Suc k) R opts failed gave_up others s2 ref_name body = (s', Inr y)" by (auto split: if_splits)
    from Suc.IH [OF cas_lost [OF ok(1,2)] rest] cas Inl e show ?thesis by blast
  qed
qed

text \<open>A loop of such attempts that answers was applied to the document as stored at the moment of the swap:
  \<open>landing\<close> is the state the other writers had left when the swap ran, reached from \<open>u\<close>, where the head was
  read, only by their steps.\<close>

lemma read_change_atomic:
  assumes "ok s" "forward R ref_name ok rank others"
    and kept: "\<forall>s t x. reads_kept R ref_name s t \<and> read s = Inr x \<longrightarrow> read t = Inr x"
    and good: "\<forall>k t t1 x y. ok t \<and> read t = Inr x \<and> change k t1 x = Inr y \<longrightarrow> good (enc y) \<and> \<not> path_is_secret (path y)"
    and run: "cas_loop n k0 R opts failed gave_up others s ref_name (read_change others read change path enc desc result) = (s', Inr z)"
  shows "\<exists>k u x y h c. ok (landing others k u) \<and> tr_head R (landing others k u) ref_name = Inr h \<and>
    read (landing others k u) = Inr x \<and> change k (judging others k u) x = Inr y \<and> z = result y \<and>
    tr_set_json_cas R k (landing others k u) ref_name h (path y) (enc y) (opts k (desc y)) = (s', Inr c) \<and>
    reads_kept R ref_name (judging others k u) (landing others k u) \<and> ok s' \<and> tr_head R s' ref_name = Inr c \<and>
    tr_get_json R s' ref_name (path y) = Inr (enc y) \<and>
    (\<forall>q w. paths_diverge (path y) q \<and> tr_get_json R (landing others k u) ref_name q = Inr w \<longrightarrow> tr_get_json R s' ref_name q = Inr w)"
proof -
  let ?body = "read_change others read change path enc desc result"
  note fwd = forward_step [OF assms(2)]
  have body: "\<forall>k t t' p v d f. ok t \<and> ?body k t = (t', Inr (Write p v d f)) \<longrightarrow> ok t' \<and> good v"
    unfolding read_change_Write using fwd(1) good by blast
  have "\<forall>k t t' z. ?body k t \<noteq> (t', Inr (Answer z))" by (simp add: read_change_no_answer)
  from cas_loop_landed [OF assms(1,2) body this run]
  obtain k t t' h p v d f c where l: "ok t" "tr_head R t ref_name = Inr h" "?body k (others k 0 t) = (t', Inr (Write p v d f))"
    "tr_set_json_cas R k (others k 9 t') ref_name h p v (opts k d) = (s', Inr c)" "z = f c" by blast
  from l(3,5) obtain x y where b: "read (others k 0 t) = Inr x" "t' = others k 1 (others k 0 t)" "change k t' x = Inr y" "p = path y"
    "v = enc y" "d = desc y" "z = result y" by (auto simp: read_change_Write)
  define u where "u = others k 9 t'"
  have ok: "ok (others k 0 t)" "ok t'" "ok u" using fwd(1) l(1) b(2) by (simp_all add: u_def)
  from cas_won [OF ok(3) _ _ l(4) [folded u_def]] good ok(1) b(1,3,4,5)
  have won: "ok s'" "tr_head R u ref_name = Inr h" "tr_head R s' ref_name = Inr c" "tr_get_json R s' ref_name p = Inr v"
    "\<forall>q w. paths_diverge p q \<and> tr_get_json R u ref_name q = Inr w \<longrightarrow> tr_get_json R s' ref_name q = Inr w" by auto
  from head_ok [OF ok(1)] head_ok [OF ok(2)] obtain h0 h1
    where h: "tr_head R (others k 0 t) ref_name = Inr h0" "tr_head R t' ref_name = Inr h1" by blast
  from fwd(2) [OF l(1,2) h(1)] fwd(2) [OF ok(1) h(1) h(2) [unfolded b(2)]]
    fwd(2) [OF ok(2) h(2), of k 9] won(2) [unfolded u_def]
  have "reads_kept R ref_name (others k 0 t) t'" "reads_kept R ref_name t' u"
    using b(2) by (fastforce simp: u_def)+
  with kept b(1) have "read u = Inr x" by blast
  moreover have u: "u = landing others k t" "t' = judging others k t" by (simp_all add: u_def b(2) landing_def judging_def)
  ultimately show ?thesis
    using ok(3) won b \<open>reads_kept R ref_name t' u\<close> l(4) [folded u_def] unfolding u(1,2) [symmetric]
    by (intro exI [of _ k] exI [of _ t] exI [of _ x] exI [of _ y] exI [of _ h] exI [of _ c]) (simp add: u(1,2) [symmetric])
qed

end

end
