(* ===== verification/Cas_Memory.thy ===== *)
theory Cas_Memory
  imports Cas_Contract Repo_Laws
begin

text \<open>
  The repository of this development keeps the contract \<open>repo_port\<close>: \<open>memory_repo\<close> collects its methods,
  and the interpretation \<open>memport\<close> discharges the laws of the locale.

  A read of a document takes fuel for the depth of the tree. Out of fuel the recursion of the code would
  overflow its stack; \<open>memory_repo\<close> shows that as a storage error, which the contract excludes for the
  documents it calls good.
\<close>

definition memory_repo :: "nat \<Rightarrow> Env \<Rightarrow> Floats \<Rightarrow> Repository \<Rightarrow> MemoryStorage RepoPort" where
  "memory_repo fuel E F r =
     \<lparr> tr_env = env_shift E,
       tr_head = repo_head r,
       tr_get_json = (\<lambda>s ref_name path. case repo_get_json fuel E r s ref_name path of
          Some x \<Rightarrow> x | None \<Rightarrow> Inl (RTree (TStorage (SBackend ''stack overflow'')))),
       tr_list_paths = list_paths E r,
       tr_base_json = (\<lambda>s source target path. case get_json_at_merge_base fuel E r s source target path of
          Some x \<Rightarrow> x | None \<Rightarrow> Inl (RTree (TStorage (SBackend ''stack overflow'')))),
       tr_set_json_cas = (\<lambda>k s ref_name head path v options.
          set_json_cas (env_shift E k) F (\<lambda>_ _ s. s) k r s ref_name head path v options),
       tr_delete = repo_delete E (\<lambda>_ s. s) r \<rparr>"

section \<open>Documents in a growing store\<close>

lemma opt_results_kept:
  "(\<And>x y. x \<in> set xs \<Longrightarrow> f x = Some (Inr y) \<Longrightarrow> g x = Some (Inr y)) \<Longrightarrow> opt_results (map f xs) = Some (Inr ys) \<Longrightarrow>
   opt_results (map g xs) = Some (Inr ys)"
  by (induction xs arbitrary: ys) (fastforce split: option.splits sum.splits)+

lemma opt_map_Inr: "opt_map f r = Some (Inr y) \<longleftrightarrow> (\<exists>x. r = Some (Inr x) \<and> y = f x)"
  by (auto simp: opt_map_def split: option.splits sum.splits)

lemma to_json_kept:
  assumes "memory_view s \<subseteq>\<^sub>m memory_view s'"
  shows "to_json n (memory_store oid) s x = Some (Inr j) \<Longrightarrow> to_json n (memory_store oid) s' x = Some (Inr j)"
proof (induction n arbitrary: x j)
  case 0
  then show ?case by (cases x) simp_all
next
  case (Suc n)
  let ?S = "memory_store oid"
  let ?f = "\<lambda>s i. case load_object ?S s i of Inl e \<Rightarrow> Some (Inl e) | Inr y \<Rightarrow> to_json n ?S s y"
  have load: "load_object ?S s i = Inr y \<Longrightarrow> load_object ?S s' i = Inr y" for i y
    using assms by (auto simp: load_object_def memory_store_def get_object_def memory_view_def map_le_def dom_def
        split: option.splits)
  have "?f s' i = Some (Inr y)" if "?f s i = Some (Inr y)" for i y
    using that by (auto split: sum.splits dest!: load intro: Suc.IH)
  then have items: "opt_results (map (?f s) is) = Some (Inr ys) \<Longrightarrow> opt_results (map (?f s') is) = Some (Inr ys)" for "is" ys
    by (rule opt_results_kept)
  have entries: "map (\<lambda>p. ?f t (snd p)) es = map (?f t) (map snd es)" for t and es :: "(string \<times> ObjectId) list" by simp
  show ?case
  proof (cases x)
    case (ONode node)
    with Suc.prems show ?thesis
      by (cases node) (auto simp: entries opt_map_Inr Let_def simp del: map_map dest: items)
  qed (use Suc.prems in simp)
qed

section \<open>Storing a document\<close>

lemma batch_put_same:
  "default_batch_put (put_object oid) s xs = (s', r) \<Longrightarrow>
   same_but_objects s s' \<and> memory_view s \<subseteq>\<^sub>m memory_view s'"
proof (induction xs arbitrary: s s' r)
  case (Cons x xs)
  obtain s1 where s1: "put_object oid s x = (s1, Inr (oid x))" by (simp add: put_object_def)
  obtain s2 r2 where rest: "default_batch_put (put_object oid) s1 xs = (s2, r2)" by force
  with Cons.prems s1 have "s' = s2" by (auto split: sum.splits)
  have put: "same_but_objects s s1" "memory_view s \<subseteq>\<^sub>m memory_view s1"
    using view_put_le [of "memory_view s" oid x] memory_view_put [of oid s x] s1
    by (auto simp: same_but_objects_def put_object_def)
  from Cons.IH [OF rest] put \<open>s' = s2\<close> show ?case
    by (auto simp: same_but_objects_def intro: map_le_trans)
qed simp

lemma store_value_stores:
  assumes "collision_free (ev_oid E)" "objects_inv (ev_oid E) s" "json_wf v" "store_value E s v = (s1, t)"
  shows "\<exists>x. t = Inr x \<and> objects_inv (ev_oid E) s1 \<and> same_but_objects s s1 \<and> memory_view s \<subseteq>\<^sub>m memory_view s1 \<and>
    represents (memory_view s1) v x \<and> object_ok x"
proof -
  let ?oid = "ev_oid E"
  obtain s2 r where run: "json_to_tree ?oid (memory_store ?oid) s v = (s2, r)" by force
  from content_store.json_to_tree_correct [OF memory_content_store [OF assms(1)] assms(2,3) run]
  obtain x where x: "r = Inr (?oid x)" "objects_inv ?oid s2" "memory_view s2 (?oid x) = Some x"
    "represents (memory_view s2) v x" by blast
  have "same_but_objects s s2 \<and> memory_view s \<subseteq>\<^sub>m memory_view s2"
    using run by (auto simp: json_to_tree_def memory_store_def split: prod.splits sum.splits dest!: batch_put_same)
  moreover have "object_ok x" using x(2,3) by (auto simp: objects_inv_def view_addressed_def)
  moreover have "s1 = s2" "t = Inr x"
    using assms(4) run x(1,3)
    by (auto simp: store_value_def map_err_def get_object_def memory_view_def ok_or_def try_bind_def)
  ultimately show ?thesis using x by blast
qed

section \<open>The swap\<close>

definition no_watches :: "MemoryStorage \<Rightarrow> bool" where
  "no_watches s \<longleftrightarrow> (\<forall>t \<in> set (ms_taints s). ta_kind t \<noteq> TkWatch)"

lemma after_write_quiet: "no_watches s \<Longrightarrow> after_write E F others r s name path v options i = (s, Inr i)"
proof -
  assume "no_watches s"
  then have "filter (\<lambda>t. ta_kind t = TkWatch) (filter P (filter Q (ms_taints s))) = []" for P Q
    by (auto simp: no_watches_def filter_empty_conv)
  then show ?thesis by (simp add: after_write_def auto_escalate_watches_def check_taint_def)
qed

text \<open>The guards of a write never report a conflict.\<close>

lemma pre_commit_no_conflict: "pre_commit_taint_check s now ps options \<noteq> Inl RWriteConflict"
  by (induction ps) (auto simp: Let_def try_bind_def repo_check_taint_def check_taint_def map_err_def taint_refusal_def
      split: sum.splits option.splits if_splits)

definition cas_guards :: "Env \<Rightarrow> MemoryStorage \<Rightarrow> string \<Rightarrow> CommitOptions \<Rightarrow> RepoError + string list" where
  "cas_guards E s path options =
     try_bind (check_meta_guard path (co_intent options))
       (\<lambda>_. if is_taint_lifecycle_intent (in_category (co_intent options)) then Inr []
            else pre_commit_taint_check s (ev_now E) [path] options)"

lemma cas_guards_no_conflict: "cas_guards E s path options \<noteq> Inl RWriteConflict"
  using pre_commit_no_conflict
  by (auto simp: cas_guards_def try_bind_def check_meta_guard_def simp del: pre_commit_taint_check.simps
      split: sum.splits if_splits)

lemma set_json_cas_eq:
  "set_json_cas E F others k r s name h path v options =
     (case cas_guards E s path options of
        Inl e \<Rightarrow> (s, Inl e)
      | Inr _ \<Rightarrow>
          (case commit_or (RRefNotFound name) s h of
             Inl e \<Rightarrow> (s, Inl e)
           | Inr c \<Rightarrow>
               rbind (store_value E s v) (\<lambda>s1 obj.
                 (case parse_path path of
                    Inl e \<Rightarrow> (s1, Inl e)
                  | Inr p \<Rightarrow>
                      rbind (on_tree (tree_set (memory_store (ev_oid E)) s1 (cm_state_root c) p obj)) (\<lambda>s2 new_root.
                      rbind (create_commit E k r s2 new_root [h] options) (\<lambda>s3 n.
                      rbind (advance_ref r (ev_at_check E k s3) (others 0 k s3) name h (cm_id n)) (\<lambda>s4 moved.
                        if moved then after_write E F others r s4 name path v options (cm_id n)
                        else (s4, Inl RWriteConflict))))))))"
  by (simp only: set_json_cas_def cas_guards_def)

lemma advance_no_conflict: "advance_ref r checked s name h n \<noteq> (s', Inl RWriteConflict)"
proof -
  have "enforce_epoch_seals r checked name n \<noteq> Inl RWriteConflict"
    using check_epoch_seal_violations_Inr [of r checked n]
    by (auto simp: enforce_epoch_seals_def try_bind_def split: list.splits if_splits)
  then show ?thesis
    by (cases "cas_ref s (active_namespace r) name h n")
      (auto simp: advance_ref_def refuse_reserved_ref_def map_err_def split: sum.splits if_splits)
qed

lemma create_commit_no_conflict:
  "rp_active_epoch r = None \<Longrightarrow> create_commit E k r s root ps options \<noteq> (s', Inl RWriteConflict)"
  using store_commit_eq [of E s "builder_build (ev_cid E) (ev_clock E k) (commit_builder root ps options)"]
  by (auto simp: create_commit_def Let_def map_err_def rbind_def set_commit_session_def split: option.splits sum.splits if_splits)

lemma set_json_cas_run:
  assumes "collision_free (ev_oid E)" "rp_active_epoch r = None" "objects_inv (ev_oid E) s" "json_wf v" "no_watches s"
    and "set_json_cas E F (\<lambda>_ _ s. s) k r s name h path v options = (s', t)" "(\<exists>i. t = Inr i) \<or> t = Inl RWriteConflict"
  obtains c p s1 x s2 root n s3 moved where "map_of (ms_commits s) h = Some c" "parse_path path = Inr p"
    "store_value E s v = (s1, Inr x)" "tree_set (memory_store (ev_oid E)) s1 (cm_state_root c) p x = (s2, Inr root)"
    "create_commit E k r s2 root [h] options = (s3, Inr n)" "advance_ref r (ev_at_check E k s3) s3 name h (cm_id n) = (s', Inr moved)"
    "t = (if moved then Inr (cm_id n) else Inl RWriteConflict)"
proof -
  note run = assms(6) [unfolded set_json_cas_eq]
  from run assms(7) cas_guards_no_conflict obtain ws where g: "cas_guards E s path options = Inr ws"
    by (cases "cas_guards E s path options") fastforce+
  from run g assms(7) obtain c where c: "commit_or (RRefNotFound name) s h = Inr c" "map_of (ms_commits s) h = Some c"
    by (cases "map_of (ms_commits s) h") (auto simp: commit_or_def get_commit_def ok_or_def map_err_def try_bind_def)
  obtain s1 u where sv: "store_value E s v = (s1, u)" by force
  from store_value_stores [OF assms(1,3,4) sv] obtain x where x: "u = Inr x" "same_but_objects s s1" by blast
  from run g c sv x assms(7) obtain p where p: "parse_path path = Inr p"
    by (cases "parse_path path") (auto simp: parse_path_def map_err_def split: sum.splits)
  obtain s2 w where ts: "tree_set (memory_store (ev_oid E)) s1 (cm_state_root c) p x = (s2, w)" by force
  from run g c sv x p ts assms(7) obtain root where root: "w = Inr root" by (cases w) (auto simp: map_err_def)
  obtain s3 m where cc: "create_commit E k r s2 root [h] options = (s3, m)" by force
  from run g c sv x p ts root cc assms(7) create_commit_no_conflict [OF assms(2)] obtain n where n: "m = Inr n"
    by (cases m) (auto simp: map_err_def)
  obtain s4 a where ad: "advance_ref r (ev_at_check E k s3) s3 name h (cm_id n) = (s4, a)" by force
  from run g c sv x p ts root cc n ad assms(7) advance_no_conflict obtain moved where a: "a = Inr moved"
    by (cases a) (auto simp: map_err_def)
  have "no_watches s4"
    using advance_ref_Inr [OF ad [unfolded a]] create_commit_Inr [OF assms(2) cc [unfolded n]] same_but_objects_fields [OF x(2)]
      same_but_objects_fields [OF memory_tree_writes_same(1) [OF ts]] assms(5)
    by (auto simp: no_watches_def split: if_splits)
  then have "s' = s4" "t = (if moved then Inr (cm_id n) else Inl RWriteConflict)"
    using run g c sv x p ts root cc n ad a by (auto simp: map_err_def after_write_quiet split: if_splits)
  with sv x ts root cc n ad a show thesis by (intro that [OF c(2) p]) simp_all
qed

definition port_ok :: "Env \<Rightarrow> Repository \<Rightarrow> string \<Rightarrow> MemoryStorage \<Rightarrow> bool" where
  "port_ok E r name s \<longleftrightarrow> collision_free (ev_oid E) \<and> rp_active_epoch r = None \<and> objects_inv (ev_oid E) s \<and>
     has_active r s \<and> ref_of r s name \<noteq> None \<and> no_watches s"

definition readable :: "nat \<Rightarrow> json \<Rightarrow> bool" where
  "readable fuel v \<longleftrightarrow> json_wf v \<and> json_depth v \<le> fuel"

lemma env_shift_oid [simp]: "ev_oid (env_shift E k) = ev_oid E" "ev_at_check (env_shift E k) = ev_at_check E"
  by (simp_all add: env_shift_def)

text \<open>What a read of the ref says about the tree of its head.\<close>

lemma memory_get_json_Inr:
  assumes "has_active r s" "ref_of r s name = Some h" "objects_inv (ev_oid E) s"
  shows "tr_get_json (memory_repo fuel E F r) s name path = Inr v \<longleftrightarrow>
    \<not> path_is_secret path \<and> (\<exists>c p z. map_of (ms_commits s) h = Some c \<and> parse_path path = Inr p \<and>
      view_get (memory_view s) (cm_state_root c) p = Some z \<and> to_json fuel (memory_store (ev_oid E)) s z = Some (Inr v))"
proof -
  have read: "read_at E r s name path = Inr z \<longleftrightarrow> (\<exists>c p. map_of (ms_commits s) h = Some c \<and> parse_path path = Inr p \<and>
      view_get (memory_view s) (cm_state_root c) p = Some z)" for z
    using resolve_ref_branch [OF assms(1,2)] unfolding mem.tree_get_Inr [OF assms(3), symmetric]
    by (auto simp: read_at_def ref_commit_def commit_or_def get_commit_def map_err_def ok_or_def try_bind_def
        split: option.splits sum.splits)
  have "tr_get_json (memory_repo fuel E F r) s name path = Inr v \<longleftrightarrow>
      (\<exists>z. repo_get E r s name path = Inr z \<and> to_json fuel (memory_store (ev_oid E)) s z = Some (Inr v))"
  proof (cases "repo_get E r s name path")
    case (Inr z)
    then show ?thesis
      using mem.tree_to_json_eq [OF assms(3), of fuel z]
      by (cases "to_json fuel (memory_store (ev_oid E)) s z"; cases "the (to_json fuel (memory_store (ev_oid E)) s z)")
        (auto simp: memory_repo_def repo_get_json_def map_err_def)
  qed (simp add: memory_repo_def repo_get_json_def)
  then show ?thesis by (auto simp: repo_get_def read)
qed

lemma swap_lost:
  assumes "port_ok E r name s" "readable fuel v"
    and "tr_set_json_cas (memory_repo fuel E F r) k s name h path v options = (s', Inl RWriteConflict)"
  shows "port_ok E r name s'"
proof -
  let ?E = "env_shift E k"
  from assms have ok: "collision_free (ev_oid ?E)" "rp_active_epoch r = None" "objects_inv (ev_oid ?E) s" "json_wf v" "no_watches s"
    "set_json_cas ?E F (\<lambda>_ _ s. s) k r s name h path v options = (s', Inl RWriteConflict)"
    by (auto simp: port_ok_def readable_def memory_repo_def)
  obtain c :: Commit and p s1 x s2 root n s3 where run: "store_value ?E s v = (s1, Inr x)"
    "tree_set (memory_store (ev_oid ?E)) s1 (cm_state_root c) p x = (s2, Inr root)"
    "create_commit ?E k r s2 root [h] options = (s3, Inr n)"
    "advance_ref r (ev_at_check ?E k s3) s3 name h (cm_id n) = (s', Inr False)"
    by (rule set_json_cas_run [OF ok disjI2 [OF refl]]) (simp split: if_splits)
  from store_value_stores [OF ok(1,3,4) run(1)] have sv: "objects_inv (ev_oid ?E) s1" "same_but_objects s s1" "object_ok x" by auto
  from content_store.tree_set_correct [OF memory_content_store [OF ok(1)] sv(1,3) run(2)] have "objects_inv (ev_oid ?E) s2" by blast
  moreover have "s' = s3" using advance_ref_Inr [OF run(4)] by simp
  ultimately show ?thesis
    using create_commit_Inr [OF ok(2) run(3)] same_but_objects_fields [OF sv(2)]
      same_but_objects_fields [OF memory_tree_writes_same(1) [OF run(2)]] assms(1)
    by (simp add: port_ok_def objects_inv_def memory_view_def has_active_def ref_of_def no_watches_def)
qed

lemma swap_won:
  assumes "port_ok E r name s" "readable fuel v" "\<not> path_is_secret path"
    and "tr_set_json_cas (memory_repo fuel E F r) k s name h path v options = (s', Inr i)"
  shows "port_ok E r name s' \<and> tr_head (memory_repo fuel E F r) s name = Inr h \<and>
    tr_head (memory_repo fuel E F r) s' name = Inr i \<and> tr_get_json (memory_repo fuel E F r) s' name path = Inr v \<and>
    (\<forall>q w. paths_diverge path q \<and> tr_get_json (memory_repo fuel E F r) s name q = Inr w \<longrightarrow>
       tr_get_json (memory_repo fuel E F r) s' name q = Inr w)"
proof -
  let ?E = "env_shift E k"
  from assms have ok: "collision_free (ev_oid ?E)" "rp_active_epoch r = None" "objects_inv (ev_oid ?E) s" "json_wf v" "no_watches s"
    "set_json_cas ?E F (\<lambda>_ _ s. s) k r s name h path v options = (s', Inr i)"
    by (auto simp: port_ok_def readable_def memory_repo_def)
  obtain c p s1 x s2 root n s3 where run: "map_of (ms_commits s) h = Some c"
    "parse_path path = Inr p" "store_value ?E s v = (s1, Inr x)"
    "tree_set (memory_store (ev_oid ?E)) s1 (cm_state_root c) p x = (s2, Inr root)"
    "create_commit ?E k r s2 root [h] options = (s3, Inr n)"
    "advance_ref r (ev_at_check ?E k s3) s3 name h (cm_id n) = (s', Inr True)" "i = cm_id n"
    by (rule set_json_cas_run [OF ok]) (auto split: if_splits)
  from store_value_stores [OF ok(1,3,4) run(3)] have sv: "objects_inv (ev_oid ?E) s1" "same_but_objects s s1" "object_ok x"
    "memory_view s \<subseteq>\<^sub>m memory_view s1" "represents (memory_view s1) v x" by auto
  from content_store.tree_set_correct [OF memory_content_store [OF ok(1)] sv(1,3) run(4)]
  have ts: "objects_inv (ev_oid ?E) s2" "memory_view s1 \<subseteq>\<^sub>m memory_view s2" "view_get (memory_view s2) root p = Some x"
    "\<forall>q z. diverges p q \<longrightarrow> view_get (memory_view s1) (cm_state_root c) q = Some z \<longrightarrow> view_get (memory_view s2) root q = Some z"
    by auto
  from create_commit_Inr [OF ok(2) run(5)] same_but_objects_fields [OF sv(2)]
    same_but_objects_fields [OF memory_tree_writes_same(1) [OF run(4)]]
  have s3: "ms_objects s3 = ms_objects s2" "ms_refs s3 = ms_refs s" "ms_namespaces s3 = ms_namespaces s"
    "ms_taints s3 = ms_taints s" "ms_commits s3 = bt_insert (cm_id n) n (ms_commits s)" "cm_state_root n = root" by auto
  from advance_ref_Inr [OF run(6)] have adv: "ref_of r s3 name = Some h" "s' = ref_moved r s3 name (cm_id n)" by auto
  have act: "has_active r s" using assms(1) by (simp add: port_ok_def)
  have "memory_view s' = memory_view s2" using adv(2) s3(1) by (simp add: memory_view_def)
  then have inv: "objects_inv (ev_oid E) s'"
    using ts(1) adv(2) s3(1) by (simp add: objects_inv_def)
  have s': "has_active r s'" "ref_of r s' name = Some i" "map_of (ms_commits s') i = Some n"
    using act adv s3 run(7) by (simp_all add: has_active_def btree_simps)
  have h: "ref_of r s name = Some h" using adv(1) s3(2) by (simp add: ref_of_def)
  have le: "memory_view s \<subseteq>\<^sub>m memory_view s'" "memory_view s1 \<subseteq>\<^sub>m memory_view s'"
    using sv(4) ts(2) \<open>memory_view s' = memory_view s2\<close> map_le_trans by auto
  have "to_json fuel (memory_store (ev_oid E)) s1 x = Some (Inr v)"
    using mem.to_json_represents [OF sv(1,5) ok(4), of fuel] assms(2) by (simp add: readable_def)
  from to_json_kept [OF le(2) this] have "tr_get_json (memory_repo fuel E F r) s' name path = Inr v"
    using memory_get_json_Inr [OF s'(1,2) inv, of fuel F path v] s'(3) s3(6) run(2) ts(3) assms(3)
      \<open>memory_view s' = memory_view s2\<close> by simp
  moreover have "tr_get_json (memory_repo fuel E F r) s' name q = Inr w"
    if "paths_diverge path q" "tr_get_json (memory_repo fuel E F r) s name q = Inr w" for q w
  proof -
    from that(2) memory_get_json_Inr [OF act h, of E fuel F q w] ok(3) run(1) obtain p' z
      where q: "\<not> path_is_secret q" "parse_path q = Inr p'" "view_get (memory_view s) (cm_state_root c) p' = Some z"
        "to_json fuel (memory_store (ev_oid E)) s z = Some (Inr w)" by auto
    from that(1) run(2) q(2) have "diverges p p'"
      by (auto simp: paths_diverge_def parse_path_def map_err_def split: sum.splits)
    with ts(4) view_get_mono [OF sv(4) q(3)] have "view_get (memory_view s2) root p' = Some z" by blast
    with memory_get_json_Inr [OF s'(1,2) inv, of fuel F q w] s'(3) s3(6) q(1,2) to_json_kept [OF le(1) q(4)]
    show ?thesis by (simp add: \<open>memory_view s' = memory_view s2\<close>)
  qed
  moreover have "port_ok E r name s'"
    using assms(1) inv s' adv(2) s3(4) by (simp add: port_ok_def no_watches_def)
  ultimately show ?thesis
    using resolve_ref_branch [OF act h] resolve_ref_branch [OF s'(1,2)] by (simp add: memory_repo_def repo_head_def)
qed

interpretation memport: repo_port "memory_repo fuel E F r" name "port_ok E r name" "readable fuel"
  for fuel E F r name
proof unfold_locales
  show "\<exists>h. tr_head (memory_repo fuel E F r) s name = Inr h" if "port_ok E r name s" for s
    using that resolve_ref_branch [of r s name] by (auto simp: port_ok_def memory_repo_def repo_head_def)
qed (erule (2) swap_lost, erule (3) swap_won)

end
