(* ===== verification/Repo_Properties.thy ===== *)
theory Repo_Properties
  imports Repo_Samples Cas_Memory
begin

text \<open>
  Properties of the repository over the in-memory store: merge bases, writes with and without other
  writers, merges, sealed epochs, taints, speculations and blame.
\<close>

section \<open>Merge bases\<close>

text \<open>
  C31. The merge base of two refs is a best common ancestor of their heads: both histories reach it, and
  no other commit that both reach descends from it. The call fails exactly when the histories share
  no commit. Commit ids hash the ids of the parents, so a history has no cycle.
\<close>

theorem merge_base_best:
  assumes "acyclic_graph (commit_parents (ms_commits s))"
    and "resolve_ref r s source = Inr a" "resolve_ref r s target = Inr b"
  shows "(merge_base r s source target = Inr c \<longrightarrow>
       (history s)\<^sup>*\<^sup>* a c \<and> (history s)\<^sup>*\<^sup>* b c \<and>
       (\<forall>d. (history s)\<^sup>*\<^sup>* a d \<and> (history s)\<^sup>*\<^sup>* b d \<longrightarrow> \<not> (history s)\<^sup>+\<^sup>+ d c)) \<and>
    ((\<exists>e. merge_base r s source target = Inl e) \<longleftrightarrow> \<not> (\<exists>d. (history s)\<^sup>*\<^sup>* a d \<and> (history s)\<^sup>*\<^sup>* b d))"
proof -
  have base: "merge_base r s source target =
      ok_or (RRefNotFound ''no common ancestor between refs'') (common_ancestor s a b)"
    using assms(2,3) by (simp add: merge_base_def find_common_ancestor_def try_bind_def)
  from common_ancestor_best [OF assms(1), of a b c] common_ancestor_None [of s a b] show ?thesis
    by (cases "common_ancestor s a b") (auto simp: base ok_or_def)
qed

theorem merge_base_best_witness:
  "merge_base sample_repo fork_store ''feature'' ''main'' = Inr (commit_name 0) \<and>
   (history fork_store)\<^sup>*\<^sup>* (commit_name 2) (commit_name 0) \<and>
   (history fork_store)\<^sup>*\<^sup>* (commit_name 1) (commit_name 0)"
proof -
  have "merge_base sample_repo fork_store ''feature'' ''main'' = Inr (commit_name 0)"
    using fork_base [of fork_store] fork_resolve
    by (simp add: merge_base_def find_common_ancestor_def try_bind_def ok_or_def)
  with merge_base_best [OF fork_acyclic fork_resolve(2,1), of "commit_name 0"] show ?thesis by blast
qed

section \<open>Writes\<close>

text \<open>
  C32. A write to a branch that passes the guards, with no other writer in between, does what its tree
  operation does. When the tree cannot take the value, the write fails with that error and changes no
  ref and no commit. Otherwise the branch moves to a new commit whose only parent is the old head and
  whose tree holds the value at the path and everything that was beside it; a read of the path through
  the branch gives the value, every other ref and every commit that was stored is as before, and the
  commits sealed epochs need stay reachable.
\<close>

theorem set_lands:
  assumes "collision_free (ev_oid E)" "objects_inv (ev_oid E) s" "object_ok v"
    and "rp_active_epoch r = None" "rp_active_session r = None" "others 0 = id \<and> ev_at_check E 0 = id"
    and "write_guards E s path options = Inr p" "refuse_reserved_ref name = Inr ()"
    and "has_active r s" "ref_of r s name = Some h" "map_of (ms_commits s) h = Some c" "seals_hold r s h"
    and "tree_set (memory_store (ev_oid E)) s (cm_state_root c) p v = (s1, t)"
    and "\<And>root. map_of (ms_commits s) (cm_id (new_commit E 0 root [h] options)) = None"
  shows "case t of
      Inl e \<Rightarrow> repo_set E others r s name path v options = (s1, Inl (RTree e)) \<and>
        ms_refs s1 = ms_refs s \<and> ms_commits s1 = ms_commits s
    | Inr root \<Rightarrow>
        let n = new_commit E 0 root [h] options in
        \<exists>s'. repo_set E others r s name path v options = (s', Inr (cm_id n)) \<and>
          map_of (ms_refs s') = (map_of (ms_refs s))((ns_str (active_namespace r), name) \<mapsto> cm_id n) \<and>
          map_of (ms_commits s') = (map_of (ms_commits s))(cm_id n \<mapsto> n) \<and>
          cm_parents n = [h] \<and> cm_state_root n = root \<and> seals_hold r s' (cm_id n) \<and>
          read_at E r s' name path = Inr v \<and>
          (\<forall>q z. diverges p q \<and> tree_get (memory_store (ev_oid E)) s (cm_state_root c) q = Inr z \<longrightarrow>
             tree_get (memory_store (ev_oid E)) s' root q = Inr z)"
proof -
  let ?S = "memory_store (ev_oid E)"
  let ?update = "\<lambda>s root. on_tree (tree_set ?S s root p v)"
  note same = memory_tree_writes_same(1) [OF assms(13)]
  obtain m where m: "MAX_REF_CAS_ATTEMPTS = Suc m" by (rule cas_attempts_Suc)
  have set_eq: "repo_set E others r s name path v options =
      write_attempts (Suc m) 0 E others r s name ?update options"
    using assms(7) by (simp add: repo_set_def m del: write_attempts.simps)
  show ?thesis
  proof (cases t)
    case (Inl e)
    then have "repo_set E others r s name path v options = (s1, Inl (RTree e))"
      using head_for_write_branch [OF assms(9,10,8)] assms(11,13)
      by (simp add: set_eq commit_or_def get_commit_def map_err_def try_bind_def ok_or_def)
    with Inl same_but_objects_fields [OF same] show ?thesis by simp
  next
    case (Inr root)
    define n where "n = new_commit E 0 root [h] options"
    have up: "?update s (cm_state_root c) = (s1, Inr root)" using assms(13) Inr by (simp add: map_err_def)
    obtain s' where s': "repo_set E others r s name path v options = (s', Inr (cm_id n))"
      "map_of (ms_refs s') = (map_of (ms_refs s))((ns_str (active_namespace r), name) \<mapsto> cm_id n)"
      "map_of (ms_commits s') = (map_of (ms_commits s))(cm_id n \<mapsto> n)"
      "ms_objects s' = ms_objects s1" "has_active r s'" "seals_hold r s' (cm_id n)"
      using write_lands [of r others 0 E s name h c ?update s1 root n options m,
          OF assms(4-6,9,10,8,11) up same n_def _ assms(12)] assms(14) set_eq by (metis n_def)
    have get: "tree_get ?S s' x q = tree_get ?S s1 x q" for x q
      using tree_get_objects_cong [OF s'(4)] .
    have "read_at E r s' name path = map_err RTree (tree_get ?S s1 root p)"
      using read_at_landed [OF s'(5), of name "cm_id n" n path p E] s'(2,3) get write_guards_parse [OF assms(7)]
      by (simp add: ref_of_def n_def)
    moreover have "tree_get ?S s1 root p = Inr v \<and> (\<forall>q z. diverges p q \<and>
        tree_get ?S s (cm_state_root c) q = Inr z \<longrightarrow> tree_get ?S s1 root q = Inr z)"
      using content_store.tree_set_correct [OF memory_content_store [OF assms(1)] assms(2,3), of _ p s1 root]
        assms(2,13) Inr by (auto simp: mem.tree_get_Inr)
    ultimately show ?thesis
      using Inr s' get by (simp add: Let_def n_def [symmetric] map_err_def) (simp add: n_def)
  qed
qed

theorem set_lands_witness:
  "\<exists>s' i. repo_set sample_env (\<lambda>_. id) sample_repo fork_store ''main'' ''/a'' (object_string ''9'')
       sample_options = (s', Inr i) \<and>
     read_at sample_env sample_repo s' ''main'' ''/a'' = Inr (object_string ''9'') \<and>
     map_of (ms_refs s') (DEFAULT_NS, ''feature'') = Some (commit_name 2)"
proof -
  obtain s1 root where run: "fork_set = (s1, Inr root)" using fork_set_run by blast
  have ok: "object_ok (object_string ''9'')" by (simp add: object_ok_def object_string_def)
  have root: "cm_state_root (doc_commit 1 ours_doc [0]) = doc_root ours_doc" by (simp add: doc_commit_def)
  have "map_of (ms_refs fork_store) (DEFAULT_NS, ''feature'') = Some (commit_name 2)"
    using fork_refs(2) by (simp add: ref_of_def)
  with set_lands [of sample_env fork_store "object_string ''9''" sample_repo "\<lambda>_. id" "''/a''" sample_options
      "[Key ''a'']" "''main''" "commit_name 1" "doc_commit 1 ours_doc [0]" s1 "Inr root"]
  show ?thesis
    using sym_oid_collision_free fork_guards fork_refs(1) fork_commits(2) run ok root sample_fresh
    by (auto simp: Let_def id_def)
qed

section \<open>Concurrent writers\<close>

text \<open>
  C33. No update is lost: whatever other writers do to the store between the attempts of a write, as long
  as they remove neither the branch nor stored commits, a write or a delete that answers a commit id
  moved the branch to a commit whose only parent is what the branch pointed to at that very moment,
  and changed nothing else of the store the other writers had left.
\<close>

theorem no_lost_update:
  assumes "rp_active_epoch r = None" "ref_of r s name \<noteq> None"
    and "\<And>k t. ref_of r t name \<noteq> None \<Longrightarrow> ref_of r (others k t) name \<noteq> None"
    and "\<And>k t i c. map_of (ms_commits t) i = Some c \<Longrightarrow> map_of (ms_commits (others k t)) i = Some c"
    and "repo_set E others r s name path v options = (s', Inr i) \<or>
      repo_delete E others r s name path options = (s', Inr i)"
  shows "\<exists>k t h n. ref_of r (others k t) name = Some h \<and>
    map_of (ms_commits (others k t)) i = Some n \<and> cm_parents n = [h] \<and>
    s' = ref_moved r (others k t) name i"
proof -
  obtain p update where run: "write_attempts MAX_REF_CAS_ATTEMPTS 0 E others r s name update options = (s', Inr i)"
    and update: "update = (\<lambda>s root. on_tree (tree_set (memory_store (ev_oid E)) s root p v)) \<or>
      update = (\<lambda>s root. on_tree (tree_delete (memory_store (ev_oid E)) s root p))"
    using assms(5) by (auto simp: repo_set_def repo_delete_def split: sum.splits)
  let ?J = "\<lambda>t. ref_of r t name \<noteq> None"
  have "\<forall>t root t' x. ?J t \<and> update t root = (t', Inr x) \<longrightarrow> ?J t'"
  proof (intro allI impI)
    fix t root t' x
    assume "?J t \<and> update t root = (t', Inr x)"
    moreover from this update memory_tree_writes_same [of "ev_oid E" t root p] have "same_but_objects t t'"
      by (auto simp: on_tree_Inr)
    ultimately show "?J t'" using same_but_objects_fields [of t t'] by (simp add: ref_of_def)
  qed
  moreover have "\<forall>k t root parents t' x. ?J t \<and> create_commit E k r t root parents options = (t', Inr x) \<longrightarrow> ?J t'"
    using create_commit_Inr [OF assms(1)] by (metis ref_of_def)
  moreover have "\<forall>k t. ?J t \<longrightarrow> ?J (others k t)" using assms(3) by blast
  ultimately have "\<exists>k s1 s2 s3 h b c root n. ?J s1 \<and> head_for_write r s1 name = Inr (h, b) \<and>
      map_of (ms_commits s1) h = Some c \<and> update s1 (cm_state_root c) = (s2, Inr root) \<and>
      create_commit E k r s2 root [h] options = (s3, Inr n) \<and> i = cm_id n \<and>
      landed r (ev_at_check E k s3) (others k s3) name h b i s'"
    by (rule write_attempts_landed [where J = ?J, OF run assms(2)])
  then obtain k s1 s2 s3 h b c root n where w: "?J s1" "head_for_write r s1 name = Inr (h, b)"
    "create_commit E k r s2 root [h] options = (s3, Inr n)" "i = cm_id n" "landed r (ev_at_check E k s3) (others k s3) name h b i s'"
    by blast
  from w(1,2) have "b" by (auto simp: head_for_write_def try_bind_def get_ref_def ref_of_def map_err_def
      split: sum.splits option.splits)
  with w(5) move_ref_landed have "ref_of r (others k s3) name = Some h" "s' = ref_moved r (others k s3) name i"
    unfolding landed_def by blast+
  moreover have "map_of (ms_commits (others k s3)) i = Some n" "cm_parents n = [h]"
    using create_commit_Inr [OF assms(1) w(3)] w(4) by (auto simp: map_of_bt_insert intro: assms(4))
  ultimately show ?thesis by blast
qed

lemma fork_set_lands:
  "\<exists>s' n. repo_set sample_env (\<lambda>_. id) sample_repo fork_store ''main'' ''/a'' (object_string ''9'')
       sample_options = (s', Inr (cm_id n)) \<and> map_of (ms_commits s') (cm_id n) = Some n"
proof -
  obtain s1 root where run: "fork_set = (s1, Inr root)" using fork_set_run by blast
  let ?update = "\<lambda>s root. on_tree (tree_set (memory_store sym_oid) s root [Key ''a''] (object_string ''9''))"
  obtain m where m: "MAX_REF_CAS_ATTEMPTS = Suc m" by (rule cas_attempts_Suc)
  have up: "?update fork_store (cm_state_root (doc_commit 1 ours_doc [0])) = (s1, Inr root)"
    using run by (simp add: map_err_def doc_commit_def)
  from write_lands [of sample_repo "\<lambda>_. id" 0 sample_env fork_store "''main''" "commit_name 1" "doc_commit 1 ours_doc [0]"
      ?update s1 root "new_commit sample_env 0 root [commit_name 1] sample_options" sample_options m,
      OF _ _ _ _ _ _ _ up memory_tree_writes_same(1) [OF run] refl sample_fresh fork_seals]
  show ?thesis
    using fork_refs(1) fork_commits(2) fork_guards
    by (auto simp: repo_set_def m id_def simp del: write_attempts.simps)
qed

theorem no_lost_update_witness:
  "\<exists>s' i n h. repo_set sample_env (\<lambda>_. id) sample_repo fork_store ''main'' ''/a'' (object_string ''9'')
       sample_options = (s', Inr i) \<and> map_of (ms_commits s') i = Some n \<and> cm_parents n = [h]"
proof -
  obtain s' i where run: "repo_set sample_env (\<lambda>_. id) sample_repo fork_store ''main'' ''/a''
      (object_string ''9'') sample_options = (s', Inr i)" using fork_set_lands by blast
  with no_lost_update [of sample_repo fork_store "''main''" "\<lambda>_. id" sample_env "''/a''" "object_string ''9''"
      sample_options s' i] fork_refs(1) show ?thesis by auto
qed

section \<open>Sealed epochs\<close>





text \<open>A seal that stands when the seals are checked and one that is placed after that.\<close>

definition sealing :: "nat \<Rightarrow> MemoryStorage \<Rightarrow> MemoryStorage" where
  "sealing k s = s\<lparr>ms_epochs := [sealed_epoch [commit_name 1]]\<rparr>"


text \<open>
  The check and the move run under no common lock: an epoch sealed between the two is not seen, and \<open>main\<close>
  moves to a head that does not reach its commits.
\<close>

lemma seal_race_orphans:
  "\<exists>s'. repo_set_ref sample_env sealing sample_repo fork_store ''main'' (commit_name 2) = (s', Inr ()) \<and>
     \<not> seals_hold sample_repo s' (commit_name 2)"
proof -
  let ?s' = "set_ref_write (sealing 0 fork_store) default_ns ''main'' (commit_name 2)"
  have run: "repo_set_ref sample_env sealing sample_repo fork_store ''main'' (commit_name 2) = (?s', Inr ())"
    using enforce_epoch_seals_holds [of sample_repo fork_store "commit_name 2" "''main''"] fork_active
    by (simp add: repo_set_ref_def guarded_set_ref_def set_ref_def require_namespace_def has_active_def map_err_def sealing_def)
  have "history ?s' = history fork_store" by (simp add: set_ref_write_def sealing_def)
  then have "\<not> (history ?s')\<^sup>*\<^sup>* (commit_name 2) (commit_name 1)"
    using fork_reach [of "commit_name 2" "commit_name 1"] by auto
  then have "\<not> seals_hold sample_repo ?s' (commit_name 2)"
    by (simp add: seals_hold_def set_ref_write_def sealing_def)
  with run show ?thesis by blast
qed

text \<open>
  A seal of another branch closes \<open>main\<close>: when an epoch of the namespace has sealed a commit that \<open>main\<close>
  does not reach, such as an epoch scoped to a branch that has not been merged, then under strict
  seals a write to \<open>main\<close> that would otherwise land is refused as a violation of the seal, and \<open>main\<close>
  stays where it is.
\<close>

lemma foreign_seal_blocks_main:
  assumes "rp_epoch_seal_strict r" "rp_active_epoch r = None" "rp_active_session r = None" "others 0 = id \<and> ev_at_check E 0 = id"
    and "write_guards E s path options = Inr p" "has_active r s" "ref_of r s ''main'' = Some h"
    and "map_of (ms_commits s) h = Some c"
    and "tree_set (memory_store (ev_oid E)) s (cm_state_root c) p v = (s1, Inr root)"
    and "map_of (ms_commits s) (cm_id (new_commit E 0 root [h] options)) = None"
    and "e \<in> set (ms_epochs s)" "binds r e" "x \<in> set (ep_sealed_commits e)" "\<not> (history s)\<^sup>*\<^sup>* h x"
    and "x \<noteq> cm_id (new_commit E 0 root [h] options)"
  shows "\<exists>s' i xs. repo_set E others r s ''main'' path v options = (s', Inl (REpochSealViolated i xs)) \<and>
    ref_of r s' ''main'' = Some h"
proof -
  let ?update = "\<lambda>s root. on_tree (tree_set (memory_store (ev_oid E)) s root p v)"
  define n where "n = new_commit E 0 root [h] options"
  have up: "?update s (cm_state_root c) = (s1, Inr root)" using assms(9) by (simp add: map_err_def)
  obtain m where m: "MAX_REF_CAS_ATTEMPTS = Suc m" by (rule cas_attempts_Suc)
  obtain s2 where s2: "ms_commits s2 = bt_insert (cm_id n) n (ms_commits s)" "ms_refs s2 = ms_refs s"
    "ms_epochs s2 = ms_epochs s" "write_attempts (Suc m) 0 E others r s ''main'' ?update options =
      (case enforce_epoch_seals r s2 ''main'' (cm_id n) of
         Inl e \<Rightarrow> (s2, Inl e) | Inr _ \<Rightarrow> (ref_moved r s2 ''main'' (cm_id n), Inr (cm_id n)))"
    using write_attempts_first [of r others 0 E s "''main''" h c ?update s1 root n options m,
        OF assms(2-4,6,7) main_not_reserved assms(8) up memory_tree_writes_same(1) [OF assms(9)] n_def] by blast
  have "\<not> seals_hold r s2 (cm_id n)"
    using seals_hold_new [OF s2(1) _ _ s2(3), of h r] assms(10-15) by (auto simp: n_def)
  from enforce_epoch_seals_violated [OF assms(1) this] obtain j xs where
    "enforce_epoch_seals r s2 ''main'' (cm_id n) = Inl (REpochSealViolated j xs)" by blast
  with s2(4) have "repo_set E others r s ''main'' path v options = (s2, Inl (REpochSealViolated j xs))"
    using assms(5) by (simp add: repo_set_def m del: write_attempts.simps)
  with s2(2) assms(7) show ?thesis by (auto simp: ref_of_def)
qed

section \<open>Merges\<close>

text \<open>
  C36. A merge lands on what it merged. Whatever other writers do meanwhile, short of removing objects or
  commits, a merge that answers a commit id was computed in one attempt: in the store of the call, or in
  what others had left after an attempt that lost. In that store it took the heads of the two refs, and
  the target, when it is a branch, still pointed to the merged head when it moved. What moved is the
  outcome of that computation: a clean merge is a commit whose parents are the target's and the source's
  head and whose tree is complete in the store; a fast-forward moves to the stored commit of one of
  the two heads, with the tree it had, complete if it was complete; a conflict never lands. Without leave
  to delete, no top-level entry that the target had in that store is missing from the result. Nothing
  else changes than what storing the merge and the other writers changed.
\<close>

theorem merge_lands:
  assumes "rp_active_epoch r = None"
    and "\<And>k t. map_of (ms_objects t) \<subseteq>\<^sub>m map_of (ms_objects (others k t))"
    and "\<And>k t. map_of (ms_commits t) \<subseteq>\<^sub>m map_of (ms_commits (others k t))"
    and "merge_checked fuel E others r s source target options allow_deletions = Some (s', Inr i)"
  shows "\<exists>k u s0 t h b mc. merge_start fuel E others r s source target options allow_deletions k = Some s0 \<and>
    s0 = attempt_start others s k u \<and> head_for_write r s0 target = Inr (h, b) \<and>
    compute_merge fuel E r s0 source target = Some (Inr mc) \<and>
    resolve_ref r s0 source = Inr (mc_source_commit_id mc) \<and> resolve_ref r s0 target = Inr (mc_target_commit_id mc) \<and>
    t = others k (merged_state E k r s0 options mc (mc_result mc)) \<and>
    (b \<longrightarrow> ref_of r t target = Some (mc_target_commit_id mc)) \<and> s' = ref_moved r t target i \<and>
    merge_outcome E s0 s' mc i (mc_result mc) \<and>
    (allow_deletions \<or>
       set (bt_keys (top_level_entries s0 (mc_target_state_root mc))) \<subseteq>
       dom (map_of (top_level_entries_of_obj s0 (mc_result mc) (result_root E (mc_result mc)))))"
proof -
  have start: "attempt_start others s 0 undefined = s" by (simp add: attempt_start_def)
  from merge_attempts_outcome [of r fuel MAX_REF_CAS_ATTEMPTS 0 E others s undefined source target options allow_deletions s' i,
      unfolded start, OF assms(1) assms(4) [unfolded merge_checked_def] _ assms(2,3)]
  obtain k u s0 t h b mc where st: "merge_start fuel E others r s source target options allow_deletions k = Some s0"
    and m: "s0 = attempt_start others s k u" "t = others k (merged_state E k r s0 options mc (mc_result mc))"
    "head_for_write r s0 target = Inr (h, b)" "compute_merge fuel E r s0 source target = Some (Inr mc)"
    "allow_deletions \<or> top_level_removals E s0 mc = []" "merge_outcome E s0 s' mc i (mc_result mc)"
    "b \<longrightarrow> ref_of r t target = Some (mc_target_commit_id mc)" "s' = ref_moved r t target i" by auto
  have "set (bt_keys (top_level_entries s0 (mc_target_state_root mc))) \<subseteq>
      dom (map_of (top_level_entries_of_obj s0 (mc_result mc) (result_root E (mc_result mc))))"
    if "top_level_removals E s0 mc = []"
  proof -
    from that have "filter (\<lambda>k. map_of (top_level_entries_of_obj s0 (mc_result mc)
        (result_root E (mc_result mc))) k = None) (bt_keys (top_level_entries s0 (mc_target_state_root mc))) = []"
      unfolding top_level_removals_def Let_def by (metis set_empty set_sort)
    then show ?thesis unfolding filter_empty_conv by blast
  qed
  with st m compute_merge_Inr(1,2) [OF m(4)] show ?thesis by metis
qed

text \<open>The two branches of the sample changed different entries: their merge is a commit of its own.\<close>

lemma fork_merge_run:
  obtains s' i mc x where
    "merge_checked 5 sample_env (\<lambda>_. id) sample_repo fork_store ''feature'' ''main'' sample_options False = Some (s', Inr i)"
    "try_merge_checked 5 sample_env 0 id sample_repo fork_store ''feature'' ''main'' sample_options False = Some (s', Inr (Some i))"
    "compute_merge 5 sample_env sample_repo fork_store ''feature'' ''main'' = Some (Inr mc)" "mc_result mc = MergeSuccess x"
    "mc_source_commit_id mc = commit_name 2" "mc_target_commit_id mc = commit_name 1"
proof -
  let ?tree = "try_three_way_merge_collect (resolver sample_store) sym_oid 5 (doc_root base_doc) (doc_root ours_doc) (doc_root theirs_doc)"
  have view: "resolver fork_store = resolver sample_store" by (simp add: fun_eq_iff resolver_def get_object_def)
  have "case ?tree of Some (Inr (MergeSuccess x, cs)) \<Rightarrow> \<not> isl (snd (store_merged sample_env fork_store cs x)) \<and>
      filter (\<lambda>k. map_of (map_entries x) k = None) (bt_keys (top_level_entries sample_store (doc_root ours_doc))) = [] | _ \<Rightarrow> False"
    by code_simp
  then obtain x cs where tree': "?tree = Some (Inr (MergeSuccess x, cs))" "\<not> isl (snd (store_merged sample_env fork_store cs x))"
    "filter (\<lambda>k. map_of (map_entries x) k = None) (bt_keys (top_level_entries sample_store (doc_root ours_doc))) = []"
    by (auto split: option.splits sum.splits prod.splits MergeResult.splits)
  from tree'(2) obtain s1 root where stored: "store_merged sample_env fork_store cs x = (s1, Inr root)"
    by (cases "store_merged sample_env fork_store cs x"; cases "snd (store_merged sample_env fork_store cs x)") auto
  note tree = tree'(1) stored tree'(3)
  define mc where "mc = \<lparr> mc_source_commit_id = commit_name 2, mc_target_commit_id = commit_name 1,
      mc_source_state_root = doc_root theirs_doc, mc_target_state_root = doc_root ours_doc,
      mc_result = MergeSuccess x, mc_created = cs \<rparr>"
  have compute: "compute_merge 5 sample_env sample_repo fork_store ''feature'' ''main'' = Some (Inr mc)"
    using fork_resolve fork_commits fork_base [OF refl] tree(1)
    by (simp add: compute_merge_def try_bind_def commit_or_def get_commit_def map_err_def ok_or_def
        find_common_ancestor_def view doc_commit_def mc_def)
  have kept: "top_level_removals sample_env fork_store mc = []"
    using tree(3) by (simp add: top_level_removals_def mc_def top_level_entries_def Let_def)
  have s1: "same_but_objects fork_store s1"
    using tree(2) by (auto simp: store_merged_def memory_store_def on_storage_Inr split: option.splits elim!: rbind_InrE
        dest!: batch_put_same)
  obtain s2 n where s2: "create_commit sample_env 0 sample_repo s1 root [commit_name 1, commit_name 2] sample_options = (s2, Inr n)"
    using create_commit_answers [of sample_repo sample_env 0 s1 root] by fastforce
  from create_commit_Inr [OF _ s2] same_but_objects_fields [OF s1] have f: "ms_refs s2 = ms_refs fork_store"
    "ms_namespaces s2 = ms_namespaces fork_store" "ms_epochs s2 = []" by simp_all
  have seals: "seals_hold sample_repo s2 (cm_id n)" by (simp add: seals_hold_def f(3))
  have "move_ref sample_repo s2 s2 ''main'' (commit_name 1) True (cm_id n) = (ref_moved sample_repo s2 ''main'' (cm_id n), Inr True)"
    using enforce_epoch_seals_holds [OF seals, of "''main''"] fork_active fork_refs(1) f(1,2)
    by (simp add: move_ref_def advance_ref_def cas_ref_def cas_ref_swap_def require_namespace_def has_active_def ref_of_def
        ref_moved_def map_err_def)
  then have first: "try_merge_checked 5 sample_env 0 id sample_repo fork_store ''feature'' ''main'' sample_options False =
      Some (ref_moved sample_repo s2 ''main'' (cm_id n), Inr (Some (cm_id n)))"
    using head_for_write_branch [OF fork_active fork_refs(1) main_not_reserved] kept tree(2) s2
    by (simp add: try_merge_checked_def compute Let_def) (simp add: mc_def then_some_def)
  obtain m where m: "MAX_REF_CAS_ATTEMPTS = Suc m" by (rule cas_attempts_Suc)
  with first have "merge_checked 5 sample_env (\<lambda>_. id) sample_repo fork_store ''feature'' ''main'' sample_options False =
      Some (ref_moved sample_repo s2 ''main'' (cm_id n), Inr (cm_id n))" unfolding merge_checked_def m by simp
  from this first compute show thesis by (rule that) (simp_all add: mc_def)
qed

theorem merge_lands_witness:
  "\<exists>s' i n. merge_checked 5 sample_env (\<lambda>_. id) sample_repo fork_store ''feature'' ''main'' sample_options False = Some (s', Inr i) \<and>
     map_of (ms_commits s') i = Some n \<and> cm_parents n = [commit_name 1, commit_name 2] \<and>
     complete_tree (map_of (ms_objects s')) (cm_state_root n)"
proof -
  obtain s' i mc x where run:
    "merge_checked 5 sample_env (\<lambda>_. id) sample_repo fork_store ''feature'' ''main'' sample_options False = Some (s', Inr i)"
    "try_merge_checked 5 sample_env 0 id sample_repo fork_store ''feature'' ''main'' sample_options False = Some (s', Inr (Some i))"
    "compute_merge 5 sample_env sample_repo fork_store ''feature'' ''main'' = Some (Inr mc)" "mc_result mc = MergeSuccess x"
    "mc_source_commit_id mc = commit_name 2" "mc_target_commit_id mc = commit_name 1" by (rule fork_merge_run)
  have "merge_start 5 sample_env (\<lambda>_. id) sample_repo fork_store ''feature'' ''main'' sample_options False (Suc k) = None" for k
    by (induction k) (simp_all add: run(2) run(2) [unfolded id_def])
  then have first: "k = 0" if "merge_start 5 sample_env (\<lambda>_. id) sample_repo fork_store ''feature'' ''main'' sample_options False k = Some t"
    for k t using that by (cases k) simp_all
  have grow: "map_of (ms_objects t) \<subseteq>\<^sub>m map_of (ms_objects ((\<lambda>_. id) k t))"
    "map_of (ms_commits t) \<subseteq>\<^sub>m map_of (ms_commits ((\<lambda>_. id) k t))" for k :: nat and t by simp_all
  have "\<exists>k u s0 mc. merge_start 5 sample_env (\<lambda>_. id) sample_repo fork_store ''feature'' ''main'' sample_options False k = Some s0 \<and>
      s0 = attempt_start (\<lambda>_. id) fork_store k u \<and> compute_merge 5 sample_env sample_repo s0 ''feature'' ''main'' = Some (Inr mc) \<and>
      merge_outcome sample_env s0 s' mc i (mc_result mc)"
    by (insert merge_lands [OF sample_repo_fields(1) grow run(1)], elim exE conjE) (intro exI conjI)
  then obtain k u s0 mc' where l: "merge_start 5 sample_env (\<lambda>_. id) sample_repo fork_store ''feature'' ''main'' sample_options False k = Some s0"
    "s0 = attempt_start (\<lambda>_. id) fork_store k u" "compute_merge 5 sample_env sample_repo s0 ''feature'' ''main'' = Some (Inr mc')"
    "merge_outcome sample_env s0 s' mc' i (mc_result mc')" by blast
  from l(2) first [OF l(1)] have "s0 = fork_store" by (simp add: attempt_start_def)
  with l(3,4) run(3) have "merge_outcome sample_env fork_store s' mc i (mc_result mc)" by simp
  with run(1,4-6) show ?thesis by auto
qed

text \<open>
  C37. A fast-forward can drop the target's own commits. When the target's head has the state of the
  merge base without being the merge base, as after an intent commit, which records a taint and leaves
  the state alone, the merge takes the target for unchanged and moves it to the source's head. The
  commits the target had gained are then no longer reachable from it.
\<close>

theorem fast_forward_drops_commits:
  assumes "has_active r s" "ref_of r s target = Some h" "refuse_reserved_ref target = Inr ()"
    and "resolve_ref r s source = Inr a" "map_of (ms_commits s) a = Some ca" "map_of (ms_commits s) h = Some ch"
    and "common_ancestor s a h = Some d" "map_of (ms_commits s) d = Some cd"
    and "cm_state_root cd = cm_state_root ch" "seals_hold r (ev_at_check E 0 s) a" "\<not> (history s)\<^sup>*\<^sup>* a h"
  shows "\<exists>s'. repo_merge fuel E (\<lambda>_. id) r s source target options = Some (s', Inr a) \<and>
    ref_of r s' target = Some a \<and> h \<notin> set (reachable_commits_from s' a)"
  using merge_fast_forward [OF assms(1-10), of fuel options] assms(11)
  by (simp add: repo_merge_def reachable_commits_from_set)

theorem fast_forward_drops_commits_witness:
  "\<exists>s'. repo_merge 0 sample_env (\<lambda>_. id) sample_repo audit_store ''feature'' ''main'' sample_options =
       Some (s', Inr (commit_name 2)) \<and> commit_name 1 \<notin> set (reachable_commits_from s' (commit_name 2))"
proof -
  have "\<not> (history audit_store)\<^sup>*\<^sup>* (commit_name 2) (commit_name 1)"
    using fork_reach [of "commit_name 2" "commit_name 1"] by (auto simp: audit_graph)
  with fast_forward_drops_commits [OF audit_facts(1-4) audit_commits(3,2) audit_facts(5) audit_commits(1)
      audit_facts(6), of sample_env 0 sample_options] audit_facts(7) show ?thesis by auto
qed

section \<open>Taints\<close>

text \<open>
  A taint call that fails on its ref has already taken effect. When the named ref cannot be resolved,
  placing a taint reports that error and leaves the taint in force, and resolving one reports it and
  leaves the taint resolved: the protection of the path is gone although the call failed. No pending
  mark is left that would let the control tree catch up.
\<close>

lemma failed_taint_takes_effect:
  assumes "DEFAULT_NS \<in> set (ms_namespaces s)" "head_for_write r s ref_name = Inl e"
  shows "(\<not> (\<exists>x \<in> set (ms_taints s). ta_resolved_at x = None \<and> ta_path x = path \<and>
        ta_name x = tp_name params \<and> ta_kind x = TkTaint) \<longrightarrow>
      (\<exists>s'. repo_taint E others r s ref_name path params = (s', Inl e) \<and>
         ms_taints s' = ms_taints s @ [taint_of_params E path params])) \<and>
    (find (\<lambda>t. ta_path t = path \<and> ta_name t = name) cs = Some t \<and>
       list_taints s (Some path) (Some TkTaint) False = Inr cs \<and>
       find_taint (ta_id t) (ms_taints s) = Some t \<and> ta_resolved_at t = None \<longrightarrow>
      (\<exists>s' t'. untaint E others r s ref_name path name up = (s', Inl e) \<and>
         find_taint (ta_id t) (ms_taints s') = Some t' \<and> ta_resolved_at t' = Some (ev_now E)))"
proof -
  have upd: "find_taint i (update_taint i f ts) = map_option f (find_taint i ts)"
    if "\<And>t. ta_id (f t) = ta_id t" for i f ts
    using that by (induction ts) (auto simp: find_taint_def)
  have "(\<exists>s'. repo_taint E others r s ref_name path params = (s', Inl e) \<and>
      ms_taints s' = ms_taints s @ [taint_of_params E path params])"
    if "\<not> (\<exists>x \<in> set (ms_taints s). ta_resolved_at x = None \<and> ta_path x = path \<and>
        ta_name x = tp_name params \<and> ta_kind x = TkTaint)"
    using that unfolding repo_taint_def
    by (intro apply_record_refused assms) (simp add: taint_of_params_def)
  moreover have "\<exists>s' t'. untaint E others r s ref_name path name up = (s', Inl e) \<and>
      find_taint (ta_id t) (ms_taints s') = Some t' \<and> ta_resolved_at t' = Some (ev_now E)"
    if "find (\<lambda>t. ta_path t = path \<and> ta_name t = name) cs = Some t"
      "list_taints s (Some path) (Some TkTaint) False = Inr cs"
      "find_taint (ta_id t) (ms_taints s) = Some t" "ta_resolved_at t = None"
    using resolve_kind_refused [OF assms that(2,1,3,4), of E others Untaint up] that(3)
    by (auto simp: untaint_def upd)
  ultimately show ?thesis by blast
qed

definition sample_taint :: Taint where
  "sample_taint = \<lparr> ta_id = ''t'', ta_path = ''/l/7'', ta_name = ''n'', ta_kind = TkTaint, ta_effect = EffBlock,
     ta_severity = SevHigh, ta_reason = ''r'', ta_agent_id = ''b'', ta_commit_id = [], ta_created_at = 0,
     ta_expires_at = None, ta_resolved_at = None, ta_resolved_by = None, ta_resolved_reason = None,
     ta_resolved_proof = None, ta_propagate = True, ta_metadata = [] \<rparr>"

definition tainted_store :: MemoryStorage where
  "tainted_store = fork_store\<lparr>ms_taints := [sample_taint]\<rparr>"

text \<open>
  C39. The guards of a write judge the spelling of its path and only what lies above it. In any store, a path
  that is not reserved by its text and that no taint in force covers by its text passes, whatever
  stands below it. So when the taints in force all stand on one element of a list, with its index
  spelled \<open>a\<close>, a write to that spelling is refused if one of them blocks, but a write that spells the same
  index differently passes and means the same element, and so does a write to the list itself.
\<close>

theorem guards_judge_spelling:
  assumes "\<not> is_taint_lifecycle_intent (in_category (co_intent options))"
  shows "(\<not> path_is_reserved path \<and> (\<forall>t \<in> set (ms_taints s). taint_is_active t (ev_now E) \<longrightarrow> \<not> taint_covers path t) \<longrightarrow>
      write_guards E s path options = parse_path path) \<and>
    (\<forall>base a b n. parse_usize a = Some n \<and> parse_usize b = Some n \<and> a \<noteq> b \<and> length a \<le> MAX_SEGMENT_LEN \<and>
        length b \<le> MAX_SEGMENT_LEN \<and>
        (\<forall>t \<in> set (ms_taints s). taint_is_active t (ev_now E) \<longrightarrow> ta_path t = base @ ''/'' @ a) \<longrightarrow>
      ((\<exists>t \<in> set (ms_taints s). taint_is_active t (ev_now E) \<and> ta_kind t = TkTaint \<and> ta_effect t = EffBlock) \<longrightarrow>
         (\<exists>e. write_guards E s (base @ ''/'' @ a) options = Inl e)) \<and>
      (\<not> path_is_reserved (base @ ''/'' @ b) \<longrightarrow>
         write_guards E s (base @ ''/'' @ b) options = parse_path (base @ ''/'' @ a)) \<and>
      (\<not> path_is_reserved base \<longrightarrow> write_guards E s base options = parse_path base))"
proof -
  have pass: "write_guards E s path options = parse_path path"
    if "\<not> path_is_reserved path" "\<forall>t \<in> set (ms_taints s). taint_is_active t (ev_now E) \<longrightarrow> \<not> taint_covers path t" for path
    using that(1) assms pre_commit_uncovered [OF that(2), of options]
    by (simp add: write_guards_def check_meta_guard_def try_bind_def del: pre_commit_taint_check.simps)
  have refused: "\<exists>e. write_guards E s path options = Inl e"
    if "t \<in> set (ms_taints s)" "taint_is_active t (ev_now E)" "ta_path t = path" "ta_kind t = TkTaint" "ta_effect t = EffBlock" for t path
  proof -
    have "taint_covers path t" using that(3) by (simp add: taint_covers_def)
    from pre_commit_blocked [OF that(1,2) this that(4,5), of options] assms show ?thesis
      by (auto simp: write_guards_def check_meta_guard_def try_bind_def simp del: pre_commit_taint_check.simps)
  qed
  have same: "parse_path (base @ ''/'' @ b) = parse_path (base @ ''/'' @ a)"
    if "parse_usize a = Some n" "parse_usize b = Some n" "length a \<le> MAX_SEGMENT_LEN" "length b \<le> MAX_SEGMENT_LEN" for base a b n
    using path_parse_alias [OF that(2,1,4,3), of base] by (simp add: parse_path_def)
  show ?thesis
  proof (intro conjI allI impI; (elim conjE)?)
    fix base a b n
    assume taints: "parse_usize a = Some n" "parse_usize b = Some n" "a \<noteq> b" "length a \<le> MAX_SEGMENT_LEN" "length b \<le> MAX_SEGMENT_LEN"
      "\<forall>t \<in> set (ms_taints s). taint_is_active t (ev_now E) \<longrightarrow> ta_path t = base @ ''/'' @ a"
    show "\<exists>t \<in> set (ms_taints s). taint_is_active t (ev_now E) \<and> ta_kind t = TkTaint \<and> ta_effect t = EffBlock \<Longrightarrow>
        \<exists>e. write_guards E s (base @ ''/'' @ a) options = Inl e" using refused taints(6) by metis
    show "\<not> path_is_reserved (base @ ''/'' @ b) \<Longrightarrow> write_guards E s (base @ ''/'' @ b) options = parse_path (base @ ''/'' @ a)"
      using pass [of "base @ ''/'' @ b"] same [OF taints(1,2,4,5)] taint_covers_alias(1) [OF _ taints(1-3)] taints(6) by metis
    show "\<not> path_is_reserved base \<Longrightarrow> write_guards E s base options = parse_path base"
      using pass [of base] taint_covers_alias(2) [OF _ taints(1-3)] taints(6) by metis
  qed (use pass in blast)
qed

theorem guards_judge_spelling_witness:
  "(\<exists>e. write_guards sample_env tainted_store ''/l/7'' sample_options = Inl e) \<and>
   write_guards sample_env tainted_store ''/l/007'' sample_options = parse_path ''/l/7'' \<and>
   write_guards sample_env tainted_store ''/l'' sample_options = parse_path ''/l'' \<and>
   write_guards sample_env tainted_store ''/'' sample_options = parse_path ''/''"
proof -
  have life: "\<not> is_taint_lifecycle_intent (in_category (co_intent sample_options))" by (simp add: is_taint_lifecycle_intent_def)
  have taint: "ms_taints tainted_store = [sample_taint]" "taint_is_active sample_taint 0" "ta_path sample_taint = ''/l'' @ ''/'' @ ''7''"
    "ta_kind sample_taint = TkTaint" "ta_effect sample_taint = EffBlock" "\<not> taint_covers ''/'' sample_taint"
    by (simp_all add: tainted_store_def sample_taint_def taint_is_active_def taint_covers_def ends_with_slash_def)
  have index: "parse_usize ''7'' = Some 7" "parse_usize ''007'' = Some 7" "length ''7'' \<le> MAX_SEGMENT_LEN" "length ''007'' \<le> MAX_SEGMENT_LEN"
    by (simp_all add: parse_simps)
  have free: "\<not> path_is_reserved ''/''" "\<not> path_is_reserved (''/l'' @ ''/'' @ ''007'')" "\<not> path_is_reserved ''/l''"
    by (simp_all add: path_is_reserved_def META_PATH_PREFIX_def)
  note g = guards_judge_spelling [OF life, of "''/''" tainted_store sample_env]
  note h = g [THEN conjunct2, THEN spec, of "''/l''", THEN spec, of "''7''", THEN spec, of "''007''", THEN spec, of 7]
  from h taint index free(2,3) have "\<exists>e. write_guards sample_env tainted_store (''/l'' @ ''/'' @ ''7'') sample_options = Inl e"
    "write_guards sample_env tainted_store (''/l'' @ ''/'' @ ''007'') sample_options = parse_path (''/l'' @ ''/'' @ ''7'')"
    "write_guards sample_env tainted_store ''/l'' sample_options = parse_path ''/l''" by auto
  moreover from conjunct1 [OF g] taint free(1) have "write_guards sample_env tainted_store ''/'' sample_options = parse_path ''/''" by simp
  ultimately show ?thesis by simp
qed

section \<open>Blame\<close>

text \<open>
  C40. Blame names a commit that introduced the value: it is stored, the head reaches it, it holds a value
  at the path, no parent of it holds an equal value there, and no commit of the searched history that
  introduced a value is newer. Blame answers whenever the head holds a value at the path and its
  history is not longer than the search.
\<close>

theorem blame_names_introduction:
  assumes "acyclic_graph (commit_parents (ms_commits s))" "commits_inv s"
    and "resolve_ref r s name = Inr h" "map_of (ms_commits s) h = Some c" "parse_path path = Inr p"
    and "log_dag r s name BLAME_LIMIT = Inr w"
  shows "(blame_inner E r s name path = Inr (entry, i) \<longrightarrow>
      (\<exists>d. map_of (ms_commits s) i = Some d \<and> (history s)\<^sup>*\<^sup>* h i \<and> introduced_here E s p d \<and>
         be_timestamp entry = cm_timestamp d \<and>
         (\<forall>e \<in> set (cw_commits w). introduced_here E s p e \<longrightarrow> cm_timestamp e \<le> cm_timestamp d))) \<and>
    (value_at E s p c \<noteq> None \<and> \<not> cw_truncated w \<longrightarrow> (\<exists>answer. blame_inner E r s name path = Inr answer))"
proof -
  obtain v where v: "walked s h BLAME_LIMIT v" "w = v\<lparr>cw_commits := map enforce_caps (cw_commits v)\<rparr>"
    using log_dag_walked [OF assms(2,3), of BLAME_LIMIT] assms(6) by auto
  let ?found = "find (introduced_here E s p) (sort_key (\<lambda>c. - cm_timestamp c) (cw_commits w))"
  have blame: "blame_inner E r s name path = (case ?found of
      Some d \<Rightarrow> Inr (blame_entry_for E s path d, cm_id d)
    | None \<Rightarrow> Inl (RRefNotFound (''no commit found that modified '' @ path)))"
    using assms(5,6) by (simp add: blame_inner_def try_bind_def)
  have stored: "\<exists>e. map_of (ms_commits s) (cm_id d) = Some e \<and> (history s)\<^sup>*\<^sup>* h (cm_id d) \<and> d = enforce_caps e"
    if "d \<in> set (cw_commits w)" for d
    using that v by (auto simp: walked_def enforce_caps_fields)
  show ?thesis
  proof (cases ?found)
    case None
    have "\<not> (value_at E s p c \<noteq> None \<and> \<not> cw_truncated w)"
    proof
      assume that: "value_at E s p c \<noteq> None \<and> \<not> cw_truncated w"
      from introduction_exists [OF assms(1,4), of E p] that obtain j d where
        "(history s)\<^sup>*\<^sup>* h j" "map_of (ms_commits s) j = Some d" "introduced_here E s p d" by blast
      with v that have "enforce_caps d \<in> set (cw_commits w)" "introduced_here E s p (enforce_caps d)"
        by (auto simp: walked_def)
      with None show False by (auto simp: find_None_iff)
    qed
    with None blame show ?thesis by simp
  next
    case (Some d)
    note max = find_sorted_max [OF Some]
    from max stored obtain e where "map_of (ms_commits s) (cm_id d) = Some e" "(history s)\<^sup>*\<^sup>* h (cm_id d)"
      "d = enforce_caps e" by blast
    with max Some blame show ?thesis by (auto simp: blame_entry_for_def)
  qed
qed

lemma fork_commits_inv: "commits_inv fork_store"
  by (simp add: commits_inv_def fork_defs bt_wf_def doc_commit_def sample_commit_def commit_name_def
      less_ObjectId_def)

lemma fork_log:
  "\<exists>w. log_dag sample_repo fork_store ''main'' BLAME_LIMIT = Inr w \<and> \<not> cw_truncated w"
proof -
  from log_dag_walked [OF fork_commits_inv fork_resolve(1), of BLAME_LIMIT] obtain w where
    w: "walked fork_store (commit_name 1) BLAME_LIMIT w"
    "log_dag sample_repo fork_store ''main'' BLAME_LIMIT = Inr (w\<lparr>cw_commits := map enforce_caps (cw_commits w)\<rparr>)"
    by blast
  from w(1) have "set (map cm_id (cw_commits w)) \<subseteq> {commit_name 1, commit_name 0}"
    unfolding walked_def using fork_reach [of "commit_name 1"] by auto
  then have "card (set (map cm_id (cw_commits w))) \<le> 2"
    using card_mono [of "{commit_name 1, commit_name 0}" "set (map cm_id (cw_commits w))"] by simp
  then have "length (cw_commits w) \<le> 2"
    using w(1) distinct_card [of "map cm_id (cw_commits w)"] by (simp add: walked_def)
  with w show ?thesis by (auto simp: walked_def BLAME_LIMIT_def)
qed

theorem blame_names_introduction_witness:
  "\<exists>entry i d. blame_inner sample_env sample_repo fork_store ''main'' ''/a'' = Inr (entry, i) \<and>
     map_of (ms_commits fork_store) i = Some d \<and> introduced_here sample_env fork_store [Key ''a''] d"
proof -
  obtain w where w: "log_dag sample_repo fork_store ''main'' BLAME_LIMIT = Inr w" "\<not> cw_truncated w"
    using fork_log by blast
  have parse: "parse_path ''/a'' = Inr [Key ''a'']" by (simp add: parse_simps map_err_def)
  have "value_at sample_env fork_store [Key ''a''] (doc_commit 1 ours_doc [0]) \<noteq> None" by code_simp
  with blame_names_introduction [OF fork_acyclic fork_commits_inv fork_resolve(1) fork_commits(2) parse w(1),
      of sample_env] w(2) show ?thesis by (metis surj_pair)
qed

end
