(* ===== verification/Reminder_Model.thy ===== *)
theory Reminder_Model
  imports Asg_Prelude
begin

text \<open>
  Reminders, from \<open>crates/agentstategraph-reminders/src\<close>: the record and its schedule (\<open>types.rs\<close>), the
  storage contract (\<open>store.rs\<close>) as a record of operations, the in-memory store (\<open>memory.rs\<close>) and the
  manager (\<open>manager.rs\<close>).

  An instant is an integer count of nanoseconds since the epoch and a date a count of days. Which
  dates \<open>chrono\<close> can represent is the parameter \<open>date_ok\<close>; arithmetic that leaves it panics, which is
  \<open>None\<close> here and \<open>RemPanic\<close> in the operations. A \<open>NaiveTime\<close> is the number of nanoseconds since midnight,
  without leap seconds. The \<open>HashMap\<close> of the memory store is an association list in the order of its
  iteration, which is arbitrary.
\<close>

section \<open>Types (\<open>types.rs\<close>)\<close>

datatype ReminderPriority = RpCritical | RpHigh | RpMedium | RpLow | RpMinimal

fun priority_as_u8 :: "ReminderPriority \<Rightarrow> u8" where
  "priority_as_u8 RpCritical = 1"
| "priority_as_u8 RpHigh = 2"
| "priority_as_u8 RpMedium = 3"
| "priority_as_u8 RpLow = 4"
| "priority_as_u8 RpMinimal = 5"

instantiation ReminderPriority :: linorder
begin

definition less_eq_ReminderPriority :: "ReminderPriority \<Rightarrow> ReminderPriority \<Rightarrow> bool" where
  "less_eq_ReminderPriority a b \<longleftrightarrow> priority_as_u8 a \<le> priority_as_u8 b"

definition less_ReminderPriority :: "ReminderPriority \<Rightarrow> ReminderPriority \<Rightarrow> bool" where
  "less_ReminderPriority a b \<longleftrightarrow> priority_as_u8 a < priority_as_u8 b"

instance
proof
  fix a b :: ReminderPriority
  show "a \<le> b \<Longrightarrow> b \<le> a \<Longrightarrow> a = b"
    by (cases a; cases b) (simp_all add: less_eq_ReminderPriority_def word_le_nat_alt)
qed (auto simp: less_eq_ReminderPriority_def less_ReminderPriority_def)

end

definition priority_default :: ReminderPriority where
  "priority_default = RpMedium"

datatype ReminderStatus = RsPending | RsDue | RsAwaitingPermission | RsInProgress | RsCompleted | RsSnoozed
  | RsCancelled

definition status_is_terminal :: "ReminderStatus \<Rightarrow> bool" where
  "status_is_terminal s \<longleftrightarrow> s \<in> {RsCompleted, RsCancelled}"

definition status_is_actionable :: "ReminderStatus \<Rightarrow> bool" where
  "status_is_actionable s \<longleftrightarrow> s \<in> {RsDue, RsAwaitingPermission, RsInProgress}"

datatype Weekday = Mon | Tue | Wed | Thu | Fri | Sat | Sun

fun days_from_monday :: "Weekday \<Rightarrow> int" where
  "days_from_monday Mon = 0"
| "days_from_monday Tue = 1"
| "days_from_monday Wed = 2"
| "days_from_monday Thu = 3"
| "days_from_monday Fri = 4"
| "days_from_monday Sat = 5"
| "days_from_monday Sun = 6"

text \<open>The first day of the epoch was a Thursday.\<close>

definition is_weekday :: "int \<Rightarrow> Weekday \<Rightarrow> bool" where
  "is_weekday date d \<longleftrightarrow> (date + 3) mod 7 = days_from_monday d"

definition DAY :: int where "DAY = 86400 * 1000000000"

definition date_naive :: "timestamp \<Rightarrow> int" where
  "date_naive t = t div DAY"

definition at_time :: "int \<Rightarrow> int \<Rightarrow> timestamp" where
  "at_time date time = date * DAY + time"

datatype Schedule = Once | Interval u64 | Daily int | Weekly Weekday int

definition next_date :: "(int \<Rightarrow> bool) \<Rightarrow> int \<Rightarrow> int option" where
  "next_date date_ok date = (if date_ok (date + 1) then Some (date + 1) else None)"

text \<open>\<open>Duration::seconds\<close> panics outside the range of a duration, which is counted in milliseconds.\<close>

definition duration_seconds :: "int \<Rightarrow> int option" where
  "duration_seconds n = (if \<bar>n\<bar> \<le> (2 ^ 63 - 1) div 1000 then Some (n * 1000000000) else None)"

definition add_duration :: "(int \<Rightarrow> bool) \<Rightarrow> timestamp \<Rightarrow> int \<Rightarrow> timestamp option" where
  "add_duration date_ok t d = (if date_ok (date_naive (t + d)) then Some (t + d) else None)"

fun weekly_search :: "(int \<Rightarrow> bool) \<Rightarrow> nat \<Rightarrow> int \<Rightarrow> Weekday \<Rightarrow> int \<Rightarrow> timestamp option option" where
  "weekly_search date_ok 0 date day time = Some None"
| "weekly_search date_ok (Suc n) date day time =
     (if is_weekday date day then Some (Some (at_time date time))
      else case next_date date_ok date of
        None \<Rightarrow> None
      | Some date' \<Rightarrow> weekly_search date_ok n date' day time)"

fun next_due :: "(int \<Rightarrow> bool) \<Rightarrow> Schedule \<Rightarrow> timestamp \<Rightarrow> timestamp option option" where
  "next_due date_ok Once after = Some None"
| "next_due date_ok (Interval every_seconds) after =
     (case duration_seconds (sint every_seconds) of
        None \<Rightarrow> None
      | Some d \<Rightarrow> map_option Some (add_duration date_ok after d))"
| "next_due date_ok (Daily time) after =
     (let candidate = at_time (date_naive after) time in
      if candidate > after then Some (Some candidate)
      else map_option (\<lambda>date. Some (at_time date time)) (next_date date_ok (date_naive after)))"
| "next_due date_ok (Weekly day time) after =
     (case next_date date_ok (date_naive after) of
        None \<Rightarrow> None
      | Some date \<Rightarrow> weekly_search date_ok 7 date day time)"

datatype RefKind = RkBranch | RkMemory | RkPlan | RkTask | RkStatePath | RkExternal string

record ReminderRef =
  rr_kind :: RefKind
  rr_id :: string
  rr_label :: "string option"
  rr_stale :: bool

definition ref_branch :: "string \<Rightarrow> string \<Rightarrow> ReminderRef" where
  "ref_branch rid label = \<lparr>rr_kind = RkBranch, rr_id = rid, rr_label = Some label, rr_stale = False\<rparr>"

definition ref_memory :: "string \<Rightarrow> ReminderRef" where
  "ref_memory rid = \<lparr>rr_kind = RkMemory, rr_id = rid, rr_label = None, rr_stale = False\<rparr>"

definition ref_plan :: "string \<Rightarrow> string \<Rightarrow> ReminderRef" where
  "ref_plan rid label = \<lparr>rr_kind = RkPlan, rr_id = rid, rr_label = Some label, rr_stale = False\<rparr>"

definition ref_task :: "string \<Rightarrow> string \<Rightarrow> ReminderRef" where
  "ref_task rid label = \<lparr>rr_kind = RkTask, rr_id = rid, rr_label = Some label, rr_stale = False\<rparr>"

definition ref_state_path :: "string \<Rightarrow> ReminderRef" where
  "ref_state_path path = \<lparr>rr_kind = RkStatePath, rr_id = path, rr_label = None, rr_stale = False\<rparr>"

definition ref_external :: "string \<Rightarrow> string \<Rightarrow> ReminderRef" where
  "ref_external url scheme = \<lparr>rr_kind = RkExternal scheme, rr_id = url, rr_label = None, rr_stale = False\<rparr>"

datatype ExecutionResult = ErSuccess | ErFailed | ErDeferred | ErSnoozed | ErCancelled

record ExecutionRecord =
  ex_started_at :: timestamp
  ex_completed_at :: "timestamp option"
  ex_agent_id :: string
  ex_approved_by :: "string option"
  ex_result :: ExecutionResult
  ex_notes :: "string list"
  ex_task_id :: "string option"

record Reminder =
  rm_id :: string
  rm_title :: string
  rm_instructions :: string
  rm_commands :: "string list"
  rm_refs :: "ReminderRef list"
  rm_priority :: ReminderPriority
  rm_due_at :: timestamp
  rm_schedule :: "Schedule option"
  rm_autonomous :: bool
  rm_created_by :: string
  rm_created_at :: timestamp
  rm_status :: ReminderStatus
  rm_snoozed_until :: "timestamp option"
  rm_executions :: "ExecutionRecord list"
  rm_tags :: "string list"

record CreateReminder =
  cr_title :: string
  cr_instructions :: string
  cr_commands :: "string list"
  cr_refs :: "ReminderRef list"
  cr_priority :: ReminderPriority
  cr_due_at :: timestamp
  cr_schedule :: "Schedule option"
  cr_autonomous :: bool
  cr_created_by :: string
  cr_tags :: "string list"

definition create_reminder_new :: "string \<Rightarrow> string \<Rightarrow> timestamp \<Rightarrow> string \<Rightarrow> CreateReminder" where
  "create_reminder_new title instructions due_at created_by =
     \<lparr>cr_title = title, cr_instructions = instructions, cr_commands = [], cr_refs = [],
      cr_priority = priority_default, cr_due_at = due_at, cr_schedule = None, cr_autonomous = True,
      cr_created_by = created_by, cr_tags = []\<rparr>"

definition reminder_with_priority :: "CreateReminder \<Rightarrow> ReminderPriority \<Rightarrow> CreateReminder" where
  "reminder_with_priority c p = c\<lparr>cr_priority := p\<rparr>"

definition reminder_with_schedule :: "CreateReminder \<Rightarrow> Schedule \<Rightarrow> CreateReminder" where
  "reminder_with_schedule c s = c\<lparr>cr_schedule := Some s\<rparr>"

definition reminder_with_autonomous :: "CreateReminder \<Rightarrow> bool \<Rightarrow> CreateReminder" where
  "reminder_with_autonomous c a = c\<lparr>cr_autonomous := a\<rparr>"

definition reminder_with_commands :: "CreateReminder \<Rightarrow> string list \<Rightarrow> CreateReminder" where
  "reminder_with_commands c cmds = c\<lparr>cr_commands := cmds\<rparr>"

definition reminder_with_refs :: "CreateReminder \<Rightarrow> ReminderRef list \<Rightarrow> CreateReminder" where
  "reminder_with_refs c refs = c\<lparr>cr_refs := refs\<rparr>"

definition reminder_with_tags :: "CreateReminder \<Rightarrow> string list \<Rightarrow> CreateReminder" where
  "reminder_with_tags c tags = c\<lparr>cr_tags := tags\<rparr>"

definition into_reminder :: "timestamp \<Rightarrow> string \<Rightarrow> CreateReminder \<Rightarrow> Reminder" where
  "into_reminder now uuid c =
     \<lparr>rm_id = uuid, rm_title = cr_title c, rm_instructions = cr_instructions c,
      rm_commands = cr_commands c, rm_refs = cr_refs c, rm_priority = cr_priority c,
      rm_due_at = cr_due_at c, rm_schedule = cr_schedule c, rm_autonomous = cr_autonomous c,
      rm_created_by = cr_created_by c, rm_created_at = now, rm_status = RsPending,
      rm_snoozed_until = None, rm_executions = [], rm_tags = cr_tags c\<rparr>"

record ReminderFilter =
  rf_status :: "ReminderStatus option"
  rf_priority_at_most :: "ReminderPriority option"
  rf_created_by :: "string option"
  rf_due_before :: "timestamp option"
  rf_ref_id :: "string option"
  rf_tags :: "string list"

definition filter_default :: ReminderFilter where
  "filter_default = \<lparr>rf_status = None, rf_priority_at_most = None, rf_created_by = None,
     rf_due_before = None, rf_ref_id = None, rf_tags = []\<rparr>"

definition reminder_matches :: "ReminderFilter \<Rightarrow> Reminder \<Rightarrow> bool" where
  "reminder_matches f r \<longleftrightarrow>
     (case rf_status f of Some s \<Rightarrow> rm_status r = s | None \<Rightarrow> True) \<and>
     (case rf_priority_at_most f of Some p \<Rightarrow> \<not> rm_priority r > p | None \<Rightarrow> True) \<and>
     (case rf_created_by f of Some cb \<Rightarrow> rm_created_by r = cb | None \<Rightarrow> True) \<and>
     (case rf_due_before f of Some due \<Rightarrow> \<not> rm_due_at r > due | None \<Rightarrow> True) \<and>
     (case rf_ref_id f of Some rid \<Rightarrow> list_ex (\<lambda>rf. rr_id rf = rid) (rm_refs r) | None \<Rightarrow> True) \<and>
     list_all (\<lambda>tag. tag \<in> set (rm_tags r)) (rf_tags f)"

section \<open>Errors and the storage contract (\<open>error.rs\<close>, \<open>store.rs\<close>)\<close>

datatype ReminderError =
    RemNotFound string
  | RemAlreadyTerminal string ReminderStatus
  | RemInvalidTransition string ReminderStatus ReminderStatus
  | RemRequiresApproval string
  | RemStore string

text \<open>An operation fails with an error or panics.\<close>

datatype reminder_failure = RemErr ReminderError | RemPanic

type_synonym ('s, 'a) reminder_result = "'s \<times> (reminder_failure + 'a)"

text \<open>Two records are compared by their JSON forms. These show every field, instants to the
  nanosecond, so they are equal exactly when the records are.\<close>

definition same_reminder :: "Reminder \<Rightarrow> Reminder \<Rightarrow> bool" where
  "same_reminder a b \<longleftrightarrow> a = b"

record 's ReminderStore =
  rs_save :: "'s \<Rightarrow> Reminder \<Rightarrow> ('s, unit) reminder_result"
  rs_get :: "'s \<Rightarrow> string \<Rightarrow> reminder_failure + Reminder option"
  rs_update :: "'s \<Rightarrow> Reminder \<Rightarrow> ('s, unit) reminder_result"
  rs_update_if_unchanged :: "'s \<Rightarrow> Reminder \<Rightarrow> Reminder \<Rightarrow> ('s, bool) reminder_result"
  rs_delete :: "'s \<Rightarrow> string \<Rightarrow> ('s, bool) reminder_result"
  rs_list :: "'s \<Rightarrow> ReminderFilter \<Rightarrow> reminder_failure + Reminder list"

definition not_supported :: reminder_failure where
  "not_supported = RemErr (RemStore ''reminder storage not supported'')"

text \<open>The default of \<open>update_if_unchanged\<close>: a read, a comparison and an update. Another writer can step
  in between the read and the update; \<open>interfere\<close> is what it does.\<close>

definition default_update_if_unchanged ::
  "('s \<Rightarrow> string \<Rightarrow> reminder_failure + Reminder option) \<Rightarrow>
   ('s \<Rightarrow> Reminder \<Rightarrow> ('s, unit) reminder_result) \<Rightarrow> ('s \<Rightarrow> 's) \<Rightarrow>
   's \<Rightarrow> Reminder \<Rightarrow> Reminder \<Rightarrow> ('s, bool) reminder_result" where
  "default_update_if_unchanged get update interfere s expected new =
     (case get s (rm_id expected) of
        Inl e \<Rightarrow> (s, Inl e)
      | Inr (Some current) \<Rightarrow>
          if same_reminder current expected
          then (case update (interfere s) new of
                  (s', Inl e) \<Rightarrow> (s', Inl e)
                | (s', Inr _) \<Rightarrow> (s', Inr True))
          else (s, Inr False)
      | Inr None \<Rightarrow> (s, Inl (RemErr (RemNotFound (rm_id expected)))))"

definition unsupported_store :: "'s ReminderStore" where
  "unsupported_store =
     \<lparr>rs_save = (\<lambda>s _. (s, Inl not_supported)),
      rs_get = (\<lambda>_ _. Inl not_supported),
      rs_update = (\<lambda>s _. (s, Inl not_supported)),
      rs_update_if_unchanged =
        default_update_if_unchanged (\<lambda>_ _. Inl not_supported) (\<lambda>s _. (s, Inl not_supported)) (\<lambda>s. s),
      rs_delete = (\<lambda>s _. (s, Inl not_supported)),
      rs_list = (\<lambda>_ _. Inl not_supported)\<rparr>"

section \<open>The in-memory store (\<open>memory.rs\<close>)\<close>

type_synonym reminder_table = "(string \<times> Reminder) list"

definition table_insert :: "string \<Rightarrow> 'a \<Rightarrow> (string \<times> 'a) list \<Rightarrow> (string \<times> 'a) list" where
  "table_insert k v m = (k, v) # filter (\<lambda>e. fst e \<noteq> k) m"

definition mrs_save :: "reminder_table \<Rightarrow> Reminder \<Rightarrow> (reminder_table, unit) reminder_result" where
  "mrs_save m r = (table_insert (rm_id r) r m, Inr ())"

definition mrs_get :: "reminder_table \<Rightarrow> string \<Rightarrow> reminder_failure + Reminder option" where
  "mrs_get m rid = Inr (map_of m rid)"

definition mrs_update :: "reminder_table \<Rightarrow> Reminder \<Rightarrow> (reminder_table, unit) reminder_result" where
  "mrs_update m r =
     (if map_of m (rm_id r) \<noteq> None then (table_insert (rm_id r) r m, Inr ())
      else (m, Inl (RemErr (RemNotFound (rm_id r)))))"

definition mrs_update_if_unchanged ::
  "reminder_table \<Rightarrow> Reminder \<Rightarrow> Reminder \<Rightarrow> (reminder_table, bool) reminder_result" where
  "mrs_update_if_unchanged m expected new =
     (case map_of m (rm_id expected) of
        Some current \<Rightarrow>
          if same_reminder current expected then (table_insert (rm_id new) new m, Inr True)
          else (m, Inr False)
      | None \<Rightarrow> (m, Inl (RemErr (RemNotFound (rm_id expected)))))"

definition mrs_delete :: "reminder_table \<Rightarrow> string \<Rightarrow> (reminder_table, bool) reminder_result" where
  "mrs_delete m rid = (filter (\<lambda>e. fst e \<noteq> rid) m, Inr (map_of m rid \<noteq> None))"

definition urgency :: "Reminder \<Rightarrow> ReminderPriority \<times> timestamp" where
  "urgency r = (rm_priority r, rm_due_at r)"

definition mrs_list :: "reminder_table \<Rightarrow> ReminderFilter \<Rightarrow> reminder_failure + Reminder list" where
  "mrs_list m f = Inr (sort_key urgency (filter (reminder_matches f) (map snd m)))"

definition memory_reminders :: "reminder_table ReminderStore" where
  "memory_reminders =
     \<lparr>rs_save = mrs_save, rs_get = mrs_get, rs_update = mrs_update,
      rs_update_if_unchanged = mrs_update_if_unchanged, rs_delete = mrs_delete, rs_list = mrs_list\<rparr>"

section \<open>The manager (\<open>manager.rs\<close>)\<close>

definition MAX_UPDATE_ATTEMPTS :: nat where "MAX_UPDATE_ATTEMPTS = 32"

definition write_conflict :: "string \<Rightarrow> reminder_failure" where
  "write_conflict rid = RemErr (RemStore (''write conflict: reminder '' @ rid @
     '' kept changing; gave up after '' @ show_nat MAX_UPDATE_ATTEMPTS @ '' attempts''))"

definition rem_create ::
  "'s ReminderStore \<Rightarrow> timestamp \<Rightarrow> string \<Rightarrow> 's \<Rightarrow> CreateReminder \<Rightarrow> ('s, Reminder) reminder_result" where
  "rem_create S now uuid s input =
     (let reminder = into_reminder now uuid input in
      case rs_save S s reminder of
        (s', Inl e) \<Rightarrow> (s', Inl e)
      | (s', Inr _) \<Rightarrow> (s', Inr reminder))"

definition rem_get :: "'s ReminderStore \<Rightarrow> 's \<Rightarrow> string \<Rightarrow> reminder_failure + Reminder" where
  "rem_get S s rid = try_bind (rs_get S s rid) (ok_or (RemErr (RemNotFound rid)))"

definition rem_list :: "'s ReminderStore \<Rightarrow> 's \<Rightarrow> ReminderFilter \<Rightarrow> reminder_failure + Reminder list" where
  "rem_list S s f = rs_list S s f"

text \<open>The read-modify-write loop. In attempt \<open>k\<close> other writers change the store by \<open>others k\<close> after the
  reminder was read, and the clock shows \<open>k\<close>-dependent times, which \<open>change k\<close> may use. What they do after an
  attempt lost and before the next one reads is counted to \<open>others k\<close> of the lost attempt, since a swap that
  lost writes nothing.\<close>

fun modify_attempts ::
  "nat \<Rightarrow> nat \<Rightarrow> 's ReminderStore \<Rightarrow> (nat \<Rightarrow> 's \<Rightarrow> 's) \<Rightarrow> 's \<Rightarrow> string \<Rightarrow>
   (nat \<Rightarrow> Reminder \<Rightarrow> reminder_failure + Reminder) \<Rightarrow> ('s, Reminder) reminder_result" where
  "modify_attempts 0 k S others s rid change = (s, Inl (write_conflict rid))"
| "modify_attempts (Suc n) k S others s rid change =
     (case rem_get S s rid of
        Inl e \<Rightarrow> (s, Inl e)
      | Inr read \<Rightarrow>
          (case change k read of
             Inl e \<Rightarrow> (s, Inl e)
           | Inr r \<Rightarrow>
               (case rs_update_if_unchanged S (others k s) read r of
                  (s', Inl e) \<Rightarrow> (s', Inl e)
                | (s', Inr True) \<Rightarrow> (s', Inr r)
                | (s', Inr False) \<Rightarrow> modify_attempts n (Suc k) S others s' rid change)))"

definition modify ::
  "'s ReminderStore \<Rightarrow> (nat \<Rightarrow> 's \<Rightarrow> 's) \<Rightarrow> 's \<Rightarrow> string \<Rightarrow>
   (nat \<Rightarrow> Reminder \<Rightarrow> reminder_failure + Reminder) \<Rightarrow> ('s, Reminder) reminder_result" where
  "modify S others s rid change = modify_attempts MAX_UPDATE_ATTEMPTS 0 S others s rid change"

definition promoted :: "Reminder \<Rightarrow> ReminderStatus" where
  "promoted r = (if rm_autonomous r then RsDue else RsAwaitingPermission)"

definition promote_pending :: "Reminder \<Rightarrow> Reminder" where
  "promote_pending r = r\<lparr>rm_status := promoted r\<rparr>"

definition promote_snoozed :: "Reminder \<Rightarrow> Reminder" where
  "promote_snoozed r = r\<lparr>rm_status := promoted r, rm_snoozed_until := None\<rparr>"

definition wake_time :: "Reminder \<Rightarrow> timestamp" where
  "wake_time r = (case rm_snoozed_until r of Some t \<Rightarrow> t | None \<Rightarrow> rm_due_at r)"

fun promote_all ::
  "'s ReminderStore \<Rightarrow> (nat \<Rightarrow> 's \<Rightarrow> 's) \<Rightarrow> nat \<Rightarrow> (Reminder \<Rightarrow> bool) \<Rightarrow> (Reminder \<Rightarrow> Reminder) \<Rightarrow> 's \<Rightarrow>
   Reminder list \<Rightarrow> ('s, unit) reminder_result" where
  "promote_all S others k ready promote s [] = (s, Inr ())"
| "promote_all S others k ready promote s (read # rest) =
     (if ready read then
        (case rs_update_if_unchanged S (others k s) read (promote read) of
           (s', Inl e) \<Rightarrow> (s', Inl e)
         | (s', Inr _) \<Rightarrow> promote_all S others (Suc k) ready promote s' rest)
      else promote_all S others (Suc k) ready promote s rest)"

definition status_filter :: "ReminderStatus \<Rightarrow> ReminderFilter" where
  "status_filter st = filter_default\<lparr>rf_status := Some st\<rparr>"

definition remind_me ::
  "'s ReminderStore \<Rightarrow> (nat \<Rightarrow> 's \<Rightarrow> 's) \<Rightarrow> timestamp \<Rightarrow> 's \<Rightarrow> ('s, Reminder list) reminder_result" where
  "remind_me S others now s =
     (case rs_list S s (status_filter RsPending) of
        Inl e \<Rightarrow> (s, Inl e)
      | Inr pending \<Rightarrow>
          (case promote_all S others 0 (\<lambda>r. rm_due_at r \<le> now) promote_pending s pending of
             (s1, Inl e) \<Rightarrow> (s1, Inl e)
           | (s1, Inr _) \<Rightarrow>
               (case rs_list S s1 (status_filter RsSnoozed) of
                  Inl e \<Rightarrow> (s1, Inl e)
                | Inr snoozed \<Rightarrow>
                    (case promote_all S others (length pending) (\<lambda>r. wake_time r \<le> now) promote_snoozed s1 snoozed of
                       (s2, Inl e) \<Rightarrow> (s2, Inl e)
                     | (s2, Inr _) \<Rightarrow>
                         (s2, try_bind (rs_list S s2 (status_filter RsDue)) (\<lambda>due.
                            try_bind (rs_list S s2 (status_filter RsAwaitingPermission)) (\<lambda>awaiting.
                              Inr (sort_key urgency (due @ awaiting)))))))))"

subsection \<open>The changes of the lifecycle operations\<close>

definition snooze_change :: "string \<Rightarrow> timestamp \<Rightarrow> Reminder \<Rightarrow> reminder_failure + Reminder" where
  "snooze_change rid until r =
     (if status_is_terminal (rm_status r) then Inl (RemErr (RemAlreadyTerminal rid (rm_status r)))
      else Inr (r\<lparr>rm_status := RsSnoozed, rm_snoozed_until := Some until\<rparr>))"

definition cancel_change :: "string \<Rightarrow> Reminder \<Rightarrow> reminder_failure + Reminder" where
  "cancel_change rid r =
     (if rm_status r = RsCompleted then Inl (RemErr (RemAlreadyTerminal rid (rm_status r)))
      else Inr (r\<lparr>rm_status := RsCancelled\<rparr>))"

definition update_last :: "('a \<Rightarrow> 'a) \<Rightarrow> 'a list \<Rightarrow> 'a list" where
  "update_last f xs = (if xs = [] then [] else butlast xs @ [f (last xs)])"

definition stamp_approver :: "string \<Rightarrow> ExecutionRecord \<Rightarrow> ExecutionRecord" where
  "stamp_approver approved_by rec =
     (if ex_completed_at rec = None then rec\<lparr>ex_approved_by := Some approved_by\<rparr> else rec)"

definition approve_change :: "string \<Rightarrow> string \<Rightarrow> Reminder \<Rightarrow> reminder_failure + Reminder" where
  "approve_change rid approved_by r =
     (let st = rm_status r in
      if st \<in> {RsAwaitingPermission, RsDue}
      then Inr (r\<lparr>rm_status := RsDue, rm_executions := update_last (stamp_approver approved_by) (rm_executions r)\<rparr>)
      else if status_is_terminal st then Inl (RemErr (RemAlreadyTerminal rid st))
      else Inl (RemErr (RemInvalidTransition rid st RsDue)))"

definition open_execution :: "timestamp \<Rightarrow> string \<Rightarrow> ExecutionRecord" where
  "open_execution now agent_id =
     \<lparr>ex_started_at = now, ex_completed_at = None, ex_agent_id = agent_id, ex_approved_by = None,
      ex_result = ErDeferred, ex_notes = [], ex_task_id = None\<rparr>"

definition start_change :: "timestamp \<Rightarrow> string \<Rightarrow> string \<Rightarrow> Reminder \<Rightarrow> reminder_failure + Reminder" where
  "start_change now rid agent_id r =
     (let st = rm_status r;
          started = r\<lparr>rm_executions := rm_executions r @ [open_execution now agent_id], rm_status := RsInProgress\<rparr> in
      if st = RsDue then Inr started
      else if st = RsAwaitingPermission
      then (if \<not> rm_autonomous r then Inl (RemErr (RemRequiresApproval rid)) else Inr started)
      else if status_is_terminal st then Inl (RemErr (RemAlreadyTerminal rid st))
      else Inl (RemErr (RemInvalidTransition rid st RsInProgress)))"

definition close_execution :: "ExecutionRecord \<Rightarrow> ExecutionRecord \<Rightarrow> ExecutionRecord" where
  "close_execution rec l =
     l\<lparr>ex_completed_at := ex_completed_at rec, ex_result := ex_result rec, ex_notes := ex_notes rec,
       ex_task_id := ex_task_id rec,
       ex_approved_by := (if ex_approved_by rec \<noteq> None then ex_approved_by rec else ex_approved_by l)\<rparr>"

definition record_in :: "ExecutionRecord \<Rightarrow> ExecutionRecord list \<Rightarrow> ExecutionRecord list" where
  "record_in rec xs =
     (if xs \<noteq> [] \<and> ex_completed_at (last xs) = None then update_last (close_execution rec) xs
      else xs @ [rec])"

fun after_result ::
  "(int \<Rightarrow> bool) \<Rightarrow> timestamp \<Rightarrow> ExecutionResult \<Rightarrow> Reminder \<Rightarrow> reminder_failure + Reminder" where
  "after_result date_ok completed_at ErSuccess r =
     (case (case rm_schedule r of None \<Rightarrow> Some None | Some sch \<Rightarrow> next_due date_ok sch completed_at) of
        None \<Rightarrow> Inl RemPanic
      | Some (Some nxt) \<Rightarrow>
          Inr (r\<lparr>rm_due_at := nxt, rm_snoozed_until := None,
                 rm_status := (if rm_autonomous r then RsPending else RsAwaitingPermission)\<rparr>)
      | Some None \<Rightarrow> Inr (r\<lparr>rm_status := RsCompleted\<rparr>))"
| "after_result date_ok completed_at ErSnoozed r = Inr (r\<lparr>rm_status := RsSnoozed\<rparr>)"
| "after_result date_ok completed_at ErCancelled r = Inr (r\<lparr>rm_status := RsCancelled\<rparr>)"
| "after_result date_ok completed_at ErFailed r =
     Inr (if rm_status r = RsInProgress then r\<lparr>rm_status := RsDue\<rparr> else r)"
| "after_result date_ok completed_at ErDeferred r =
     Inr (if rm_status r = RsInProgress then r\<lparr>rm_status := RsDue\<rparr> else r)"

definition record_change ::
  "(int \<Rightarrow> bool) \<Rightarrow> timestamp \<Rightarrow> string \<Rightarrow> ExecutionRecord \<Rightarrow> Reminder \<Rightarrow> reminder_failure + Reminder" where
  "record_change date_ok now rid rec r =
     (if status_is_terminal (rm_status r) then Inl (RemErr (RemAlreadyTerminal rid (rm_status r)))
      else let rec' = rec\<lparr>ex_completed_at := Some now\<rparr> in
        after_result date_ok now (ex_result rec') (r\<lparr>rm_executions := record_in rec' (rm_executions r)\<rparr>))"

subsection \<open>The operations\<close>

definition rem_snooze ::
  "'s ReminderStore \<Rightarrow> (nat \<Rightarrow> 's \<Rightarrow> 's) \<Rightarrow> 's \<Rightarrow> string \<Rightarrow> timestamp \<Rightarrow> ('s, Reminder) reminder_result" where
  "rem_snooze S others s rid until = modify S others s rid (\<lambda>_. snooze_change rid until)"

definition rem_cancel ::
  "'s ReminderStore \<Rightarrow> (nat \<Rightarrow> 's \<Rightarrow> 's) \<Rightarrow> 's \<Rightarrow> string \<Rightarrow> ('s, Reminder) reminder_result" where
  "rem_cancel S others s rid = modify S others s rid (\<lambda>_. cancel_change rid)"

definition rem_approve ::
  "'s ReminderStore \<Rightarrow> (nat \<Rightarrow> 's \<Rightarrow> 's) \<Rightarrow> 's \<Rightarrow> string \<Rightarrow> string \<Rightarrow> ('s, Reminder) reminder_result" where
  "rem_approve S others s rid approved_by = modify S others s rid (\<lambda>_. approve_change rid approved_by)"

definition rem_start ::
  "'s ReminderStore \<Rightarrow> (nat \<Rightarrow> 's \<Rightarrow> 's) \<Rightarrow> (nat \<Rightarrow> timestamp) \<Rightarrow> 's \<Rightarrow> string \<Rightarrow> string \<Rightarrow>
   ('s, Reminder) reminder_result" where
  "rem_start S others clock s rid agent_id = modify S others s rid (\<lambda>k. start_change (clock k) rid agent_id)"

definition record_execution ::
  "(int \<Rightarrow> bool) \<Rightarrow> 's ReminderStore \<Rightarrow> (nat \<Rightarrow> 's \<Rightarrow> 's) \<Rightarrow> (nat \<Rightarrow> timestamp) \<Rightarrow> 's \<Rightarrow> string \<Rightarrow>
   ExecutionRecord \<Rightarrow> ('s, Reminder) reminder_result" where
  "record_execution date_ok S others clock s rid rec =
     modify S others s rid (\<lambda>k. record_change date_ok (clock k) rid rec)"

definition stale_refs :: "string \<Rightarrow> ReminderRef list \<Rightarrow> ReminderRef list" where
  "stale_refs ref_id refs =
     map (\<lambda>rf. if rr_id rf = ref_id \<and> \<not> rr_stale rf then rf\<lparr>rr_stale := True\<rparr> else rf) refs"

fun stale_attempts ::
  "nat \<Rightarrow> nat \<Rightarrow> 's ReminderStore \<Rightarrow> (nat \<Rightarrow> 's \<Rightarrow> 's) \<Rightarrow> 's \<Rightarrow> string \<Rightarrow> string \<Rightarrow> ('s, nat) reminder_result" where
  "stale_attempts 0 k S others s rid ref_id = (s, Inl (write_conflict rid))"
| "stale_attempts (Suc n) k S others s rid ref_id =
     (case rem_get S s rid of
        Inl e \<Rightarrow> (s, Inl e)
      | Inr read \<Rightarrow>
          (let count = length (filter (\<lambda>rf. rr_id rf = ref_id \<and> \<not> rr_stale rf) (rm_refs read));
               r = read\<lparr>rm_refs := stale_refs ref_id (rm_refs read)\<rparr> in
           if count = 0 then (s, Inr 0)
           else (case rs_update_if_unchanged S (others k s) read r of
                   (s', Inl e) \<Rightarrow> (s', Inl e)
                 | (s', Inr True) \<Rightarrow> (s', Inr count)
                 | (s', Inr False) \<Rightarrow> stale_attempts n (Suc k) S others s' rid ref_id)))"

definition mark_ref_stale ::
  "'s ReminderStore \<Rightarrow> (nat \<Rightarrow> 's \<Rightarrow> 's) \<Rightarrow> 's \<Rightarrow> string \<Rightarrow> string \<Rightarrow> ('s, nat) reminder_result" where
  "mark_ref_stale S others s rid ref_id = stale_attempts MAX_UPDATE_ATTEMPTS 0 S others s rid ref_id"

end
