(* ===== verification/Reminder_Laws.thy ===== *)
theory Reminder_Laws
  imports Reminder_Model
begin

text \<open>
  The storage contract of reminders as the locale \<open>reminder_store\<close>, with what the manager's loops
  guarantee over it; its interpretation on the in-memory store; the life of one reminder as a step
  relation; and the arithmetic of schedules.
\<close>

lemma map_of_table_insert [simp]: "map_of (table_insert k v m) = (map_of m)(k \<mapsto> v)"
proof
  show "map_of (table_insert k v m) x = ((map_of m)(k \<mapsto> v)) x" for x
    by (induction m) (auto simp: table_insert_def)
qed

lemma table_insert_keys:
  "distinct (map fst m) \<Longrightarrow> distinct (map fst (table_insert k v m))"
  by (auto simp: table_insert_def distinct_map_filter)

section \<open>The contract and its clients\<close>

locale reminder_store =
  fixes S :: "'s ReminderStore"
    and view :: "'s \<Rightarrow> string \<Rightarrow> Reminder option"
    and inv :: "'s \<Rightarrow> bool"
  assumes get_law: "inv s \<Longrightarrow> rs_get S s rid = Inr (view s rid)"
    and keyed: "inv s \<Longrightarrow> view s rid = Some r \<Longrightarrow> rm_id r = rid"
    and swap_missing: "inv s \<Longrightarrow> view s (rm_id old) = None \<Longrightarrow>
      rs_update_if_unchanged S s old new = (s, Inl (RemErr (RemNotFound (rm_id old))))"
    and swap_changed: "inv s \<Longrightarrow> view s (rm_id old) = Some c \<Longrightarrow> c \<noteq> old \<Longrightarrow>
      rs_update_if_unchanged S s old new = (s, Inr False)"
    and swap_same: "inv s \<Longrightarrow> view s (rm_id old) = Some old \<Longrightarrow> rm_id new = rm_id old \<Longrightarrow>
      \<exists>s'. rs_update_if_unchanged S s old new = (s', Inr True) \<and> inv s' \<and>
        view s' = (view s)(rm_id old \<mapsto> new)"
    and list_law: "inv s \<Longrightarrow> \<exists>xs. rs_list S s f = Inr xs \<and> distinct xs \<and>
      set xs = {r. \<exists>rid. view s rid = Some r \<and> reminder_matches f r} \<and> sorted (map urgency xs)"
begin

lemma rem_get_eq: "inv s \<Longrightarrow> rem_get S s rid = ok_or (RemErr (RemNotFound rid)) (view s rid)"
  by (simp add: rem_get_def get_law try_bind_def)

lemma modify_attempts_landed:
  assumes "inv s" "\<forall>k t. inv t \<longrightarrow> inv (others k t)"
    and "\<forall>k a b. change k a = Inr b \<longrightarrow> rm_id b = rm_id a"
    and "modify_attempts n k S others s rid change = (s', Inr r)"
  shows "\<exists>j t old. inv t \<and> view t rid = Some old \<and> view (others j t) rid = Some old \<and> change j old = Inr r \<and>
    inv s' \<and> view s' = (view (others j t))(rid \<mapsto> r)"
  using assms(1,4)
proof (induction n arbitrary: k s)
  case 0
  then show ?case by simp
next
  case (Suc n)
  from Suc.prems obtain old where old: "view s rid = Some old"
    by (cases "view s rid") (auto simp: rem_get_eq)
  from Suc.prems(2) old obtain r' where r': "change k old = Inr r'"
    by (cases "change k old") (auto simp: rem_get_eq [OF Suc.prems(1)])
  let ?t = "others k s"
  have inv: "inv ?t" using assms(2) Suc.prems(1) by blast
  have ids: "rm_id old = rid" "rm_id r' = rid"
    using keyed [OF Suc.prems(1) old] r' assms(3) by auto
  consider "view ?t rid = None" | c where "view ?t rid = Some c" "c \<noteq> old" | "view ?t rid = Some old" by fastforce
  then show ?case
  proof cases
    case 1
    with swap_missing [OF inv, of old r'] Suc.prems old r' ids show ?thesis by (simp add: rem_get_eq)
  next
    case 2
    with swap_changed [OF inv, of old c r'] Suc.prems(2) old r' ids
    have "modify_attempts n (Suc k) S others ?t rid change = (s', Inr r)"
      by (simp add: rem_get_eq [OF Suc.prems(1)])
    from Suc.IH [OF inv this] show ?thesis .
  next
    case 3
    with swap_same [OF inv, of old r'] ids obtain s2 where
      "rs_update_if_unchanged S ?t old r' = (s2, Inr True)" "inv s2" "view s2 = (view ?t)(rid \<mapsto> r')" by auto
    with Suc.prems old r' have "s' = s2" "r = r'" by (auto simp: rem_get_eq)
    with 3 old r' Suc.prems(1) \<open>inv s2\<close> \<open>view s2 = _\<close> show ?thesis by blast
  qed
qed

text \<open>One attempt that no other writer disturbs ends the loop.\<close>

lemma modify_attempts_answers:
  assumes "inv s" "\<forall>k t. inv t \<longrightarrow> inv (others k t)"
    and "\<forall>k a b. change k a = Inr b \<longrightarrow> rm_id b = rm_id a"
    and "j < n" "others (k + j) = (\<lambda>t. t)"
  shows "\<exists>s' x. modify_attempts n k S others s rid change = (s', x) \<and>
    (case x of Inr r \<Rightarrow> True
     | Inl e \<Rightarrow> e = RemErr (RemNotFound rid) \<or> (\<exists>i t old. inv t \<and> view t rid = Some old \<and> change i old = Inl e))"
  using assms(1,4,5)
proof (induction n arbitrary: k s j)
  case 0
  then show ?case by simp
next
  case (Suc n)
  show ?case
  proof (cases "view s rid")
    case None
    with Suc.prems(1) show ?thesis by (simp add: rem_get_eq)
  next
    case old: (Some old)
    show ?thesis
    proof (cases "change k old")
      case (Inl e)
      with old Suc.prems(1) show ?thesis by (auto simp: rem_get_eq)
    next
      case r': (Inr r')
      let ?t = "others k s"
      have inv: "inv ?t" using assms(2) Suc.prems(1) by blast
      have ids: "rm_id old = rid" "rm_id r' = rid"
        using keyed [OF Suc.prems(1) old] r' assms(3) by auto
      consider "view ?t rid = None" | c where "view ?t rid = Some c" "c \<noteq> old" | "view ?t rid = Some old"
        by fastforce
      then show ?thesis
      proof cases
        case 1
        with swap_missing [OF inv, of old r'] Suc.prems(1) old r' ids show ?thesis by (simp add: rem_get_eq)
      next
        case 2
        then have "j \<noteq> 0" using Suc.prems(3) old by (cases j) auto
        with Suc.prems(2,3) Suc.IH [OF inv, of "j - 1" "Suc k"]
        have "\<exists>s' x. modify_attempts n (Suc k) S others ?t rid change = (s', x) \<and>
          (case x of Inr r \<Rightarrow> True
           | Inl e \<Rightarrow> e = RemErr (RemNotFound rid) \<or> (\<exists>i t old. inv t \<and> view t rid = Some old \<and> change i old = Inl e))"
          by simp
        with swap_changed [OF inv, of old c r'] 2 Suc.prems(1) old r' ids show ?thesis
          by (simp add: rem_get_eq)
      next
        case 3
        with swap_same [OF inv, of old r'] ids obtain s2 where
          "rs_update_if_unchanged S ?t old r' = (s2, Inr True)" by auto
        with old r' Suc.prems(1) show ?thesis by (simp add: rem_get_eq)
      qed
    qed
  qed
qed

lemma promote_all_quiet:
  assumes "\<And>r. rm_id (promote r) = rm_id r"
  shows "inv s \<Longrightarrow> distinct xs \<Longrightarrow> (\<forall>r \<in> set xs. view s (rm_id r) = Some r) \<Longrightarrow>
    \<exists>s'. promote_all S (\<lambda>_ t. t) k ready promote s xs = (s', Inr ()) \<and> inv s' \<and>
      (\<forall>i. view s' i = map_option (\<lambda>r. if r \<in> set xs \<and> ready r then promote r else r) (view s i))"
proof (induction xs arbitrary: s k)
  case Nil
  then show ?case by (simp add: option.map_ident)
next
  case (Cons r xs)
  have xs: "distinct xs" "\<forall>q \<in> set xs. view s (rm_id q) = Some q" using Cons.prems(2,3) by simp_all
  show ?case
  proof (cases "ready r")
    case False
    from Cons.IH [OF Cons.prems(1) xs, of "Suc k"] False show ?thesis
      by (auto intro!: option.map_cong)
  next
    case True
    from swap_same [OF Cons.prems(1), of r "promote r"] Cons.prems(3) assms obtain s1 where
      s1: "rs_update_if_unchanged S s r (promote r) = (s1, Inr True)" "inv s1"
      "view s1 = (view s)(rm_id r \<mapsto> promote r)" by auto
    have "rm_id q \<noteq> rm_id r" if "q \<in> set xs" for q
      using that xs(2) Cons.prems(2,3) by (metis distinct.simps(2) list.set_intros(1) option.inject)
    then have "\<forall>q \<in> set xs. view s1 (rm_id q) = Some q" using xs(2) s1(3) by simp
    then obtain s' where
      s': "promote_all S (\<lambda>_ t. t) (Suc k) ready promote s1 xs = (s', Inr ())" "inv s'"
      "\<forall>i. view s' i = map_option (\<lambda>r. if r \<in> set xs \<and> ready r then promote r else r) (view s1 i)"
      using Cons.IH [OF s1(2) xs(1), of "Suc k"] by blast
    have "promote r \<notin> set xs"
    proof
      assume p: "promote r \<in> set xs"
      with Cons.prems(3) have "view s (rm_id r) = Some (promote r)" using assms by fastforce
      with Cons.prems(2,3) p show False by auto
    qed
    then have "view s' i = map_option (\<lambda>q. if q \<in> set (r # xs) \<and> ready q then promote q else q) (view s i)" for i
    proof (cases "i = rm_id r")
      case False
      then have "view s i \<noteq> Some r" using keyed [OF Cons.prems(1), of i r] by auto
      with False show ?thesis using s'(3) s1(3) by (cases "view s i") auto
    qed (use s'(3) s1(3) True Cons.prems(3) in simp)
    with s' s1 True show ?thesis by simp
  qed
qed

end

text \<open>What a reminder is after a call at \<open>now\<close> that nobody disturbs.\<close>

definition woken :: "timestamp \<Rightarrow> Reminder \<Rightarrow> Reminder" where
  "woken now r =
     (if rm_status r = RsPending \<and> rm_due_at r \<le> now then promote_pending r
      else if rm_status r = RsSnoozed \<and> wake_time r \<le> now then promote_snoozed r
      else r)"

lemma matches_status_filter: "reminder_matches (status_filter st) r \<longleftrightarrow> rm_status r = st"
  by (simp add: reminder_matches_def status_filter_def filter_default_def)

context reminder_store
begin

lemma listed:
  assumes "inv s"
  obtains xs where "rs_list S s (status_filter st) = Inr xs" "distinct xs"
    "set xs = {r. \<exists>rid. view s rid = Some r \<and> rm_status r = st}"
    "\<forall>r \<in> set xs. view s (rm_id r) = Some r"
proof -
  from list_law [OF assms, of "status_filter st"] obtain xs where
    xs: "rs_list S s (status_filter st) = Inr xs" "distinct xs"
    "set xs = {r. \<exists>rid. view s rid = Some r \<and> rm_status r = st}" by (auto simp: matches_status_filter)
  then have "\<forall>r \<in> set xs. view s (rm_id r) = Some r" using keyed [OF assms] by auto
  with xs that show thesis by blast
qed

lemma remind_me_quiet:
  assumes "inv s"
  shows "\<exists>s' xs. remind_me S (\<lambda>_ t. t) now s = (s', Inr xs) \<and> inv s' \<and>
    (\<forall>i. view s' i = map_option (woken now) (view s i)) \<and> distinct xs \<and> sorted (map urgency xs) \<and>
    set xs = {r. \<exists>rid. view s' rid = Some r \<and> rm_status r \<in> {RsDue, RsAwaitingPermission}}"
proof -
  obtain ps where ps: "rs_list S s (status_filter RsPending) = Inr ps" "distinct ps"
    "set ps = {r. \<exists>rid. view s rid = Some r \<and> rm_status r = RsPending}" "\<forall>r \<in> set ps. view s (rm_id r) = Some r"
    using listed [OF assms] by blast
  from promote_all_quiet [of promote_pending s ps 0 "\<lambda>r. rm_due_at r \<le> now"] assms ps(2,4) obtain s1 where
    s1: "promote_all S (\<lambda>_ t. t) 0 (\<lambda>r. rm_due_at r \<le> now) promote_pending s ps = (s1, Inr ())" "inv s1"
    "\<forall>i. view s1 i = map_option (\<lambda>r. if r \<in> set ps \<and> rm_due_at r \<le> now then promote_pending r else r) (view s i)"
    by (auto simp: promote_pending_def)
  obtain zs where zs: "rs_list S s1 (status_filter RsSnoozed) = Inr zs" "distinct zs"
    "set zs = {r. \<exists>rid. view s1 rid = Some r \<and> rm_status r = RsSnoozed}" "\<forall>r \<in> set zs. view s1 (rm_id r) = Some r"
    using listed [OF s1(2)] by blast
  from promote_all_quiet [of promote_snoozed s1 zs "length ps" "\<lambda>r. wake_time r \<le> now"] s1(2) zs(2,4)
  obtain s2 where
    s2: "promote_all S (\<lambda>_ t. t) (length ps) (\<lambda>r. wake_time r \<le> now) promote_snoozed s1 zs = (s2, Inr ())" "inv s2"
    "\<forall>i. view s2 i = map_option (\<lambda>r. if r \<in> set zs \<and> wake_time r \<le> now then promote_snoozed r else r) (view s1 i)"
    by (auto simp: promote_snoozed_def)
  have woken: "view s2 i = map_option (woken now) (view s i)" for i
  proof (cases "view s i")
    case (Some r)
    then have "view s1 i = Some (if rm_status r = RsPending \<and> rm_due_at r \<le> now then promote_pending r else r)"
      using s1(3) ps(3) by auto
    then show ?thesis using s2(3) zs(3) Some
      by (auto simp: woken_def promote_pending_def promoted_def)
  qed (simp add: s1(3) s2(3))
  obtain ds where ds: "rs_list S s2 (status_filter RsDue) = Inr ds" "distinct ds"
    "set ds = {r. \<exists>rid. view s2 rid = Some r \<and> rm_status r = RsDue}" "\<forall>r \<in> set ds. view s2 (rm_id r) = Some r"
    using listed [OF s2(2)] by blast
  obtain as where as: "rs_list S s2 (status_filter RsAwaitingPermission) = Inr as" "distinct as"
    "set as = {r. \<exists>rid. view s2 rid = Some r \<and> rm_status r = RsAwaitingPermission}" "\<forall>r \<in> set as. view s2 (rm_id r) = Some r"
    using listed [OF s2(2)] by blast
  have "remind_me S (\<lambda>_ t. t) now s = (s2, Inr (sort_key urgency (ds @ as)))"
    using ps(1) s1(1) zs(1) s2(1) ds(1) as(1) by (simp add: remind_me_def try_bind_def)
  moreover have "distinct (sort_key urgency (ds @ as))" using ds as by auto
  moreover have "set (sort_key urgency (ds @ as)) =
      {r. \<exists>rid. view s2 rid = Some r \<and> rm_status r \<in> {RsDue, RsAwaitingPermission}}" using ds as by auto
  ultimately show ?thesis using s2(2) woken by (intro exI [of _ s2]) (auto simp: fun_eq_iff)
qed

end

section \<open>The in-memory store keeps the contract\<close>

definition reminders_inv :: "reminder_table \<Rightarrow> bool" where
  "reminders_inv m \<longleftrightarrow> distinct (map fst m) \<and> (\<forall>(k, r) \<in> set m. rm_id r = k)"

lemma reminders_inv_insert: "reminders_inv m \<Longrightarrow> rm_id r = k \<Longrightarrow> reminders_inv (table_insert k r m)"
  by (auto simp: reminders_inv_def table_insert_keys) (auto simp: table_insert_def)

interpretation memrem: reminder_store memory_reminders map_of reminders_inv
proof unfold_locales
  fix m :: reminder_table and f
  assume inv: "reminders_inv m"
  show "\<exists>xs. rs_list memory_reminders m f = Inr xs \<and> distinct xs \<and>
      set xs = {r. \<exists>rid. map_of m rid = Some r \<and> reminder_matches f r} \<and> sorted (map urgency xs)"
  proof (intro exI conjI)
    have "map (\<lambda>e. rm_id (snd e)) m = map fst m"
      using inv by (intro map_cong) (auto simp: reminders_inv_def)
    then have "distinct (map (\<lambda>e. rm_id (snd e)) m)" using inv unfolding reminders_inv_def by argo
    then have "distinct (map snd m)" by (simp add: distinct_map comp_def inj_on_def)
    then show "distinct (sort_key urgency (filter (reminder_matches f) (map snd m)))" by simp
    show "set (sort_key urgency (filter (reminder_matches f) (map snd m))) =
        {r. \<exists>rid. map_of m rid = Some r \<and> reminder_matches f r}"
      using inv by (force simp: reminders_inv_def dest: map_of_SomeD)
  qed (simp_all add: memory_reminders_def mrs_list_def)
next
  fix m :: reminder_table and rid r
  assume "reminders_inv m" "map_of m rid = Some r"
  then show "rm_id r = rid" by (auto simp: reminders_inv_def dest!: map_of_SomeD)
qed (auto simp: memory_reminders_def mrs_get_def mrs_update_if_unchanged_def same_reminder_def
    intro: reminders_inv_insert)

section \<open>The life of a reminder\<close>

datatype rem_event = EvWake | EvSnooze | EvCancel | EvApprove | EvStart | EvRecord ExecutionResult | EvStale

inductive reminder_step :: "(int \<Rightarrow> bool) \<Rightarrow> Reminder \<Rightarrow> rem_event \<Rightarrow> Reminder \<Rightarrow> bool" for date_ok where
  wake: "r' \<noteq> r \<Longrightarrow> r' = woken now r \<Longrightarrow> reminder_step date_ok r EvWake r'"
| snooze: "snooze_change rid until r = Inr r' \<Longrightarrow> reminder_step date_ok r EvSnooze r'"
| cancel: "cancel_change rid r = Inr r' \<Longrightarrow> reminder_step date_ok r EvCancel r'"
| approve: "approve_change rid by r = Inr r' \<Longrightarrow> reminder_step date_ok r EvApprove r'"
| start: "start_change now rid agent r = Inr r' \<Longrightarrow> reminder_step date_ok r EvStart r'"
| recorded: "record_change date_ok now rid rec r = Inr r' \<Longrightarrow> reminder_step date_ok r (EvRecord (ex_result rec)) r'"
| stale: "reminder_step date_ok r EvStale (r\<lparr>rm_refs := stale_refs ref_id (rm_refs r)\<rparr>)"

inductive_cases reminder_stepE: "reminder_step date_ok r ev r'"

inductive reminder_run :: "(int \<Rightarrow> bool) \<Rightarrow> Reminder \<Rightarrow> rem_event list \<Rightarrow> Reminder \<Rightarrow> bool" for date_ok r where
  run_start: "reminder_run date_ok r [] r"
| run_step: "reminder_run date_ok r evs r' \<Longrightarrow> reminder_step date_ok r' ev r'' \<Longrightarrow>
    reminder_run date_ok r (evs @ [ev]) r''"

lemmas reminder_changes = snooze_change_def cancel_change_def approve_change_def start_change_def
  record_change_def status_is_terminal_def woken_def promote_pending_def promote_snoozed_def promoted_def

lemma after_result_cases:
  assumes "after_result date_ok t res r = Inr r'"
  shows "rm_autonomous r' = rm_autonomous r \<and> rm_id r' = rm_id r \<and>
    (rm_status r' = RsDue \<longrightarrow> rm_status r \<in> {RsDue, RsInProgress} \<and> res \<in> {ErFailed, ErDeferred}) \<and>
    (rm_status r' = RsInProgress \<longrightarrow> rm_status r = RsInProgress \<and> res \<in> {ErFailed, ErDeferred})"
  using assms by (cases res) (auto split: option.splits if_splits)

text \<open>An approval counts until the reminder wakes again, is snoozed or succeeds.\<close>

fun approved_since :: "rem_event list \<Rightarrow> bool" where
  "approved_since [] = False"
| "approved_since (ev # evs) =
     (approved_since evs \<or>
      ev = EvApprove \<and> \<not> list_ex (\<lambda>e. e \<in> {EvWake, EvSnooze, EvRecord ErSuccess, EvRecord ErSnoozed}) evs)"

lemma approved_since_snoc:
  "approved_since (evs @ [ev]) \<longleftrightarrow>
     ev = EvApprove \<or> approved_since evs \<and> ev \<notin> {EvWake, EvSnooze, EvRecord ErSuccess, EvRecord ErSnoozed}"
  by (induction evs) auto

lemma reminder_step_gate:
  assumes "reminder_step date_ok r ev r'" "\<not> rm_autonomous r"
  shows "\<not> rm_autonomous r' \<and>
    (rm_status r' \<in> {RsDue, RsInProgress} \<longrightarrow>
       ev = EvApprove \<or> rm_status r \<in> {RsDue, RsInProgress} \<and>
         ev \<notin> {EvWake, EvSnooze, EvRecord ErSuccess, EvRecord ErSnoozed})"
  using assms(1)
proof cases
  case (wake now)
  then have "r' = promote_pending r \<or> r' = promote_snoozed r" unfolding woken_def by presburger
  with assms(2) show ?thesis by (elim disjE) (simp_all add: promote_pending_def promote_snoozed_def promoted_def)
next
  case (snooze rid until)
  with assms(2) show ?thesis by (auto simp: snooze_change_def split: if_splits)
next
  case (cancel rid)
  with assms(2) show ?thesis by (auto simp: cancel_change_def split: if_splits)
next
  case (approve rid who)
  with assms(2) show ?thesis by (auto simp: approve_change_def Let_def split: if_splits)
next
  case (start now rid agent)
  with assms(2) show ?thesis by (auto simp: start_change_def Let_def split: if_splits)
next
  case (recorded now rid rec)
  from recorded(2) obtain exs where
    "after_result date_ok now (ex_result rec) (r\<lparr>rm_executions := exs\<rparr>) = Inr r'"
    by (auto simp: record_change_def Let_def split: if_splits)
  from after_result_cases [OF this] recorded(1) assms(2) show ?thesis by auto
qed (use assms(2) in simp)

lemma reminder_run_gate:
  assumes "reminder_run date_ok r evs r'" "\<not> rm_autonomous r" "rm_status r = RsPending"
  shows "\<not> rm_autonomous r' \<and> (rm_status r' \<in> {RsDue, RsInProgress} \<longrightarrow> approved_since evs)"
  using assms(1)
proof induction
  case run_start
  with assms show ?case by simp
next
  case (run_step evs r' ev r'')
  with reminder_step_gate [OF run_step.hyps(2)] show ?case by (auto simp: approved_since_snoc)
qed

lemma reminder_step_terminal:
  assumes "reminder_step date_ok r ev r'" "status_is_terminal (rm_status r)"
  shows "rm_status r' = rm_status r \<and> rm_executions r' = rm_executions r \<and> rm_due_at r' = rm_due_at r \<and>
    ev \<in> {EvCancel, EvStale}"
  using assms(1)
proof cases
  case (wake now)
  then show ?thesis using assms(2) by (auto simp: woken_def status_is_terminal_def)
qed (use assms(2) in \<open>auto simp: snooze_change_def cancel_change_def approve_change_def start_change_def
    record_change_def Let_def status_is_terminal_def split: if_splits\<close>)

lemma reminder_run_terminal:
  assumes "reminder_run date_ok r evs r'" "status_is_terminal (rm_status r)"
  shows "rm_status r' = rm_status r \<and> rm_executions r' = rm_executions r \<and> rm_due_at r' = rm_due_at r"
  using assms(1)
proof induction
  case (run_step evs r' ev r'')
  with assms(2) reminder_step_terminal [OF run_step.hyps(2)] show ?case by simp
qed simp

section \<open>Schedules\<close>

text \<open>The cast \<open>as i64\<close>.\<close>

lemma u64_as_i64: "sint (n :: u64) = (if uint n < 2 ^ 63 then uint n else uint n - 2 ^ 64)"
proof -
  have n: "0 \<le> uint n" "uint n < 2 ^ 64" using uint_lt2p [of n] by simp_all
  have "sint n = (uint n + 2 ^ 63) mod 2 ^ 64 - 2 ^ 63"
    by (simp add: sint_uint signed_take_bit_eq_take_bit_shift take_bit_eq_mod)
  also have "(uint n + 2 ^ 63) mod 2 ^ 64 = (if uint n < 2 ^ 63 then uint n + 2 ^ 63 else uint n - 2 ^ 63)"
  proof (cases "uint n < 2 ^ 63")
    case False
    have "(uint n + 2 ^ 63) mod 2 ^ 64 = (uint n + 2 ^ 63 - 2 ^ 64) mod 2 ^ 64"
      by (simp only: minus_mod_self2)
    also have "\<dots> = uint n - 2 ^ 63" using False n by simp
    finally show ?thesis using False by simp
  qed (use n in simp)
  finally show ?thesis by simp
qed

lemma DAY_pos [simp]: "0 < DAY" by (simp add: DAY_def)

lemma date_naive_bounds: "date_naive t * DAY \<le> t" "t < (date_naive t + 1) * DAY"
proof -
  have "t = date_naive t * DAY + t mod DAY" by (simp add: date_naive_def)
  moreover have "0 \<le> t mod DAY" "t mod DAY < DAY" by simp_all
  ultimately show "date_naive t * DAY \<le> t" "t < (date_naive t + 1) * DAY"
    unfolding distrib_right mult_1 by linarith+
qed

lemma weekday_within: "\<exists>j < 7. is_weekday (date + int j) day"
proof -
  let ?j = "(days_from_monday day - date - 3) mod 7"
  have d: "0 \<le> days_from_monday day" "days_from_monday day < 7" by (cases day; simp)+
  have j: "0 \<le> ?j" "?j < 7" by simp_all
  have "(date + ?j + 3) mod 7 = (date + (days_from_monday day - date - 3) + 3) mod 7"
    by (metis (no_types, opaque_lifting) add.assoc add.commute mod_add_left_eq)
  also have "\<dots> = days_from_monday day" using d by simp
  finally show ?thesis using j by (intro exI [of _ "nat ?j"]) (auto simp: is_weekday_def)
qed

lemma weekly_search_finds:
  assumes "j < n" "is_weekday (date + int j) day" "\<forall>i < j. \<not> is_weekday (date + int i) day"
    and "\<forall>i \<le> j. date_ok (date + int i)"
  shows "weekly_search date_ok n date day time = Some (Some (at_time (date + int j) time))"
  using assms
proof (induction n arbitrary: date j)
  case (Suc n)
  show ?case
  proof (cases j)
    case 0
    with Suc.prems show ?thesis by simp
  next
    case j: (Suc i)
    have shift: "date + 1 + int m = date + int (Suc m)" for m by simp
    have "\<not> is_weekday date day" "date_ok (date + 1)"
      using Suc.prems(3) [rule_format, of 0] Suc.prems(4) [rule_format, of 1] j by simp_all
    moreover have "weekly_search date_ok n (date + 1) day time =
        Some (Some (at_time (date + 1 + int i) time))"
    proof (rule Suc.IH)
      show "\<forall>m < i. \<not> is_weekday (date + 1 + int m) day" "\<forall>m \<le> i. date_ok (date + 1 + int m)"
        unfolding shift using Suc.prems(3,4) j by auto
      show "is_weekday (date + 1 + int i) day" unfolding shift using Suc.prems(2) j by simp
    qed (use Suc.prems(1) j in simp)
    ultimately show ?thesis using j by (simp add: next_date_def algebra_simps)
  qed
qed simp

end
