(* ===== verification/Reminder_Properties.thy ===== *)
theory Reminder_Properties
  imports Reminder_Laws
begin

text \<open>
  What a user of reminders relies on: changes are not lost, due reminders are shown, an unapproved
  reminder is not started, and a schedule moves forward.
\<close>

definition sample_reminder :: Reminder where
  "sample_reminder = into_reminder 5 ''r1'' (reminder_with_autonomous (create_reminder_new ''t'' ''i'' 7 ''me'') False)"

definition sample_reminders :: reminder_table where
  "sample_reminders = [(''r1'', sample_reminder)]"

lemma sample_reminders_inv: "reminders_inv sample_reminders"
  by (simp add: reminders_inv_def sample_reminders_def sample_reminder_def into_reminder_def)

lemma lifecycle_keeps_id:
  "cancel_change rid a = Inr b \<Longrightarrow> rm_id b = rm_id a"
  "snooze_change rid until a = Inr b \<Longrightarrow> rm_id b = rm_id a"
  "approve_change rid who a = Inr b \<Longrightarrow> rm_id b = rm_id a"
  "start_change now rid who a = Inr b \<Longrightarrow> rm_id b = rm_id a"
  "record_change date_ok now rid rec a = Inr b \<Longrightarrow> rm_id b = rm_id a"
proof -
  show "record_change date_ok now rid rec a = Inr b \<Longrightarrow> rm_id b = rm_id a"
    using after_result_cases by (fastforce simp: record_change_def Let_def split: if_splits)
qed (auto simp: reminder_changes Let_def split: if_splits)

text \<open>
  C9. A lifecycle operation on a reminder is a compare-and-swap loop that loses no update and ends.
  Whatever other writers do to the store meanwhile, an operation that answers applied its change to
  what was stored at that very moment and changed no other reminder. As soon as one of the attempts is
  not disturbed, it ends with an answer, a missing reminder or the refusal of the change, never with a
  write conflict.
\<close>

theorem reminder_update_lands:
  assumes "reminders_inv m" "\<And>k t. reminders_inv t \<Longrightarrow> reminders_inv (others k t)"
    and "\<And>k a b. change k a = Inr b \<Longrightarrow> rm_id b = rm_id a"
  shows "(modify memory_reminders others m rid change = (m', Inr r) \<longrightarrow>
      (\<exists>j t old. map_of (others j t) rid = Some old \<and> change j old = Inr r \<and>
         map_of m' = (map_of (others j t))(rid \<mapsto> r))) \<and>
    (j < MAX_UPDATE_ATTEMPTS \<and> others j = (\<lambda>t. t) \<longrightarrow>
      (case snd (modify memory_reminders others m rid change) of
         Inr r \<Rightarrow> True
       | Inl e \<Rightarrow> e = RemErr (RemNotFound rid) \<or> (\<exists>i old. change i old = Inl e)))"
proof -
  have laws: "\<forall>k t. reminders_inv t \<longrightarrow> reminders_inv (others k t)"
    "\<forall>k a b. change k a = Inr b \<longrightarrow> rm_id b = rm_id a" using assms(2,3) by blast+
  from memrem.modify_attempts_landed [OF assms(1) laws, of MAX_UPDATE_ATTEMPTS 0 rid m' r]
    memrem.modify_attempts_answers [OF assms(1) laws, of j MAX_UPDATE_ATTEMPTS 0 rid]
  show ?thesis unfolding modify_def by (fastforce split: sum.splits)
qed

theorem reminder_update_lands_witness:
  "\<exists>m' r. rem_cancel memory_reminders (\<lambda>_ t. t) sample_reminders ''r1'' = (m', Inr r) \<and>
     (\<exists>j t old. map_of t ''r1'' = Some old \<and> cancel_change ''r1'' old = Inr r \<and>
        map_of m' = (map_of t)(''r1'' \<mapsto> r)) \<and>
     (case snd (rem_cancel memory_reminders (\<lambda>_ t. t) sample_reminders ''r1'') of
        Inr r \<Rightarrow> True | Inl e \<Rightarrow> e = RemErr (RemNotFound ''r1'') \<or> (\<exists>i old. cancel_change ''r1'' old = Inl e))"
proof -
  let ?r = "sample_reminder\<lparr>rm_status := RsCancelled\<rparr>"
  have run: "modify memory_reminders (\<lambda>_ t. t) sample_reminders ''r1'' (\<lambda>_. cancel_change ''r1'') =
      (table_insert ''r1'' ?r sample_reminders, Inr ?r)"
    unfolding modify_def MAX_UPDATE_ATTEMPTS_def by code_simp
  have "0 < MAX_UPDATE_ATTEMPTS" by (simp add: MAX_UPDATE_ATTEMPTS_def)
  with reminder_update_lands [OF sample_reminders_inv, of "\<lambda>_ t. t" "\<lambda>_. cancel_change ''r1''" "''r1''"
      "table_insert ''r1'' ?r sample_reminders" ?r 0] run lifecycle_keeps_id(1)
  show ?thesis unfolding rem_cancel_def by fastforce
qed

text \<open>
  C10. Every reminder that has come due is shown. A call that no other writer disturbs promotes exactly
  the pending reminders whose due time has passed and the snoozed ones whose snooze has run out, to
  due when they are autonomous and to awaiting permission otherwise, leaves every other reminder as it
  is, and answers all due and waiting reminders, each once, the most urgent and earliest first.
\<close>

theorem remind_me_complete:
  assumes "reminders_inv m"
  shows "\<exists>m' xs. remind_me memory_reminders (\<lambda>_ t. t) now m = (m', Inr xs) \<and> reminders_inv m' \<and>
    (\<forall>i. map_of m' i = map_option (woken now) (map_of m i)) \<and> distinct xs \<and> sorted (map urgency xs) \<and>
    set xs = {r. \<exists>i. map_of m' i = Some r \<and> rm_status r \<in> {RsDue, RsAwaitingPermission}} \<and>
    (\<forall>i r. map_of m i = Some r \<and>
       (rm_status r = RsPending \<and> rm_due_at r \<le> now \<or> rm_status r = RsSnoozed \<and> wake_time r \<le> now) \<longrightarrow>
       woken now r \<in> set xs \<and> rm_status (woken now r) = (if rm_autonomous r then RsDue else RsAwaitingPermission))"
proof -
  obtain m' xs where r: "remind_me memory_reminders (\<lambda>_ t. t) now m = (m', Inr xs)" "reminders_inv m'"
    "\<forall>i. map_of m' i = map_option (woken now) (map_of m i)" "distinct xs" "sorted (map urgency xs)"
    "set xs = {r. \<exists>i. map_of m' i = Some r \<and> rm_status r \<in> {RsDue, RsAwaitingPermission}}"
    using memrem.remind_me_quiet [OF assms, of now] by blast
  have st: "rm_status (woken now q) = (if rm_autonomous q then RsDue else RsAwaitingPermission)"
    if "rm_status q = RsPending \<and> rm_due_at q \<le> now \<or> rm_status q = RsSnoozed \<and> wake_time q \<le> now" for q
    using that by (auto simp: woken_def promote_pending_def promote_snoozed_def promoted_def)
  have "woken now q \<in> set xs" if "map_of m i = Some q"
    "rm_status q = RsPending \<and> rm_due_at q \<le> now \<or> rm_status q = RsSnoozed \<and> wake_time q \<le> now" for i q
    unfolding r(6) using r(3) that(1) st [OF that(2)] by (auto intro!: exI [of _ i])
  with r st show ?thesis by blast
qed

theorem remind_me_complete_witness:
  "\<exists>m' xs. remind_me memory_reminders (\<lambda>_ t. t) 9 sample_reminders = (m', Inr xs) \<and>
     sample_reminder\<lparr>rm_status := RsAwaitingPermission\<rparr> \<in> set xs"
proof -
  have "map_of sample_reminders ''r1'' = Some sample_reminder" "rm_status sample_reminder = RsPending"
    "rm_due_at sample_reminder \<le> 9"
    "woken 9 sample_reminder = sample_reminder\<lparr>rm_status := RsAwaitingPermission\<rparr>" by code_simp+
  with remind_me_complete [OF sample_reminders_inv, of 9] show ?thesis by metis
qed

text \<open>
  C17. The approval gate. However the operations follow each other, a reminder that is not autonomous is
  due or in progress only after an approval that is newer than its last waking, snooze and success; and
  a reminder that was completed or cancelled keeps its status, due time and executions for good. The
  gate guards the start of an execution only: a run without any approval records a successful
  execution and completes such a reminder.
\<close>

theorem approval_gate:
  assumes "\<not> cr_autonomous c"
  shows "(reminder_run date_ok (into_reminder now uuid c) evs r \<longrightarrow>
      rm_status r \<in> {RsDue, RsInProgress} \<longrightarrow> approved_since evs) \<and>
    (status_is_terminal (rm_status r0) \<and> reminder_run date_ok r0 evs r \<longrightarrow>
      rm_status r = rm_status r0 \<and> rm_executions r = rm_executions r0 \<and> rm_due_at r = rm_due_at r0) \<and>
    (cr_schedule c = None \<longrightarrow>
      (\<exists>r'. reminder_run date_ok (into_reminder now uuid c) [EvWake, EvRecord ErSuccess] r' \<and>
         rm_status r' = RsCompleted \<and> list_all (\<lambda>e. ex_approved_by e = None) (rm_executions r')))"
proof (intro conjI impI)
  assume run: "reminder_run date_ok (into_reminder now uuid c) evs r" "rm_status r \<in> {RsDue, RsInProgress}"
  have "\<not> rm_autonomous (into_reminder now uuid c)" "rm_status (into_reminder now uuid c) = RsPending"
    using assms by (simp_all add: into_reminder_def)
  from reminder_run_gate [OF run(1) this] run(2) show "approved_since evs" by blast
next
  assume none: "cr_schedule c = None"
  define r0 where "r0 = into_reminder now uuid c"
  define r1 where "r1 = woken (cr_due_at c) r0"
  define e where "e = (open_execution now uuid)\<lparr>ex_result := ErSuccess\<rparr>"
  define r2 where "r2 = r1\<lparr>rm_executions := [e\<lparr>ex_completed_at := Some now\<rparr>], rm_status := RsCompleted\<rparr>"
  have r1: "rm_status r1 = RsAwaitingPermission" "rm_executions r1 = []" "rm_schedule r1 = None"
    using assms none by (simp_all add: r1_def r0_def into_reminder_def woken_def promote_pending_def promoted_def)
  have "reminder_step date_ok r0 EvWake r1"
    by (rule reminder_step.wake [OF _ r1_def]) (use r1(1) in \<open>auto simp: r0_def into_reminder_def\<close>)
  moreover have "record_change date_ok now uuid e r1 = Inr r2"
    using r1 by (simp add: record_change_def status_is_terminal_def record_in_def e_def r2_def Let_def)
  then have "reminder_step date_ok r1 (EvRecord ErSuccess) r2"
    using reminder_step.recorded [of date_ok now uuid e r1 r2] by (simp add: e_def)
  ultimately have "reminder_run date_ok r0 ([EvWake] @ [EvRecord ErSuccess]) r2"
    using reminder_run.run_step [OF reminder_run.run_step [OF reminder_run.run_start]] by fastforce
  then show "\<exists>r'. reminder_run date_ok (into_reminder now uuid c) [EvWake, EvRecord ErSuccess] r' \<and>
      rm_status r' = RsCompleted \<and> list_all (\<lambda>e. ex_approved_by e = None) (rm_executions r')"
    unfolding r0_def by (intro exI [of _ r2]) (simp add: r2_def e_def open_execution_def)
qed (use reminder_run_terminal in blast)+

theorem approval_gate_witness:
  "\<exists>r'. reminder_run (\<lambda>_. True) sample_reminder [EvWake, EvRecord ErSuccess] r' \<and> rm_status r' = RsCompleted"
proof -
  let ?c = "reminder_with_autonomous (create_reminder_new ''t'' ''i'' 7 ''me'') False"
  have "\<not> cr_autonomous ?c" "cr_schedule ?c = None" by code_simp+
  from approval_gate [OF this(1), of "\<lambda>_. True" 5 "''r1''"] this(2) show ?thesis
    unfolding sample_reminder_def by blast
qed

text \<open>
  C30. The next due time of a schedule. A daily schedule fires at its time of day, after the execution and at
  most a day later. A weekly one fires on its weekday at its time, on the first such day after the day
  of the execution, so less than eight days later. An interval moves the due time by its seconds read as
  a signed number: it lies in the future exactly when the interval is positive and below \<open>2 ^ 63\<close>.
\<close>

theorem next_due_bounds:
  assumes "0 \<le> time" "time < DAY"
    and "\<And>d. date_naive after \<le> d \<Longrightarrow> d \<le> date_naive after + 7 \<Longrightarrow> date_ok d"
  shows "(\<exists>t. next_due date_ok (Daily time) after = Some (Some t) \<and> after < t \<and> t \<le> after + DAY \<and>
       t mod DAY = time) \<and>
    (\<exists>t. next_due date_ok (Weekly day time) after = Some (Some t) \<and> after < t \<and> t < after + 8 * DAY \<and>
       t mod DAY = time \<and> is_weekday (date_naive t) day \<and>
       (\<forall>d. date_naive after < d \<and> d < date_naive t \<longrightarrow> \<not> is_weekday d day)) \<and>
    (next_due date_ok (Interval n) after = Some (Some u) \<longrightarrow>
       u = after + sint n * 1000000000 \<and> (after < u \<longleftrightarrow> 0 < uint n \<and> uint n < 2 ^ 63))"
proof (intro conjI impI)
  let ?d = "date_naive after"
  have bounds: "?d * DAY \<le> after" "after < ?d * DAY + DAY"
    using date_naive_bounds [of after] by (simp_all add: distrib_right)
  have at [simp]: "at_time d time mod DAY = time" "date_naive (at_time d time) = d" for d
    using assms(1,2) by (simp_all add: at_time_def date_naive_def)
  show "\<exists>t. next_due date_ok (Daily time) after = Some (Some t) \<and> after < t \<and> t \<le> after + DAY \<and> t mod DAY = time"
  proof (cases "at_time ?d time > after")
    case True
    then show ?thesis using bounds assms(1,2) by (simp add: at_time_def [of ?d])
  next
    case False
    moreover have "date_ok (?d + 1)" using assms(3) by simp
    ultimately show ?thesis using bounds assms(1,2)
      by (simp add: next_date_def) (simp add: at_time_def distrib_right)
  qed
  obtain j where j: "is_weekday (?d + 1 + int j) day" "j < 7" "\<forall>i < j. \<not> is_weekday (?d + 1 + int i) day"
    using exists_least_iff [of "\<lambda>j. j < 7 \<and> is_weekday (?d + 1 + int j) day"] weekday_within [of "?d + 1" day]
    by (metis (no_types, lifting) order.strict_trans)
  have "weekly_search date_ok 7 (?d + 1) day time = Some (Some (at_time (?d + 1 + int j) time))"
    by (rule weekly_search_finds) (use j assms(3) in auto)
  moreover have "date_ok (?d + 1)" using assms(3) by simp
  ultimately have nd: "next_due date_ok (Weekly day time) after = Some (Some (at_time (?d + 1 + int j) time))"
    by (simp add: next_date_def)
  have "?d * DAY + DAY \<le> at_time (?d + 1 + int j) time" "at_time (?d + 1 + int j) time < ?d * DAY + 8 * DAY"
  proof -
    have "int j * DAY \<le> 6 * DAY" "0 * DAY \<le> int j * DAY"
      by (rule mult_right_mono; use j(2) DAY_pos in linarith)+
    then show "?d * DAY + DAY \<le> at_time (?d + 1 + int j) time" "at_time (?d + 1 + int j) time < ?d * DAY + 8 * DAY"
      using assms(1,2) unfolding at_time_def distrib_right mult_1 by linarith+
  qed
  moreover have "\<not> is_weekday d day" if "?d < d" "d < ?d + 1 + int j" for d
    using j(3) [rule_format, of "nat (d - ?d - 1)"] that by simp
  ultimately show "\<exists>t. next_due date_ok (Weekly day time) after = Some (Some t) \<and> after < t \<and>
      t < after + 8 * DAY \<and> t mod DAY = time \<and> is_weekday (date_naive t) day \<and>
      (\<forall>d. ?d < d \<and> d < date_naive t \<longrightarrow> \<not> is_weekday d day)"
    using nd j(1) bounds by (intro exI [of _ "at_time (?d + 1 + int j) time"]) auto
next
  assume "next_due date_ok (Interval n) after = Some (Some u)"
  then show u: "u = after + sint n * 1000000000"
    by (auto simp: duration_seconds_def add_duration_def split: if_splits option.splits)
  have "0 < sint n \<longleftrightarrow> 0 < uint n \<and> uint n < 2 ^ 63"
    using u64_as_i64 [of n] uint_lt2p [of n] uint_ge_0 [of n] by (auto split: if_splits)
  then show "after < u \<longleftrightarrow> 0 < uint n \<and> uint n < 2 ^ 63" unfolding u by simp
qed

theorem next_due_bounds_witness:
  "next_due (\<lambda>_. True) (Weekly Mon 0) 5 = Some (Some (4 * DAY)) \<and>
   (\<exists>t. next_due (\<lambda>_. True) (Daily 7) 5 = Some (Some t) \<and> 5 < t \<and> t \<le> 5 + DAY \<and> t mod DAY = 7) \<and>
   \<not> (5 < (5 :: timestamp) + sint (- 1 :: u64) * 1000000000)"
proof -
  have "next_due (\<lambda>_. True) (Interval (- 1)) 5 = Some (Some (5 + sint (- 1 :: u64) * 1000000000))"
    by (simp add: duration_seconds_def add_duration_def)
  with next_due_bounds [of 7 5 "\<lambda>_. True" Mon "- 1" "5 + sint (- 1 :: u64) * 1000000000"]
  have "\<exists>t. next_due (\<lambda>_. True) (Daily 7) 5 = Some (Some t) \<and> 5 < t \<and> t \<le> 5 + DAY \<and> t mod DAY = 7"
    by (simp add: DAY_def)
  moreover have "next_due (\<lambda>_. True) (Weekly Mon 0) 5 = Some (Some (4 * DAY))"
    by (simp add: next_date_def date_naive_def DAY_def is_weekday_def numeral_eq_Suc at_time_def)
  ultimately show ?thesis by simp
qed

end
