(* ===== verification/Rust_Text.thy ===== *)
theory Rust_Text
  imports Asg_Prelude
begin

text \<open>
  Further string operations of Rust's standard library, used by the components above the core:
  \<open>[S]::join\<close>, \<open>str::ends_with\<close> and \<open>str::strip_suffix\<close>.
\<close>

fun join_with :: "'a list \<Rightarrow> 'a list list \<Rightarrow> 'a list" where
  "join_with sep [] = []"
| "join_with sep [x] = x"
| "join_with sep (x # y # xs) = x @ sep @ join_with sep (y # xs)"

definition is_suffix :: "'a list \<Rightarrow> 'a list \<Rightarrow> bool" where
  "is_suffix p s = is_prefix (rev p) (rev s)"

definition strip_suffix :: "'a list \<Rightarrow> 'a list \<Rightarrow> 'a list option" where
  "strip_suffix p s = (if is_suffix p s then Some (take (length s - length p) s) else None)"

lemma is_suffix_split: "is_suffix p s \<longleftrightarrow> (\<exists>t. s = t @ p)"
  unfolding is_suffix_def is_prefix_iff by (metis rev_append rev_rev_ident)

lemma strip_suffix_append [simp]: "strip_suffix p (s @ p) = Some s"
  by (auto simp: strip_suffix_def is_suffix_split)

text \<open>Splitting on a character the pieces do not contain undoes joining with it.\<close>

lemma split_join: "xs \<noteq> [] \<Longrightarrow> \<forall>x \<in> set xs. c \<notin> set x \<Longrightarrow> split_on c (join_with [c] xs) = xs"
  by (induction "[c]" xs rule: join_with.induct) (auto simp: split_on_single split_on_append)

end
