(* ===== verification/Task_Model.thy ===== *)
theory Task_Model
  imports Json_Value Rust_Text
begin

text \<open>
  Plans and tasks as data, from \<open>crates/agentstategraph-tasks/src/\<close>: the types and their JSON form
  (\<open>types.rs\<close>), the errors (\<open>error.rs\<close>), the state machine (\<open>state.rs\<close>), the paths
  (\<open>paths.rs\<close>) and the reports of a verifier (\<open>verifier.rs\<close>).

  The JSON form is the one \<open>serde\<close>'s derived code gives: a struct is an object, an absent or null field
  is \<open>None\<close>, the fields marked \<open>skip_serializing_if\<close> are left out when they are \<open>None\<close>. The
  record \<open>Codec\<close> holds what other crates decide: the text of a timestamp, and what the derived code
  makes of an array where it expects an object. An error of the serialiser carries no text here, and
  \<open>Repo\<close> carries the repository's error instead of its rendering.
\<close>

section \<open>Types\<close>

datatype PlanStatus = PsActive | PsCompleted | PsArchived

datatype TaskStatus = TsPending | TsInProgress | TsDone | TsAbandoned

fun is_terminal :: "TaskStatus \<Rightarrow> bool" where
  "is_terminal TsDone = True"
| "is_terminal TsAbandoned = True"
| "is_terminal _ = False"

datatype Priority = PrLow | PrMedium | PrHigh | PrCritical

fun priority_rank :: "Priority \<Rightarrow> nat" where
  "priority_rank PrLow = 0"
| "priority_rank PrMedium = 1"
| "priority_rank PrHigh = 2"
| "priority_rank PrCritical = 3"

lemma priority_rank_inj: "priority_rank x = priority_rank y \<Longrightarrow> x = y"
  by (cases x) (cases y; simp)+

instantiation Priority :: linorder
begin

definition less_eq_Priority :: "Priority \<Rightarrow> Priority \<Rightarrow> bool" where
  "less_eq_Priority a b = (priority_rank a \<le> priority_rank b)"

definition less_Priority :: "Priority \<Rightarrow> Priority \<Rightarrow> bool" where
  "less_Priority a b = (priority_rank a < priority_rank b)"

instance
proof
  fix x y :: Priority
  show "x \<le> y \<Longrightarrow> y \<le> x \<Longrightarrow> x = y" by (rule priority_rank_inj) (simp add: less_eq_Priority_def)
qed (auto simp: less_eq_Priority_def less_Priority_def)

end

datatype TaskId = TaskId (task_id_str: string)

instantiation TaskId :: linorder
begin

definition less_eq_TaskId :: "TaskId \<Rightarrow> TaskId \<Rightarrow> bool" where
  "less_eq_TaskId a b = (task_id_str a \<le> task_id_str b)"

definition less_TaskId :: "TaskId \<Rightarrow> TaskId \<Rightarrow> bool" where
  "less_TaskId a b = (task_id_str a < task_id_str b)"

instance
  by standard (auto simp: less_eq_TaskId_def less_TaskId_def TaskId.expand)

end

datatype ProofKind = PkCommit | PkFile | PkTest | PkText

record Proof =
  pf_kind :: ProofKind
  pf_value :: string
  pf_note :: "string option"

definition proof_of :: "ProofKind \<Rightarrow> string \<Rightarrow> Proof" where
  "proof_of k v = \<lparr>pf_kind = k, pf_value = v, pf_note = None\<rparr>"

definition proof_with_note :: "Proof \<Rightarrow> string \<Rightarrow> Proof" where
  "proof_with_note p note = p\<lparr>pf_note := Some note\<rparr>"

datatype OnCompleteHook = PromoteChange | Named string

record Plan =
  pl_name :: string
  pl_description :: "string option"
  pl_status :: PlanStatus
  pl_created_at :: timestamp
  pl_created_by :: string
  pl_archived_at :: "timestamp option"
  pl_summary :: "string option"
  pl_closed_at :: "timestamp option"
  pl_closed_by :: "string option"

record Task =
  tk_id :: TaskId
  tk_title :: string
  tk_notes :: "string option"
  tk_status :: TaskStatus
  tk_priority :: Priority
  tk_parent_id :: "TaskId option"
  tk_blocked_by :: "TaskId list"
  tk_created_at :: timestamp
  tk_created_by :: string
  tk_started_at :: "timestamp option"
  tk_started_by :: "string option"
  tk_completed_at :: "timestamp option"
  tk_completed_by :: "string option"
  tk_proof :: "Proof option"
  tk_abandoned_at :: "timestamp option"
  tk_abandoned_reason :: "string option"
  tk_assigned_to :: "string option"
  tk_payload :: "json option"
  tk_parent_change :: "string option"
  tk_on_complete :: "OnCompleteHook option"

definition MAX_NOTES_BYTES :: nat where "MAX_NOTES_BYTES = 16 * 1024"

datatype 'r TaskStoreError =
    PlanNotFound string
  | SummaryRequired
  | CannotClose string string
  | PlanAlreadyExists string
  | TaskNotFound string TaskId
  | InvalidTransition TaskStatus TaskStatus
  | TsBlocked "TaskId list"
  | BlockerNotFound "TaskId list"
  | ProofRequired
  | ParentNotFound TaskId
  | ParentIsSubtask TaskId
  | ReasonRequired
  | TitleRequired
  | NotesTooLong nat nat
  | BlockerCycle "TaskId list"
  | InvalidTaskId string
  | InvalidBlockerId string
  | TsWriteConflict
  | TsRepo 'r
  | TsSerde

section \<open>Task ids\<close>

definition pad3 :: "string \<Rightarrow> string" where
  "pad3 s = replicate (3 - length s) (CHR ''0'') @ s"

definition task_id_new :: "nat \<Rightarrow> TaskId" where
  "task_id_new n = TaskId (''t-'' @ pad3 (show_nat n))"

definition parse_u32 :: "string \<Rightarrow> nat option" where
  "parse_u32 s = (case parse_usize s of Some n \<Rightarrow> if n < 2 ^ 32 then Some n else None | None \<Rightarrow> None)"

definition task_number :: "TaskId \<Rightarrow> 'r TaskStoreError + nat" where
  "task_number i =
     ok_or (InvalidTaskId (task_id_str i)) (Option.bind (strip_prefix ''t-'' (task_id_str i)) parse_u32)"

section \<open>The state machine\<close>

datatype Transition = TrStart | TrComplete | TrAbandon

fun transition_target :: "Transition \<Rightarrow> TaskStatus" where
  "transition_target TrStart = TsInProgress"
| "transition_target TrComplete = TsDone"
| "transition_target TrAbandon = TsAbandoned"

definition check_transition :: "TaskStatus \<Rightarrow> Transition \<Rightarrow> 'r TaskStoreError + unit" where
  "check_transition cur t =
     (if (cur, t) \<in> {(TsPending, TrStart), (TsInProgress, TrComplete), (TsPending, TrAbandon), (TsInProgress, TrAbandon)}
      then Inr () else Inl (InvalidTransition cur (transition_target t)))"

section \<open>Paths\<close>

definition plan_root :: "string \<Rightarrow> string \<Rightarrow> string" where
  "plan_root prefix plan = prefix @ ''/'' @ plan"

definition plan_meta :: "string \<Rightarrow> string \<Rightarrow> string" where
  "plan_meta prefix plan = prefix @ ''/'' @ plan @ ''/_meta''"

definition task_path :: "string \<Rightarrow> string \<Rightarrow> TaskId \<Rightarrow> string" where
  "task_path prefix plan i = prefix @ ''/'' @ plan @ ''/'' @ task_id_str i"

definition META_KEY :: string where "META_KEY = ''_meta''"

section \<open>Reports of a verifier\<close>

datatype VerifyResult = Verified string | Decayed string | Unverifiable string

definition noop_verify :: "Proof \<Rightarrow> VerifyResult" where
  "noop_verify p = Unverifiable ''no verifier configured''"

record VerifyEntry =
  ve_task_id :: TaskId
  ve_result :: VerifyResult

record VerifyReport =
  vp_plan :: string
  vp_results :: "VerifyEntry list"

fun is_verified :: "VerifyResult \<Rightarrow> bool" where
  "is_verified (Verified _) = True"
| "is_verified _ = False"

fun is_decayed :: "VerifyResult \<Rightarrow> bool" where
  "is_decayed (Decayed _) = True"
| "is_decayed _ = False"

fun is_unverifiable :: "VerifyResult \<Rightarrow> bool" where
  "is_unverifiable (Unverifiable _) = True"
| "is_unverifiable _ = False"

definition verified_count :: "VerifyReport \<Rightarrow> nat" where
  "verified_count r = length (filter (\<lambda>e. is_verified (ve_result e)) (vp_results r))"

definition decayed_count :: "VerifyReport \<Rightarrow> nat" where
  "decayed_count r = length (filter (\<lambda>e. is_decayed (ve_result e)) (vp_results r))"

definition unverifiable_count :: "VerifyReport \<Rightarrow> nat" where
  "unverifiable_count r = length (filter (\<lambda>e. is_unverifiable (ve_result e)) (vp_results r))"

definition all_strongly_verified :: "VerifyReport \<Rightarrow> bool" where
  "all_strongly_verified r \<longleftrightarrow> vp_results r \<noteq> [] \<and> list_all (\<lambda>e. is_verified (ve_result e)) (vp_results r)"

definition has_unverifiable :: "VerifyReport \<Rightarrow> bool" where
  "has_unverifiable r \<longleftrightarrow> list_ex (\<lambda>e. is_unverifiable (ve_result e)) (vp_results r)"

definition report_summary :: "VerifyReport \<Rightarrow> string" where
  "report_summary r =
     show_nat (verified_count r) @ '' verified (mechanically checked); '' @
     show_nat (decayed_count r) @ '' decayed (proof no longer holds); '' @
     show_nat (unverifiable_count r) @ '' unverifiable (text proof '' @ [CHR 0xE2, CHR 0x80, CHR 0x94] @
     '' human attestation, not mechanically checked; do NOT treat as success).''"

end
