(* ===== verification/Serde.thy ===== *)
theory Serde
  imports Json_Value
begin

text \<open>
  What the code derived by \<open>serde\<close> does with the documents of \<open>serde_json\<close>, as far as the stores of plans,
  tasks and policies use it: a struct is an object, an absent or null optional field is \<^const>\<open>None\<close>, a
  field marked \<open>skip_serializing_if\<close> is left out, a unit variant is its name. Other fields of an object are
  ignored. A decoder answers \<^const>\<open>None\<close> where the derived code reports an error.
\<close>

section \<open>Fields\<close>

text \<open>A struct is an object; a field that is skipped is \<^const>\<open>None\<close>.\<close>

definition obj_of :: "(string \<times> json option) list \<Rightarrow> json" where
  "obj_of fs = JObject (bt_from_list (List.map_filter (\<lambda>(k, v). map_option (Pair k) v) fs) [])"

definition opt_json :: "('a \<Rightarrow> json) \<Rightarrow> 'a option \<Rightarrow> json" where
  "opt_json enc x = (case x of Some v \<Rightarrow> enc v | None \<Rightarrow> JNull)"

definition req_field :: "(json \<Rightarrow> 'a option) \<Rightarrow> json \<Rightarrow> string \<Rightarrow> 'a option" where
  "req_field dec j k = Option.bind (json_get j k) dec"

definition opt_field :: "(json \<Rightarrow> 'a option) \<Rightarrow> json \<Rightarrow> string \<Rightarrow> 'a option option" where
  "opt_field dec j k =
     (case json_get j k of None \<Rightarrow> Some None | Some JNull \<Rightarrow> Some None | Some v \<Rightarrow> map_option Some (dec v))"

text \<open>A unit variant is its name, or an object whose only entry is the name with null.\<close>

fun variant_name :: "json \<Rightarrow> string option" where
  "variant_name (JString s) = Some s"
| "variant_name (JObject [(k, JNull)]) = Some k"
| "variant_name _ = None"

definition decode_variant :: "(string \<times> 'a) list \<Rightarrow> json \<Rightarrow> 'a option" where
  "decode_variant table j = Option.bind (variant_name j) (map_of table)"

fun decode_all :: "('a \<Rightarrow> 'b option) \<Rightarrow> 'a list \<Rightarrow> 'b list option" where
  "decode_all dec [] = Some []"
| "decode_all dec (x # xs) =
     (case dec x of None \<Rightarrow> None | Some y \<Rightarrow> map_option (Cons y) (decode_all dec xs))"

definition decode_list :: "(json \<Rightarrow> 'a option) \<Rightarrow> json \<Rightarrow> 'a list option" where
  "decode_list dec j = Option.bind (json_as_array j) (decode_all dec)"

section \<open>What is written is read back\<close>

lemma map_of_some_fields:
  "distinct (map fst fs) \<Longrightarrow>
   map_of (List.map_filter (\<lambda>(k, v). map_option (Pair k) v) fs) k = Option.bind (map_of fs k) (\<lambda>v. v)"
proof (induction fs)
  case (Cons e fs)
  obtain l v where e: "e = (l, v)" by force
  with Cons.prems have "l \<notin> fst ` set fs" by auto
  then have "map_of fs l = None" by (simp add: map_of_eq_None_iff)
  with Cons e show ?case by (cases v) (auto simp: List.map_filter_simps)
qed (simp add: List.map_filter_simps)

lemma distinct_some_fields:
  "distinct (map fst fs) \<Longrightarrow> distinct (map fst (List.map_filter (\<lambda>(k, v). map_option (Pair k) v) fs))"
proof (induction fs)
  case (Cons e fs)
  have "fst ` set (List.map_filter (\<lambda>(k, v). map_option (Pair k) v) fs) \<subseteq> fst ` set fs"
    by (force simp: map_filter_def)
  with Cons show ?case by (cases e; cases "snd e") (auto simp: List.map_filter_simps)
qed (simp add: List.map_filter_simps)

lemma json_get_obj_of:
  assumes "distinct (map fst fs)"
  shows "json_get (obj_of fs) k = Option.bind (map_of fs k) (\<lambda>v. v)"
proof -
  let ?xs = "List.map_filter (\<lambda>(k, v). map_option (Pair k) v) fs"
  have "distinct (map fst (rev ?xs))" using distinct_some_fields [OF assms] by (simp add: rev_map [symmetric])
  then have "map_of (rev ?xs) = map_of ?xs"
    using distinct_some_fields [OF assms] by (subst map_of_inject_set) simp_all
  then show ?thesis using map_of_some_fields [OF assms, of k] by (simp add: obj_of_def map_of_bt_from_list)
qed

lemma obj_of_JObject: "\<exists>m. obj_of fs = JObject m"
  by (simp add: obj_of_def)

lemma opt_field_json:
  "json_get j k = Some (opt_json enc x) \<Longrightarrow> (\<And>v. x = Some v \<Longrightarrow> enc v \<noteq> JNull \<and> dec (enc v) = Some v) \<Longrightarrow>
   opt_field dec j k = Some x"
  by (cases x) (auto simp: opt_field_def opt_json_def split: json.splits)

lemma opt_field_skip:
  "json_get j k = map_option enc x \<Longrightarrow> (\<And>v. x = Some v \<Longrightarrow> enc v \<noteq> JNull \<and> dec (enc v) = Some v) \<Longrightarrow>
   opt_field dec j k = Some x"
  by (cases x) (auto simp: opt_field_def split: json.splits)

end
