(* ===== verification/Task_Json.thy ===== *)
theory Task_Json
  imports Task_Model Serde
begin

text \<open>
  The JSON form of plans and tasks: what \<open>serde_json::to_value\<close> and \<open>serde_json::from_value\<close> do with
  the derived implementations of \<open>types.rs\<close>. An encoder is written out field by field in the order of
  the struct; a decoder answers \<^const>\<open>None\<close> where the derived code reports an error.
\<close>

record Codec =
  cd_time :: "timestamp \<Rightarrow> string"
  cd_parse_time :: "string \<Rightarrow> timestamp option"
  cd_task_seq :: "json list \<Rightarrow> Task option"
  cd_plan_seq :: "json list \<Rightarrow> Plan option"
  cd_proof_seq :: "json list \<Rightarrow> Proof option"
  cd_hook_seq :: "json list \<Rightarrow> OnCompleteHook option"

section \<open>Enums and small types\<close>

fun task_status_name :: "TaskStatus \<Rightarrow> string" where
  "task_status_name TsPending = ''pending''"
| "task_status_name TsInProgress = ''in_progress''"
| "task_status_name TsDone = ''done''"
| "task_status_name TsAbandoned = ''abandoned''"

definition decode_task_status :: "json \<Rightarrow> TaskStatus option" where
  "decode_task_status = decode_variant (map (\<lambda>x. (task_status_name x, x)) [TsPending, TsInProgress, TsDone, TsAbandoned])"

fun plan_status_name :: "PlanStatus \<Rightarrow> string" where
  "plan_status_name PsActive = ''active''"
| "plan_status_name PsCompleted = ''completed''"
| "plan_status_name PsArchived = ''archived''"

definition decode_plan_status :: "json \<Rightarrow> PlanStatus option" where
  "decode_plan_status = decode_variant (map (\<lambda>x. (plan_status_name x, x)) [PsActive, PsCompleted, PsArchived])"

fun priority_name :: "Priority \<Rightarrow> string" where
  "priority_name PrLow = ''low''"
| "priority_name PrMedium = ''medium''"
| "priority_name PrHigh = ''high''"
| "priority_name PrCritical = ''critical''"

definition decode_priority :: "json \<Rightarrow> Priority option" where
  "decode_priority = decode_variant (map (\<lambda>x. (priority_name x, x)) [PrLow, PrMedium, PrHigh, PrCritical])"

fun proof_kind_name :: "ProofKind \<Rightarrow> string" where
  "proof_kind_name PkCommit = ''commit''"
| "proof_kind_name PkFile = ''file''"
| "proof_kind_name PkTest = ''test''"
| "proof_kind_name PkText = ''text''"

definition decode_proof_kind :: "json \<Rightarrow> ProofKind option" where
  "decode_proof_kind = decode_variant (map (\<lambda>x. (proof_kind_name x, x)) [PkCommit, PkFile, PkTest, PkText])"

definition encode_proof :: "Proof \<Rightarrow> json" where
  "encode_proof p =
     obj_of [(''kind'', Some (JString (proof_kind_name (pf_kind p)))), (''value'', Some (JString (pf_value p))),
       (''note'', Some (opt_json JString (pf_note p)))]"

definition decode_proof :: "Codec \<Rightarrow> json \<Rightarrow> Proof option" where
  "decode_proof C j =
     (case j of
        JArray xs \<Rightarrow> cd_proof_seq C xs
      | JObject _ \<Rightarrow>
          Option.bind (req_field decode_proof_kind j ''kind'') (\<lambda>k.
          Option.bind (req_field json_as_str j ''value'') (\<lambda>v.
          Option.bind (opt_field json_as_str j ''note'') (\<lambda>n.
          Some \<lparr>pf_kind = k, pf_value = v, pf_note = n\<rparr>)))
      | _ \<Rightarrow> None)"

fun encode_hook :: "OnCompleteHook \<Rightarrow> json" where
  "encode_hook PromoteChange = obj_of [(''kind'', Some (JString ''promote_change''))]"
| "encode_hook (Named n) = obj_of [(''kind'', Some (JString ''named'')), (''name'', Some (JString n))]"

definition decode_hook :: "Codec \<Rightarrow> json \<Rightarrow> OnCompleteHook option" where
  "decode_hook C j =
     (case j of
        JArray xs \<Rightarrow> cd_hook_seq C xs
      | JObject _ \<Rightarrow>
          Option.bind (req_field json_as_str j ''kind'') (\<lambda>k.
            if k = ''promote_change'' then Some PromoteChange
            else if k = ''named'' then map_option Named (req_field json_as_str j ''name'')
            else None)
      | _ \<Rightarrow> None)"

definition encode_task_id :: "TaskId \<Rightarrow> json" where
  "encode_task_id i = JString (task_id_str i)"

definition decode_task_id :: "json \<Rightarrow> TaskId option" where
  "decode_task_id j = map_option TaskId (json_as_str j)"

definition encode_time :: "Codec \<Rightarrow> timestamp \<Rightarrow> json" where
  "encode_time C t = JString (cd_time C t)"

definition decode_time :: "Codec \<Rightarrow> json \<Rightarrow> timestamp option" where
  "decode_time C j = Option.bind (json_as_str j) (cd_parse_time C)"

section \<open>Plans and tasks\<close>

definition plan_fields :: "Codec \<Rightarrow> Plan \<Rightarrow> (string \<times> json option) list" where
  "plan_fields C p =
     [(''name'', Some (JString (pl_name p))),
      (''description'', Some (opt_json JString (pl_description p))),
      (''status'', Some (JString (plan_status_name (pl_status p)))),
      (''created_at'', Some (encode_time C (pl_created_at p))),
      (''created_by'', Some (JString (pl_created_by p))),
      (''archived_at'', Some (opt_json (encode_time C) (pl_archived_at p))),
      (''summary'', map_option JString (pl_summary p)),
      (''closed_at'', map_option (encode_time C) (pl_closed_at p)),
      (''closed_by'', map_option JString (pl_closed_by p))]"

definition encode_plan :: "Codec \<Rightarrow> Plan \<Rightarrow> json" where
  "encode_plan C p = obj_of (plan_fields C p)"

definition decode_plan :: "Codec \<Rightarrow> json \<Rightarrow> Plan option" where
  "decode_plan C j =
     (case j of
        JArray xs \<Rightarrow> cd_plan_seq C xs
      | JObject _ \<Rightarrow>
          Option.bind (req_field json_as_str j ''name'') (\<lambda>name.
          Option.bind (opt_field json_as_str j ''description'') (\<lambda>description.
          Option.bind (req_field decode_plan_status j ''status'') (\<lambda>status.
          Option.bind (req_field (decode_time C) j ''created_at'') (\<lambda>created_at.
          Option.bind (req_field json_as_str j ''created_by'') (\<lambda>created_by.
          Option.bind (opt_field (decode_time C) j ''archived_at'') (\<lambda>archived_at.
          Option.bind (opt_field json_as_str j ''summary'') (\<lambda>summary.
          Option.bind (opt_field (decode_time C) j ''closed_at'') (\<lambda>closed_at.
          Option.bind (opt_field json_as_str j ''closed_by'') (\<lambda>closed_by.
          Some \<lparr>pl_name = name, pl_description = description, pl_status = status, pl_created_at = created_at,
            pl_created_by = created_by, pl_archived_at = archived_at, pl_summary = summary,
            pl_closed_at = closed_at, pl_closed_by = closed_by\<rparr>)))))))))
      | _ \<Rightarrow> None)"

definition task_fields :: "Codec \<Rightarrow> Task \<Rightarrow> (string \<times> json option) list" where
  "task_fields C t =
     [(''id'', Some (encode_task_id (tk_id t))),
      (''title'', Some (JString (tk_title t))),
      (''notes'', map_option JString (tk_notes t)),
      (''status'', Some (JString (task_status_name (tk_status t)))),
      (''priority'', Some (JString (priority_name (tk_priority t)))),
      (''parent_id'', Some (opt_json encode_task_id (tk_parent_id t))),
      (''blocked_by'', Some (JArray (map encode_task_id (tk_blocked_by t)))),
      (''created_at'', Some (encode_time C (tk_created_at t))),
      (''created_by'', Some (JString (tk_created_by t))),
      (''started_at'', Some (opt_json (encode_time C) (tk_started_at t))),
      (''started_by'', Some (opt_json JString (tk_started_by t))),
      (''completed_at'', Some (opt_json (encode_time C) (tk_completed_at t))),
      (''completed_by'', Some (opt_json JString (tk_completed_by t))),
      (''proof'', Some (opt_json encode_proof (tk_proof t))),
      (''abandoned_at'', Some (opt_json (encode_time C) (tk_abandoned_at t))),
      (''abandoned_reason'', Some (opt_json JString (tk_abandoned_reason t))),
      (''assigned_to'', map_option JString (tk_assigned_to t)),
      (''payload'', tk_payload t),
      (''parent_change'', map_option JString (tk_parent_change t)),
      (''on_complete'', map_option encode_hook (tk_on_complete t))]"

definition encode_task :: "Codec \<Rightarrow> Task \<Rightarrow> json" where
  "encode_task C t = obj_of (task_fields C t)"

definition decode_task :: "Codec \<Rightarrow> json \<Rightarrow> Task option" where
  "decode_task C j =
     (case j of
        JArray xs \<Rightarrow> cd_task_seq C xs
      | JObject _ \<Rightarrow>
          Option.bind (req_field decode_task_id j ''id'') (\<lambda>i.
          Option.bind (req_field json_as_str j ''title'') (\<lambda>title.
          Option.bind (opt_field json_as_str j ''notes'') (\<lambda>notes.
          Option.bind (req_field decode_task_status j ''status'') (\<lambda>status.
          Option.bind (req_field decode_priority j ''priority'') (\<lambda>priority.
          Option.bind (opt_field decode_task_id j ''parent_id'') (\<lambda>parent_id.
          Option.bind (case json_get j ''blocked_by'' of None \<Rightarrow> Some [] | Some v \<Rightarrow> decode_list decode_task_id v) (\<lambda>blocked_by.
          Option.bind (req_field (decode_time C) j ''created_at'') (\<lambda>created_at.
          Option.bind (req_field json_as_str j ''created_by'') (\<lambda>created_by.
          Option.bind (opt_field (decode_time C) j ''started_at'') (\<lambda>started_at.
          Option.bind (opt_field json_as_str j ''started_by'') (\<lambda>started_by.
          Option.bind (opt_field (decode_time C) j ''completed_at'') (\<lambda>completed_at.
          Option.bind (opt_field json_as_str j ''completed_by'') (\<lambda>completed_by.
          Option.bind (opt_field (decode_proof C) j ''proof'') (\<lambda>proof.
          Option.bind (opt_field (decode_time C) j ''abandoned_at'') (\<lambda>abandoned_at.
          Option.bind (opt_field json_as_str j ''abandoned_reason'') (\<lambda>abandoned_reason.
          Option.bind (opt_field json_as_str j ''assigned_to'') (\<lambda>assigned_to.
          Option.bind (opt_field Some j ''payload'') (\<lambda>payload.
          Option.bind (opt_field json_as_str j ''parent_change'') (\<lambda>parent_change.
          Option.bind (opt_field (decode_hook C) j ''on_complete'') (\<lambda>on_complete.
          Some \<lparr>tk_id = i, tk_title = title, tk_notes = notes, tk_status = status, tk_priority = priority,
            tk_parent_id = parent_id, tk_blocked_by = blocked_by, tk_created_at = created_at, tk_created_by = created_by,
            tk_started_at = started_at, tk_started_by = started_by, tk_completed_at = completed_at,
            tk_completed_by = completed_by, tk_proof = proof, tk_abandoned_at = abandoned_at,
            tk_abandoned_reason = abandoned_reason, tk_assigned_to = assigned_to, tk_payload = payload,
            tk_parent_change = parent_change, tk_on_complete = on_complete\<rparr>))))))))))))))))))))
      | _ \<Rightarrow> None)"

section \<open>What is written is read back\<close>

lemma decode_names [simp]:
  "decode_task_status (JString (task_status_name st)) = Some st"
  "decode_plan_status (JString (plan_status_name ps)) = Some ps"
  "decode_priority (JString (priority_name pr)) = Some pr"
  "decode_proof_kind (JString (proof_kind_name pk)) = Some pk"
  by (cases st; cases ps; cases pr; cases pk;
      simp add: decode_task_status_def decode_plan_status_def decode_priority_def decode_proof_kind_def decode_variant_def)+

lemma decode_blockers [simp]: "decode_list decode_task_id (JArray (map encode_task_id xs)) = Some xs"
  by (induction xs) (auto simp: decode_list_def decode_task_id_def encode_task_id_def)

text \<open>The text of a timestamp is read back; the payload of a task read from an array is one of its
  elements.\<close>

definition codec_laws :: "Codec \<Rightarrow> bool" where
  "codec_laws C \<longleftrightarrow> (\<forall>t. cd_parse_time C (cd_time C t) = Some t) \<and>
     (\<forall>xs t w. cd_task_seq C xs = Some t \<and> tk_payload t = Some w \<longrightarrow> w \<in> set xs)"

lemma decode_simple:
  "decode_task_id (encode_task_id i) = Some i" "encode_task_id i \<noteq> JNull" "encode_time C t \<noteq> JNull"
  "codec_laws C \<Longrightarrow> decode_time C (encode_time C t) = Some t"
  by (auto simp: decode_task_id_def encode_task_id_def encode_time_def decode_time_def codec_laws_def)

lemma decode_proof_encode: "decode_proof C (encode_proof p) = Some p" "encode_proof p \<noteq> JNull"
proof -
  obtain m where m: "encode_proof p = JObject m" using obj_of_JObject encode_proof_def by metis
  have get: "json_get (JObject m) k =
      Option.bind (map_of [(''kind'', Some (JString (proof_kind_name (pf_kind p)))), (''value'', Some (JString (pf_value p))),
       (''note'', Some (opt_json JString (pf_note p)))] k) (\<lambda>v. v)" for k
    unfolding m [symmetric] encode_proof_def by (rule json_get_obj_of) simp
  have "opt_field json_as_str (JObject m) ''note'' = Some (pf_note p)"
    by (rule opt_field_json [where enc = JString]) (simp_all only: get, simp_all)
  then show "decode_proof C (encode_proof p) = Some p"
    unfolding m decode_proof_def by (simp add: req_field_def get del: json_get.simps)
  show "encode_proof p \<noteq> JNull" by (simp add: m)
qed

lemma decode_hook_encode: "decode_hook C (encode_hook h) = Some h" "encode_hook h \<noteq> JNull"
  by (cases h; simp add: obj_of_def map_filter_simps decode_hook_def req_field_def)+

lemma plan_json_roundtrip:
  assumes "codec_laws C"
  shows "decode_plan C (encode_plan C p) = Some p"
proof -
  obtain m where m: "encode_plan C p = JObject m" using obj_of_JObject encode_plan_def by metis
  have get: "json_get (JObject m) k = Option.bind (map_of (plan_fields C p) k) (\<lambda>v. v)" for k
    unfolding m [symmetric] encode_plan_def by (rule json_get_obj_of) (simp add: plan_fields_def)
  note get = get [unfolded plan_fields_def]
  have
    "opt_field json_as_str (JObject m) ''description'' = Some (pl_description p)"
    "opt_field (decode_time C) (JObject m) ''archived_at'' = Some (pl_archived_at p)"
    by (rule opt_field_json, simp only: get, simp, simp add: decode_simple assms)+
  moreover have
    "opt_field json_as_str (JObject m) ''summary'' = Some (pl_summary p)"
    "opt_field (decode_time C) (JObject m) ''closed_at'' = Some (pl_closed_at p)"
    "opt_field json_as_str (JObject m) ''closed_by'' = Some (pl_closed_by p)"
    by (rule opt_field_skip, simp only: get, simp, simp add: decode_simple assms)+
  ultimately show ?thesis
    unfolding m decode_plan_def
    by (simp add: req_field_def get decode_simple assms del: json_get.simps)
qed

lemma task_json_fields:
  assumes "codec_laws C" and "tk_payload t \<noteq> Some JNull" and m: "encode_task C t = JObject m"
  shows
    "opt_field json_as_str (JObject m) ''notes'' = Some (tk_notes t)"
    "opt_field decode_task_id (JObject m) ''parent_id'' = Some (tk_parent_id t)"
    "opt_field (decode_time C) (JObject m) ''started_at'' = Some (tk_started_at t)"
    "opt_field json_as_str (JObject m) ''started_by'' = Some (tk_started_by t)"
    "opt_field (decode_time C) (JObject m) ''completed_at'' = Some (tk_completed_at t)"
    "opt_field json_as_str (JObject m) ''completed_by'' = Some (tk_completed_by t)"
    "opt_field (decode_proof C) (JObject m) ''proof'' = Some (tk_proof t)"
    "opt_field (decode_time C) (JObject m) ''abandoned_at'' = Some (tk_abandoned_at t)"
    "opt_field json_as_str (JObject m) ''abandoned_reason'' = Some (tk_abandoned_reason t)"
    "opt_field json_as_str (JObject m) ''assigned_to'' = Some (tk_assigned_to t)"
    "opt_field Some (JObject m) ''payload'' = Some (tk_payload t)"
    "opt_field json_as_str (JObject m) ''parent_change'' = Some (tk_parent_change t)"
    "opt_field (decode_hook C) (JObject m) ''on_complete'' = Some (tk_on_complete t)"
proof -
  have get: "json_get (JObject m) k = Option.bind (map_of (task_fields C t) k) (\<lambda>v. v)" for k
    unfolding m [symmetric] encode_task_def by (rule json_get_obj_of) (simp add: task_fields_def)
  note get = get [unfolded task_fields_def]
  note simple = decode_simple assms(1) decode_proof_encode decode_hook_encode
  show
    "opt_field decode_task_id (JObject m) ''parent_id'' = Some (tk_parent_id t)"
    "opt_field (decode_time C) (JObject m) ''started_at'' = Some (tk_started_at t)"
    "opt_field json_as_str (JObject m) ''started_by'' = Some (tk_started_by t)"
    "opt_field (decode_time C) (JObject m) ''completed_at'' = Some (tk_completed_at t)"
    "opt_field json_as_str (JObject m) ''completed_by'' = Some (tk_completed_by t)"
    "opt_field (decode_proof C) (JObject m) ''proof'' = Some (tk_proof t)"
    "opt_field (decode_time C) (JObject m) ''abandoned_at'' = Some (tk_abandoned_at t)"
    "opt_field json_as_str (JObject m) ''abandoned_reason'' = Some (tk_abandoned_reason t)"
    by (rule opt_field_json, simp only: get, simp, simp add: simple)+
  show
    "opt_field json_as_str (JObject m) ''notes'' = Some (tk_notes t)"
    "opt_field json_as_str (JObject m) ''assigned_to'' = Some (tk_assigned_to t)"
    "opt_field json_as_str (JObject m) ''parent_change'' = Some (tk_parent_change t)"
    "opt_field (decode_hook C) (JObject m) ''on_complete'' = Some (tk_on_complete t)"
    by (rule opt_field_skip, simp only: get, simp, simp add: simple)+
  show "opt_field Some (JObject m) ''payload'' = Some (tk_payload t)"
    by (rule opt_field_skip [where enc = "\<lambda>v. v"], simp only: get, simp add: option.map_ident)
      (use assms(2) in auto)
qed

lemma task_json_roundtrip:
  assumes "codec_laws C" and "tk_payload t \<noteq> Some JNull"
  shows "decode_task C (encode_task C t) = Some t"
proof -
  obtain m where m: "encode_task C t = JObject m" using obj_of_JObject encode_task_def by metis
  have get: "json_get (JObject m) k = Option.bind (map_of (task_fields C t) k) (\<lambda>v. v)" for k
    unfolding m [symmetric] encode_task_def by (rule json_get_obj_of) (simp add: task_fields_def)
  note get = get [unfolded task_fields_def]
  have
    "req_field decode_task_id (JObject m) ''id'' = Some (tk_id t)"
    "req_field json_as_str (JObject m) ''title'' = Some (tk_title t)"
    "req_field decode_task_status (JObject m) ''status'' = Some (tk_status t)"
    "req_field decode_priority (JObject m) ''priority'' = Some (tk_priority t)"
    "req_field (decode_time C) (JObject m) ''created_at'' = Some (tk_created_at t)"
    "req_field json_as_str (JObject m) ''created_by'' = Some (tk_created_by t)"
    "json_get (JObject m) ''blocked_by'' = Some (JArray (map encode_task_id (tk_blocked_by t)))"
    unfolding req_field_def get by (simp_all add: decode_simple assms(1))
  then show ?thesis
    unfolding m decode_task_def by (simp add: task_json_fields [OF assms m] del: json_get.simps)
qed

text \<open>A payload of null is not: it comes back as no payload.\<close>

lemma task_json_null_payload:
  assumes "codec_laws C"
  shows "decode_task C (encode_task C (t\<lparr>tk_payload := Some JNull\<rparr>)) = Some (t\<lparr>tk_payload := None\<rparr>)"
proof -
  let ?t = "t\<lparr>tk_payload := Some JNull\<rparr>" and ?u = "t\<lparr>tk_payload := None\<rparr>"
  obtain m n where m: "encode_task C ?t = JObject m" and n: "encode_task C ?u = JObject n"
    using obj_of_JObject encode_task_def by metis
  have get: "json_get (JObject m) k = Option.bind (map_of (task_fields C ?t) k) (\<lambda>v. v)"
    "json_get (JObject n) k = Option.bind (map_of (task_fields C ?u) k) (\<lambda>v. v)" for k
    unfolding m [symmetric] n [symmetric] encode_task_def by (rule json_get_obj_of; simp add: task_fields_def)+
  have "json_get (JObject m) k = json_get (JObject n) k" if "k \<noteq> ''payload''" for k
    unfolding get using that by (simp add: task_fields_def)
  moreover have "opt_field Some (JObject m) ''payload'' = opt_field Some (JObject n) ''payload''"
    unfolding opt_field_def get by (simp add: task_fields_def)
  ultimately have "decode_task C (JObject m) = decode_task C (JObject n)"
    unfolding decode_task_def req_field_def opt_field_def by simp
  then show ?thesis using task_json_roundtrip [OF assms, of ?u] m n by simp
qed

end
