(* ===== verification/Task_Rules.thy ===== *)
theory Task_Rules
  imports Task_Model Object_Model
begin

text \<open>
  The rules of \<open>crates/agentstategraph-tasks/src/store.rs\<close> that judge a list of tasks: checks of
  arguments, blockers and their cycles, the choice of the next task, the status of a parent, the
  verification of a plan. \<open>TaskStore\<close> reads the list from the repository (theory \<open>Task_Store\<close>).

  Whether a text matches the pattern of blocker ids is the parameter \<open>is_match\<close>.
\<close>

section \<open>Arguments\<close>

fun validate_blocker_ids :: "(string \<Rightarrow> bool) \<Rightarrow> TaskId list \<Rightarrow> 'r TaskStoreError + unit" where
  "validate_blocker_ids is_match [] = Inr ()"
| "validate_blocker_ids is_match (b # bs) =
     (if is_match (task_id_str b) then validate_blocker_ids is_match bs else Inl (InvalidBlockerId (task_id_str b)))"

definition normalize_notes :: "string option \<Rightarrow> 'r TaskStoreError + string option" where
  "normalize_notes notes =
     (case notes of
        None \<Rightarrow> Inr None
      | Some text \<Rightarrow>
          if str_trim text = [] then Inr None
          else if MAX_NOTES_BYTES < length text then Inl (NotesTooLong (length text) MAX_NOTES_BYTES)
          else Inr (Some text))"

section \<open>Blockers\<close>

definition blocker_satisfied :: "Task list \<Rightarrow> TaskId \<Rightarrow> bool" where
  "blocker_satisfied tasks i = list_ex (\<lambda>t. tk_id t = i \<and> tk_status t = TsDone) tasks"

record BlockerCheck =
  bc_pending :: "TaskId list"
  bc_missing :: "TaskId list"

definition missing_blockers :: "Task list \<Rightarrow> TaskId list \<Rightarrow> TaskId list" where
  "missing_blockers tasks bs = filter (\<lambda>b. find (\<lambda>t. tk_id t = b) tasks = None) bs"

definition pending_blockers :: "Task list \<Rightarrow> TaskId list \<Rightarrow> TaskId list" where
  "pending_blockers tasks bs =
     filter (\<lambda>b. case find (\<lambda>t. tk_id t = b) tasks of Some t \<Rightarrow> tk_status t \<noteq> TsDone | None \<Rightarrow> False) bs"

definition classify_in :: "Task list \<Rightarrow> TaskId list \<Rightarrow> BlockerCheck" where
  "classify_in tasks bs = \<lparr>bc_pending = pending_blockers tasks bs, bc_missing = missing_blockers tasks bs\<rparr>"

text \<open>The blockers of each task. A later task of the same id replaces an earlier one in the map.\<close>

definition blocker_edges :: "Task list \<Rightarrow> TaskId \<Rightarrow> TaskId list" where
  "blocker_edges tasks i =
     (case map_of (rev (map (\<lambda>t. (tk_id t, tk_blocked_by t)) tasks)) i of Some bs \<Rightarrow> bs | None \<Rightarrow> [])"

fun reaches_any ::
  "('a \<Rightarrow> 'a list \<Rightarrow> 'a list \<Rightarrow> bool \<times> 'a list \<times> 'a list) \<Rightarrow> 'a list \<Rightarrow> 'a list \<Rightarrow> 'a list \<Rightarrow> bool \<times> 'a list \<times> 'a list" where
  "reaches_any f [] visited path = (False, visited, path)"
| "reaches_any f (x # xs) visited path =
     (case f x visited path of
        (True, v, p) \<Rightarrow> (True, v, p)
      | (False, v, p) \<Rightarrow> reaches_any f xs v p)"

text \<open>The recursion enters a task with blockers at most once, so its depth is at most the number of tasks
  plus one: \<open>blocker_cycle\<close> starts it with that much fuel, and \<open>blocker_cycle_iff\<close> below shows it is
  enough.\<close>

primrec reaches ::
  "nat \<Rightarrow> ('a \<Rightarrow> 'a list) \<Rightarrow> 'a \<Rightarrow> 'a \<Rightarrow> 'a list \<Rightarrow> 'a list \<Rightarrow> bool \<times> 'a list \<times> 'a list" where
  "reaches 0 edges target node visited path = (False, visited, path)"
| "reaches (Suc n) edges target node visited path =
     (if node = target then (True, visited, path @ [node])
      else if node \<in> set visited then (False, visited, path)
      else case reaches_any (reaches n edges target) (edges node) (node # visited) (path @ [node]) of
             (True, v, p) \<Rightarrow> (True, v, p)
           | (False, v, p) \<Rightarrow> (False, v, butlast p))"

definition blocker_cycle :: "Task list \<Rightarrow> TaskId \<Rightarrow> TaskId list \<Rightarrow> TaskId list option" where
  "blocker_cycle tasks i blockers =
     (case reaches_any (reaches (Suc (Suc (length tasks))) (blocker_edges tasks) i) blockers [] [i] of
        (True, _, path) \<Rightarrow> Some path
      | (False, _, _) \<Rightarrow> None)"

section \<open>Choosing, rolling up, verifying\<close>

definition assignable :: "string option \<Rightarrow> bool \<Rightarrow> Task \<Rightarrow> bool" where
  "assignable assigned_to include_unassigned t =
     (case assigned_to of
        None \<Rightarrow> True
      | Some agent \<Rightarrow> (case tk_assigned_to t of Some a \<Rightarrow> a = agent | None \<Rightarrow> include_unassigned))"

definition next_candidates :: "string option \<Rightarrow> bool \<Rightarrow> Task list \<Rightarrow> Task list" where
  "next_candidates assigned_to include_unassigned tasks =
     filter (assignable assigned_to include_unassigned)
       (filter (\<lambda>t. list_all (blocker_satisfied tasks) (tk_blocked_by t))
          (filter (\<lambda>t. tk_status t = TsPending) tasks))"

definition next_of :: "string option \<Rightarrow> bool \<Rightarrow> Task list \<Rightarrow> Task option" where
  "next_of assigned_to include_unassigned tasks =
     (case sort_key (\<lambda>t. (3 - priority_rank (tk_priority t), tk_id t))
             (next_candidates assigned_to include_unassigned tasks) of
        [] \<Rightarrow> None | t # _ \<Rightarrow> Some t)"

definition derived_of :: "Task list \<Rightarrow> TaskId \<Rightarrow> Task \<Rightarrow> TaskStatus" where
  "derived_of tasks parent_id parent =
     (let subtasks = filter (\<lambda>t. tk_parent_id t = Some parent_id) tasks;
          non_abandoned = filter (\<lambda>t. tk_status t \<noteq> TsAbandoned) subtasks
      in if subtasks = [] then tk_status parent
         else if list_ex (\<lambda>t. tk_status t = TsInProgress) subtasks then TsInProgress
         else if non_abandoned \<noteq> [] \<and> list_all (\<lambda>t. tk_status t = TsDone) non_abandoned then TsDone
         else TsPending)"

fun verify_tasks :: "(Proof \<Rightarrow> VerifyResult) \<Rightarrow> Task list \<Rightarrow> 'r TaskStoreError + VerifyEntry list" where
  "verify_tasks verify [] = Inr []"
| "verify_tasks verify (t # ts) =
     (if tk_status t \<noteq> TsDone then verify_tasks verify ts
      else case tk_proof t of
        None \<Rightarrow> Inl ProofRequired
      | Some p \<Rightarrow>
          (case verify_tasks verify ts of
             Inl e \<Rightarrow> Inl e
           | Inr es \<Rightarrow> Inr (\<lparr>ve_task_id = tk_id t, ve_result = verify p\<rparr> # es)))"

section \<open>Cycles of blockers\<close>

definition blocks :: "('a \<Rightarrow> 'a list) \<Rightarrow> 'a \<Rightarrow> 'a \<Rightarrow> bool" where
  "blocks edges x y \<longleftrightarrow> y \<in> set (edges x)"

fun chain :: "('a \<Rightarrow> 'a list) \<Rightarrow> 'a list \<Rightarrow> bool" where
  "chain edges (x # y # xs) \<longleftrightarrow> y \<in> set (edges x) \<and> chain edges (y # xs)"
| "chain edges _ \<longleftrightarrow> True"

text \<open>What a call that found the target, or did not, has done.\<close>

definition found :: "('a \<Rightarrow> 'a list) \<Rightarrow> 'a \<Rightarrow> 'a set \<Rightarrow> 'a list \<Rightarrow> 'a list \<Rightarrow> bool" where
  "found edges target starts path p \<longleftrightarrow>
     (\<exists>route. p = path @ route \<and> route \<noteq> [] \<and> hd route \<in> starts \<and> last route = target \<and>
        target \<notin> set (butlast route) \<and> chain edges route)"

definition exhausted :: "('a \<Rightarrow> 'a list) \<Rightarrow> 'a \<Rightarrow> 'a set \<Rightarrow> 'a set \<Rightarrow> 'a set \<Rightarrow> bool" where
  "exhausted edges target starts V V' \<longleftrightarrow>
     V \<subseteq> V' \<and> starts \<subseteq> V' \<and> (\<forall>x \<in> V' - V. x \<noteq> target \<and> set (edges x) \<subseteq> V')"

lemma reaches_any_run:
  assumes step: "\<And>x v p. card (K - set v) < n \<Longrightarrow>
      (case f x v p of (True, v', p') \<Rightarrow> found edges target {x} p p'
        | (False, v', p') \<Rightarrow> p' = p \<and> exhausted edges target {x} (set v) (set v'))"
    and "finite K" "card (K - set visited) < n"
  shows "case reaches_any f xs visited path of
      (True, v', p') \<Rightarrow> found edges target (set xs) path p'
    | (False, v', p') \<Rightarrow> p' = path \<and> exhausted edges target (set xs) (set visited) (set v')"
  using assms(3)
proof (induction xs arbitrary: visited)
  case Nil
  then show ?case by (simp add: exhausted_def)
next
  case (Cons x xs)
  obtain b v p where run: "f x visited path = (b, v, p)" by (cases "f x visited path") auto
  show ?case
  proof (cases b)
    case True
    with step [OF Cons.prems, of x path] run show ?thesis by (auto simp: found_def)
  next
    case False
    with step [OF Cons.prems, of x path] run
    have p: "p = path" and ex: "exhausted edges target {x} (set visited) (set v)" by auto
    then have "card (K - set v) \<le> card (K - set visited)"
      using assms(2) by (intro card_mono) (auto simp: exhausted_def)
    with Cons.prems have "card (K - set v) < n" by simp
    from Cons.IH [OF this] ex show ?thesis
      using False run p by (auto simp: found_def exhausted_def split: prod.splits bool.splits) blast+
  qed
qed

lemma reaches_run:
  assumes "finite K" "\<And>x. x \<notin> K \<Longrightarrow> edges x = []"
  shows "card (K - set visited) < n \<Longrightarrow>
    (case reaches n edges target node visited path of
       (True, v', p') \<Rightarrow> found edges target {node} path p'
     | (False, v', p') \<Rightarrow> p' = path \<and> exhausted edges target {node} (set visited) (set v'))"
proof (induction n arbitrary: node visited path)
  case 0
  then show ?case by simp
next
  case (Suc n)
  show ?case
  proof (cases "node = target \<or> node \<in> set visited")
    case True
    have "found edges target {target} path (path @ [target])"
      unfolding found_def by (intro exI [of _ "[target]"]) simp
    with True show ?thesis by (auto simp: exhausted_def)
  next
    case False
    let ?r = "reaches_any (reaches n edges target) (edges node) (node # visited) (path @ [node])"
    have run: "case ?r of (True, v', p') \<Rightarrow> found edges target (set (edges node)) (path @ [node]) p'
        | (False, v', p') \<Rightarrow> p' = path @ [node] \<and>
            exhausted edges target (set (edges node)) (set (node # visited)) (set v')"
    proof (cases "node \<in> K")
      case True
      then have "K - set (node # visited) \<subset> K - set visited" using False by auto
      then have "card (K - set (node # visited)) < card (K - set visited)"
        using assms(1) by (intro psubset_card_mono) auto
      with Suc.prems have "card (K - set (node # visited)) < n" by simp
      show ?thesis by (rule reaches_any_run [OF _ assms(1) \<open>card (K - set (node # visited)) < n\<close>]) (rule Suc.IH)
    qed (auto simp: assms(2) exhausted_def)
    obtain b v p where r: "?r = (b, v, p)" by (cases ?r) auto
    show ?thesis
    proof (cases b)
      case True
      with run r obtain route where "p = path @ node # route" "route \<noteq> []" "hd route \<in> set (edges node)"
        "last route = target" "target \<notin> set (butlast route)" "chain edges route"
        by (auto simp: found_def)
      then have "found edges target {node} path p"
        unfolding found_def using False by (intro exI [of _ "node # route"]) (cases route; auto)
      with True False r show ?thesis by simp
    next
      case False': False
      with run r have "p = path @ [node]" "exhausted edges target (set (edges node)) (set (node # visited)) (set v)" by auto
      with False False' r show ?thesis by (auto simp: exhausted_def)
    qed
  qed
qed

lemma chain_reaches: "chain edges route \<Longrightarrow> route \<noteq> [] \<Longrightarrow> (blocks edges)\<^sup>*\<^sup>* (hd route) (last route)"
  by (induction edges route rule: chain.induct)
    (auto simp: blocks_def intro: converse_rtranclp_into_rtranclp)

lemma chain_update:
  "chain edges route \<Longrightarrow> i \<notin> set (butlast route) \<Longrightarrow> chain (edges(i := bs)) route"
  by (induction edges route rule: chain.induct) auto

lemma exhausted_unreachable:
  assumes "exhausted edges target starts {} V" "x \<in> starts" "(blocks edges)\<^sup>*\<^sup>* x y"
  shows "y \<in> V \<and> y \<noteq> target"
  using assms(3) assms(1,2) by (induction rule: rtranclp_induct) (unfold exhausted_def blocks_def, blast+)

text \<open>The blockers of the plan once \<open>blockers\<close> are those of \<open>i\<close>.\<close>

definition new_edges :: "Task list \<Rightarrow> TaskId \<Rightarrow> TaskId list \<Rightarrow> TaskId \<Rightarrow> TaskId list" where
  "new_edges tasks i blockers = (blocker_edges tasks)(i := blockers)"

lemma blocker_cycle_run:
  "case blocker_cycle tasks i blockers of
     Some path \<Rightarrow> found (blocker_edges tasks) i (set blockers) [i] path
   | None \<Rightarrow> \<exists>V. exhausted (blocker_edges tasks) i (set blockers) {} V"
proof -
  let ?K = "set (map tk_id tasks)" and ?n = "Suc (Suc (length tasks))"
  let ?r = "reaches_any (reaches ?n (blocker_edges tasks) i) blockers [] [i]"
  have none: "x \<notin> ?K \<Longrightarrow> blocker_edges tasks x = []" for x
    by (auto simp: blocker_edges_def split: option.splits dest!: map_of_SomeD)
  have small: "card (?K - set v) < ?n" for v
    by (rule le_less_trans [of _ "card ?K"]) (use card_length [of "map tk_id tasks"] in \<open>auto intro: card_mono simp: less_Suc_eq_le le_SucI\<close>)
  have "case ?r of (True, v', p') \<Rightarrow> found (blocker_edges tasks) i (set blockers) [i] p'
      | (False, v', p') \<Rightarrow> p' = [i] \<and> exhausted (blocker_edges tasks) i (set blockers) (set []) (set v')"
  proof (rule reaches_any_run [where K = ?K and n = ?n])
    fix x v p assume "card (?K - set v) < ?n"
    from reaches_run [OF _ none this] show "case reaches ?n (blocker_edges tasks) i x v p of
        (True, v', p') \<Rightarrow> found (blocker_edges tasks) i {x} p p'
      | (False, v', p') \<Rightarrow> p' = p \<and> exhausted (blocker_edges tasks) i {x} (set v) (set v')" by (simp del: reaches.simps)
  qed (simp, rule small)
  then show ?thesis unfolding blocker_cycle_def by (auto split: prod.splits bool.splits)
qed

lemma blocker_cycle_route:
  assumes "blocker_cycle tasks i blockers = Some path"
  shows "hd path = i" "last path = i" "2 \<le> length path" "chain (new_edges tasks i blockers) path"
    "i \<notin> set (butlast (tl path))"
proof -
  from blocker_cycle_run [of tasks i blockers] assms obtain route
    where r: "path = i # route" "route \<noteq> []" "hd route \<in> set blockers" "last route = i" "i \<notin> set (butlast route)"
      "chain (blocker_edges tasks) route" by (auto simp: found_def)
  from chain_update [OF r(6,5)] r show "chain (new_edges tasks i blockers) path"
    by (cases route) (auto simp: new_edges_def)
  from r show "hd path = i" "last path = i" "2 \<le> length path" "i \<notin> set (butlast (tl path))"
    by (auto simp: Suc_le_eq)
qed

lemma blocker_cycle_iff:
  "blocker_cycle tasks i blockers = None \<longleftrightarrow> \<not> (blocks (new_edges tasks i blockers))\<^sup>+\<^sup>+ i i"
proof (cases "blocker_cycle tasks i blockers")
  case (Some path)
  note route = blocker_cycle_route [OF Some]
  then obtain x y where p: "path = i # x # y" by (cases path; cases "tl path") auto
  with route(4) have "blocks (new_edges tasks i blockers) i x" by (simp add: blocks_def)
  moreover have "(blocks (new_edges tasks i blockers))\<^sup>*\<^sup>* x i"
    using chain_reaches [of "new_edges tasks i blockers" "x # y"] route(2,4) p by simp
  ultimately show ?thesis using Some by (auto intro: rtranclp_into_tranclp2)
next
  case None
  with blocker_cycle_run [of tasks i blockers] obtain V
    where V: "exhausted (blocker_edges tasks) i (set blockers) {} V" by auto
  then have "exhausted (new_edges tasks i blockers) i (set blockers) {} V"
    by (auto simp: exhausted_def new_edges_def)
  then have "\<not> (blocks (new_edges tasks i blockers))\<^sup>+\<^sup>+ i i"
    using exhausted_unreachable [of "new_edges tasks i blockers" i "set blockers" V]
    by (metis blocks_def fun_upd_same new_edges_def tranclpD)
  with None show ?thesis by simp
qed

definition acyclic_blockers :: "(TaskId \<Rightarrow> TaskId list) \<Rightarrow> bool" where
  "acyclic_blockers edges \<longleftrightarrow> (\<forall>x. \<not> (blocks edges)\<^sup>+\<^sup>+ x x)"

lemma tranclp_update:
  assumes "(blocks (edges(i := bs)))\<^sup>+\<^sup>+ x y"
  shows "(blocks edges)\<^sup>+\<^sup>+ x y \<or> (blocks (edges(i := bs)))\<^sup>*\<^sup>* x i \<and> (blocks (edges(i := bs)))\<^sup>+\<^sup>+ i y"
  using assms
proof (induction rule: tranclp_induct)
  case (base y)
  then show ?case by (cases "x = i") (auto simp: blocks_def)
next
  case (step y z)
  show ?case
  proof (cases "y = i")
    case True
    with step show ?thesis by (metis tranclp.r_into_trancl tranclp_into_rtranclp)
  next
    case False
    with step(2) have "blocks edges y z" by (simp add: blocks_def)
    with step show ?thesis by (metis tranclp.trancl_into_trancl)
  qed
qed

lemma blocker_cycle_acyclic:
  assumes "acyclic_blockers (blocker_edges tasks)"
  shows "blocker_cycle tasks i blockers = None \<longleftrightarrow> acyclic_blockers (new_edges tasks i blockers)"
proof
  assume none: "blocker_cycle tasks i blockers = None"
  show "acyclic_blockers (new_edges tasks i blockers)" unfolding acyclic_blockers_def
  proof (intro allI notI)
    fix x assume "(blocks (new_edges tasks i blockers))\<^sup>+\<^sup>+ x x"
    from tranclp_update [OF this [unfolded new_edges_def]] assms
    have "(blocks (new_edges tasks i blockers))\<^sup>+\<^sup>+ i i"
      unfolding acyclic_blockers_def new_edges_def [symmetric] by (metis rtranclp_tranclp_tranclp tranclp_rtranclp_tranclp)
    with none show False by (simp add: blocker_cycle_iff)
  qed
qed (simp add: blocker_cycle_iff acyclic_blockers_def)

section \<open>The next task\<close>

lemma next_of_best:
  "next_of a u tasks = Some t \<Longrightarrow> t \<in> set (next_candidates a u tasks) \<and>
     (\<forall>x \<in> set (next_candidates a u tasks). tk_priority x < tk_priority t \<or>
        tk_priority x = tk_priority t \<and> tk_id t \<le> tk_id x)"
proof -
  let ?f = "\<lambda>t. (3 - priority_rank (tk_priority t), tk_id t)" and ?c = "next_candidates a u tasks"
  assume "next_of a u tasks = Some t"
  then obtain ts where s: "sort_key ?f ?c = t # ts" by (auto simp: next_of_def split: list.splits)
  then have "set ?c = set (t # ts)" by (metis set_sort)
  moreover have "\<forall>x \<in> set ts. ?f t \<le> ?f x"
    using sorted_sort_key [of ?f ?c] s by simp
  moreover have "priority_rank p \<le> 3" for p by (cases p) simp_all
  ultimately have "x \<in> set ?c \<Longrightarrow> ?f t \<le> ?f x" "t \<in> set ?c" for x by auto
  moreover have "tk_priority x < tk_priority t \<or> tk_priority x = tk_priority t \<and> tk_id t \<le> tk_id x" if "?f t \<le> ?f x" for x
  proof (cases "priority_rank (tk_priority x) < priority_rank (tk_priority t)")
    case False
    with that \<open>\<And>p. priority_rank p \<le> 3\<close> [of "tk_priority t"] \<open>\<And>p. priority_rank p \<le> 3\<close> [of "tk_priority x"]
    have "priority_rank (tk_priority x) = priority_rank (tk_priority t) \<and> tk_id t \<le> tk_id x"
      by (auto simp: less_eq_prod_def)
    then show ?thesis using priority_rank_inj by blast
  qed (simp add: less_Priority_def)
  ultimately show ?thesis by blast
qed

lemma next_of_None: "next_of a u tasks = None \<longleftrightarrow> next_candidates a u tasks = []"
  by (auto simp: next_of_def split: list.splits) (metis set_empty set_sort)+

end
