(* ===== verification/Task_Store.thy ===== *)
theory Task_Store
  imports Task_Json Task_Rules Cas_Loop
begin

text \<open>
  The task store, from \<open>crates/agentstategraph-tasks/src/store.rs\<close>: plans and tasks kept as documents
  under a prefix of a repository's tree. Every operation that changes a plan is a loop of the form of
  \<open>Cas_Loop\<close>: read the head of the ref, read what the change depends on, and land the new document with a
  compare-and-swap against that head, at most \<open>MAX_CAS_RETRIES\<close> times.
\<close>

record TaskStore =
  ts_prefix :: string
  ts_agent_id :: string

type_synonym task_error = "RepoError TaskStoreError"

definition task_store_new :: "string \<Rightarrow> string \<Rightarrow> TaskStore" where
  "task_store_new prefix agent_id =
     \<lparr>ts_prefix = (if prefix \<noteq> [] \<and> last prefix = CHR ''/'' then butlast prefix else prefix), ts_agent_id = agent_id\<rparr>"

definition commit_opts :: "'s RepoPort \<Rightarrow> TaskStore \<Rightarrow> nat \<Rightarrow> string \<Rightarrow> CommitOptions" where
  "commit_opts R T k description = options_new (tr_env R k) (ts_agent_id T) IntentCategory.Plan description"

definition task_loop ::
  "'s RepoPort \<Rightarrow> TaskStore \<Rightarrow> (nat \<Rightarrow> nat \<Rightarrow> 's \<Rightarrow> 's) \<Rightarrow> 's \<Rightarrow> string \<Rightarrow>
   (nat \<Rightarrow> 's \<Rightarrow> 's \<times> (task_error + (string, 'a) outcome)) \<Rightarrow> 's \<times> (task_error + 'a)" where
  "task_loop R T = cas_loop MAX_CAS_RETRIES 0 R (commit_opts R T) TsRepo TsWriteConflict"

section \<open>Reading plans and tasks\<close>

fun is_path_not_found :: "RepoError \<Rightarrow> bool" where
  "is_path_not_found (RTree (TPathNotFound _)) = True"
| "is_path_not_found _ = False"

definition map_not_found :: "RepoError \<Rightarrow> task_error \<Rightarrow> task_error" where
  "map_not_found e made = (if is_path_not_found e then made else TsRepo e)"

definition plan_from_tree :: "Codec \<Rightarrow> string \<Rightarrow> json \<Rightarrow> task_error + Plan" where
  "plan_from_tree C name plan =
     try_bind (ok_or (PlanNotFound name) (json_get plan META_KEY)) (\<lambda>meta. ok_or TsSerde (decode_plan C meta))"

definition tasks_from_tree :: "Codec \<Rightarrow> json \<Rightarrow> task_error + Task list" where
  "tasks_from_tree C plan =
     (case plan of
        JObject m \<Rightarrow>
          try_bind (ok_or TsSerde (decode_all (\<lambda>(_, v). decode_task C v) (filter (\<lambda>(k, _). k \<noteq> META_KEY) m)))
            (\<lambda>tasks. Inr (sort_key tk_id tasks))
      | _ \<Rightarrow> Inr [])"

definition get_plan :: "'s RepoPort \<Rightarrow> Codec \<Rightarrow> TaskStore \<Rightarrow> 's \<Rightarrow> string \<Rightarrow> string \<Rightarrow> task_error + Plan" where
  "get_plan R C T s ref_name name =
     (case tr_get_json R s ref_name (plan_meta (ts_prefix T) name) of
        Inl e \<Rightarrow> Inl (map_not_found e (PlanNotFound name))
      | Inr v \<Rightarrow> ok_or TsSerde (decode_plan C v))"

definition plan_exists :: "'s RepoPort \<Rightarrow> Codec \<Rightarrow> TaskStore \<Rightarrow> 's \<Rightarrow> string \<Rightarrow> string \<Rightarrow> task_error + bool" where
  "plan_exists R C T s ref_name name =
     (case get_plan R C T s ref_name name of
        Inr _ \<Rightarrow> Inr True
      | Inl (PlanNotFound _) \<Rightarrow> Inr False
      | Inl e \<Rightarrow> Inl e)"

definition plans_root :: "'s RepoPort \<Rightarrow> TaskStore \<Rightarrow> 's \<Rightarrow> string \<Rightarrow> task_error + (string \<times> json) list" where
  "plans_root R T s ref_name =
     (case tr_get_json R s ref_name (ts_prefix T) of
        Inr (JObject m) \<Rightarrow> Inr m
      | Inr _ \<Rightarrow> Inr []
      | Inl e \<Rightarrow> if is_path_not_found e then Inr [] else Inl (TsRepo e))"

definition list_plans :: "'s RepoPort \<Rightarrow> Codec \<Rightarrow> TaskStore \<Rightarrow> 's \<Rightarrow> string \<Rightarrow> task_error + Plan list" where
  "list_plans R C T s ref_name =
     try_bind (plans_root R T s ref_name) (\<lambda>m. collect_results (map (\<lambda>(name, plan). plan_from_tree C name plan) m))"

definition list_plans_with_tasks ::
  "'s RepoPort \<Rightarrow> Codec \<Rightarrow> TaskStore \<Rightarrow> 's \<Rightarrow> string \<Rightarrow> task_error + (Plan \<times> Task list) list" where
  "list_plans_with_tasks R C T s ref_name =
     try_bind (plans_root R T s ref_name) (\<lambda>m. collect_results (map (\<lambda>(name, plan).
       try_bind (plan_from_tree C name plan) (\<lambda>p. try_bind (tasks_from_tree C plan) (\<lambda>ts. Inr (p, ts)))) m))"

definition list_plans_by_status ::
  "'s RepoPort \<Rightarrow> Codec \<Rightarrow> TaskStore \<Rightarrow> 's \<Rightarrow> string \<Rightarrow> PlanStatus option \<Rightarrow> task_error + Plan list" where
  "list_plans_by_status R C T s ref_name status =
     try_bind (list_plans R C T s ref_name) (\<lambda>plans.
       Inr (case status of None \<Rightarrow> plans | Some st \<Rightarrow> filter (\<lambda>p. pl_status p = st) plans))"

definition get_task :: "'s RepoPort \<Rightarrow> Codec \<Rightarrow> TaskStore \<Rightarrow> 's \<Rightarrow> string \<Rightarrow> string \<Rightarrow> TaskId \<Rightarrow> task_error + Task" where
  "get_task R C T s ref_name plan i =
     (case tr_get_json R s ref_name (task_path (ts_prefix T) plan i) of
        Inl e \<Rightarrow> Inl (map_not_found e (TaskNotFound plan i))
      | Inr v \<Rightarrow> ok_or TsSerde (decode_task C v))"

definition list_tasks :: "'s RepoPort \<Rightarrow> Codec \<Rightarrow> TaskStore \<Rightarrow> 's \<Rightarrow> string \<Rightarrow> string \<Rightarrow> task_error + Task list" where
  "list_tasks R C T s ref_name plan =
     (case tr_get_json R s ref_name (plan_root (ts_prefix T) plan) of
        Inl e \<Rightarrow> Inl (map_not_found e (PlanNotFound plan))
      | Inr root \<Rightarrow> if json_get root META_KEY = None then Inl (PlanNotFound plan) else tasks_from_tree C root)"

definition id_of_leaf :: "string \<Rightarrow> string \<Rightarrow> TaskId option" where
  "id_of_leaf root leaf =
     (case strip_prefix (root @ ''/'') leaf of
        None \<Rightarrow> None
      | Some suffix \<Rightarrow>
          (case split_on (CHR ''/'') suffix of
             [] \<Rightarrow> None
           | first # _ \<Rightarrow> if first = [] \<or> first = META_KEY then None else Some (TaskId first)))"

definition task_ids :: "'s RepoPort \<Rightarrow> TaskStore \<Rightarrow> 's \<Rightarrow> string \<Rightarrow> string \<Rightarrow> task_error + TaskId list" where
  "task_ids R T s ref_name plan =
     (case tr_list_paths R s ref_name (plan_root (ts_prefix T) plan) None of
        Inl e \<Rightarrow> Inl (map_not_found e (PlanNotFound plan))
      | Inr leaves \<Rightarrow> Inr (bts_of_list (List.map_filter (id_of_leaf (plan_root (ts_prefix T) plan)) leaves)))"

text \<open>The addition of \<open>u32\<close>s wraps around, as in a release build.\<close>

definition next_number :: "TaskId list \<Rightarrow> nat" where
  "next_number ids =
     (foldr max (List.map_filter (\<lambda>i. case task_number i of Inr n \<Rightarrow> Some n | Inl (_ :: task_error) \<Rightarrow> None) ids) 0 + 1)
       mod 2 ^ 32"

section \<open>Plans\<close>

definition new_plan :: "'s RepoPort \<Rightarrow> TaskStore \<Rightarrow> nat \<Rightarrow> string \<Rightarrow> string option \<Rightarrow> Plan" where
  "new_plan R T k name description =
     \<lparr>pl_name = name, pl_description = description, pl_status = PsActive, pl_created_at = ev_now (tr_env R k),
      pl_created_by = ts_agent_id T, pl_archived_at = None, pl_summary = None, pl_closed_at = None, pl_closed_by = None\<rparr>"

definition create_plan ::
  "'s RepoPort \<Rightarrow> Codec \<Rightarrow> TaskStore \<Rightarrow> (nat \<Rightarrow> nat \<Rightarrow> 's \<Rightarrow> 's) \<Rightarrow> 's \<Rightarrow> string \<Rightarrow> string \<Rightarrow> string option \<Rightarrow> 's \<times> (task_error + Plan)" where
  "create_plan R C T others s ref_name name description =
     task_loop R T others s ref_name (\<lambda>k s. (s,
       try_bind (plan_exists R C T s ref_name name) (\<lambda>exists.
         if exists then Inl (PlanAlreadyExists name)
         else let plan = new_plan R T k name description
              in Inr (Write (plan_meta (ts_prefix T) name) (encode_plan C plan) (''Create plan '' @ name) (\<lambda>_. plan)))))"

definition archive_plan ::
  "'s RepoPort \<Rightarrow> Codec \<Rightarrow> TaskStore \<Rightarrow> (nat \<Rightarrow> nat \<Rightarrow> 's \<Rightarrow> 's) \<Rightarrow> 's \<Rightarrow> string \<Rightarrow> string \<Rightarrow> 's \<times> (task_error + Plan)" where
  "archive_plan R C T others s ref_name name =
     task_loop R T others s ref_name (\<lambda>k s. (s,
       try_bind (get_plan R C T s ref_name name) (\<lambda>plan.
         let plan = plan\<lparr>pl_status := PsArchived, pl_archived_at := Some (ev_now (tr_env R k))\<rparr>
         in Inr (Write (plan_meta (ts_prefix T) name) (encode_plan C plan) (''Archive plan '' @ name) (\<lambda>_. plan)))))"

fun task_status_debug :: "TaskStatus \<Rightarrow> string" where
  "task_status_debug TsPending = ''Pending''"
| "task_status_debug TsInProgress = ''InProgress''"
| "task_status_debug TsDone = ''Done''"
| "task_status_debug TsAbandoned = ''Abandoned''"

definition close_refusal :: "string \<Rightarrow> Task list \<Rightarrow> task_error option" where
  "close_refusal name tasks =
     (if tasks = [] then Some (CannotClose name ''plan has no tasks'')
      else map_option (\<lambda>open_task. CannotClose name (''task '' @ task_id_str (tk_id open_task) @ '' is still '' @
             task_status_debug (tk_status open_task) @ ''; every task must be done or abandoned first''))
           (find (\<lambda>t. \<not> is_terminal (tk_status t)) tasks))"

definition close_plan ::
  "'s RepoPort \<Rightarrow> Codec \<Rightarrow> TaskStore \<Rightarrow> (nat \<Rightarrow> nat \<Rightarrow> 's \<Rightarrow> 's) \<Rightarrow> 's \<Rightarrow> string \<Rightarrow> string \<Rightarrow> string \<Rightarrow> 's \<times> (task_error + Plan)" where
  "close_plan R C T others s ref_name name summary =
     (if str_trim summary = [] then (s, Inl SummaryRequired)
      else task_loop R T others s ref_name (\<lambda>k s.
        (case get_plan R C T s ref_name name of
           Inl e \<Rightarrow> (s, Inl e)
         | Inr plan \<Rightarrow>
             (case pl_status plan of
                PsCompleted \<Rightarrow> (s, Inr (Answer plan))
              | PsArchived \<Rightarrow> (s, Inl (CannotClose name ''plan is archived''))
              | PsActive \<Rightarrow>
                  let s1 = others k 1 s in (s1,
                    try_bind (list_tasks R C T s1 ref_name name) (\<lambda>tasks.
                      case close_refusal name tasks of
                        Some e \<Rightarrow> Inl e
                      | None \<Rightarrow>
                          let plan = plan\<lparr>pl_status := PsCompleted, pl_summary := Some (str_trim summary),
                                pl_closed_at := Some (ev_now (tr_env R k)), pl_closed_by := Some (ts_agent_id T)\<rparr>
                          in Inr (Write (plan_meta (ts_prefix T) name) (encode_plan C plan) (''Close plan '' @ name) (\<lambda>_. plan))))))))"

definition delete_plan ::
  "'s RepoPort \<Rightarrow> Codec \<Rightarrow> TaskStore \<Rightarrow> (nat \<Rightarrow> nat \<Rightarrow> 's \<Rightarrow> 's) \<Rightarrow> 's \<Rightarrow> string \<Rightarrow> string \<Rightarrow> 's \<times> (task_error + unit)" where
  "delete_plan R C T others s ref_name name =
     (case plan_exists R C T s ref_name name of
        Inl e \<Rightarrow> (s, Inl e)
      | Inr False \<Rightarrow> (s, Inl (PlanNotFound name))
      | Inr True \<Rightarrow>
          (case tr_delete R (others 0 0 s) ref_name (plan_root (ts_prefix T) name) (commit_opts R T 0 (''Delete plan '' @ name)) of
             (s1, Inl e) \<Rightarrow> (s1, Inl (TsRepo e))
           | (s1, Inr _) \<Rightarrow> (s1, Inr ())))"

section \<open>Adding tasks\<close>

record AddTaskOptions =
  ao_payload :: "json option"
  ao_parent_change :: "string option"
  ao_on_complete :: "OnCompleteHook option"
  ao_notes :: "string option"

definition default_options :: AddTaskOptions where
  "default_options = \<lparr>ao_payload = None, ao_parent_change = None, ao_on_complete = None, ao_notes = None\<rparr>"

definition new_task ::
  "'s RepoPort \<Rightarrow> TaskStore \<Rightarrow> nat \<Rightarrow> TaskId \<Rightarrow> string \<Rightarrow> string option \<Rightarrow> Priority \<Rightarrow> TaskId option \<Rightarrow> TaskId list \<Rightarrow>
   string option \<Rightarrow> AddTaskOptions \<Rightarrow> Task" where
  "new_task R T k i title notes priority parent_id blocked_by assigned_to opts =
     \<lparr>tk_id = i, tk_title = title, tk_notes = notes, tk_status = TsPending, tk_priority = priority,
      tk_parent_id = parent_id, tk_blocked_by = blocked_by, tk_created_at = ev_now (tr_env R k),
      tk_created_by = ts_agent_id T, tk_started_at = None, tk_started_by = None, tk_completed_at = None,
      tk_completed_by = None, tk_proof = None, tk_abandoned_at = None, tk_abandoned_reason = None,
      tk_assigned_to = assigned_to, tk_payload = ao_payload opts, tk_parent_change = ao_parent_change opts,
      tk_on_complete = ao_on_complete opts\<rparr>"

text \<open>The checks made once, before the loop. Each reads the store for itself: \<open>between j\<close> is what other writers
  do before the \<open>j\<close>-th read that follows the first.\<close>

fun all_found ::
  "(nat \<Rightarrow> 's \<Rightarrow> 's) \<Rightarrow> ('s \<Rightarrow> 'a \<Rightarrow> task_error + Task) \<Rightarrow> nat \<Rightarrow> 'a list \<Rightarrow> 's \<Rightarrow> 's \<times> (task_error + unit)" where
  "all_found between get j [] s = (s, Inr ())"
| "all_found between get j (b # bs) s =
     (case get s b of
        Inl e \<Rightarrow> (s, Inl e)
      | Inr _ \<Rightarrow> all_found between get (Suc j) bs (between j s))"

definition add_checks ::
  "'s RepoPort \<Rightarrow> Codec \<Rightarrow> (string \<Rightarrow> bool) \<Rightarrow> TaskStore \<Rightarrow> (nat \<Rightarrow> 's \<Rightarrow> 's) \<Rightarrow> 's \<Rightarrow> string \<Rightarrow> string \<Rightarrow> TaskId option \<Rightarrow>
   TaskId list \<Rightarrow> 's \<times> (task_error + unit)" where
  "add_checks R C is_match T between s ref_name plan parent_id blocked_by =
     (case plan_exists R C T s ref_name plan of
        Inl e \<Rightarrow> (s, Inl e)
      | Inr exists \<Rightarrow>
          if \<not> exists then (s, Inl (PlanNotFound plan))
          else
            let s1 = between 0 s in
            (case (case parent_id of
                     None \<Rightarrow> Inr ()
                   | Some parent \<Rightarrow> try_bind (get_task R C T s1 ref_name plan parent) (\<lambda>p.
                       if tk_parent_id p \<noteq> None then Inl (ParentIsSubtask parent) else Inr ())) of
               Inl e \<Rightarrow> (s1, Inl e)
             | Inr _ \<Rightarrow>
                 (case validate_blocker_ids is_match blocked_by of
                    Inl e \<Rightarrow> (s1, Inl e)
                  | Inr _ \<Rightarrow> all_found between (\<lambda>s. get_task R C T s ref_name plan) 2 blocked_by (between 1 s1))))"

definition add_attempt ::
  "'s RepoPort \<Rightarrow> Codec \<Rightarrow> TaskStore \<Rightarrow> string \<Rightarrow> string \<Rightarrow> (nat \<Rightarrow> TaskId \<Rightarrow> Task) \<Rightarrow> nat \<Rightarrow> 's \<Rightarrow>
   's \<times> (task_error + (string, Task) outcome)" where
  "add_attempt R C T ref_name plan mk k s = (s,
     try_bind (task_ids R T s ref_name plan) (\<lambda>ids.
       let task = mk k (task_id_new (next_number ids))
       in Inr (Write (task_path (ts_prefix T) plan (tk_id task)) (encode_task C task)
            (''Add task '' @ plan @ ''/'' @ task_id_str (tk_id task)) (\<lambda>_. task))))"

definition add_task_with_extensions ::
  "'s RepoPort \<Rightarrow> Codec \<Rightarrow> (string \<Rightarrow> bool) \<Rightarrow> TaskStore \<Rightarrow> (nat \<Rightarrow> nat \<Rightarrow> 's \<Rightarrow> 's) \<Rightarrow> 's \<Rightarrow> string \<Rightarrow> string \<Rightarrow>
   string \<Rightarrow> Priority \<Rightarrow> TaskId option \<Rightarrow> TaskId list \<Rightarrow> string option \<Rightarrow> AddTaskOptions \<Rightarrow> 's \<times> (task_error + Task)" where
  "add_task_with_extensions R C is_match T others s ref_name plan title priority parent_id blocked_by assigned_to opts =
     (case normalize_notes (ao_notes opts) of
        Inl e \<Rightarrow> (s, Inl e)
      | Inr notes \<Rightarrow>
          (case add_checks R C is_match T (others MAX_CAS_RETRIES) s ref_name plan parent_id blocked_by of
             (s1, Inl e) \<Rightarrow> (s1, Inl e)
           | (s1, Inr _) \<Rightarrow>
               task_loop R T others s1 ref_name
                 (add_attempt R C T ref_name plan
                    (\<lambda>k i. new_task R T k i title notes priority parent_id blocked_by assigned_to opts))))"

definition add_task ::
  "'s RepoPort \<Rightarrow> Codec \<Rightarrow> (string \<Rightarrow> bool) \<Rightarrow> TaskStore \<Rightarrow> (nat \<Rightarrow> nat \<Rightarrow> 's \<Rightarrow> 's) \<Rightarrow> 's \<Rightarrow> string \<Rightarrow> string \<Rightarrow>
   string \<Rightarrow> Priority \<Rightarrow> TaskId option \<Rightarrow> TaskId list \<Rightarrow> string option \<Rightarrow> 's \<times> (task_error + Task)" where
  "add_task R C is_match T others s ref_name plan title priority parent_id blocked_by assigned_to =
     add_task_with_extensions R C is_match T others s ref_name plan title priority parent_id blocked_by assigned_to
       default_options"

section \<open>Changing tasks\<close>

definition update_task ::
  "'s RepoPort \<Rightarrow> Codec \<Rightarrow> TaskStore \<Rightarrow> (nat \<Rightarrow> nat \<Rightarrow> 's \<Rightarrow> 's) \<Rightarrow> 's \<Rightarrow> string \<Rightarrow> string \<Rightarrow> TaskId \<Rightarrow> string \<Rightarrow>
   (nat \<Rightarrow> 's \<Rightarrow> Task \<Rightarrow> task_error + Task) \<Rightarrow> 's \<times> (task_error + Task)" where
  "update_task R C T others s ref_name plan i description change =
     task_loop R T others s ref_name (\<lambda>k s.
       (case get_task R C T s ref_name plan i of
          Inl e \<Rightarrow> (s, Inl e)
        | Inr task \<Rightarrow>
            let s1 = others k 1 s in (s1,
              try_bind (change k s1 task) (\<lambda>task.
                Inr (Write (task_path (ts_prefix T) plan (tk_id task)) (encode_task C task) description (\<lambda>_. task))))))"

definition classify_blockers ::
  "'s RepoPort \<Rightarrow> Codec \<Rightarrow> TaskStore \<Rightarrow> 's \<Rightarrow> string \<Rightarrow> string \<Rightarrow> TaskId list \<Rightarrow> task_error + BlockerCheck" where
  "classify_blockers R C T s ref_name plan blockers =
     (if blockers = [] then Inr \<lparr>bc_pending = [], bc_missing = []\<rparr>
      else try_bind (list_tasks R C T s ref_name plan) (\<lambda>tasks. Inr (classify_in tasks blockers)))"

definition start_edit ::
  "'s RepoPort \<Rightarrow> Codec \<Rightarrow> TaskStore \<Rightarrow> string \<Rightarrow> string \<Rightarrow> nat \<Rightarrow> 's \<Rightarrow> Task \<Rightarrow> task_error + Task" where
  "start_edit R C T ref_name plan k s task =
     try_bind (check_transition (tk_status task) TrStart) (\<lambda>_.
     try_bind (classify_blockers R C T s ref_name plan (tk_blocked_by task)) (\<lambda>check.
       if bc_missing check \<noteq> [] then Inl (BlockerNotFound (bc_missing check))
       else if bc_pending check \<noteq> [] then Inl (TsBlocked (bc_pending check))
       else Inr (task\<lparr>tk_status := TsInProgress, tk_started_at := Some (ev_now (tr_env R k)),
              tk_started_by := Some (ts_agent_id T)\<rparr>)))"

definition complete_edit :: "'s RepoPort \<Rightarrow> TaskStore \<Rightarrow> Proof \<Rightarrow> nat \<Rightarrow> Task \<Rightarrow> task_error + Task" where
  "complete_edit R T proof k task =
     try_bind (check_transition (tk_status task) TrComplete) (\<lambda>_.
       Inr (task\<lparr>tk_status := TsDone, tk_proof := Some proof, tk_completed_at := Some (ev_now (tr_env R k)),
              tk_completed_by := Some (ts_agent_id T)\<rparr>))"

definition abandon_edit :: "'s RepoPort \<Rightarrow> string \<Rightarrow> nat \<Rightarrow> Task \<Rightarrow> task_error + Task" where
  "abandon_edit R reason k task =
     try_bind (check_transition (tk_status task) TrAbandon) (\<lambda>_.
       Inr (task\<lparr>tk_status := TsAbandoned, tk_abandoned_at := Some (ev_now (tr_env R k)),
              tk_abandoned_reason := Some reason\<rparr>))"

definition blockers_edit ::
  "'s RepoPort \<Rightarrow> Codec \<Rightarrow> TaskStore \<Rightarrow> string \<Rightarrow> string \<Rightarrow> TaskId list \<Rightarrow> 's \<Rightarrow> Task \<Rightarrow> task_error + Task" where
  "blockers_edit R C T ref_name plan blockers s task =
     try_bind (list_tasks R C T s ref_name plan) (\<lambda>tasks.
       case find (\<lambda>b. \<not> list_ex (\<lambda>t. tk_id t = b) tasks) blockers of
         Some b \<Rightarrow> Inl (TaskNotFound plan b)
       | None \<Rightarrow>
           (case blocker_cycle tasks (tk_id task) blockers of
              Some cycle \<Rightarrow> Inl (BlockerCycle cycle)
            | None \<Rightarrow> Inr (task\<lparr>tk_blocked_by := blockers\<rparr>)))"

definition on_task :: "string \<Rightarrow> string \<Rightarrow> TaskId \<Rightarrow> string" where
  "on_task what plan i = what @ plan @ ''/'' @ task_id_str i"

definition start_task ::
  "'s RepoPort \<Rightarrow> Codec \<Rightarrow> TaskStore \<Rightarrow> (nat \<Rightarrow> nat \<Rightarrow> 's \<Rightarrow> 's) \<Rightarrow> 's \<Rightarrow> string \<Rightarrow> string \<Rightarrow> TaskId \<Rightarrow> 's \<times> (task_error + Task)" where
  "start_task R C T others s ref_name plan i =
     update_task R C T others s ref_name plan i (on_task ''Start '' plan i) (start_edit R C T ref_name plan)"

definition complete_task ::
  "'s RepoPort \<Rightarrow> Codec \<Rightarrow> TaskStore \<Rightarrow> (nat \<Rightarrow> nat \<Rightarrow> 's \<Rightarrow> 's) \<Rightarrow> 's \<Rightarrow> string \<Rightarrow> string \<Rightarrow> TaskId \<Rightarrow> Proof \<Rightarrow> 's \<times> (task_error + Task)" where
  "complete_task R C T others s ref_name plan i proof =
     update_task R C T others s ref_name plan i (on_task ''Complete '' plan i) (\<lambda>k _. complete_edit R T proof k)"

definition abandon_task ::
  "'s RepoPort \<Rightarrow> Codec \<Rightarrow> TaskStore \<Rightarrow> (nat \<Rightarrow> nat \<Rightarrow> 's \<Rightarrow> 's) \<Rightarrow> 's \<Rightarrow> string \<Rightarrow> string \<Rightarrow> TaskId \<Rightarrow> string \<Rightarrow> 's \<times> (task_error + Task)" where
  "abandon_task R C T others s ref_name plan i reason =
     (if str_trim reason = [] then (s, Inl ReasonRequired)
      else update_task R C T others s ref_name plan i (on_task ''Abandon '' plan i) (\<lambda>k _. abandon_edit R reason k))"

fun priority_debug :: "Priority \<Rightarrow> string" where
  "priority_debug PrLow = ''Low''"
| "priority_debug PrMedium = ''Medium''"
| "priority_debug PrHigh = ''High''"
| "priority_debug PrCritical = ''Critical''"

definition set_priority ::
  "'s RepoPort \<Rightarrow> Codec \<Rightarrow> TaskStore \<Rightarrow> (nat \<Rightarrow> nat \<Rightarrow> 's \<Rightarrow> 's) \<Rightarrow> 's \<Rightarrow> string \<Rightarrow> string \<Rightarrow> TaskId \<Rightarrow> Priority \<Rightarrow> 's \<times> (task_error + Task)" where
  "set_priority R C T others s ref_name plan i priority =
     update_task R C T others s ref_name plan i (''Set priority '' @ priority_debug priority @ on_task '' on '' plan i)
       (\<lambda>_ _ task. Inr (task\<lparr>tk_priority := priority\<rparr>))"

definition set_title ::
  "'s RepoPort \<Rightarrow> Codec \<Rightarrow> TaskStore \<Rightarrow> (nat \<Rightarrow> nat \<Rightarrow> 's \<Rightarrow> 's) \<Rightarrow> 's \<Rightarrow> string \<Rightarrow> string \<Rightarrow> TaskId \<Rightarrow> string \<Rightarrow> 's \<times> (task_error + Task)" where
  "set_title R C T others s ref_name plan i title =
     (if str_trim title = [] then (s, Inl TitleRequired)
      else update_task R C T others s ref_name plan i (on_task ''Retitle '' plan i) (\<lambda>_ _ task. Inr (task\<lparr>tk_title := title\<rparr>)))"

definition set_notes ::
  "'s RepoPort \<Rightarrow> Codec \<Rightarrow> TaskStore \<Rightarrow> (nat \<Rightarrow> nat \<Rightarrow> 's \<Rightarrow> 's) \<Rightarrow> 's \<Rightarrow> string \<Rightarrow> string \<Rightarrow> TaskId \<Rightarrow> string option \<Rightarrow> 's \<times> (task_error + Task)" where
  "set_notes R C T others s ref_name plan i notes =
     (case normalize_notes notes of
        Inl e \<Rightarrow> (s, Inl e)
      | Inr notes \<Rightarrow>
          update_task R C T others s ref_name plan i
            (on_task (if notes = None then ''Clear notes on '' else ''Set notes on '') plan i)
            (\<lambda>_ _ task. Inr (task\<lparr>tk_notes := notes\<rparr>)))"

definition set_blockers ::
  "'s RepoPort \<Rightarrow> Codec \<Rightarrow> (string \<Rightarrow> bool) \<Rightarrow> TaskStore \<Rightarrow> (nat \<Rightarrow> nat \<Rightarrow> 's \<Rightarrow> 's) \<Rightarrow> 's \<Rightarrow> string \<Rightarrow> string \<Rightarrow> TaskId \<Rightarrow>
   TaskId list \<Rightarrow> 's \<times> (task_error + Task)" where
  "set_blockers R C is_match T others s ref_name plan i blockers =
     (case validate_blocker_ids is_match blockers of
        Inl e \<Rightarrow> (s, Inl e)
      | Inr _ \<Rightarrow>
          update_task R C T others s ref_name plan i (on_task ''Update blockers on '' plan i)
            (\<lambda>_. blockers_edit R C T ref_name plan blockers))"

definition assign_task ::
  "'s RepoPort \<Rightarrow> Codec \<Rightarrow> TaskStore \<Rightarrow> (nat \<Rightarrow> nat \<Rightarrow> 's \<Rightarrow> 's) \<Rightarrow> 's \<Rightarrow> string \<Rightarrow> string \<Rightarrow> TaskId \<Rightarrow> string \<Rightarrow> 's \<times> (task_error + Task)" where
  "assign_task R C T others s ref_name plan i agent =
     update_task R C T others s ref_name plan i (on_task ''Assign '' plan i @ '' to '' @ agent)
       (\<lambda>_ _ task. Inr (task\<lparr>tk_assigned_to := Some agent\<rparr>))"

definition unassign_task ::
  "'s RepoPort \<Rightarrow> Codec \<Rightarrow> TaskStore \<Rightarrow> (nat \<Rightarrow> nat \<Rightarrow> 's \<Rightarrow> 's) \<Rightarrow> 's \<Rightarrow> string \<Rightarrow> string \<Rightarrow> TaskId \<Rightarrow> 's \<times> (task_error + Task)" where
  "unassign_task R C T others s ref_name plan i =
     update_task R C T others s ref_name plan i (on_task ''Unassign '' plan i)
       (\<lambda>_ _ task. Inr (task\<lparr>tk_assigned_to := None\<rparr>))"

section \<open>Queries\<close>

definition next_task_for ::
  "'s RepoPort \<Rightarrow> Codec \<Rightarrow> TaskStore \<Rightarrow> 's \<Rightarrow> string \<Rightarrow> string \<Rightarrow> string option \<Rightarrow> bool \<Rightarrow> task_error + Task option" where
  "next_task_for R C T s ref_name plan assigned_to include_unassigned =
     try_bind (list_tasks R C T s ref_name plan) (\<lambda>tasks. Inr (next_of assigned_to include_unassigned tasks))"

definition next_task :: "'s RepoPort \<Rightarrow> Codec \<Rightarrow> TaskStore \<Rightarrow> 's \<Rightarrow> string \<Rightarrow> string \<Rightarrow> task_error + Task option" where
  "next_task R C T s ref_name plan = next_task_for R C T s ref_name plan None True"

definition derived_status ::
  "'s RepoPort \<Rightarrow> Codec \<Rightarrow> TaskStore \<Rightarrow> 's \<Rightarrow> string \<Rightarrow> string \<Rightarrow> TaskId \<Rightarrow> task_error + TaskStatus" where
  "derived_status R C T s ref_name plan parent_id =
     try_bind (list_tasks R C T s ref_name plan) (\<lambda>tasks.
     try_bind (ok_or (TaskNotFound plan parent_id) (find (\<lambda>t. tk_id t = parent_id) tasks)) (\<lambda>parent.
       Inr (derived_of tasks parent_id parent)))"

definition verify_plan ::
  "'s RepoPort \<Rightarrow> Codec \<Rightarrow> TaskStore \<Rightarrow> 's \<Rightarrow> string \<Rightarrow> string \<Rightarrow> (Proof \<Rightarrow> VerifyResult) \<Rightarrow> task_error + VerifyReport" where
  "verify_plan R C T s ref_name plan verify =
     try_bind (list_tasks R C T s ref_name plan) (\<lambda>tasks.
     try_bind (verify_tasks verify tasks) (\<lambda>results. Inr \<lparr>vp_plan = plan, vp_results = results\<rparr>))"

end
