(* ===== verification/Task_Renumber.thy ===== *)
theory Task_Renumber
  imports Task_Store
begin

text \<open>
  Merge-safe task ids, from \<open>crates/agentstategraph-tasks/src/renumber.rs\<close>: before the other side of a
  merge is merged in, the tasks this side added under ids the other side also added are moved to fresh
  ids, with the references to them rewritten.
\<close>

record Renumbering =
  rn_renamed :: "(string, (TaskId \<times> TaskId) list) btree"
  rn_plan_conflicts :: "string list"
  rn_commits :: "ObjectId list"

definition renumbering_empty :: Renumbering where
  "renumbering_empty = \<lparr>rn_renamed = [], rn_plan_conflicts = [], rn_commits = []\<rparr>"

definition renumbering_is_empty :: "Renumbering \<Rightarrow> bool" where
  "renumbering_is_empty r \<longleftrightarrow> rn_renamed r = [] \<and> rn_plan_conflicts r = []"

definition new_id :: "Renumbering \<Rightarrow> string \<Rightarrow> TaskId \<Rightarrow> TaskId option" where
  "new_id r plan old = Option.bind (map_of (rn_renamed r) plan) (\<lambda>moves. map_option snd (find (\<lambda>(a, _). a = old) moves))"

definition task_entries :: "json \<Rightarrow> (string \<times> json) list" where
  "task_entries plan =
     (case json_as_object plan of Some m \<Rightarrow> filter (\<lambda>(key, _). key \<noteq> META_KEY) m | None \<Rightarrow> [])"

definition opt_json_eq :: "json option \<Rightarrow> json option \<Rightarrow> bool" where
  "opt_json_eq a b = (case (a, b) of (None, None) \<Rightarrow> True | (Some x, Some y) \<Rightarrow> json_eq x y | _ \<Rightarrow> False)"

definition same_task :: "json \<Rightarrow> json \<Rightarrow> bool" where
  "same_task a b \<longleftrightarrow>
     opt_json_eq (json_get a ''created_at'') (json_get b ''created_at'') \<and>
     opt_json_eq (json_get a ''created_by'') (json_get b ''created_by'')"

definition id_number :: "string \<Rightarrow> nat option" where
  "id_number i = (case (task_number (TaskId i) :: task_error + nat) of Inr n \<Rightarrow> Some n | Inl _ \<Rightarrow> None)"

text \<open>\<open>Option\<close> orders \<open>None\<close> before every number.\<close>

definition number_key :: "string \<Rightarrow> nat \<times> string" where
  "number_key i = ((case id_number i of None \<Rightarrow> 0 | Some n \<Rightarrow> Suc n), i)"

definition colliding :: "json \<Rightarrow> json \<Rightarrow> json option \<Rightarrow> string list" where
  "colliding ours theirs base =
     (let base_ids = (case base of None \<Rightarrow> [] | Some b \<Rightarrow> map fst (task_entries b))
      in map fst (filter (\<lambda>(i, task). case map_of (task_entries theirs) i of
                            Some their \<Rightarrow> \<not> same_task task their | None \<Rightarrow> False)
                   (filter (\<lambda>(i, _). i \<notin> set base_ids) (task_entries ours))))"

definition highest :: "json \<Rightarrow> json \<Rightarrow> nat" where
  "highest ours theirs =
     foldr max (List.map_filter (\<lambda>(i, _). id_number i) (task_entries ours @ task_entries theirs)) 0"

definition plan_moves :: "json \<Rightarrow> json \<Rightarrow> json option \<Rightarrow> (TaskId \<times> TaskId) list" where
  "plan_moves ours theirs base =
     (let cs = colliding ours theirs base
      in if cs = [] then []
         else map (\<lambda>(k, i). (TaskId i, task_id_new ((highest ours theirs + 1 + k) mod 2 ^ 32)))
                (enumerate 0 (sort_key number_key cs)))"

definition rename :: "(TaskId \<times> TaskId) list \<Rightarrow> string \<Rightarrow> string option" where
  "rename moves i = map_option (\<lambda>(_, b). task_id_str b) (find (\<lambda>(a, _). task_id_str a = i) moves)"

fun rename_blocker :: "(TaskId \<times> TaskId) list \<Rightarrow> json \<Rightarrow> json" where
  "rename_blocker moves (JString b) = JString (case rename moves b of Some to \<Rightarrow> to | None \<Rightarrow> b)"
| "rename_blocker moves j = j"

definition move_parent :: "(TaskId \<times> TaskId) list \<Rightarrow> (string, json) btree \<Rightarrow> (string, json) btree" where
  "move_parent moves fs =
     (case map_of fs ''parent_id'' of
        Some (JString parent) \<Rightarrow>
          (case rename moves parent of Some to \<Rightarrow> bt_insert ''parent_id'' (JString to) fs | None \<Rightarrow> fs)
      | _ \<Rightarrow> fs)"

definition move_blockers :: "(TaskId \<times> TaskId) list \<Rightarrow> (string, json) btree \<Rightarrow> (string, json) btree" where
  "move_blockers moves fs =
     (case map_of fs ''blocked_by'' of
        Some (JArray blockers) \<Rightarrow> bt_insert ''blocked_by'' (JArray (map (rename_blocker moves) blockers)) fs
      | _ \<Rightarrow> fs)"

definition moved_key :: "(TaskId \<times> TaskId) list \<Rightarrow> string \<Rightarrow> string" where
  "moved_key moves key = (case rename moves key of Some to \<Rightarrow> to | None \<Rightarrow> key)"

fun move_task :: "(TaskId \<times> TaskId) list \<Rightarrow> string \<Rightarrow> json \<Rightarrow> json" where
  "move_task moves key (JObject fs) =
     (let fs = move_blockers moves (move_parent moves fs); new_key = moved_key moves key
      in JObject (if new_key \<noteq> key then bt_insert ''id'' (JString new_key) fs else fs))"
| "move_task moves key task = task"

definition apply_moves :: "json \<Rightarrow> (TaskId \<times> TaskId) list \<Rightarrow> json" where
  "apply_moves plan moves =
     JObject (bt_from_list (map (\<lambda>(key, v). if key = META_KEY then (key, v) else (moved_key moves key, move_task moves key v))
       (case json_as_object plan of Some m \<Rightarrow> m | None \<Rightarrow> [])) [])"

section \<open>Renumbering a ref\<close>

definition read_json :: "'s RepoPort \<Rightarrow> 's \<Rightarrow> string \<Rightarrow> string \<Rightarrow> task_error + json option" where
  "read_json R s ref_name path =
     (case tr_get_json R s ref_name path of
        Inr v \<Rightarrow> Inr (Some v)
      | Inl e \<Rightarrow> if is_path_not_found e then Inr None else Inl (TsRepo e))"

definition arrow :: string where "arrow = [CHR 0xE2, CHR 0x86, CHR 0x92]"

definition listed_moves :: "(TaskId \<times> TaskId) list \<Rightarrow> string" where
  "listed_moves moves = join_with '', '' (map (\<lambda>(a, b). task_id_str a @ arrow @ task_id_str b) moves)"

text \<open>One attempt on one plan. The report it answers with has a conflict, a move with its commit, or
  nothing added.\<close>

definition renumber_attempt ::
  "'s RepoPort \<Rightarrow> TaskStore \<Rightarrow> (nat \<Rightarrow> nat \<Rightarrow> 's \<Rightarrow> 's) \<Rightarrow> string \<Rightarrow> string \<Rightarrow> string \<Rightarrow> Renumbering \<Rightarrow> nat \<Rightarrow> 's \<Rightarrow>
   's \<times> (task_error + (string, Renumbering) outcome)" where
  "renumber_attempt R T others ref_name theirs name report k s =
     (let root = plan_root (ts_prefix T) name in
      case read_json R s ref_name root of
        Inl e \<Rightarrow> (s, Inl e)
      | Inr ours_opt \<Rightarrow>
          let s1 = others k 1 s in
          (case read_json R s1 theirs root of
             Inl e \<Rightarrow> (s1, Inl e)
           | Inr theirs_opt \<Rightarrow>
               (case (ours_opt, theirs_opt) of
                  (Some ours, Some theirs_plan) \<Rightarrow>
                    let s2 = others k 2 s1 in (s2,
                      (case tr_base_json R s2 theirs ref_name root of
                         Inl e \<Rightarrow> Inl (TsRepo e)
                       | Inr base \<Rightarrow>
                           if base = None \<and> \<not> opt_json_eq (json_get ours META_KEY) (json_get theirs_plan META_KEY)
                           then Inr (Answer (report\<lparr>rn_plan_conflicts := rn_plan_conflicts report @ [name]\<rparr>))
                           else let moves = plan_moves ours theirs_plan base in
                             if moves = [] then Inr (Answer report)
                             else Inr (Write root (apply_moves ours moves)
                               (''Renumber tasks in '' @ name @ '' before merging '' @ theirs @ '': '' @ listed_moves moves)
                               (\<lambda>commit. report\<lparr>rn_commits := rn_commits report @ [commit],
                                  rn_renamed := bt_insert name moves (rn_renamed report)\<rparr>))))
                | _ \<Rightarrow> (s1, Inr (Answer report)))))"

fun renumber_plans ::
  "'s RepoPort \<Rightarrow> TaskStore \<Rightarrow> (nat \<Rightarrow> nat \<Rightarrow> nat \<Rightarrow> 's \<Rightarrow> 's) \<Rightarrow> string \<Rightarrow> string \<Rightarrow> nat \<Rightarrow> string list \<Rightarrow> Renumbering \<Rightarrow> 's \<Rightarrow>
   's \<times> (task_error + Renumbering)" where
  "renumber_plans R T others ref_name theirs j [] report s = (s, Inr report)"
| "renumber_plans R T others ref_name theirs j (name # names) report s =
     (case task_loop R T (others j) s ref_name (renumber_attempt R T (others j) ref_name theirs name report) of
        (s1, Inl e) \<Rightarrow> (s1, Inl e)
      | (s1, Inr report) \<Rightarrow> renumber_plans R T others ref_name theirs (Suc j) names report s1)"

definition renumber_before_merge ::
  "'s RepoPort \<Rightarrow> TaskStore \<Rightarrow> (nat \<Rightarrow> nat \<Rightarrow> nat \<Rightarrow> 's \<Rightarrow> 's) \<Rightarrow> 's \<Rightarrow> string \<Rightarrow> string \<Rightarrow> 's \<times> (task_error + Renumbering)" where
  "renumber_before_merge R T others s ref_name theirs =
     (case read_json R s ref_name (ts_prefix T) of
        Inl e \<Rightarrow> (s, Inl e)
      | Inr None \<Rightarrow> (s, Inr renumbering_empty)
      | Inr (Some our_plans) \<Rightarrow>
          let s1 = others 0 0 0 s in
          (case read_json R s1 theirs (ts_prefix T) of
             Inl e \<Rightarrow> (s1, Inl e)
           | Inr None \<Rightarrow> (s1, Inr renumbering_empty)
           | Inr (Some their_plans) \<Rightarrow>
               renumber_plans R T (\<lambda>j. others (Suc j)) ref_name theirs 0
                 (map fst (filter (\<lambda>(name, _). json_get their_plans name \<noteq> None)
                   (case json_as_object our_plans of Some m \<Rightarrow> m | None \<Rightarrow> [])))
                 renumbering_empty s1))"

end
