(* ===== verification/Task_Laws.thy ===== *)
theory Task_Laws
  imports Task_Renumber
begin

text \<open>
  Laws of task ids and of renumbering: a printed number is read back, the numbers handed out are fresh,
  and moving colliding tasks separates the two sides of a merge.
\<close>

section \<open>Numbers of task ids\<close>

lemma parse_usize_digits:
  "ds \<noteq> [] \<Longrightarrow> list_all is_digit ds \<Longrightarrow> digits_val ds < 2 ^ 64 \<Longrightarrow> parse_usize ds = Some (digits_val ds)"
  by (cases ds) (auto simp: parse_usize_def is_digit_def not_le)

lemma digits_val_zeros: "digits_val (replicate k (CHR ''0'') @ s) = digits_val s"
proof -
  have "foldl (\<lambda>a c. 10 * a + digit_val c) 0 (replicate k (CHR ''0'')) = 0"
    by (induction k) (auto simp: digit_val_def)
  then show ?thesis by (simp add: digits_val_def)
qed

lemma parse_u32_pad3: "n < 2 ^ 32 \<Longrightarrow> parse_u32 (pad3 (show_nat n)) = Some n"
proof -
  assume n: "n < 2 ^ 32"
  have "list_all is_digit (pad3 (show_nat n))"
    using show_nat_digits [of n] by (auto simp: pad3_def list_all_iff is_digit_def)
  moreover have "digits_val (pad3 (show_nat n)) = n" by (simp add: pad3_def digits_val_zeros)
  moreover have "pad3 (show_nat n) \<noteq> []" by (simp add: pad3_def)
  moreover have "n < 2 ^ 64" using n by simp
  ultimately have "parse_usize (pad3 (show_nat n)) = Some n" using parse_usize_digits by metis
  with n show ?thesis by (simp add: parse_u32_def)
qed

lemma task_number_new: "n < 2 ^ 32 \<Longrightarrow> task_number (task_id_new n) = Inr n"
  by (simp add: task_number_def task_id_new_def strip_prefix_def parse_u32_pad3 ok_or_def del: power_strict_decreasing)

lemma id_number_new: "n < 2 ^ 32 \<Longrightarrow> id_number (task_id_str (task_id_new n)) = Some n"
  by (simp add: id_number_def task_number_new)

lemma task_id_new_inj: "m < 2 ^ 32 \<Longrightarrow> n < 2 ^ 32 \<Longrightarrow> task_id_new m = task_id_new n \<Longrightarrow> m = n"
  using id_number_new by (metis option.inject)

lemma task_id_new_not_meta: "task_id_str (task_id_new n) \<noteq> META_KEY"
  by (simp add: task_id_new_def META_KEY_def)

lemma nat_max_ge: "x \<in> set xs \<Longrightarrow> x \<le> foldr max xs (0 :: nat)"
  by (induction xs) auto

text \<open>The next number is not the number of any listed id, unless the numbers are used up.\<close>

lemma next_number_fresh:
  assumes "\<forall>i \<in> set ids. \<forall>n. task_number i = (Inr n :: task_error + nat) \<longrightarrow> n + 1 < 2 ^ 32"
  shows "task_id_new (next_number ids) \<notin> set ids"
proof
  let ?f = "\<lambda>i. case task_number i of Inr n \<Rightarrow> Some n | Inl (_ :: task_error) \<Rightarrow> None"
  let ?ns = "List.map_filter ?f ids"
  have "foldr max ?ns 0 + 1 < 2 ^ 32"
  proof -
    have "n + 1 < 2 ^ 32" if "n \<in> set ?ns" for n
      using that assms by (auto simp: map_filter_def split: sum.splits)
    moreover have "foldr max xs 0 = 0 \<or> foldr max xs 0 \<in> set xs" for xs :: "nat list"
      by (induction xs) (auto simp: max_def)
    ultimately show ?thesis by (metis add_0 one_less_numeral_iff one_less_power semiring_norm(76) zero_less_numeral)
  qed
  then have n: "next_number ids = foldr max ?ns 0 + 1" "next_number ids < 2 ^ 32" by (simp_all add: next_number_def)
  assume mem: "task_id_new (next_number ids) \<in> set ids"
  have "(task_number (task_id_new (next_number ids)) :: task_error + nat) = Inr (next_number ids)" by (rule task_number_new [OF n(2)])
  then have "?f (task_id_new (next_number ids)) = Some (next_number ids)" by simp
  with mem have "next_number ids \<in> set ?ns" by (force simp: map_filter_def)
  from nat_max_ge [OF this] n(1) show False by simp
qed

section \<open>Moving tasks\<close>

definition plan_ids :: "json \<Rightarrow> string set" where
  "plan_ids plan = fst ` set (task_entries plan)"

lemma highest_ge: "i \<in> plan_ids ours \<union> plan_ids theirs \<Longrightarrow> id_number i = Some n \<Longrightarrow> n \<le> highest ours theirs"
  unfolding highest_def by (rule nat_max_ge) (force simp: plan_ids_def map_filter_def)

lemma colliding_mem:
  "i \<in> set (colliding ours theirs base) \<longleftrightarrow>
     (\<exists>t u. (i, t) \<in> set (task_entries ours) \<and> map_of (task_entries theirs) i = Some u \<and> \<not> same_task t u \<and>
        (\<forall>b. base = Some b \<longrightarrow> i \<notin> plan_ids b))"
proof -
  let ?bs = "case base of None \<Rightarrow> [] | Some b \<Rightarrow> map fst (task_entries b)"
  have "i \<in> set (colliding ours theirs base) \<longleftrightarrow>
      (\<exists>t. (i, t) \<in> set (task_entries ours) \<and> i \<notin> set ?bs \<and>
        (case map_of (task_entries theirs) i of Some their \<Rightarrow> \<not> same_task t their | None \<Rightarrow> False))"
    unfolding colliding_def Let_def set_map set_filter by (auto simp: image_iff)
  moreover have "i \<notin> set ?bs \<longleftrightarrow> (\<forall>b. base = Some b \<longrightarrow> i \<notin> plan_ids b)"
    by (cases base) (simp_all add: plan_ids_def)
  ultimately show ?thesis by (cases "map_of (task_entries theirs) i") (simp, simp only: option.simps option.inject, blast)
qed

lemma set_plan_moves:
  "set (plan_moves ours theirs base) =
     (\<lambda>k. (TaskId (sort_key number_key (colliding ours theirs base) ! k),
           task_id_new ((highest ours theirs + 1 + k) mod 2 ^ 32))) ` {..< length (colliding ours theirs base)}"
proof -
  let ?S = "sort_key number_key (colliding ours theirs base)"
  have "set (enumerate 0 ?S) = (\<lambda>k. (k, ?S ! k)) ` {..< length (colliding ours theirs base)}"
    by (auto simp: in_set_enumerate_eq)
  then show ?thesis by (simp add: plan_moves_def Let_def image_image)
qed

lemma plan_moves_mem:
  assumes "(a, b) \<in> set (plan_moves ours theirs base)"
  obtains k where "k < length (colliding ours theirs base)" "b = task_id_new ((highest ours theirs + 1 + k) mod 2 ^ 32)"
    "task_id_str a = sort_key number_key (colliding ours theirs base) ! k" "task_id_str a \<in> set (colliding ours theirs base)"
proof -
  from assms obtain k where k: "k < length (colliding ours theirs base)"
    "a = TaskId (sort_key number_key (colliding ours theirs base) ! k)" "b = task_id_new ((highest ours theirs + 1 + k) mod 2 ^ 32)"
    unfolding set_plan_moves by auto
  then have "task_id_str a \<in> set (colliding ours theirs base)" by (metis TaskId.sel length_sort nth_mem set_sort)
  with k that show thesis by simp
qed

lemma plan_moves_all: "i \<in> set (colliding ours theirs base) \<Longrightarrow> \<exists>b. (TaskId i, b) \<in> set (plan_moves ours theirs base)"
proof -
  assume "i \<in> set (colliding ours theirs base)"
  then obtain k where "k < length (colliding ours theirs base)" "sort_key number_key (colliding ours theirs base) ! k = i"
    by (metis in_set_conv_nth length_sort set_sort)
  then show ?thesis unfolding set_plan_moves by auto
qed

text \<open>There is room for the new numbers.\<close>

definition room :: "json \<Rightarrow> json \<Rightarrow> bool" where
  "room ours theirs \<longleftrightarrow> highest ours theirs + length (task_entries ours) + 1 < 2 ^ 32"

lemma length_colliding: "length (colliding ours theirs base) \<le> length (task_entries ours)"
  unfolding colliding_def Let_def length_map by (rule order_trans [OF length_filter_le length_filter_le])

lemma moved_fresh:
  assumes "room ours theirs" "(a, b) \<in> set (plan_moves ours theirs base)"
  shows "task_id_str b \<notin> plan_ids ours \<union> plan_ids theirs" "task_id_str b \<noteq> META_KEY"
proof -
  from assms(2) obtain k
    where k: "k < length (colliding ours theirs base)" "b = task_id_new ((highest ours theirs + 1 + k) mod 2 ^ 32)"
    by (rule plan_moves_mem)
  with assms(1) length_colliding [of ours theirs base] have small: "highest ours theirs + 1 + k < 2 ^ 32" by (simp add: room_def)
  with k have "id_number (task_id_str b) = Some (highest ours theirs + 1 + k)" by (simp add: id_number_new)
  then show "task_id_str b \<notin> plan_ids ours \<union> plan_ids theirs" using highest_ge [of "task_id_str b" ours theirs] by fastforce
  show "task_id_str b \<noteq> META_KEY" using k by (simp add: task_id_new_not_meta)
qed

lemma moves_inj:
  assumes "room ours theirs" "(a, c) \<in> set (plan_moves ours theirs base)" "(b, c) \<in> set (plan_moves ours theirs base)"
  shows "a = b"
proof -
  let ?h = "highest ours theirs + 1" and ?n = "length (colliding ours theirs base)"
  from assms(2) obtain k where k: "k < ?n" "c = task_id_new ((?h + k) mod 2 ^ 32)"
    "task_id_str a = sort_key number_key (colliding ours theirs base) ! k" by (rule plan_moves_mem)
  from assms(3) obtain l where l: "l < ?n" "c = task_id_new ((?h + l) mod 2 ^ 32)"
    "task_id_str b = sort_key number_key (colliding ours theirs base) ! l" by (rule plan_moves_mem)
  have "?h + k < 2 ^ 32" "?h + l < 2 ^ 32"
    using k(1) l(1) assms(1) length_colliding [of ours theirs base] by (simp_all add: room_def)
  with k(2) l(2) have "?h + k = ?h + l" using task_id_new_inj [of "?h + k" "?h + l"] by simp
  with k(3) l(3) show ?thesis by (simp add: TaskId.expand)
qed

lemma rename_cases:
  "(rename moves i = None \<and> (\<forall>b. (TaskId i, b) \<notin> set moves)) \<or>
   (\<exists>b. rename moves i = Some (task_id_str b) \<and> (TaskId i, b) \<in> set moves)"
proof (cases "find (\<lambda>(a, _). task_id_str a = i) moves")
  case None
  then have "\<not> (\<exists>x. x \<in> set moves \<and> (case x of (a, _) \<Rightarrow> task_id_str a = i))" by (simp add: find_None_iff)
  then show ?thesis using None by (auto simp: rename_def)
next
  case (Some e)
  then obtain a b where "e = (a, b)" "task_id_str a = i" "(a, b) \<in> set moves"
    by (cases e) (metis (mono_tags, lifting) case_prod_conv find_Some_iff nth_mem)
  then have "(TaskId i, b) \<in> set moves" by (metis TaskId.collapse)
  with Some \<open>e = (a, b)\<close> show ?thesis by (auto simp: rename_def)
qed

lemma moved_key_iff:
  assumes "room ours theirs" "moves = plan_moves ours theirs base" "i \<in> plan_ids ours"
  shows "moved_key moves i = i \<longleftrightarrow> i \<notin> set (colliding ours theirs base)"
    and "moved_key moves i \<noteq> i \<longrightarrow> moved_key moves i \<notin> plan_ids ours \<union> plan_ids theirs"
    and "moved_key moves i \<noteq> META_KEY"
proof -
  have meta: "i \<noteq> META_KEY" using assms(3) by (auto simp: plan_ids_def task_entries_def split: option.splits)
  consider (kept) "rename moves i = None" "i \<notin> set (colliding ours theirs base)"
    | (moved) b where "rename moves i = Some (task_id_str b)" "(TaskId i, b) \<in> set moves" "i \<in> set (colliding ours theirs base)"
  proof (cases "rename moves i = None")
    case True
    with rename_cases [of moves i] plan_moves_all [of i ours theirs base] assms(2) kept show thesis by auto
  next
    case False
    with rename_cases [of moves i] obtain b where b: "rename moves i = Some (task_id_str b)" "(TaskId i, b) \<in> set moves" by auto
    from b(2) have "i \<in> set (colliding ours theirs base)" unfolding assms(2) by (rule plan_moves_mem) simp
    with b moved show thesis by blast
  qed
  then have "(moved_key moves i = i \<longleftrightarrow> i \<notin> set (colliding ours theirs base)) \<and>
    (moved_key moves i \<noteq> i \<longrightarrow> moved_key moves i \<notin> plan_ids ours \<union> plan_ids theirs) \<and> moved_key moves i \<noteq> META_KEY"
  proof cases
    case kept
    with meta show ?thesis by (simp add: moved_key_def)
  next
    case (moved b)
    with moved_fresh [OF assms(1), of "TaskId i" b base] assms(2,3) show ?thesis by (auto simp: moved_key_def)
  qed
  then show "moved_key moves i = i \<longleftrightarrow> i \<notin> set (colliding ours theirs base)"
    "moved_key moves i \<noteq> i \<longrightarrow> moved_key moves i \<notin> plan_ids ours \<union> plan_ids theirs" "moved_key moves i \<noteq> META_KEY" by blast+
qed

lemma moved_key_meta: "moves = plan_moves ours theirs base \<Longrightarrow> moved_key moves META_KEY = META_KEY"
proof -
  assume m: "moves = plan_moves ours theirs base"
  have "(TaskId META_KEY, b) \<notin> set moves" for b
  proof
    assume "(TaskId META_KEY, b) \<in> set moves"
    then have "META_KEY \<in> set (colliding ours theirs base)" unfolding m by (rule plan_moves_mem) simp
    then show False by (auto simp: colliding_mem task_entries_def split: option.splits)
  qed
  then show "moved_key moves META_KEY = META_KEY"
    using rename_cases [of moves META_KEY] by (auto simp: moved_key_def)
qed

lemma moved_key_inj:
  assumes "room ours theirs" "moves = plan_moves ours theirs base"
  shows "inj_on (moved_key moves) (insert META_KEY (plan_ids ours))"
proof (rule inj_onI)
  fix i j assume ij: "i \<in> insert META_KEY (plan_ids ours)" "j \<in> insert META_KEY (plan_ids ours)" "moved_key moves i = moved_key moves j"
  note meta = moved_key_meta [OF assms(2)]
  show "i = j"
  proof (cases "i = META_KEY \<or> j = META_KEY")
    case True
    with ij meta moved_key_iff(3) [OF assms, of i] moved_key_iff(3) [OF assms, of j] show ?thesis by auto
  next
    case False
    with ij have mem: "i \<in> plan_ids ours" "j \<in> plan_ids ours" by auto
    show ?thesis
    proof (cases "moved_key moves i = i \<or> moved_key moves j = j")
      case True
      with ij(3) mem moved_key_iff(2) [OF assms mem(1)] moved_key_iff(2) [OF assms mem(2)] show ?thesis by auto
    next
      case False
      with rename_cases [of moves i] rename_cases [of moves j] obtain b c
        where "(TaskId i, b) \<in> set moves" "(TaskId j, c) \<in> set moves" "moved_key moves i = task_id_str b" "moved_key moves j = task_id_str c"
        by (auto simp: moved_key_def)
      moreover from this ij(3) have "b = c" by (simp add: TaskId.expand)
      ultimately show ?thesis using moves_inj [OF assms(1), of "TaskId i" b base "TaskId j"] assms(2) by simp
    qed
  qed
qed

text \<open>A moved task keeps every field but its id, its parent and its blockers.\<close>

lemma move_task_get:
  "k \<notin> {''id'', ''parent_id'', ''blocked_by''} \<Longrightarrow> json_get (move_task moves key v) k = json_get v k"
  by (cases v) (auto simp: move_parent_def move_blockers_def btree_simps Let_def split: option.splits json.splits)

lemma same_task_moved: "same_task (move_task moves key v) u = same_task v u"
  by (simp add: same_task_def move_task_get)

lemma move_task_parent:
  "json_get v ''parent_id'' = Some (JString p) \<Longrightarrow>
   json_get (move_task moves key v) ''parent_id'' = Some (JString (moved_key moves p))"
  by (cases v) (auto simp: move_parent_def move_blockers_def moved_key_def btree_simps Let_def split: option.splits json.splits)

lemma move_task_blockers:
  "json_get v ''blocked_by'' = Some (JArray (map JString bs)) \<Longrightarrow>
   json_get (move_task moves key v) ''blocked_by'' = Some (JArray (map JString (map (moved_key moves) bs)))"
proof -
  have rb: "rename_blocker moves (JString b) = JString (moved_key moves b)" for b by (simp add: moved_key_def)
  assume "json_get v ''blocked_by'' = Some (JArray (map JString bs))"
  then obtain fs where fs: "v = JObject fs" "map_of fs ''blocked_by'' = Some (JArray (map JString bs))" by (cases v) auto
  then have "map_of (move_parent moves fs) ''blocked_by'' = Some (JArray (map JString bs))"
    by (auto simp: move_parent_def btree_simps split: option.splits json.splits)
  then show ?thesis using fs(1) by (simp add: move_blockers_def btree_simps Let_def rb del: rename_blocker.simps)
qed

lemma move_task_id:
  "json_get v k \<noteq> None \<Longrightarrow> moved_key moves key \<noteq> key \<Longrightarrow>
   json_get (move_task moves key v) ''id'' = Some (JString (moved_key moves key))"
  by (cases v) (auto simp: btree_simps Let_def)

text \<open>The plan after the moves: its entries are those of the plan before, each under its moved key.\<close>

lemma apply_moves_get:
  assumes "room ours theirs" "moves = plan_moves ours theirs base" "ours = JObject m" "bt_wf m"
  shows "json_get (apply_moves ours moves) META_KEY = json_get ours META_KEY"
    and "i \<noteq> META_KEY \<Longrightarrow> json_get (apply_moves ours moves) i = Some v \<longleftrightarrow>
      (\<exists>key w. (key, w) \<in> set (task_entries ours) \<and> i = moved_key moves key \<and> v = move_task moves key w)"
proof -
  let ?f = "\<lambda>(key, v). if key = META_KEY then (key, v) else (moved_key moves key, move_task moves key v)"
  let ?g = "\<lambda>key. if key = META_KEY then key else moved_key moves key"
  have ids: "plan_ids ours = fst ` set m - {META_KEY}"
    using assms(3) by (auto simp: plan_ids_def task_entries_def image_iff) 
  have fst: "map fst (map ?f m) = map ?g (map fst m)" by (auto simp: case_prod_unfold)
  have "?g = moved_key moves" using moved_key_meta [OF assms(2)] by auto
  then have "inj_on ?g (fst ` set m)"
    using inj_on_subset [OF moved_key_inj [OF assms(1,2)], of "fst ` set m"] ids by auto
  moreover have "distinct (map fst m)" using assms(4) by (simp add: bt_wf_def strict_sorted_iff)
  ultimately have dist: "distinct (map fst (map ?f m))"
    unfolding fst distinct_map [of ?g] list.set_map by blast
  then have rev: "map_of (rev (map ?f m)) = map_of (map ?f m)"
    by (subst map_of_inject_set) (simp_all add: rev_map [symmetric] del: map_map)
  have get: "json_get (apply_moves ours moves) i = Some v \<longleftrightarrow> (i, v) \<in> set (map ?f m)" for i v
    using dist by (simp add: apply_moves_def assms(3) map_of_bt_from_list rev map_of_eq_Some_iff del: map_map set_map)
  have mem: "(k, w) \<in> set m \<longleftrightarrow> json_get ours k = Some w" for k w
    using \<open>distinct (map fst m)\<close> by (simp add: assms(3))
  show "json_get (apply_moves ours moves) META_KEY = json_get ours META_KEY"
  proof -
    have "(META_KEY, v) \<in> set (map ?f m) \<longleftrightarrow> (META_KEY, v) \<in> set m" for v
    proof
      assume "(META_KEY, v) \<in> set (map ?f m)"
      then obtain k w where kw: "(k, w) \<in> set m" "?f (k, w) = (META_KEY, v)" by auto
      then have "k = META_KEY" using moved_key_iff(3) [OF assms(1,2), of k] ids by (force split: if_splits)
      with kw show "(META_KEY, v) \<in> set m" by simp
    qed force
    then have "json_get (apply_moves ours moves) META_KEY = Some v \<longleftrightarrow> json_get ours META_KEY = Some v" for v
      unfolding get mem [symmetric] .
    then show ?thesis by (cases "json_get ours META_KEY") (metis option.exhaust)+
  qed
  show "json_get (apply_moves ours moves) i = Some v \<longleftrightarrow>
      (\<exists>key w. (key, w) \<in> set (task_entries ours) \<and> i = moved_key moves key \<and> v = move_task moves key w)"
    if "i \<noteq> META_KEY"
  proof -
    have image: "y \<in> set (map f m) \<longleftrightarrow> (\<exists>key w. (key, w) \<in> set m \<and> f (key, w) = y)"
      for f :: "string \<times> json \<Rightarrow> string \<times> json" and y by force
    have "(i, v) \<in> set (map ?f m) \<longleftrightarrow> (\<exists>key w. (key, w) \<in> set m \<and> ?f (key, w) = (i, v))" by (rule image)
    also have "\<dots> \<longleftrightarrow> (\<exists>key w. (key, w) \<in> set m \<and> key \<noteq> META_KEY \<and> i = moved_key moves key \<and> v = move_task moves key w)"
      using that by (intro ex_cong1) auto
    also have "\<dots> \<longleftrightarrow> (\<exists>key w. (key, w) \<in> set (task_entries ours) \<and> i = moved_key moves key \<and> v = move_task moves key w)"
      by (simp add: task_entries_def assms(3) conj_assoc)
    finally show ?thesis unfolding get .
  qed
qed

end
