(* ===== verification/Cas_Landing.thy ===== *)
theory Cas_Landing
  imports Cas_Memory Serde
begin

text \<open>
  A change of a document that nobody disturbs lands: the documents the stores write can be read back within
  the fuel, and replacing a document that is there succeeds in the tree, in the commit and in the swap of
  the ref.
\<close>

section \<open>Documents that are read back\<close>

lemma json_depth_object_le:
  "(\<And>p. p \<in> set m \<Longrightarrow> json_depth (snd p) \<le> n) \<Longrightarrow> json_depth (JObject m) \<le> Suc n"
  by (auto intro!: Max.boundedI)

lemma json_depth_array_le: "(\<And>x. x \<in> set xs \<Longrightarrow> json_depth x \<le> n) \<Longrightarrow> json_depth (JArray xs) \<le> Suc n"
  by (auto intro!: Max.boundedI)

lemma atom_json_wf: "json_wf (atom_to_json a)" "json_depth (atom_to_json a) = 0"
proof -
  have "sint (i :: 64 word) < 2 ^ 64" "- (2 ^ 63) \<le> sint i" "uint (u :: 64 word) < 2 ^ 64" "- (2 ^ 63) \<le> uint u" for i u
    using sint_lt [of i] sint_ge [of i] uint_lt2p [of u] by simp_all (rule order_trans [OF _ uint_ge_0], simp)
  then show "json_wf (atom_to_json a)" by (cases a) simp_all
  show "json_depth (atom_to_json a) = 0" by (cases a) simp_all
qed

lemma opt_results_Inr_all:
  "opt_results (map f xs) = Some (Inr ys) \<Longrightarrow> length ys = length xs \<and> (\<forall>y \<in> set ys. \<exists>x \<in> set xs. f x = Some (Inr y))"
  by (induction xs arbitrary: ys) (fastforce split: option.splits sum.splits)+

lemma to_json_readable:
  "to_json n (memory_store oid) s z = Some (Inr v) \<Longrightarrow> json_wf v \<and> json_depth v \<le> n"
proof (induction n arbitrary: z v)
  case 0
  then show ?case by (cases z) (auto simp: atom_json_wf)
next
  case (Suc n)
  let ?f = "\<lambda>i. case load_object (memory_store oid) s i of Inl e \<Rightarrow> Some (Inl e) | Inr y \<Rightarrow> to_json n (memory_store oid) s y"
  have child: "json_wf y \<and> json_depth y \<le> n" if "?f i = Some (Inr y)" for i y
    using that Suc.IH by (auto split: sum.splits)
  have items: "\<forall>y \<in> set ys. json_wf y \<and> json_depth y \<le> n" if "opt_results (map ?f is) = Some (Inr ys)" for "is" ys
    using opt_results_Inr_all [OF that] child by blast
  have entries: "map (\<lambda>p. ?f (snd p)) es = map ?f (map snd es)" for es :: "(string \<times> ObjectId) list" by simp
  show ?case
  proof (cases z)
    case (ONode node)
    show ?thesis
    proof (cases node)
      case (NMap es)
      with Suc.prems ONode obtain ys where ys: "opt_results (map ?f (map snd es)) = Some (Inr ys)"
        "v = JObject (bt_from_list (zip (map fst es) ys) [])"
        by (auto simp: entries opt_map_Inr Let_def simp del: map_map)
      have "snd p \<in> set ys" if "p \<in> set (bt_from_list (zip (map fst es) ys) [])" for p
      proof -
        have "bt_wf (bt_from_list (zip (map fst es) ys) [])" by (rule bt_wf_from_list) (simp add: bt_wf_def)
        with that have "map_of (bt_from_list (zip (map fst es) ys) []) (fst p) = Some (snd p)"
          by (simp add: bt_wf_def strict_sorted_iff)
        then have "(fst p, snd p) \<in> set (zip (map fst es) ys)"
          by (auto simp: map_of_bt_from_list dest: map_of_SomeD)
        then show ?thesis by (rule set_zip_rightD)
      qed
      with items [OF ys(1)] ys(2) show ?thesis
        using bt_wf_from_list [of "[]" "zip (map fst es) ys"] json_depth_object_le [of "bt_from_list (zip (map fst es) ys) []" n]
        by (auto simp: bt_wf_def)
    next
      case (NList ids)
      with Suc.prems ONode obtain ys where "opt_results (map ?f ids) = Some (Inr ys)" "v = JArray ys"
        by (auto simp: opt_map_Inr Let_def)
      with items json_depth_array_le [of ys n] show ?thesis by auto
    next
      case (NSet ids)
      with Suc.prems ONode obtain ys where "opt_results (map ?f ids) = Some (Inr ys)" "v = JArray ys"
        by (auto simp: opt_map_Inr Let_def)
      with items json_depth_array_le [of ys n] show ?thesis by auto
    qed
  qed (use Suc.prems in \<open>auto simp: atom_json_wf\<close>)
qed

lemma obj_of_readable:
  assumes "\<And>k v. (k, Some v) \<in> set fs \<Longrightarrow> json_wf v \<and> json_depth v \<le> n"
  shows "json_wf (obj_of fs) \<and> json_depth (obj_of fs) \<le> Suc n"
proof -
  let ?xs = "List.map_filter (\<lambda>(k, v). map_option (Pair k) v) fs"
  let ?m = "bt_from_list ?xs []"
  have wf: "bt_wf ?m" by (rule bt_wf_from_list) (simp add: bt_wf_def)
  have "json_wf (snd p) \<and> json_depth (snd p) \<le> n" if "p \<in> set ?m" for p
  proof -
    from that wf have "map_of ?m (fst p) = Some (snd p)" by (simp add: bt_wf_def strict_sorted_iff)
    then have "(fst p, snd p) \<in> set ?xs" by (auto simp: map_of_bt_from_list dest: map_of_SomeD)
    then have "(fst p, Some (snd p)) \<in> set fs" by (auto simp: map_filter_def)
    then show ?thesis by (rule assms)
  qed
  with wf show ?thesis using json_depth_object_le [of ?m n] by (auto simp: obj_of_def)
qed

lemma opt_json_readable:
  "(\<And>x. json_wf (enc x) \<and> json_depth (enc x) \<le> n) \<Longrightarrow> json_wf (opt_json enc y) \<and> json_depth (opt_json enc y) \<le> n"
  by (cases y) (simp_all add: opt_json_def)

section \<open>Replacing what is there\<close>

context content_store
begin

lemma set_recursive_replaces:
  "inv s \<Longrightarrow> view s vid = Some val \<Longrightarrow> object_ok x \<Longrightarrow> view_nav (view s) x p = Some z \<Longrightarrow>
   \<exists>s' y. set_recursive S s x p d vid = (s', Inr y)"
proof (induction p arbitrary: x d)
  case Nil
  then show ?case by (auto simp: load_object_eq)
next
  case (Cons c rest)
  from Cons.prems(4) obtain i y where i: "child_id_at x c = Some i" "view s i = Some y" "view_nav (view s) y rest = Some z"
    by (auto split: option.splits)
  have load: "load_object S s i = Inr y" using i(2) Cons.prems(1) by (simp add: load_object_eq)
  have y: "object_ok y" using addressed [OF Cons.prems(1)] i(2) by (auto simp: view_addressed_def)
  from Cons.IH [OF Cons.prems(1,2) y i(3)] obtain s1 new
    where rec: "set_recursive S s y rest (d + 1) vid = (s1, Inr new)" by blast
  from set_recursive_correct [OF Cons.prems(1,2) y rec] have "inv s1" "object_ok new" by blast+
  then obtain s2 where "store_object S s1 new = (s2, Inr (oid new))"
    using store_object_eq [of s1 new] by (cases "store_object S s1 new") auto
  with rec i(1) load show ?case
    by (cases "(x, c)" rule: child_id_at.cases) (auto simp: store_child_def rebuild_def split: if_splits)
qed

lemma tree_set_replaces:
  assumes "inv s" "object_ok v" "view_get (view s) root p = Some z"
  shows "\<exists>s' root'. tree_set S s root p v = (s', Inr root')"
proof -
  obtain s1 t where put: "store_object S s v = (s1, t)" by force
  from put_le [OF assms(1,2) put] have s1: "t = Inr (oid v)" "inv s1" "view s1 (oid v) = Some v" "view s \<subseteq>\<^sub>m view s1" by auto
  from view_get_mono [OF s1(4) assms(3)] obtain x where x: "view s1 root = Some x" "view_nav (view s1) x p = Some z"
    by (auto simp: view_get_def split: option.splits)
  have ok: "object_ok x" using addressed [OF s1(2)] x(1) by (auto simp: view_addressed_def)
  from set_recursive_replaces [OF s1(2,3) ok x(2)] obtain s2 y where rec: "set_recursive S s1 x p 0 (oid v) = (s2, Inr y)" by blast
  from set_recursive_correct [OF s1(2,3) ok rec] have "inv s2" "object_ok y" by blast+
  then obtain s3 where "store_object S s2 y = (s3, Inr (oid y))"
    using store_object_eq [of s2 y] by (cases "store_object S s2 y") auto
  with rec x(1) s1 put show ?thesis by (simp add: tree_set_def store_child_def load_object_eq ok_or_def)
qed

end

section \<open>The swap on a calm branch\<close>

text \<open>Nothing stands in the way of a write: no taints, no sealed epochs, no session, a branch with a stored
  head.\<close>

definition calm :: "Repository \<Rightarrow> string \<Rightarrow> MemoryStorage \<Rightarrow> bool" where
  "calm r name s \<longleftrightarrow> rp_active_session r = None \<and> ms_taints s = [] \<and> ms_epochs s = [] \<and>
     refuse_reserved_ref name = Inr () \<and> (\<exists>h c. ref_of r s name = Some h \<and> map_of (ms_commits s) h = Some c)"

lemma calm_guards:
  assumes "ms_taints s = []" "\<not> path_is_reserved path"
  shows "cas_guards E s path options = Inr []"
proof -
  have "tc_taints (evaluate_access p a c [] now) = []" "tc_quarantines (evaluate_access p a c [] now) = []" for p a c now
    by (simp_all add: evaluate_access_def ancestor_candidates_def taint_check_clear_def Let_def)
  with assms show ?thesis
    by (simp add: cas_guards_def check_meta_guard_def try_bind_def repo_check_taint_def check_taint_def map_err_def
        taint_refusal_def Let_def)
qed

lemma calm_advance:
  assumes "refuse_reserved_ref name = Inr ()" "ms_epochs s = []" "has_active r s" "ref_of r s name = Some h"
  shows "advance_ref r s s name h n = (ref_moved r s name n, Inr True)"
proof -
  have "enforce_epoch_seals r s name n = Inr ()" using assms(2) by (intro enforce_epoch_seals_holds) (simp add: seals_hold_def)
  with assms show ?thesis
    by (auto simp: advance_ref_def cas_ref_def cas_ref_swap_def require_namespace_def has_active_def ref_of_def ref_moved_def map_err_def)
qed

text \<open>Nobody acts between the building of a commit and the check of the seals.\<close>

definition undisturbed :: "Env \<Rightarrow> bool" where
  "undisturbed E \<longleftrightarrow> (\<forall>k s. ev_at_check E k s = s)"

lemma swap_succeeds:
  assumes "port_ok E r name s" "undisturbed E \<and> calm r name s" "readable fuel v" "\<not> path_is_reserved path"
    and "tr_get_json (memory_repo fuel E F r) s name path = Inr w" "tr_head (memory_repo fuel E F r) s name = Inr h"
  shows "\<exists>s' i. tr_set_json_cas (memory_repo fuel E F r) k s name h path v options = (s', Inr i) \<and> calm r name s'"
proof -
  let ?E = "env_shift E k" and ?S = "memory_store (ev_oid E)"
  from assms(1) have ok: "collision_free (ev_oid E)" "rp_active_epoch r = None" "objects_inv (ev_oid E) s" "has_active r s" "no_watches s"
    by (auto simp: port_ok_def)
  from conjunct2 [OF assms(2)] obtain h' c where calm: "rp_active_session r = None" "ms_taints s = []" "ms_epochs s = []" "refuse_reserved_ref name = Inr ()"
    "ref_of r s name = Some h'" "map_of (ms_commits s) h' = Some c" by (auto simp: calm_def)
  have h: "h' = h" using assms(6) resolve_ref_branch [OF ok(4) calm(5)] by (simp add: memory_repo_def repo_head_def)
  from memory_get_json_Inr [OF ok(4) calm(5) ok(3), of fuel F path w] assms(5) calm(6)
  obtain p z where p: "parse_path path = Inr p" "view_get (memory_view s) (cm_state_root c) p = Some z" by auto
  obtain s1 t where sv: "store_value ?E s v = (s1, t)" by force
  from store_value_stores [of ?E s v s1 t] ok(1,3) assms(3) sv obtain x where x: "t = Inr x" "objects_inv (ev_oid E) s1"
    "same_but_objects s s1" "memory_view s \<subseteq>\<^sub>m memory_view s1" "object_ok x" by (auto simp: readable_def)
  from content_store.tree_set_replaces [OF memory_content_store [OF ok(1)] x(2,5) view_get_mono [OF x(4) p(2)]]
  obtain s2 root where ts: "tree_set ?S s1 (cm_state_root c) p x = (s2, Inr root)" by blast
  obtain s3 where cc: "create_commit ?E k r s2 root [h] options = (s3, Inr (new_commit ?E k root [h] options))"
    using create_commit_answers [OF ok(2) calm(1)] by blast
  define n where "n = new_commit ?E k root [h] options"
  from create_commit_Inr [OF ok(2) cc] same_but_objects_fields [OF x(3)] same_but_objects_fields [OF memory_tree_writes_same(1) [OF ts]]
  have s3: "ms_refs s3 = ms_refs s" "ms_namespaces s3 = ms_namespaces s" "ms_taints s3 = []" "ms_epochs s3 = []"
    "ms_commits s3 = bt_insert (cm_id n) n (ms_commits s)" using calm(2,3) by (auto simp: n_def)
  have adv: "advance_ref r (ev_at_check ?E k s3) s3 name h (cm_id n) = (ref_moved r s3 name (cm_id n), Inr True)"
    using calm_advance [of name s3 r h "cm_id n"] calm(4,5) s3 ok(4) h assms(2)
    by (simp add: has_active_def ref_of_def undisturbed_def)
  have "no_watches (ref_moved r s3 name (cm_id n))" using s3(3) by (simp add: no_watches_def)
  with cc adv sv x ts p calm(6) h have "set_json_cas ?E F (\<lambda>_ _ s. s) k r s name h path v options =
      (ref_moved r s3 name (cm_id n), Inr (cm_id n))"
    by (simp add: set_json_cas_eq calm_guards [OF calm(2) assms(4)] commit_or_def get_commit_def ok_or_def map_err_def try_bind_def
        n_def after_write_quiet)
  moreover have "calm r name (ref_moved r s3 name (cm_id n))"
    using calm(1,4) s3 by (simp add: calm_def btree_simps)
  ultimately show ?thesis by (simp add: memory_repo_def)
qed

lemma reserved_secret: "path_is_secret p \<Longrightarrow> path_is_reserved p"
  unfolding path_is_secret_def path_is_reserved_def is_prefix_iff
  by (auto simp: META_SECRET_PREFIX_def META_PATH_PREFIX_def)

section \<open>A change lands\<close>

lemma change_lands:
  assumes "port_ok E r name s" "undisturbed E \<and> calm r name s" "R = memory_repo fuel E F r" "read s = Inr x" "change 0 s x = Inr y"
    and "tr_get_json R s name (path y) = Inr w" "readable fuel (enc y)" "\<not> path_is_reserved (path y)"
  shows "\<exists>s'. cas_loop (Suc m) 0 R opts failed gave_up (\<lambda>_ _ s. s) s name
      (read_change (\<lambda>_ _ s. s) read change path enc desc result) = (s', Inr (result y)) \<and>
    port_ok E r name s' \<and> calm r name s' \<and> tr_get_json R s' name (path y) = Inr (enc y)"
proof -
  from memport.head_ok [OF assms(1)] obtain h where h: "tr_head R s name = Inr h" unfolding assms(3) by blast
  from swap_succeeds [OF assms(1,2,7,8) assms(6) [unfolded assms(3)] h [unfolded assms(3)], of 0 "opts 0 (desc y)"] obtain s' c
    where swap: "tr_set_json_cas R 0 s name h (path y) (enc y) (opts 0 (desc y)) = (s', Inr c)" "calm r name s'"
    unfolding assms(3) by blast
  have "\<not> path_is_secret (path y)" using assms(8) reserved_secret by blast
  from swap_won [OF assms(1,7) this swap(1) [unfolded assms(3)]] have "port_ok E r name s'"
    "tr_get_json R s' name (path y) = Inr (enc y)" unfolding assms(3) by blast+
  with h swap assms(4,5) show ?thesis by (simp add: read_change_def)
qed

end
