(* ===== verification/Task_Edits.thy ===== *)
theory Task_Edits
  imports Task_Laws Cas_Landing
begin

text \<open>
  The edits of a task the store offers, as one datatype, and what they keep: the fields that belong to a
  status, terminal states, and documents that can be stored and read back.
\<close>

datatype task_edit =
    EdStart | EdComplete Proof | EdAbandon string | EdPriority Priority | EdTitle string | EdNotes "string option"
  | EdBlockers "TaskId list" | EdAssign string | EdUnassign

fun edit_task :: "'s RepoPort \<Rightarrow> Codec \<Rightarrow> TaskStore \<Rightarrow> string \<Rightarrow> string \<Rightarrow> task_edit \<Rightarrow> nat \<Rightarrow> 's \<Rightarrow> Task \<Rightarrow> task_error + Task" where
  "edit_task R C T ref_name plan EdStart k s t = start_edit R C T ref_name plan k s t"
| "edit_task R C T ref_name plan (EdComplete p) k s t = complete_edit R T p k t"
| "edit_task R C T ref_name plan (EdAbandon reason) k s t = abandon_edit R reason k t"
| "edit_task R C T ref_name plan (EdPriority p) k s t = Inr (t\<lparr>tk_priority := p\<rparr>)"
| "edit_task R C T ref_name plan (EdTitle x) k s t = Inr (t\<lparr>tk_title := x\<rparr>)"
| "edit_task R C T ref_name plan (EdNotes x) k s t = Inr (t\<lparr>tk_notes := x\<rparr>)"
| "edit_task R C T ref_name plan (EdBlockers bs) k s t = blockers_edit R C T ref_name plan bs s t"
| "edit_task R C T ref_name plan (EdAssign a) k s t = Inr (t\<lparr>tk_assigned_to := Some a\<rparr>)"
| "edit_task R C T ref_name plan EdUnassign k s t = Inr (t\<lparr>tk_assigned_to := None\<rparr>)"

lemma edit_task_fun:
  "edit_task R C T ref_name plan EdStart = start_edit R C T ref_name plan"
  "edit_task R C T ref_name plan (EdComplete p) = (\<lambda>k _. complete_edit R T p k)"
  "edit_task R C T ref_name plan (EdAbandon reason) = (\<lambda>k _. abandon_edit R reason k)"
  "edit_task R C T ref_name plan (EdPriority pr) = (\<lambda>_ _ t. Inr (t\<lparr>tk_priority := pr\<rparr>))"
  "edit_task R C T ref_name plan (EdTitle x) = (\<lambda>_ _ t. Inr (t\<lparr>tk_title := x\<rparr>))"
  "edit_task R C T ref_name plan (EdNotes y) = (\<lambda>_ _ t. Inr (t\<lparr>tk_notes := y\<rparr>))"
  "edit_task R C T ref_name plan (EdBlockers bs) = (\<lambda>_. blockers_edit R C T ref_name plan bs)"
  "edit_task R C T ref_name plan (EdAssign a) = (\<lambda>_ _ t. Inr (t\<lparr>tk_assigned_to := Some a\<rparr>))"
  "edit_task R C T ref_name plan EdUnassign = (\<lambda>_ _ t. Inr (t\<lparr>tk_assigned_to := None\<rparr>))"
  by (rule ext, rule ext, rule ext, simp)+

text \<open>Every operation on a task is a check of its arguments followed by one of these edits.\<close>

lemma task_operations_edit:
  "start_task R C T others s ref_name plan i =
     update_task R C T others s ref_name plan i (on_task ''Start '' plan i) (edit_task R C T ref_name plan EdStart)"
  "complete_task R C T others s ref_name plan i p =
     update_task R C T others s ref_name plan i (on_task ''Complete '' plan i) (edit_task R C T ref_name plan (EdComplete p))"
  "str_trim reason \<noteq> [] \<Longrightarrow> abandon_task R C T others s ref_name plan i reason =
     update_task R C T others s ref_name plan i (on_task ''Abandon '' plan i) (edit_task R C T ref_name plan (EdAbandon reason))"
  "set_priority R C T others s ref_name plan i pr =
     update_task R C T others s ref_name plan i (''Set priority '' @ priority_debug pr @ on_task '' on '' plan i)
       (edit_task R C T ref_name plan (EdPriority pr))"
  "str_trim title \<noteq> [] \<Longrightarrow> set_title R C T others s ref_name plan i title =
     update_task R C T others s ref_name plan i (on_task ''Retitle '' plan i) (edit_task R C T ref_name plan (EdTitle title))"
  "assign_task R C T others s ref_name plan i agent =
     update_task R C T others s ref_name plan i (on_task ''Assign '' plan i @ '' to '' @ agent)
       (edit_task R C T ref_name plan (EdAssign agent))"
  "unassign_task R C T others s ref_name plan i =
     update_task R C T others s ref_name plan i (on_task ''Unassign '' plan i) (edit_task R C T ref_name plan EdUnassign)"
  "validate_blocker_ids is_match bs = (Inr () :: task_error + unit) \<Longrightarrow> set_blockers R C is_match T others s ref_name plan i bs =
     update_task R C T others s ref_name plan i (on_task ''Update blockers on '' plan i) (edit_task R C T ref_name plan (EdBlockers bs))"
  "normalize_notes notes = (Inr y :: task_error + string option) \<Longrightarrow> set_notes R C T others s ref_name plan i notes =
     update_task R C T others s ref_name plan i (on_task (if y = None then ''Clear notes on '' else ''Set notes on '') plan i)
       (edit_task R C T ref_name plan (EdNotes y))"
  by (simp_all only: edit_task_fun start_task_def complete_task_def abandon_task_def set_priority_def set_title_def assign_task_def
      unassign_task_def set_blockers_def set_notes_def if_False sum.case)

section \<open>Fields that belong to a status\<close>

definition task_wf :: "Task \<Rightarrow> bool" where
  "task_wf t \<longleftrightarrow>
     (tk_status t = TsDone \<longleftrightarrow> tk_proof t \<noteq> None) \<and>
     (tk_status t = TsDone \<longleftrightarrow> tk_completed_at t \<noteq> None \<and> tk_completed_by t \<noteq> None) \<and>
     (tk_completed_at t = None \<longleftrightarrow> tk_completed_by t = None) \<and>
     (tk_status t = TsAbandoned \<longleftrightarrow> tk_abandoned_at t \<noteq> None \<and> tk_abandoned_reason t \<noteq> None) \<and>
     (tk_abandoned_at t = None \<longleftrightarrow> tk_abandoned_reason t = None) \<and>
     (tk_status t \<in> {TsInProgress, TsDone} \<longrightarrow> tk_started_at t \<noteq> None \<and> tk_started_by t \<noteq> None) \<and>
     (tk_status t = TsPending \<longrightarrow> tk_started_at t = None \<and> tk_started_by t = None)"

lemma new_task_wf: "task_wf (new_task R T k i title notes priority parent_id blocked_by assigned_to opts)"
  by (simp add: task_wf_def new_task_def)

lemma check_transition_Inr:
  "check_transition st tr = Inr u \<longleftrightarrow> (st, tr) \<in> {(TsPending, TrStart), (TsInProgress, TrComplete), (TsPending, TrAbandon), (TsInProgress, TrAbandon)}"
  by (simp add: check_transition_def)

lemma start_edit_Inr:
  "start_edit R C T ref_name plan k s t = Inr u \<longleftrightarrow> tk_status t = TsPending \<and>
     (\<exists>check. classify_blockers R C T s ref_name plan (tk_blocked_by t) = Inr check \<and> bc_missing check = [] \<and> bc_pending check = []) \<and>
     u = t\<lparr>tk_status := TsInProgress, tk_started_at := Some (ev_now (tr_env R k)), tk_started_by := Some (ts_agent_id T)\<rparr>"
  by (auto simp: start_edit_def try_bind_eq_Inr check_transition_Inr)

lemma complete_edit_Inr:
  "complete_edit R T p k t = Inr u \<longleftrightarrow> tk_status t = TsInProgress \<and>
     u = t\<lparr>tk_status := TsDone, tk_proof := Some p, tk_completed_at := Some (ev_now (tr_env R k)), tk_completed_by := Some (ts_agent_id T)\<rparr>"
  by (auto simp: complete_edit_def try_bind_eq_Inr check_transition_Inr)

lemma abandon_edit_Inr:
  "abandon_edit R reason k t = Inr u \<longleftrightarrow> tk_status t \<in> {TsPending, TsInProgress} \<and>
     u = t\<lparr>tk_status := TsAbandoned, tk_abandoned_at := Some (ev_now (tr_env R k)), tk_abandoned_reason := Some reason\<rparr>"
  by (auto simp: abandon_edit_def try_bind_eq_Inr check_transition_Inr)

lemma blockers_edit_Inr:
  "blockers_edit R C T ref_name plan bs s t = Inr u \<longleftrightarrow>
     (\<exists>tasks. list_tasks R C T s ref_name plan = Inr tasks \<and> (\<forall>b \<in> set bs. \<exists>x \<in> set tasks. tk_id x = b) \<and>
        blocker_cycle tasks (tk_id t) bs = None) \<and> u = t\<lparr>tk_blocked_by := bs\<rparr>"
  by (auto simp: blockers_edit_def try_bind_eq_Inr find_None_iff list_ex_iff split: option.splits)

lemmas edit_Inr = start_edit_Inr complete_edit_Inr abandon_edit_Inr blockers_edit_Inr

lemma task_wf_update [simp]:
  "task_wf (t\<lparr>tk_priority := p\<rparr>) = task_wf t" "task_wf (t\<lparr>tk_title := x\<rparr>) = task_wf t"
  "task_wf (t\<lparr>tk_notes := n\<rparr>) = task_wf t" "task_wf (t\<lparr>tk_blocked_by := bs\<rparr>) = task_wf t"
  "task_wf (t\<lparr>tk_assigned_to := a\<rparr>) = task_wf t"
  by (simp_all add: task_wf_def)

lemma edit_task_wf:
  assumes "edit_task R C T ref_name plan e k s t = Inr u" "task_wf t"
  shows "task_wf u"
proof (cases e)
  case EdStart
  with assms(1) have "tk_status t = TsPending" "tk_status u = TsInProgress" "tk_started_at u \<noteq> None" "tk_started_by u \<noteq> None"
    "tk_proof u = tk_proof t" "tk_completed_at u = tk_completed_at t" "tk_completed_by u = tk_completed_by t"
    "tk_abandoned_at u = tk_abandoned_at t" "tk_abandoned_reason u = tk_abandoned_reason t"
    by (auto simp: start_edit_Inr)
  with assms(2) show ?thesis unfolding task_wf_def by auto
next
  case (EdComplete p)
  with assms(1) have "tk_status t = TsInProgress" "tk_status u = TsDone" "tk_started_at u = tk_started_at t"
    "tk_started_by u = tk_started_by t" "tk_proof u \<noteq> None" "tk_completed_at u \<noteq> None" "tk_completed_by u \<noteq> None"
    "tk_abandoned_at u = tk_abandoned_at t" "tk_abandoned_reason u = tk_abandoned_reason t"
    by (auto simp: complete_edit_Inr)
  with assms(2) show ?thesis unfolding task_wf_def by auto
next
  case (EdAbandon reason)
  with assms(1) have "tk_status t \<noteq> TsDone" "tk_status u = TsAbandoned" "tk_proof u = tk_proof t"
    "tk_completed_at u = tk_completed_at t" "tk_completed_by u = tk_completed_by t"
    "tk_abandoned_at u \<noteq> None" "tk_abandoned_reason u \<noteq> None" by (auto simp: abandon_edit_Inr)
  with assms(2) show ?thesis unfolding task_wf_def by auto
next
  case (EdBlockers bs)
  with assms show ?thesis by (auto simp: blockers_edit_Inr)
qed (use assms in auto)

lemma edit_task_keeps:
  assumes "edit_task R C T ref_name plan e k s t = Inr u"
  shows "tk_id u = tk_id t \<and> tk_created_at u = tk_created_at t \<and> tk_created_by u = tk_created_by t \<and>
    tk_parent_id u = tk_parent_id t \<and> tk_payload u = tk_payload t \<and>
    (is_terminal (tk_status t) \<longrightarrow> tk_status u = tk_status t \<and> tk_proof u = tk_proof t \<and>
       tk_abandoned_reason u = tk_abandoned_reason t)"
  using assms by (cases e) (auto simp: edit_Inr)

text \<open>The tasks a store can hold: those it adds, and what edits by any agent make of them.\<close>

inductive task_made :: "'s RepoPort \<Rightarrow> Task \<Rightarrow> bool" for R where
  made_new: "task_made R (new_task R T k i title notes priority parent_id blocked_by assigned_to opts)"
| made_edit: "task_made R t \<Longrightarrow> edit_task R C T ref_name plan e k s t = Inr u \<Longrightarrow> task_made R u"

lemma task_made_wf: "task_made R t \<Longrightarrow> task_wf t"
  by (induction rule: task_made.induct) (simp_all add: new_task_wf edit_task_wf)

text \<open>An edit that changes the status takes one of the transitions of the state machine.\<close>

lemma edit_task_status:
  assumes "edit_task R C T ref_name plan e k s t = Inr u" "tk_status u \<noteq> tk_status t"
  shows "\<exists>tr. check_transition (tk_status t) tr = (Inr () :: task_error + unit) \<and> tk_status u = transition_target tr"
proof (cases e)
  case EdStart
  with assms(1) show ?thesis by (intro exI [of _ TrStart]) (auto simp: check_transition_Inr start_edit_Inr)
next
  case (EdComplete p)
  with assms(1) show ?thesis by (intro exI [of _ TrComplete]) (auto simp: check_transition_Inr complete_edit_Inr)
next
  case (EdAbandon reason)
  with assms(1) show ?thesis by (intro exI [of _ TrAbandon]) (auto simp: check_transition_Inr abandon_edit_Inr)
qed (use assms in \<open>auto simp: blockers_edit_Inr\<close>)

section \<open>Documents that are read back\<close>

lemma small_json_readable:
  "json_wf (encode_time C t) \<and> json_depth (encode_time C t) = 0"
  "json_wf (encode_task_id i) \<and> json_depth (encode_task_id i) = 0"
  "json_wf (encode_proof p) \<and> json_depth (encode_proof p) \<le> 1"
  "json_wf (encode_hook h) \<and> json_depth (encode_hook h) \<le> 1"
  "json_wf (JArray (map encode_task_id bs)) \<and> json_depth (JArray (map encode_task_id bs)) \<le> 1"
proof -
  show "json_wf (encode_time C t) \<and> json_depth (encode_time C t) = 0"
    "json_wf (encode_task_id i) \<and> json_depth (encode_task_id i) = 0" for i
    by (simp_all add: encode_time_def encode_task_id_def)
  then have "json_depth (JArray (map encode_task_id bs)) \<le> Suc 0"
    by (intro json_depth_array_le) auto
  then show "json_wf (JArray (map encode_task_id bs)) \<and> json_depth (JArray (map encode_task_id bs)) \<le> 1"
    by (simp add: encode_task_id_def del: json_depth.simps)
  show "json_wf (encode_proof p) \<and> json_depth (encode_proof p) \<le> 1"
    unfolding encode_proof_def One_nat_def
    by (rule obj_of_readable) (auto simp: opt_json_def split: option.splits)
  show "json_wf (encode_hook h) \<and> json_depth (encode_hook h) \<le> 1"
    unfolding One_nat_def by (cases h) (auto intro!: obj_of_readable)
qed

lemma encode_task_readable:
  assumes "\<And>w. tk_payload t = Some w \<Longrightarrow> json_wf w \<and> Suc (json_depth w) \<le> n" "2 \<le> n"
  shows "readable n (encode_task C t)"
proof -
  obtain m where n: "n = Suc m" "1 \<le> m" using assms(2) by (cases n) auto
  define G where "G v \<longleftrightarrow> json_wf v \<and> json_depth v \<le> m" for v
  have opt: "(\<And>x. G (enc x)) \<Longrightarrow> G (opt_json enc y)" for enc :: "'a \<Rightarrow> json" and y
    by (cases y) (simp_all add: opt_json_def G_def)
  have small: "G (JString z)" "G (encode_time C x)" "G (encode_task_id i)" "G (encode_proof p)" "G (encode_hook h)"
    "G (JArray (map encode_task_id bs))" for z x i p h bs
    using small_json_readable(1) [of C x] small_json_readable(2) [of i] small_json_readable(3) [of p]
      small_json_readable(4) [of h] small_json_readable(5) [of bs] n(2)
    by (auto simp: G_def simp del: json_depth.simps(1,2) intro: order_trans)
  have "pred_option G (tk_payload t)" using assms(1) n(1) by (auto simp: G_def pred_option_def)
  then have "list_all (\<lambda>(k, x). pred_option G x) (task_fields C t)"
    by (simp add: task_fields_def small opt_json_def option.pred_map comp_def split: option.split)
      (simp add: pred_option_def small G_def)
  then have "json_wf v \<and> json_depth v \<le> m" if "(k, Some v) \<in> set (task_fields C t)" for k v
    using that by (force simp: list_all_iff G_def)
  from obj_of_readable [of "task_fields C t" m, OF this] show ?thesis
    by (simp add: readable_def encode_task_def n(1))
qed

text \<open>The payload of a task that was read is part of the document it was read from.\<close>

lemma decode_task_payload:
  assumes "codec_laws C" "decode_task C v = Some x" "tk_payload x = Some w" "json_wf v"
  shows "json_wf w \<and> json_depth w < json_depth v"
proof (cases v)
  case (JArray xs)
  with assms have "w \<in> set xs" by (auto simp: decode_task_def codec_laws_def)
  with JArray assms(4) json_depth_child_array show ?thesis by auto
next
  case (JObject m)
  have "opt_field Some v ''payload'' = Some (tk_payload x)"
    using assms(2) JObject by (auto simp: decode_task_def bind_eq_Some_conv simp del: json_get.simps)
  with assms(3) JObject have "map_of m ''payload'' = Some w" by (auto simp: opt_field_def split: option.splits json.splits)
  then have "(''payload'', w) \<in> set m" by (rule map_of_SomeD)
  with JObject assms(4) json_depth_child_object [of "(''payload'', w)" m] show ?thesis by (auto simp del: json_depth.simps)
qed (use assms(2) in \<open>simp_all add: decode_task_def\<close>)

lemma edited_task_readable:
  assumes "codec_laws C" "2 \<le> fuel" "port_ok E r name s"
    and "get_task (memory_repo fuel E F r) C T s name plan i = Inr x"
    and "edit_task R C T ref_name plan' e k s1 x = Inr y"
  shows "readable fuel (encode_task C y)"
proof (rule encode_task_readable [OF _ assms(2)])
  fix w assume "tk_payload y = Some w"
  then have w: "tk_payload x = Some w" using edit_task_keeps [OF assms(5)] by simp
  from assms(4) obtain v where v: "tr_get_json (memory_repo fuel E F r) s name (task_path (ts_prefix T) plan i) = Inr v"
    "decode_task C v = Some x" by (auto simp: get_task_def ok_or_def split: sum.splits option.splits)
  from assms(3) obtain h where "has_active r s" "ref_of r s name = Some h" "objects_inv (ev_oid E) s" by (auto simp: port_ok_def)
  from memory_get_json_Inr [OF this] v(1) obtain z where "to_json fuel (memory_store (ev_oid E)) s z = Some (Inr v)" by blast
  from to_json_readable [OF this] decode_task_payload [OF assms(1) v(2) w]
  show "json_wf w \<and> Suc (json_depth w) \<le> fuel" by (simp add: Suc_le_eq)
qed

section \<open>Updates are atomic\<close>

lemma get_task_kept:
  "reads_kept R ref_name s t \<Longrightarrow> get_task R C T s ref_name plan i = Inr x \<Longrightarrow> get_task R C T t ref_name plan i = Inr x"
  by (auto simp: get_task_def reads_kept_def split: sum.splits)

lemma update_task_loop:
  "update_task R C T others s ref_name plan i description change =
     task_loop R T others s ref_name (read_change others (\<lambda>s. get_task R C T s ref_name plan i) change
       (\<lambda>y. task_path (ts_prefix T) plan (tk_id y)) (encode_task C) (\<lambda>_. description) (\<lambda>y. y))"
  unfolding update_task_def by (rule arg_cong [where f = "task_loop R T others s ref_name"]) (intro ext, simp add: read_change_def)

section \<open>An edit lands\<close>

lemma edit_lands:
  assumes "codec_laws C" "2 \<le> fuel" "port_ok E r name s" "undisturbed E \<and> calm r name s" "\<not> path_is_reserved (task_path (ts_prefix T) plan i)"
    and "R = memory_repo fuel E F r"
    and "get_task R C T s name plan i = Inr x" "tk_id x = i" "edit_task R C T name plan e 0 s x = Inr y"
  shows "\<exists>s'. update_task R C T (\<lambda>_ _ s. s) s name plan i description (edit_task R C T name plan e) = (s', Inr y) \<and>
    port_ok E r name s' \<and> calm r name s' \<and>
    tr_get_json R s' name (task_path (ts_prefix T) plan i) = Inr (encode_task C y)"
proof -
  have y: "tk_id y = i" using edit_task_keeps [OF assms(9)] assms(8) by simp
  have good: "readable fuel (encode_task C y)"
    by (rule edited_task_readable [OF assms(1-3) assms(7) [unfolded assms(6)] assms(9)])
  from assms(7) obtain w where w: "tr_get_json R s name (task_path (ts_prefix T) plan (tk_id y)) = Inr w"
    by (auto simp: get_task_def y split: sum.splits)
  obtain m where m: "MAX_CAS_RETRIES = Suc m" by (cases MAX_CAS_RETRIES) (simp_all add: MAX_CAS_RETRIES_def)
  show ?thesis
    unfolding update_task_loop task_loop_def m
    using change_lands [where read = "\<lambda>s. get_task R C T s name plan i" and change = "edit_task R C T name plan e"
        and path = "\<lambda>y. task_path (ts_prefix T) plan (tk_id y)" and enc = "encode_task C" and result = "\<lambda>y. y"
        and opts = "commit_opts R T" and desc = "\<lambda>_. description" and m = m, OF assms(3,4,6,7,9) w good] assms(5) y
    by simp
qed

end
