(* ===== verification/Store_Samples.thy ===== *)
theory Store_Samples
  imports Repo_Samples Repo_Json
begin

text \<open>
  Samples the stores of tasks and policies share: a text for timestamps that is read back, and a form of
  floating-point numbers.
\<close>

definition sample_time :: "timestamp \<Rightarrow> string" where
  "sample_time t = (if t < 0 then replicate (nat (- t)) (CHR ''-'') else replicate (nat t) (CHR ''+''))"

definition sample_parse_time :: "string \<Rightarrow> timestamp option" where
  "sample_parse_time x = Some (if x \<noteq> [] \<and> hd x = CHR ''-'' then - int (length x) else int (length x))"

lemma sample_time_read [simp]: "sample_parse_time (sample_time t) = Some t"
  by (auto simp: sample_time_def sample_parse_time_def)

definition sample_floats :: Floats where
  "sample_floats = \<lparr>fl_parse = (\<lambda>_. None), fl_show = (\<lambda>_. [])\<rparr>"

end
