(* ===== verification/Task_Properties.thy ===== *)
theory Task_Properties
  imports Task_Edits Store_Samples
begin

text \<open>
  Properties of plans and tasks: updates under concurrent writers, the typing of tasks, cycles of blockers,
  renumbering before a merge, the JSON form. The samples below instantiate what other crates provide.
\<close>

section \<open>Samples\<close>

definition sample_codec :: Codec where
  "sample_codec = \<lparr>cd_time = sample_time, cd_parse_time = sample_parse_time, cd_task_seq = (\<lambda>_. None),
     cd_plan_seq = (\<lambda>_. None), cd_proof_seq = (\<lambda>_. None), cd_hook_seq = (\<lambda>_. None)\<rparr>"

lemma sample_codec_laws: "codec_laws sample_codec"
  by (auto simp: codec_laws_def sample_codec_def sample_time_def sample_parse_time_def)

abbreviation sample_tasks :: "MemoryStorage RepoPort" where
  "sample_tasks \<equiv> memory_repo 3 sample_env sample_floats sample_repo"

definition sample_task_store :: TaskStore where
  "sample_task_store = \<lparr>ts_prefix = [], ts_agent_id = ''a''\<rparr>"

definition sample_task :: "string \<Rightarrow> TaskId list \<Rightarrow> Task" where
  "sample_task i bs = new_task sample_tasks sample_task_store 0 (TaskId i) ''t'' None PrLow None bs None default_options"

lemma sample_task_fields [simp]:
  "tk_id (sample_task i bs) = TaskId i" "tk_blocked_by (sample_task i bs) = bs" "tk_status (sample_task i bs) = TsPending"
  "tk_payload (sample_task i bs) = None"
  by (simp_all add: sample_task_def new_task_def default_options_def)

section \<open>Renumbering\<close>

text \<open>
  C23. Renumbering before a merge separates the two sides. When the numbers do not run out, the plan after the
  moves collides nowhere with the other side, so a second run would move nothing; the plan's metadata is
  unchanged; the entries are exactly the entries of before, each under its new key, no two under the same
  key; only tasks that collided change their key; and in each task the parent and the blockers are renamed
  the same way while every other field but the id is kept.
\<close>

theorem renumber_separates:
  assumes "room ours theirs" "ours = JObject m" "bt_wf m" "moves = plan_moves ours theirs base"
  shows "plan_moves (apply_moves ours moves) theirs base = [] \<and>
    json_get (apply_moves ours moves) META_KEY = json_get ours META_KEY \<and>
    (\<forall>i v. i \<noteq> META_KEY \<longrightarrow> (json_get (apply_moves ours moves) i = Some v \<longleftrightarrow>
       (\<exists>key w. (key, w) \<in> set (task_entries ours) \<and> i = moved_key moves key \<and> v = move_task moves key w))) \<and>
    inj_on (moved_key moves) (fst ` set (task_entries ours)) \<and>
    (\<forall>(key, w) \<in> set (task_entries ours).
       (moved_key moves key = key \<longleftrightarrow> key \<notin> set (colliding ours theirs base)) \<and>
       (\<forall>p. json_get w ''parent_id'' = Some (JString p) \<longrightarrow>
          json_get (move_task moves key w) ''parent_id'' = Some (JString (moved_key moves p))) \<and>
       (\<forall>bs. json_get w ''blocked_by'' = Some (JArray (map JString bs)) \<longrightarrow>
          json_get (move_task moves key w) ''blocked_by'' = Some (JArray (map JString (map (moved_key moves) bs)))) \<and>
       (\<forall>f. f \<notin> {''id'', ''parent_id'', ''blocked_by''} \<longrightarrow> json_get (move_task moves key w) f = json_get w f))"
proof -
  note get = apply_moves_get [OF assms(1,4,2,3)] and key = moved_key_iff [OF assms(1,4)]
  have "i \<notin> set (colliding (apply_moves ours moves) theirs base)" for i
  proof
    assume "i \<in> set (colliding (apply_moves ours moves) theirs base)"
    then obtain t u where i: "(i, t) \<in> set (task_entries (apply_moves ours moves))"
      "map_of (task_entries theirs) i = Some u" "\<not> same_task t u" "\<forall>b. base = Some b \<longrightarrow> i \<notin> plan_ids b"
      unfolding colliding_mem by blast
    from i(1) have "i \<noteq> META_KEY" "json_get (apply_moves ours moves) i = Some t"
      using bt_wf_from_list [of "[]"]
      by (auto simp: task_entries_def apply_moves_def bt_wf_def strict_sorted_iff intro!: map_of_is_SomeI)
    with get(2) [of i t] obtain k w where k: "(k, w) \<in> set (task_entries ours)" "i = moved_key moves k"
      "t = move_task moves k w" by blast
    then have mem: "k \<in> plan_ids ours" by (force simp: plan_ids_def)
    have "i \<in> plan_ids theirs" using map_of_SomeD [OF i(2)] by (force simp: plan_ids_def)
    with key(2) [OF mem] k(2) have "i = k" by auto
    have "\<not> same_task w u" using i(3) k(3) by (simp only: same_task_moved not_False_eq_True)
    with i k(1) \<open>i = k\<close> have "k \<in> set (colliding ours theirs base)" unfolding colliding_mem by blast
    with key(1) [OF mem] k(2) \<open>i = k\<close> show False by simp
  qed
  then have "set (colliding (apply_moves ours moves) theirs base) = {}" by (intro equals0I) (erule notE [rotated])
  then have "plan_moves (apply_moves ours moves) theirs base = []"
    unfolding plan_moves_def Let_def set_empty by (rule if_P)
  moreover have "inj_on (moved_key moves) (fst ` set (task_entries ours))"
    using inj_on_subset [OF moved_key_inj [OF assms(1,4)]] by (auto simp: plan_ids_def)
  moreover have "moved_key moves k = k \<longleftrightarrow> k \<notin> set (colliding ours theirs base)" if "(k, w) \<in> set (task_entries ours)" for k w
    by (rule key(1)) (use that in \<open>force simp: plan_ids_def\<close>)
  ultimately show ?thesis
    using get by (auto simp: move_task_parent move_task_blockers move_task_get simp del: move_task.simps)
qed

definition our_plan :: json where
  "our_plan = JObject [(''_meta'', JNull),
     (''t-001'', JObject [(''created_by'', JString ''a'')]),
     (''t-002'', JObject [(''blocked_by'', JArray (map JString [''t-001''])), (''created_by'', JString ''b'')])]"

definition their_plan :: json where
  "their_plan = JObject [(''_meta'', JNull), (''t-001'', JObject [(''created_by'', JString ''c'')])]"

theorem renumber_separates_witness:
  "plan_moves our_plan their_plan None = [(TaskId ''t-001'', TaskId ''t-003'')] \<and>
   plan_moves (apply_moves our_plan [(TaskId ''t-001'', TaskId ''t-003'')]) their_plan None = [] \<and>
   json_get (move_task [(TaskId ''t-001'', TaskId ''t-003'')] ''t-002''
     (JObject [(''blocked_by'', JArray (map JString [''t-001''])), (''created_by'', JString ''b'')])) ''blocked_by'' =
     Some (JArray (map JString [''t-003'']))"
proof -
  have ids: "task_id_new 1 = TaskId ''t-001''" "task_id_new 2 = TaskId ''t-002''" "task_id_new 3 = TaskId ''t-003''" by code_simp+
  have numbers: "id_number ''t-001'' = Some 1" "id_number ''t-002'' = Some 2"
    using id_number_new [of 1] id_number_new [of 2] ids by simp_all
  have high: "highest our_plan their_plan = 2"
    by (simp add: highest_def our_plan_def their_plan_def task_entries_def META_KEY_def map_filter_simps numbers)
  have len: "length (task_entries our_plan) = 2" and coll: "colliding our_plan their_plan None = [''t-001'']" by code_simp+
  have moves: "plan_moves our_plan their_plan None = [(TaskId ''t-001'', TaskId ''t-003'')]"
    by (simp add: plan_moves_def coll high ids)
  have "room our_plan their_plan" by (simp add: room_def high len)
  moreover obtain m where m: "our_plan = JObject m" "bt_wf m" by (simp add: our_plan_def bt_wf_def)
  ultimately have all: "plan_moves (apply_moves our_plan [(TaskId ''t-001'', TaskId ''t-003'')]) their_plan None = []"
    "\<forall>(key, w) \<in> set (task_entries our_plan). \<forall>bs. json_get w ''blocked_by'' = Some (JArray (map JString bs)) \<longrightarrow>
      json_get (move_task [(TaskId ''t-001'', TaskId ''t-003'')] key w) ''blocked_by'' =
        Some (JArray (map JString (map (moved_key [(TaskId ''t-001'', TaskId ''t-003'')]) bs)))"
    using renumber_separates [of our_plan their_plan m "[(TaskId ''t-001'', TaskId ''t-003'')]" None] moves by auto
  let ?w = "JObject [(''blocked_by'', JArray (map JString [''t-001''])), (''created_by'', JString ''b'')]"
  have "(''t-002'', ?w) \<in> set (task_entries our_plan)" "json_get ?w ''blocked_by'' = Some (JArray (map JString [''t-001'']))"
    by (simp_all add: our_plan_def task_entries_def META_KEY_def)
  moreover have "map (moved_key [(TaskId ''t-001'', TaskId ''t-003'')]) [''t-001''] = [''t-003'']" by code_simp
  ultimately have "json_get (move_task [(TaskId ''t-001'', TaskId ''t-003'')] ''t-002'' ?w) ''blocked_by'' =
     Some (JArray (map JString [''t-003'']))"
    using all(2) by fastforce
  with moves all(1) show ?thesis by blast
qed

section \<open>Cycles of blockers\<close>

text \<open>
  C38. The search for a cycle of blockers is exact. It answers no cycle exactly when no sequence of blockers leads
  from the task back to itself once it has its new blockers; a path it answers starts and ends at the task,
  does not pass through it in between and follows blockers at each step. So on a plan without cycles the
  blockers are accepted exactly when the plan with them has no cycle anywhere.
\<close>

theorem blocker_cycle_exact:
  "(blocker_cycle tasks i bs = None \<longleftrightarrow> \<not> (blocks (new_edges tasks i bs))\<^sup>+\<^sup>+ i i) \<and>
   (\<forall>path. blocker_cycle tasks i bs = Some path \<longrightarrow>
      hd path = i \<and> last path = i \<and> 2 \<le> length path \<and> i \<notin> set (butlast (tl path)) \<and> chain (new_edges tasks i bs) path) \<and>
   (acyclic_blockers (blocker_edges tasks) \<longrightarrow>
      (blocker_cycle tasks i bs = None \<longleftrightarrow> acyclic_blockers (new_edges tasks i bs)))"
  using blocker_cycle_route [of tasks i bs] blocker_cycle_acyclic [of tasks i bs] by (simp add: blocker_cycle_iff)

theorem blocker_cycle_exact_witness:
  "blocker_cycle [sample_task ''x'' [], sample_task ''y'' [TaskId ''x'']] (TaskId ''x'') [TaskId ''y''] =
     Some [TaskId ''x'', TaskId ''y'', TaskId ''x''] \<and>
   (blocks (new_edges [sample_task ''x'' [], sample_task ''y'' [TaskId ''x'']] (TaskId ''x'') [TaskId ''y'']))\<^sup>+\<^sup>+
     (TaskId ''x'') (TaskId ''x'')"
proof -
  have "blocker_cycle [sample_task ''x'' [], sample_task ''y'' [TaskId ''x'']] (TaskId ''x'') [TaskId ''y''] =
     Some [TaskId ''x'', TaskId ''y'', TaskId ''x'']"
    by (simp add: blocker_cycle_def blocker_edges_def)
  with blocker_cycle_exact [of "[sample_task ''x'' [], sample_task ''y'' [TaskId ''x'']]" "TaskId ''x''" "[TaskId ''y'']"]
  show ?thesis by simp
qed

section \<open>The JSON form\<close>

text \<open>
  C27. The JSON form of plans and tasks: a plan is read back as it was written, and so is a task, except that a
  payload of null comes back as no payload.
\<close>

theorem task_documents_roundtrip:
  assumes "codec_laws C"
  shows "decode_plan C (encode_plan C p) = Some p \<and>
    decode_task C (encode_task C t) = Some (if tk_payload t = Some JNull then t\<lparr>tk_payload := None\<rparr> else t)"
proof (cases "tk_payload t = Some JNull")
  case True
  then have "t\<lparr>tk_payload := Some JNull\<rparr> = t" by simp
  with True task_json_null_payload [OF assms, of t] plan_json_roundtrip [OF assms] show ?thesis by simp
qed (simp add: task_json_roundtrip plan_json_roundtrip assms)

theorem task_documents_roundtrip_witness:
  "decode_task sample_codec (encode_task sample_codec (sample_task ''t-001'' [])) = Some (sample_task ''t-001'' [])"
  using task_documents_roundtrip [OF sample_codec_laws, of undefined "sample_task ''t-001'' []"] by simp

section \<open>The typing of tasks\<close>

text \<open>
  C35. The typing of tasks. Every task a store can come to hold has the fields of its status: a proof, a
  completion time and a completing agent exactly when it is done, the abandonment fields exactly when it is
  abandoned, a start when it is in progress or done and none while it is pending. An edit never changes the
  id, the creation, the parent or the payload; it changes the status only by a transition of the state
  machine; and a done or abandoned task keeps its status, proof and reason.
\<close>

theorem task_edit_typed:
  assumes "task_made R t"
  shows "task_wf t \<and> (\<forall>C T ref_name plan e k s u. edit_task R C T ref_name plan e k s t = Inr u \<longrightarrow>
    task_wf u \<and> tk_id u = tk_id t \<and> tk_created_at u = tk_created_at t \<and> tk_created_by u = tk_created_by t \<and>
    tk_parent_id u = tk_parent_id t \<and> tk_payload u = tk_payload t \<and>
    (tk_status u \<noteq> tk_status t \<longrightarrow>
       (\<exists>tr. check_transition (tk_status t) tr = (Inr () :: task_error + unit) \<and> tk_status u = transition_target tr)) \<and>
    (is_terminal (tk_status t) \<longrightarrow> tk_status u = tk_status t \<and> tk_proof u = tk_proof t \<and>
       tk_abandoned_reason u = tk_abandoned_reason t))"
proof (rule conjI, rule task_made_wf [OF assms], intro allI impI)
  fix C T ref_name plan e k s u assume e: "edit_task R C T ref_name plan e k s t = Inr u"
  from edit_task_wf [OF e task_made_wf [OF assms]] edit_task_keeps [OF e] edit_task_status [OF e]
  show "task_wf u \<and> tk_id u = tk_id t \<and> tk_created_at u = tk_created_at t \<and> tk_created_by u = tk_created_by t \<and>
    tk_parent_id u = tk_parent_id t \<and> tk_payload u = tk_payload t \<and>
    (tk_status u \<noteq> tk_status t \<longrightarrow>
       (\<exists>tr. check_transition (tk_status t) tr = (Inr () :: task_error + unit) \<and> tk_status u = transition_target tr)) \<and>
    (is_terminal (tk_status t) \<longrightarrow> tk_status u = tk_status t \<and> tk_proof u = tk_proof t \<and>
       tk_abandoned_reason u = tk_abandoned_reason t)" by blast
qed

theorem task_edit_typed_witness:
  "\<exists>u. edit_task sample_tasks sample_codec sample_task_store ''main'' ''p'' EdStart 0 fork_store (sample_task ''t-001'' []) = Inr u \<and>
     tk_status u = TsInProgress \<and> task_wf u"
proof -
  let ?t = "sample_task ''t-001'' []"
  let ?e = "edit_task sample_tasks sample_codec sample_task_store ''main'' ''p'' EdStart 0 fork_store ?t"
  have made: "task_made sample_tasks ?t" unfolding sample_task_def by (rule made_new)
  have "\<exists>u. ?e = Inr u \<and> tk_status u = TsInProgress" by (simp add: start_edit_Inr classify_blockers_def)
  then obtain u where u: "?e = Inr u" "tk_status u = TsInProgress" by blast
  from task_edit_typed [OF made] u(1) have "task_wf u" by blast
  with u show ?thesis by blast
qed

section \<open>Updates\<close>

text \<open>
  C8. Updates of a task are atomic and land. Whatever other writers do between the calls of an update, as long
  as they only move the branch forward, an edit that answers was applied to the task as the other writers had
  left it when the branch moved, judged in a state whose documents were still all there at that moment; the
  swap of that state's head stored the edited task at its path, and every document at a diverging path is
  kept. And when nobody interferes on a branch where nothing forbids the write, an edit that the rules
  accept is stored by the first attempt. The repository has no active epoch, and no watch stands in the
  store in which such a write could escalate to a taint.
\<close>

theorem task_update_atomic:
  assumes "codec_laws C" "2 \<le> fuel" "R = memory_repo fuel E F r" "port_ok E r name s"
    and "\<forall>j. \<not> path_is_reserved (task_path (ts_prefix T) plan j)"
  shows "(\<forall>others rank s' y. forward R name (port_ok E r name) rank others \<and>
      update_task R C T others s name plan i description (edit_task R C T name plan e) = (s', Inr y) \<longrightarrow>
      (\<exists>k u x h c. port_ok E r name (landing others k u) \<and> tr_head R (landing others k u) name = Inr h \<and>
        get_task R C T (landing others k u) name plan i = Inr x \<and> edit_task R C T name plan e k (judging others k u) x = Inr y \<and>
        tr_set_json_cas R k (landing others k u) name h (task_path (ts_prefix T) plan (tk_id y)) (encode_task C y)
          (commit_opts R T k description) = (s', Inr c) \<and>
        reads_kept R name (judging others k u) (landing others k u) \<and> port_ok E r name s' \<and> tr_head R s' name = Inr c \<and>
        tr_get_json R s' name (task_path (ts_prefix T) plan (tk_id y)) = Inr (encode_task C y) \<and>
        (\<forall>q w. paths_diverge (task_path (ts_prefix T) plan (tk_id y)) q \<and> tr_get_json R (landing others k u) name q = Inr w \<longrightarrow>
           tr_get_json R s' name q = Inr w))) \<and>
    (\<forall>x y. undisturbed E \<and> calm r name s \<and> get_task R C T s name plan i = Inr x \<and> tk_id x = i \<and> edit_task R C T name plan e 0 s x = Inr y \<longrightarrow>
      (\<exists>s'. update_task R C T (\<lambda>_ _ s. s) s name plan i description (edit_task R C T name plan e) = (s', Inr y) \<and>
        calm r name s' \<and> tr_get_json R s' name (task_path (ts_prefix T) plan i) = Inr (encode_task C y)))"
proof (intro conjI allI impI; elim conjE)
  have good: "\<forall>k t t1 x y. port_ok E r name t \<and> get_task R C T t name plan i = Inr x \<and> edit_task R C T name plan e k t1 x = Inr y \<longrightarrow>
      readable fuel (encode_task C y) \<and> \<not> path_is_secret (task_path (ts_prefix T) plan (tk_id y))"
  proof (intro allI impI; elim conjE)
    fix k t t1 x y
    assume "port_ok E r name t" "get_task R C T t name plan i = Inr x" "edit_task R C T name plan e k t1 x = Inr y"
    from edited_task_readable [OF assms(1,2) this(1) this(2) [unfolded assms(3)] this(3)] assms(5) reserved_secret
    show "readable fuel (encode_task C y) \<and> \<not> path_is_secret (task_path (ts_prefix T) plan (tk_id y))" by blast
  qed
  have kept: "\<forall>s t x. reads_kept R name s t \<and> get_task R C T s name plan i = Inr x \<longrightarrow> get_task R C T t name plan i = Inr x"
    by (intro allI impI; elim conjE) (rule get_task_kept)
  fix others rank s' y
  assume run: "forward R name (port_ok E r name) rank others"
    "update_task R C T others s name plan i description (edit_task R C T name plan e) = (s', Inr y)"
  show "\<exists>k u x h c. port_ok E r name (landing others k u) \<and> tr_head R (landing others k u) name = Inr h \<and>
        get_task R C T (landing others k u) name plan i = Inr x \<and> edit_task R C T name plan e k (judging others k u) x = Inr y \<and>
        tr_set_json_cas R k (landing others k u) name h (task_path (ts_prefix T) plan (tk_id y)) (encode_task C y)
          (commit_opts R T k description) = (s', Inr c) \<and>
        reads_kept R name (judging others k u) (landing others k u) \<and> port_ok E r name s' \<and> tr_head R s' name = Inr c \<and>
        tr_get_json R s' name (task_path (ts_prefix T) plan (tk_id y)) = Inr (encode_task C y) \<and>
        (\<forall>q w. paths_diverge (task_path (ts_prefix T) plan (tk_id y)) q \<and> tr_get_json R (landing others k u) name q = Inr w \<longrightarrow>
           tr_get_json R s' name q = Inr w)"
    using memport.read_change_atomic [OF assms(4) run(1) [unfolded assms(3)] kept [unfolded assms(3)] good [unfolded assms(3)]
      run(2) [unfolded assms(3) update_task_loop task_loop_def]] unfolding assms(3) by (elim exE conjE) (intro exI conjI, assumption+, simp_all)
next
  fix x y assume "undisturbed E" and c: "calm r name s" and calm: "get_task R C T s name plan i = Inr x" "tk_id x = i" "edit_task R C T name plan e 0 s x = Inr y"
  from edit_lands [OF assms(1,2,4) conjI [OF this(1) c] spec [OF assms(5)] assms(3) calm]
  show "\<exists>s'. update_task R C T (\<lambda>_ _ s. s) s name plan i description (edit_task R C T name plan e) = (s', Inr y) \<and>
        calm r name s' \<and> tr_get_json R s' name (task_path (ts_prefix T) plan i) = Inr (encode_task C y)" by blast
qed

text \<open>A store whose branch holds a task: the document of a sample task written over an entry of the fork.\<close>

lemma sample_undisturbed: "undisturbed sample_env"
  by (simp add: undisturbed_def)

lemma fork_task:
  obtains s where "port_ok sample_env sample_repo ''main'' s" "calm sample_repo ''main'' s"
    "get_task sample_tasks sample_codec sample_task_store s ''main'' ''m'' (TaskId ''k'') = Inr (sample_task ''k'' [])"
proof -
  let ?p = "task_path (ts_prefix sample_task_store) ''m'' (TaskId ''k'')"
  let ?d = "encode_task sample_codec (sample_task ''k'' [])"
  have p: "?p = ''/m/k''" by (simp add: task_path_def sample_task_store_def)
  have ok: "port_ok sample_env sample_repo ''main'' fork_store"
    by (simp add: port_ok_def no_watches_def sym_oid_collision_free fork_refs)
  have calm: "calm sample_repo ''main'' fork_store"
    by (simp add: calm_def fork_refs fork_commits(2) [unfolded One_nat_def])
  have "parse_path ''/m/k'' = Inr [Key ''m'', Key ''k'']" by (simp add: parse_simps map_err_def try_bind_def)
  moreover have "view_get sample_view (doc_root ours_doc) [Key ''m'', Key ''k''] = Some (OAtom (ABool True))" by code_simp
  moreover have "\<not> path_is_secret ''/m/k''" by code_simp
  ultimately have "tr_get_json sample_tasks fork_store ''main'' ''/m/k'' = Inr (JBool True)"
    using memory_get_json_Inr [OF fork_active fork_refs(1), of sample_env 3 sample_floats "''/m/k''" "JBool True"] fork_commits(2)
    by (simp add: memory_view_def doc_commit_def numeral_3_eq_3)
  moreover from memport.head_ok [OF ok] obtain h where h: "tr_head sample_tasks fork_store ''main'' = Inr h" by blast
  moreover have good: "readable 3 ?d" by (rule encode_task_readable) simp_all
  moreover have free: "\<not> path_is_reserved ''/m/k''" by code_simp
  ultimately obtain s c where swap: "tr_set_json_cas sample_tasks 0 fork_store ''main'' h ''/m/k'' ?d sample_options = (s, Inr c)"
    "calm sample_repo ''main'' s"
    using swap_succeeds [OF ok, of 3] calm sample_undisturbed by blast
  from swap_won [OF ok good _ swap(1)] free reserved_secret have "port_ok sample_env sample_repo ''main'' s"
    "tr_get_json sample_tasks s ''main'' ?p = Inr ?d" unfolding p by blast+
  moreover from this(2) have "get_task sample_tasks sample_codec sample_task_store s ''main'' ''m'' (TaskId ''k'') = Inr (sample_task ''k'' [])"
    using task_json_roundtrip [OF sample_codec_laws, of "sample_task ''k'' []"] by (simp add: get_task_def ok_or_def)
  ultimately show thesis using that swap(2) by blast
qed

theorem task_update_atomic_witness:
  "\<exists>s s' y. port_ok sample_env sample_repo ''main'' s \<and>
     update_task sample_tasks sample_codec sample_task_store (\<lambda>_ _ s. s) s ''main'' ''m'' (TaskId ''k'') ''d''
       (edit_task sample_tasks sample_codec sample_task_store ''main'' ''m'' (EdAbandon ''no'')) = (s', Inr y) \<and>
     tk_status y = TsAbandoned \<and>
     tr_get_json sample_tasks s' ''main'' (task_path [] ''m'' (TaskId ''k'')) = Inr (encode_task sample_codec y)"
proof -
  let ?e = "edit_task sample_tasks sample_codec sample_task_store ''main'' ''m'' (EdAbandon ''no'')"
  obtain s where s: "port_ok sample_env sample_repo ''main'' s" "calm sample_repo ''main'' s"
    "get_task sample_tasks sample_codec sample_task_store s ''main'' ''m'' (TaskId ''k'') = Inr (sample_task ''k'' [])"
    by (rule fork_task)
  obtain y where y: "?e 0 s (sample_task ''k'' []) = Inr y" "tk_status y = TsAbandoned" by (auto simp: abandon_edit_Inr)
  have free: "\<forall>j. \<not> path_is_reserved (task_path (ts_prefix sample_task_store) ''m'' j)"
    by (simp add: path_is_reserved_def task_path_def sample_task_store_def META_PATH_PREFIX_def)
  have pre: "ts_prefix sample_task_store = []" by (simp add: sample_task_store_def)
  from task_update_atomic [of sample_codec 3 sample_tasks sample_env sample_floats sample_repo "''main''" s sample_task_store "''m''"
      "TaskId ''k''" "''d''" "EdAbandon ''no''"] sample_codec_laws sample_undisturbed s free y show ?thesis
    unfolding pre by fastforce
qed

end
