(* ===== verification/Policy_Model.thy ===== *)
theory Policy_Model
  imports Json_Value Rust_Text
begin

text \<open>
  Policies, from \<open>crates/agentstategraph-policy/src/\<close>: the selectors over a situation (\<open>selector.rs\<close>), the
  types (\<open>types.rs\<close>, \<open>error.rs\<close>, \<open>verifier.rs\<close>, \<open>external.rs\<close>), the paths (\<open>paths.rs\<close>) and the evaluation
  of a request (\<open>evaluator.rs\<close>), with the combination of decisions from \<open>store.rs\<close>.

  The compiler of regular expressions is the parameter \<open>regex\<close>; the fixed pattern of path segments is
  written out. External evaluators and the signature verifier are arbitrary functions, as the traits they
  implement have no implementation in this crate. A duration is a number of nanoseconds.
\<close>

section \<open>Selectors\<close>

type_synonym Situation = "string \<rightharpoonup> string"

datatype Selector =
    SelAlways
  | SelNever
  | SelAll "Selector list"
  | SelAny "Selector list"
  | SelNot Selector
  | SelEq string string
  | SelNe string string
  | SelMatches string string
  | SelExists string
  | SelGt string i64
  | SelGte string i64
  | SelLt string i64
  | SelLte string i64

definition parse_i64 :: "string \<Rightarrow> int option" where
  "parse_i64 s =
     (case s of
        [] \<Rightarrow> None
      | c # cs \<Rightarrow>
          let neg = (c = CHR ''-''); ds = (if neg \<or> c = CHR ''+'' then cs else s)
          in if ds = [] \<or> \<not> list_all is_digit ds then None
             else let n = (if neg then - int (digits_val ds) else int (digits_val ds))
                  in if - (2 ^ 63) \<le> n \<and> n < 2 ^ 63 then Some n else None)"

definition numeric :: "Situation \<Rightarrow> string \<Rightarrow> int option" where
  "numeric s key = Option.bind (s key) parse_i64"

fun selector_matches :: "(string \<Rightarrow> (string \<Rightarrow> bool) option) \<Rightarrow> Selector \<Rightarrow> Situation \<Rightarrow> bool" where
  "selector_matches regex SelAlways s = True"
| "selector_matches regex SelNever s = False"
| "selector_matches regex (SelAll children) s = list_all (\<lambda>c. selector_matches regex c s) children"
| "selector_matches regex (SelAny children) s = list_ex (\<lambda>c. selector_matches regex c s) children"
| "selector_matches regex (SelNot child) s = (\<not> selector_matches regex child s)"
| "selector_matches regex (SelEq key v) s = (s key = Some v)"
| "selector_matches regex (SelNe key v) s = (case s key of Some x \<Rightarrow> x \<noteq> v | None \<Rightarrow> False)"
| "selector_matches regex (SelMatches key pattern) s =
     (case regex pattern of
        Some is_match \<Rightarrow> (case s key of Some x \<Rightarrow> is_match x | None \<Rightarrow> False)
      | None \<Rightarrow> False)"
| "selector_matches regex (SelExists key) s = (s key \<noteq> None)"
| "selector_matches regex (SelGt key v) s = (case numeric s key of Some n \<Rightarrow> n > sint v | None \<Rightarrow> False)"
| "selector_matches regex (SelGte key v) s = (case numeric s key of Some n \<Rightarrow> n \<ge> sint v | None \<Rightarrow> False)"
| "selector_matches regex (SelLt key v) s = (case numeric s key of Some n \<Rightarrow> n < sint v | None \<Rightarrow> False)"
| "selector_matches regex (SelLte key v) s = (case numeric s key of Some n \<Rightarrow> n \<le> sint v | None \<Rightarrow> False)"

section \<open>Types\<close>

datatype FallbackAction =
    FbBlock
  | FbPickAlternative string
  | FbLowestRiskAlternative
  | FbKeepCurrentState
  | FbDelegateTo string

record AuthorizedAction =
  aa_action :: string
  aa_condition :: "string option"
  aa_preconditions :: "string list"

record ApprovalRule =
  ar_action :: string
  ar_approvers :: "string list"
  ar_timeout :: "nat option"
  ar_fallback :: FallbackAction

record ProcedureStep =
  pst_action :: string
  pst_if_previous_failed :: "string option"

datatype Severity = SvLow | SvMedium | SvHigh | SvCritical

datatype EvaluatorSource = EsInline string | EsFilePath string | EsCommitRef string

datatype ExternalEvaluatorRef = ErRego EvaluatorSource | ErCedar EvaluatorSource | ErWasm EvaluatorSource

datatype PolicySignature = Ed25519 string string

record Policy =
  po_path :: string
  po_version :: u64
  po_situation :: string
  po_situation_selector :: Selector
  po_allow :: "AuthorizedAction list"
  po_deny :: "AuthorizedAction list"
  po_require_approval :: "ApprovalRule list"
  po_procedure :: "ProcedureStep list option"
  po_triggers :: "string list"
  po_required_fields :: "string list"
  po_severity :: Severity
  po_proposed_by :: string
  po_proposed_at :: timestamp
  po_ratified_by :: "string option"
  po_ratified_at :: "timestamp option"
  po_ratification_reasoning :: "string option"
  po_active_from :: timestamp
  po_expires_at :: "timestamp option"
  po_supersedes :: "string option"
  po_signature :: "PolicySignature option"
  po_tenant_id :: "string option"
  po_external_evaluator :: "ExternalEvaluatorRef option"

definition is_ratified :: "Policy \<Rightarrow> bool" where
  "is_ratified p \<longleftrightarrow> po_ratified_by p \<noteq> None"

definition is_currently_active :: "Policy \<Rightarrow> timestamp \<Rightarrow> bool" where
  "is_currently_active p now =
     (if \<not> is_ratified p \<or> po_active_from p > now then False
      else \<not> (case po_expires_at p of Some e \<Rightarrow> e \<le> now | None \<Rightarrow> False))"

definition policy_handle :: "Policy \<Rightarrow> string" where
  "policy_handle p = po_path p @ ''@'' @ show_nat (unat (po_version p))"

record ChangeProposal =
  cp_action :: string
  cp_agent_id :: string
  cp_intent :: string
  cp_preferred_option :: string
  cp_alternatives :: "string list"
  cp_tokens :: "string list"
  cp_attached_fields :: "string \<rightharpoonup> string"

definition change_proposal_new :: "string \<Rightarrow> string \<Rightarrow> string \<Rightarrow> string \<Rightarrow> ChangeProposal" where
  "change_proposal_new action agent_id intent preferred =
     \<lparr>cp_action = action, cp_agent_id = agent_id, cp_intent = intent, cp_preferred_option = preferred,
      cp_alternatives = [], cp_tokens = [], cp_attached_fields = Map.empty\<rparr>"

definition with_tokens :: "ChangeProposal \<Rightarrow> string list \<Rightarrow> ChangeProposal" where
  "with_tokens p tokens = p\<lparr>cp_tokens := tokens\<rparr>"

definition with_field :: "ChangeProposal \<Rightarrow> string \<Rightarrow> string \<Rightarrow> ChangeProposal" where
  "with_field p key v = p\<lparr>cp_attached_fields := (cp_attached_fields p)(key \<mapsto> v)\<rparr>"

datatype Decision =
    Allow string "string list"
  | Deny string string
  | RequireApproval string "string list" "nat option" FallbackAction "string option"
  | NoPolicyMatch

fun decision_kind :: "Decision \<Rightarrow> string" where
  "decision_kind (Allow _ _) = ''allow''"
| "decision_kind (Deny _ _) = ''deny''"
| "decision_kind (RequireApproval _ _ _ _ _) = ''require_approval''"
| "decision_kind NoPolicyMatch = ''no_policy_match''"

datatype 'r PolicyError =
    PoNotFound string
  | PoAlreadyExists string
  | PoAlreadyRatified string
  | PoNotProposal string
  | PoInvalidPath string
  | PoInvalid string
  | PoRepo 'r
  | PoSerde

fun policy_error_code :: "'r PolicyError \<Rightarrow> string" where
  "policy_error_code (PoNotFound _) = ''policy_not_found''"
| "policy_error_code (PoAlreadyExists _) = ''policy_already_exists''"
| "policy_error_code (PoAlreadyRatified _) = ''policy_already_ratified''"
| "policy_error_code (PoNotProposal _) = ''policy_not_proposal''"
| "policy_error_code (PoInvalidPath _) = ''invalid_policy_path''"
| "policy_error_code (PoInvalid _) = ''invalid_policy''"
| "policy_error_code (PoRepo _) = ''repository_error''"
| "policy_error_code PoSerde = ''serialization_error''"

datatype SignatureVerificationError = SgMissing | SgUnsupportedAlgorithm | SgEncoding | SgInvalid string | SgOther

datatype ExternalError = ExNotRegistered string | ExSourceResolution string | ExExecution string | ExTimedOut | ExOther

fun external_error_code :: "ExternalError \<Rightarrow> string" where
  "external_error_code (ExNotRegistered _) = ''evaluator_not_registered''"
| "external_error_code (ExSourceResolution _) = ''evaluator_source_unresolved''"
| "external_error_code (ExExecution _) = ''evaluator_failed''"
| "external_error_code ExTimedOut = ''evaluator_timeout''"
| "external_error_code ExOther = ''evaluator_error''"

text \<open>The registered runners, by kind.\<close>

type_synonym EvaluatorRegistry = "string \<rightharpoonup> (EvaluatorSource \<Rightarrow> Situation \<Rightarrow> string \<Rightarrow> string \<Rightarrow> ExternalError + Decision)"

definition register :: "EvaluatorRegistry \<Rightarrow> string \<Rightarrow> (EvaluatorSource \<Rightarrow> Situation \<Rightarrow> string \<Rightarrow> string \<Rightarrow> ExternalError + Decision) \<Rightarrow> EvaluatorRegistry" where
  "register reg kind runner = reg(kind \<mapsto> runner)"

fun external_kind :: "ExternalEvaluatorRef \<Rightarrow> string" where
  "external_kind (ErRego _) = ''rego''"
| "external_kind (ErCedar _) = ''cedar''"
| "external_kind (ErWasm _) = ''wasm''"

fun external_source :: "ExternalEvaluatorRef \<Rightarrow> EvaluatorSource" where
  "external_source (ErRego source) = source"
| "external_source (ErCedar source) = source"
| "external_source (ErWasm source) = source"

section \<open>Paths\<close>

definition HISTORY_KEY :: string where "HISTORY_KEY = ''history''"
definition POLICY_META_KEY :: string where "POLICY_META_KEY = ''_meta''"

definition is_lower :: "char \<Rightarrow> bool" where
  "is_lower c \<longleftrightarrow> CHR ''a'' \<le> c \<and> c \<le> CHR ''z''"

text \<open>The pattern \<open>^[a-z0-9][a-z0-9_-]*$\<close>.\<close>

definition is_segment :: "string \<Rightarrow> bool" where
  "is_segment seg =
     (case seg of
        [] \<Rightarrow> False
      | c # cs \<Rightarrow> (is_lower c \<or> is_digit c) \<and> list_all (\<lambda>x. is_lower x \<or> is_digit x \<or> x = CHR ''_'' \<or> x = CHR ''-'') cs)"

definition trim_slashes :: "string \<Rightarrow> string" where
  "trim_slashes path = dropWhile (\<lambda>c. c = CHR ''/'') path"

definition normalize_policy :: "string \<Rightarrow> 'r PolicyError + string" where
  "normalize_policy path =
     (let trimmed = trim_slashes path in
      if trimmed = [] then Inl (PoInvalidPath path)
      else if list_ex (\<lambda>seg. \<not> is_segment seg \<or> seg = HISTORY_KEY \<or> seg = POLICY_META_KEY) (split_on (CHR ''/'') trimmed)
      then Inl (PoInvalidPath path)
      else Inr trimmed)"

definition active_path :: "string \<Rightarrow> string \<Rightarrow> string" where
  "active_path prefix normalized = prefix @ ''/'' @ normalized @ ''/'' @ POLICY_META_KEY"

definition historical_path :: "string \<Rightarrow> string \<Rightarrow> u64 \<Rightarrow> string" where
  "historical_path prefix normalized version =
     prefix @ ''/'' @ normalized @ ''/'' @ HISTORY_KEY @ ''/v'' @ show_nat (unat version)"

definition policy_root :: "string \<Rightarrow> string \<Rightarrow> string" where
  "policy_root prefix normalized = prefix @ ''/'' @ normalized"

section \<open>Evaluation\<close>

definition match_action :: "AuthorizedAction list \<Rightarrow> string \<Rightarrow> AuthorizedAction option" where
  "match_action rules action = find (\<lambda>r. aa_action r = action \<or> aa_action r = ''*'') rules"

definition match_approval :: "ApprovalRule list \<Rightarrow> string \<Rightarrow> ApprovalRule option" where
  "match_approval rules action = find (\<lambda>r. ar_action r = action \<or> ar_action r = ''*'') rules"

text \<open>A pass over the policies that returns at the first one with an answer.\<close>

fun first_some :: "('a \<Rightarrow> 'b option) \<Rightarrow> 'a list \<Rightarrow> 'b option" where
  "first_some f [] = None"
| "first_some f (x # xs) = (case f x of Some y \<Rightarrow> Some y | None \<Rightarrow> first_some f xs)"

definition deny_by :: "string \<Rightarrow> Policy \<Rightarrow> Decision option" where
  "deny_by action p =
     map_option (\<lambda>rule. Deny (policy_handle p)
       (case aa_condition rule of Some c \<Rightarrow> c | None \<Rightarrow> ''denied by '' @ po_path p)) (match_action (po_deny p) action)"

definition approval_by :: "string \<Rightarrow> Policy \<Rightarrow> Decision option" where
  "approval_by action p =
     map_option (\<lambda>rule. RequireApproval (policy_handle p) (ar_approvers rule) (ar_timeout rule) (ar_fallback rule) None)
       (match_approval (po_require_approval p) action)"

definition allow_by :: "string \<Rightarrow> Policy \<Rightarrow> Decision option" where
  "allow_by action p =
     map_option (\<lambda>rule. Allow (policy_handle p) (aa_preconditions rule)) (match_action (po_allow p) action)"

definition evaluate_matched :: "Policy list \<Rightarrow> string \<Rightarrow> string \<Rightarrow> Decision" where
  "evaluate_matched policies action agent_id =
     (case first_some (deny_by action) policies of
        Some d \<Rightarrow> d
      | None \<Rightarrow>
          (case first_some (approval_by action) policies of
             Some d \<Rightarrow> d
           | None \<Rightarrow> (case first_some (allow_by action) policies of Some d \<Rightarrow> d | None \<Rightarrow> NoPolicyMatch)))"

definition tokens_intersect :: "string list \<Rightarrow> string list \<Rightarrow> bool" where
  "tokens_intersect a b = list_ex (\<lambda>t. list_ex (\<lambda>u. t = u) b) a"

definition approval_hint :: "Policy \<Rightarrow> string \<Rightarrow> string list \<times> nat option \<times> FallbackAction" where
  "approval_hint p action =
     (case match_approval (po_require_approval p) action of
        Some r \<Rightarrow> (ar_approvers r, ar_timeout r, ar_fallback r)
      | None \<Rightarrow> ([''human''], None, FbBlock))"

definition missing_fields :: "Policy \<Rightarrow> ChangeProposal \<Rightarrow> string list" where
  "missing_fields p proposal = filter (\<lambda>f. cp_attached_fields proposal f = None) (po_required_fields p)"

definition incomplete_by :: "ChangeProposal \<Rightarrow> Policy \<Rightarrow> Decision option" where
  "incomplete_by proposal p =
     (if missing_fields p proposal = [] then None
      else case approval_hint p (cp_action proposal) of
             (approvers, timeout, fallback) \<Rightarrow> Some (RequireApproval (policy_handle p) approvers timeout fallback None))"

definition consulted :: "Policy list \<Rightarrow> ChangeProposal \<Rightarrow> Policy list" where
  "consulted policies proposal = filter (\<lambda>p. tokens_intersect (po_triggers p) (cp_tokens proposal)) policies"

definition evaluate_change :: "Policy list \<Rightarrow> ChangeProposal \<Rightarrow> Decision" where
  "evaluate_change policies proposal =
     (let cs = consulted policies proposal in
      if cs = [] then NoPolicyMatch
      else case first_some (incomplete_by proposal) cs of
             Some d \<Rightarrow> d
           | None \<Rightarrow> evaluate_matched cs (cp_action proposal) (cp_agent_id proposal))"

section \<open>Combining decisions\<close>

fun is_deny :: "Decision \<Rightarrow> bool" where
  "is_deny (Deny _ _) = True" | "is_deny _ = False"

fun is_approval :: "Decision \<Rightarrow> bool" where
  "is_approval (RequireApproval _ _ _ _ _) = True" | "is_approval _ = False"

fun is_allow :: "Decision \<Rightarrow> bool" where
  "is_allow (Allow _ _) = True" | "is_allow _ = False"

definition combine_decisions :: "Decision list \<Rightarrow> Decision \<Rightarrow> Decision" where
  "combine_decisions externals local =
     (let ds = externals @ [local] in
      case find is_deny ds of
        Some d \<Rightarrow> d
      | None \<Rightarrow>
          (case find is_approval ds of
             Some d \<Rightarrow> d
           | None \<Rightarrow> (case find is_allow ds of Some d \<Rightarrow> d | None \<Rightarrow> NoPolicyMatch)))"

end
