(* ===== verification/Policy_Json.thy ===== *)
theory Policy_Json
  imports Policy_Model Serde
begin

text \<open>
  The JSON form of policies: what the derived implementations of \<open>types.rs\<close> and \<open>selector.rs\<close> do. The record
  \<open>PolicyCodec\<close> holds what other crates decide: the text of a timestamp, and what the derived code makes of
  an array where it expects an object.
\<close>

record PolicyCodec =
  pc_time :: "timestamp \<Rightarrow> string"
  pc_parse_time :: "string \<Rightarrow> timestamp option"
  pc_selector_seq :: "json list \<Rightarrow> Selector option"
  pc_fallback_seq :: "json list \<Rightarrow> FallbackAction option"
  pc_action_seq :: "json list \<Rightarrow> AuthorizedAction option"
  pc_approval_seq :: "json list \<Rightarrow> ApprovalRule option"
  pc_step_seq :: "json list \<Rightarrow> ProcedureStep option"
  pc_source_seq :: "json list \<Rightarrow> EvaluatorSource option"
  pc_evaluator_seq :: "json list \<Rightarrow> ExternalEvaluatorRef option"
  pc_signature_seq :: "json list \<Rightarrow> PolicySignature option"
  pc_policy_seq :: "json list \<Rightarrow> Policy option"

definition encode_i64 :: "i64 \<Rightarrow> json" where
  "encode_i64 n = JNumber (JInt (sint n))"

definition encode_u64 :: "u64 \<Rightarrow> json" where
  "encode_u64 n = JNumber (JInt (uint n))"

fun decode_i64 :: "json \<Rightarrow> i64 option" where
  "decode_i64 (JNumber n) = as_i64 n"
| "decode_i64 _ = None"

fun decode_u64 :: "json \<Rightarrow> u64 option" where
  "decode_u64 (JNumber n) = as_u64 n"
| "decode_u64 _ = None"

definition encode_strings :: "string list \<Rightarrow> json" where
  "encode_strings xs = JArray (map JString xs)"

definition default_list :: "(json \<Rightarrow> 'a option) \<Rightarrow> json \<Rightarrow> string \<Rightarrow> 'a list option" where
  "default_list dec j k = (case json_get j k of None \<Rightarrow> Some [] | Some v \<Rightarrow> decode_list dec v)"

text \<open>A variant of an enum tagged by a field: an object with the tag, or an array.\<close>

definition tagged :: "string \<Rightarrow> (json list \<Rightarrow> 'a option) \<Rightarrow> (string \<Rightarrow> json \<Rightarrow> 'a option) \<Rightarrow> json \<Rightarrow> 'a option" where
  "tagged tag seq_form dec j =
     (case j of
        JArray xs \<Rightarrow> seq_form xs
      | JObject _ \<Rightarrow> Option.bind (req_field json_as_str j tag) (\<lambda>k. dec k j)
      | _ \<Rightarrow> None)"

section \<open>Selectors\<close>

fun encode_selector :: "Selector \<Rightarrow> json" where
  "encode_selector SelAlways = obj_of [(''kind'', Some (JString ''always''))]"
| "encode_selector SelNever = obj_of [(''kind'', Some (JString ''never''))]"
| "encode_selector (SelAll cs) = obj_of [(''kind'', Some (JString ''all'')), (''children'', Some (JArray (map encode_selector cs)))]"
| "encode_selector (SelAny cs) = obj_of [(''kind'', Some (JString ''any'')), (''children'', Some (JArray (map encode_selector cs)))]"
| "encode_selector (SelNot c) = obj_of [(''kind'', Some (JString ''not'')), (''child'', Some (encode_selector c))]"
| "encode_selector (SelEq k v) = obj_of [(''kind'', Some (JString ''eq'')), (''key'', Some (JString k)), (''value'', Some (JString v))]"
| "encode_selector (SelNe k v) = obj_of [(''kind'', Some (JString ''ne'')), (''key'', Some (JString k)), (''value'', Some (JString v))]"
| "encode_selector (SelMatches k p) = obj_of [(''kind'', Some (JString ''matches'')), (''key'', Some (JString k)), (''pattern'', Some (JString p))]"
| "encode_selector (SelExists k) = obj_of [(''kind'', Some (JString ''exists'')), (''key'', Some (JString k))]"
| "encode_selector (SelGt k v) = obj_of [(''kind'', Some (JString ''gt'')), (''key'', Some (JString k)), (''value'', Some (encode_i64 v))]"
| "encode_selector (SelGte k v) = obj_of [(''kind'', Some (JString ''gte'')), (''key'', Some (JString k)), (''value'', Some (encode_i64 v))]"
| "encode_selector (SelLt k v) = obj_of [(''kind'', Some (JString ''lt'')), (''key'', Some (JString k)), (''value'', Some (encode_i64 v))]"
| "encode_selector (SelLte k v) = obj_of [(''kind'', Some (JString ''lte'')), (''key'', Some (JString k)), (''value'', Some (encode_i64 v))]"

definition with_key :: "(string \<Rightarrow> 'b \<Rightarrow> 'a) \<Rightarrow> (json \<Rightarrow> 'b option) \<Rightarrow> string \<Rightarrow> json \<Rightarrow> 'a option" where
  "with_key mk dec field j =
     Option.bind (req_field json_as_str j ''key'') (\<lambda>k. map_option (mk k) (req_field dec j field))"

text \<open>The recursion descends into the document; \<open>decode_selector\<close> gives it the depth of the document as fuel.\<close>

primrec decode_selector_in :: "nat \<Rightarrow> PolicyCodec \<Rightarrow> json \<Rightarrow> Selector option" where
  "decode_selector_in 0 C j = None"
| "decode_selector_in (Suc n) C j =
     tagged ''kind'' (pc_selector_seq C) (\<lambda>k j.
       if k = ''always'' then Some SelAlways
       else if k = ''never'' then Some SelNever
       else if k = ''all'' then map_option SelAll (req_field (decode_list (decode_selector_in n C)) j ''children'')
       else if k = ''any'' then map_option SelAny (req_field (decode_list (decode_selector_in n C)) j ''children'')
       else if k = ''not'' then map_option SelNot (req_field (decode_selector_in n C) j ''child'')
       else if k = ''eq'' then with_key SelEq json_as_str ''value'' j
       else if k = ''ne'' then with_key SelNe json_as_str ''value'' j
       else if k = ''matches'' then with_key SelMatches json_as_str ''pattern'' j
       else if k = ''exists'' then map_option SelExists (req_field json_as_str j ''key'')
       else if k = ''gt'' then with_key SelGt decode_i64 ''value'' j
       else if k = ''gte'' then with_key SelGte decode_i64 ''value'' j
       else if k = ''lt'' then with_key SelLt decode_i64 ''value'' j
       else if k = ''lte'' then with_key SelLte decode_i64 ''value'' j
       else None) j"

definition decode_selector :: "PolicyCodec \<Rightarrow> json \<Rightarrow> Selector option" where
  "decode_selector C j = decode_selector_in (Suc (json_depth j)) C j"

section \<open>Rules and references\<close>

fun encode_fallback :: "FallbackAction \<Rightarrow> json" where
  "encode_fallback FbBlock = obj_of [(''kind'', Some (JString ''block''))]"
| "encode_fallback (FbPickAlternative a) = obj_of [(''kind'', Some (JString ''pick_alternative'')), (''action'', Some (JString a))]"
| "encode_fallback FbLowestRiskAlternative = obj_of [(''kind'', Some (JString ''lowest_risk_alternative''))]"
| "encode_fallback FbKeepCurrentState = obj_of [(''kind'', Some (JString ''keep_current_state''))]"
| "encode_fallback (FbDelegateTo p) = obj_of [(''kind'', Some (JString ''delegate_to'')), (''policy_path'', Some (JString p))]"

definition decode_fallback :: "PolicyCodec \<Rightarrow> json \<Rightarrow> FallbackAction option" where
  "decode_fallback C = tagged ''kind'' (pc_fallback_seq C) (\<lambda>k j.
     if k = ''block'' then Some FbBlock
     else if k = ''pick_alternative'' then map_option FbPickAlternative (req_field json_as_str j ''action'')
     else if k = ''lowest_risk_alternative'' then Some FbLowestRiskAlternative
     else if k = ''keep_current_state'' then Some FbKeepCurrentState
     else if k = ''delegate_to'' then map_option FbDelegateTo (req_field json_as_str j ''policy_path'')
     else None)"

definition encode_action :: "AuthorizedAction \<Rightarrow> json" where
  "encode_action a =
     obj_of [(''action'', Some (JString (aa_action a))), (''condition'', map_option JString (aa_condition a)),
       (''preconditions'', Some (encode_strings (aa_preconditions a)))]"

definition decode_action :: "PolicyCodec \<Rightarrow> json \<Rightarrow> AuthorizedAction option" where
  "decode_action C j =
     (case j of
        JArray xs \<Rightarrow> pc_action_seq C xs
      | JObject _ \<Rightarrow>
          Option.bind (req_field json_as_str j ''action'') (\<lambda>a.
          Option.bind (opt_field json_as_str j ''condition'') (\<lambda>c.
          Option.bind (default_list json_as_str j ''preconditions'') (\<lambda>ps.
          Some \<lparr>aa_action = a, aa_condition = c, aa_preconditions = ps\<rparr>)))
      | _ \<Rightarrow> None)"

text \<open>A timeout is written in milliseconds, \<open>as_millis() as u64\<close>.\<close>

definition timeout_millis :: "nat \<Rightarrow> u64" where
  "timeout_millis d = word_of_nat (d div 1000000)"

definition encode_approval :: "ApprovalRule \<Rightarrow> json" where
  "encode_approval r =
     obj_of [(''action'', Some (JString (ar_action r))), (''approvers'', Some (encode_strings (ar_approvers r))),
       (''timeout'', map_option (\<lambda>d. encode_u64 (timeout_millis d)) (ar_timeout r)),
       (''fallback'', Some (encode_fallback (ar_fallback r)))]"

definition decode_approval :: "PolicyCodec \<Rightarrow> json \<Rightarrow> ApprovalRule option" where
  "decode_approval C j =
     (case j of
        JArray xs \<Rightarrow> pc_approval_seq C xs
      | JObject _ \<Rightarrow>
          Option.bind (req_field json_as_str j ''action'') (\<lambda>a.
          Option.bind (req_field (decode_list json_as_str) j ''approvers'') (\<lambda>as.
          Option.bind (opt_field decode_u64 j ''timeout'') (\<lambda>t.
          Option.bind (req_field (decode_fallback C) j ''fallback'') (\<lambda>f.
          Some \<lparr>ar_action = a, ar_approvers = as, ar_timeout = map_option (\<lambda>n. unat n * 1000000) t, ar_fallback = f\<rparr>))))
      | _ \<Rightarrow> None)"

definition encode_step :: "ProcedureStep \<Rightarrow> json" where
  "encode_step p =
     obj_of [(''action'', Some (JString (pst_action p))), (''if_previous_failed'', map_option JString (pst_if_previous_failed p))]"

definition decode_step :: "PolicyCodec \<Rightarrow> json \<Rightarrow> ProcedureStep option" where
  "decode_step C j =
     (case j of
        JArray xs \<Rightarrow> pc_step_seq C xs
      | JObject _ \<Rightarrow>
          Option.bind (req_field json_as_str j ''action'') (\<lambda>a.
          Option.bind (opt_field json_as_str j ''if_previous_failed'') (\<lambda>f.
          Some \<lparr>pst_action = a, pst_if_previous_failed = f\<rparr>))
      | _ \<Rightarrow> None)"

fun severity_name :: "Severity \<Rightarrow> string" where
  "severity_name SvLow = ''low''"
| "severity_name SvMedium = ''medium''"
| "severity_name SvHigh = ''high''"
| "severity_name SvCritical = ''critical''"

definition decode_severity :: "json \<Rightarrow> Severity option" where
  "decode_severity = decode_variant (map (\<lambda>x. (severity_name x, x)) [SvLow, SvMedium, SvHigh, SvCritical])"

fun encode_source :: "EvaluatorSource \<Rightarrow> json" where
  "encode_source (EsInline b) = obj_of [(''kind'', Some (JString ''inline'')), (''body'', Some (JString b))]"
| "encode_source (EsFilePath p) = obj_of [(''kind'', Some (JString ''file_path'')), (''path'', Some (JString p))]"
| "encode_source (EsCommitRef p) = obj_of [(''kind'', Some (JString ''commit_ref'')), (''path'', Some (JString p))]"

definition decode_source :: "PolicyCodec \<Rightarrow> json \<Rightarrow> EvaluatorSource option" where
  "decode_source C = tagged ''kind'' (pc_source_seq C) (\<lambda>k j.
     if k = ''inline'' then map_option EsInline (req_field json_as_str j ''body'')
     else if k = ''file_path'' then map_option EsFilePath (req_field json_as_str j ''path'')
     else if k = ''commit_ref'' then map_option EsCommitRef (req_field json_as_str j ''path'')
     else None)"

definition encode_evaluator :: "ExternalEvaluatorRef \<Rightarrow> json" where
  "encode_evaluator e =
     obj_of [(''kind'', Some (JString (external_kind e))), (''source'', Some (encode_source (external_source e)))]"

definition decode_evaluator :: "PolicyCodec \<Rightarrow> json \<Rightarrow> ExternalEvaluatorRef option" where
  "decode_evaluator C = tagged ''kind'' (pc_evaluator_seq C) (\<lambda>k j.
     if k = ''rego'' then map_option ErRego (req_field (decode_source C) j ''source'')
     else if k = ''cedar'' then map_option ErCedar (req_field (decode_source C) j ''source'')
     else if k = ''wasm'' then map_option ErWasm (req_field (decode_source C) j ''source'')
     else None)"

fun encode_signature :: "PolicySignature \<Rightarrow> json" where
  "encode_signature (Ed25519 key hex) =
     obj_of [(''algorithm'', Some (JString ''ed25519'')), (''signer_key_id'', Some (JString key)), (''signature_hex'', Some (JString hex))]"

definition decode_signature :: "PolicyCodec \<Rightarrow> json \<Rightarrow> PolicySignature option" where
  "decode_signature C = tagged ''algorithm'' (pc_signature_seq C) (\<lambda>k j.
     if k = ''ed25519'' then Option.bind (req_field json_as_str j ''signer_key_id'') (\<lambda>key.
       map_option (Ed25519 key) (req_field json_as_str j ''signature_hex''))
     else None)"

section \<open>Policies\<close>

definition policy_time :: "PolicyCodec \<Rightarrow> timestamp \<Rightarrow> json" where
  "policy_time C t = JString (pc_time C t)"

definition decode_policy_time :: "PolicyCodec \<Rightarrow> json \<Rightarrow> timestamp option" where
  "decode_policy_time C j = Option.bind (json_as_str j) (pc_parse_time C)"

definition policy_fields :: "PolicyCodec \<Rightarrow> Policy \<Rightarrow> (string \<times> json option) list" where
  "policy_fields C p =
     [(''path'', Some (JString (po_path p))),
      (''version'', Some (encode_u64 (po_version p))),
      (''situation'', Some (JString (po_situation p))),
      (''situation_selector'', Some (encode_selector (po_situation_selector p))),
      (''allow'', Some (JArray (map encode_action (po_allow p)))),
      (''deny'', Some (JArray (map encode_action (po_deny p)))),
      (''require_approval'', Some (JArray (map encode_approval (po_require_approval p)))),
      (''procedure'', map_option (\<lambda>ps. JArray (map encode_step ps)) (po_procedure p)),
      (''triggers'', Some (encode_strings (po_triggers p))),
      (''required_fields'', Some (encode_strings (po_required_fields p))),
      (''severity'', Some (JString (severity_name (po_severity p)))),
      (''proposed_by'', Some (JString (po_proposed_by p))),
      (''proposed_at'', Some (policy_time C (po_proposed_at p))),
      (''ratified_by'', map_option JString (po_ratified_by p)),
      (''ratified_at'', map_option (policy_time C) (po_ratified_at p)),
      (''ratification_reasoning'', map_option JString (po_ratification_reasoning p)),
      (''active_from'', Some (policy_time C (po_active_from p))),
      (''expires_at'', map_option (policy_time C) (po_expires_at p)),
      (''supersedes'', map_option JString (po_supersedes p)),
      (''signature'', map_option encode_signature (po_signature p)),
      (''tenant_id'', map_option JString (po_tenant_id p)),
      (''external_evaluator'', map_option encode_evaluator (po_external_evaluator p))]"

definition encode_policy :: "PolicyCodec \<Rightarrow> Policy \<Rightarrow> json" where
  "encode_policy C p = obj_of (policy_fields C p)"

definition decode_policy :: "PolicyCodec \<Rightarrow> json \<Rightarrow> Policy option" where
  "decode_policy C j =
     (case j of
        JArray xs \<Rightarrow> pc_policy_seq C xs
      | JObject _ \<Rightarrow>
          Option.bind (req_field json_as_str j ''path'') (\<lambda>path.
          Option.bind (req_field decode_u64 j ''version'') (\<lambda>version.
          Option.bind (req_field json_as_str j ''situation'') (\<lambda>situation.
          Option.bind (req_field (decode_selector C) j ''situation_selector'') (\<lambda>selector.
          Option.bind (default_list (decode_action C) j ''allow'') (\<lambda>allow.
          Option.bind (default_list (decode_action C) j ''deny'') (\<lambda>deny.
          Option.bind (default_list (decode_approval C) j ''require_approval'') (\<lambda>approval.
          Option.bind (opt_field (decode_list (decode_step C)) j ''procedure'') (\<lambda>procedure.
          Option.bind (default_list json_as_str j ''triggers'') (\<lambda>triggers.
          Option.bind (default_list json_as_str j ''required_fields'') (\<lambda>required.
          Option.bind (case json_get j ''severity'' of None \<Rightarrow> Some SvLow | Some v \<Rightarrow> decode_severity v) (\<lambda>severity.
          Option.bind (req_field json_as_str j ''proposed_by'') (\<lambda>proposed_by.
          Option.bind (req_field (decode_policy_time C) j ''proposed_at'') (\<lambda>proposed_at.
          Option.bind (opt_field json_as_str j ''ratified_by'') (\<lambda>ratified_by.
          Option.bind (opt_field (decode_policy_time C) j ''ratified_at'') (\<lambda>ratified_at.
          Option.bind (opt_field json_as_str j ''ratification_reasoning'') (\<lambda>reasoning.
          Option.bind (req_field (decode_policy_time C) j ''active_from'') (\<lambda>active_from.
          Option.bind (opt_field (decode_policy_time C) j ''expires_at'') (\<lambda>expires_at.
          Option.bind (opt_field json_as_str j ''supersedes'') (\<lambda>supersedes.
          Option.bind (opt_field (decode_signature C) j ''signature'') (\<lambda>sig.
          Option.bind (opt_field json_as_str j ''tenant_id'') (\<lambda>tenant.
          Option.bind (opt_field (decode_evaluator C) j ''external_evaluator'') (\<lambda>evaluator.
          Some \<lparr>po_path = path, po_version = version, po_situation = situation, po_situation_selector = selector,
            po_allow = allow, po_deny = deny, po_require_approval = approval, po_procedure = procedure,
            po_triggers = triggers, po_required_fields = required, po_severity = severity, po_proposed_by = proposed_by,
            po_proposed_at = proposed_at, po_ratified_by = ratified_by, po_ratified_at = ratified_at,
            po_ratification_reasoning = reasoning, po_active_from = active_from, po_expires_at = expires_at,
            po_supersedes = supersedes, po_signature = sig, po_tenant_id = tenant,
            po_external_evaluator = evaluator\<rparr>))))))))))))))))))))))
      | _ \<Rightarrow> None)"

end
