(* ===== verification/Policy_Store.thy ===== *)
theory Policy_Store
  imports Policy_Json Cas_Contract
begin

text \<open>
  The policy store, from \<open>crates/agentstategraph-policy/src/store.rs\<close>: policies kept as documents under a
  prefix of a repository's tree, the superseded versions beside them. A change of one document is a loop of
  the form of \<open>Cas_Loop\<close>; a supersede writes two documents in a speculation and lands it with a
  compare-and-swap.

  A query that reads the repository several times takes the states it reads from the sequence \<open>st\<close>, so other
  writers may act between its reads. Spans and counters are left out.
\<close>

type_synonym policy_error = "RepoError PolicyError"

record PolicyStore =
  ps_prefix :: string
  ps_agent_id :: string
  ps_verifier :: "(Policy \<Rightarrow> SignatureVerificationError + unit) option"
  ps_require_signed :: bool
  ps_external_evaluators :: "EvaluatorRegistry option"

definition policy_store_new :: "string \<Rightarrow> string \<Rightarrow> PolicyStore" where
  "policy_store_new prefix agent_id =
     \<lparr>ps_prefix = (if prefix \<noteq> [] \<and> last prefix = CHR ''/'' then butlast prefix else prefix), ps_agent_id = agent_id,
      ps_verifier = None, ps_require_signed = False, ps_external_evaluators = None\<rparr>"

definition with_verifier :: "PolicyStore \<Rightarrow> (Policy \<Rightarrow> SignatureVerificationError + unit) \<Rightarrow> PolicyStore" where
  "with_verifier P verifier = P\<lparr>ps_verifier := Some verifier\<rparr>"

definition with_require_signed :: "PolicyStore \<Rightarrow> bool \<Rightarrow> PolicyStore" where
  "with_require_signed P b = P\<lparr>ps_require_signed := b\<rparr>"

definition with_external_evaluators :: "PolicyStore \<Rightarrow> EvaluatorRegistry \<Rightarrow> PolicyStore" where
  "with_external_evaluators P reg = P\<lparr>ps_external_evaluators := Some reg\<rparr>"

definition POLICY_CAS_RETRIES :: nat where "POLICY_CAS_RETRIES = 32"

definition policy_opts :: "'s RepoPort \<Rightarrow> PolicyStore \<Rightarrow> nat \<Rightarrow> IntentCategory \<times> string \<Rightarrow> CommitOptions" where
  "policy_opts R P k = (\<lambda>(category, description). options_new (tr_env R k) (ps_agent_id P) category description)"

definition policy_loop ::
  "'s RepoPort \<Rightarrow> PolicyStore \<Rightarrow> (nat \<Rightarrow> nat \<Rightarrow> 's \<Rightarrow> 's) \<Rightarrow> 's \<Rightarrow> string \<Rightarrow>
   (nat \<Rightarrow> 's \<Rightarrow> 's \<times> (policy_error + (IntentCategory \<times> string, 'a) outcome)) \<Rightarrow> 's \<times> (policy_error + 'a)" where
  "policy_loop R P = cas_loop POLICY_CAS_RETRIES 0 R (policy_opts R P) PoRepo (PoRepo RWriteConflict)"

section \<open>Reading one policy\<close>

fun is_tree_error :: "RepoError \<Rightarrow> bool" where
  "is_tree_error (RTree _) = True"
| "is_tree_error _ = False"

definition read_policy ::
  "'s RepoPort \<Rightarrow> PolicyCodec \<Rightarrow> 's \<Rightarrow> string \<Rightarrow> string \<Rightarrow> string \<Rightarrow> policy_error + Policy" where
  "read_policy R C s ref_name path missing =
     (case tr_get_json R s ref_name path of
        Inl e \<Rightarrow> Inl (if is_tree_error e then PoNotFound missing else PoRepo e)
      | Inr v \<Rightarrow> ok_or PoSerde (decode_policy C v))"

definition load_active :: "'s RepoPort \<Rightarrow> PolicyCodec \<Rightarrow> PolicyStore \<Rightarrow> 's \<Rightarrow> string \<Rightarrow> string \<Rightarrow> policy_error + Policy" where
  "load_active R C P s ref_name normalized =
     read_policy R C s ref_name (active_path (ps_prefix P) normalized) normalized"

definition policy_exists :: "'s RepoPort \<Rightarrow> PolicyCodec \<Rightarrow> PolicyStore \<Rightarrow> 's \<Rightarrow> string \<Rightarrow> string \<Rightarrow> policy_error + bool" where
  "policy_exists R C P s ref_name normalized =
     (case load_active R C P s ref_name normalized of
        Inr _ \<Rightarrow> Inr True
      | Inl (PoNotFound _) \<Rightarrow> Inr False
      | Inl e \<Rightarrow> Inl e)"

definition at_version :: "string \<Rightarrow> u64 \<Rightarrow> string" where
  "at_version normalized v = normalized @ ''@'' @ show_nat (unat v)"

definition load_version ::
  "'s RepoPort \<Rightarrow> PolicyCodec \<Rightarrow> PolicyStore \<Rightarrow> 's \<Rightarrow> string \<Rightarrow> string \<Rightarrow> u64 \<Rightarrow> policy_error + Policy" where
  "load_version R C P s ref_name normalized v =
     read_policy R C s ref_name (historical_path (ps_prefix P) normalized v) (at_version normalized v)"

definition get_policy ::
  "'s RepoPort \<Rightarrow> PolicyCodec \<Rightarrow> PolicyStore \<Rightarrow> (nat \<Rightarrow> 's) \<Rightarrow> string \<Rightarrow> string \<Rightarrow> u64 option \<Rightarrow> policy_error + Policy" where
  "get_policy R C P st ref_name path version =
     try_bind (normalize_policy path) (\<lambda>normalized.
     try_bind (load_active R C P (st 0) ref_name normalized) (\<lambda>cur.
       case version of
         None \<Rightarrow> Inr cur
       | Some v \<Rightarrow> if po_version cur = v then Inr cur else load_version R C P (st 1) ref_name normalized v))"

text \<open>The versions below \<open>n\<close>, newest first; read \<open>j\<close> is the next one.\<close>

fun older_versions ::
  "'s RepoPort \<Rightarrow> PolicyCodec \<Rightarrow> PolicyStore \<Rightarrow> (nat \<Rightarrow> 's) \<Rightarrow> nat \<Rightarrow> string \<Rightarrow> string \<Rightarrow> nat \<Rightarrow> policy_error + Policy list" where
  "older_versions R C P st j ref_name normalized n =
     (if n \<le> 1 then Inr []
      else try_bind (load_version R C P (st j) ref_name normalized (word_of_nat (n - 1))) (\<lambda>p.
           try_bind (older_versions R C P st (Suc j) ref_name normalized (n - 1)) (\<lambda>ps. Inr (p # ps))))"

definition policy_history ::
  "'s RepoPort \<Rightarrow> PolicyCodec \<Rightarrow> PolicyStore \<Rightarrow> (nat \<Rightarrow> 's) \<Rightarrow> string \<Rightarrow> string \<Rightarrow> policy_error + Policy list" where
  "policy_history R C P st ref_name path =
     try_bind (normalize_policy path) (\<lambda>normalized.
     try_bind (load_active R C P (st 0) ref_name normalized) (\<lambda>cur.
     try_bind (older_versions R C P st 1 ref_name normalized (unat (po_version cur))) (\<lambda>older.
       Inr (rev (cur # older)))))"

section \<open>Changing policies\<close>

definition epoch_second :: "timestamp \<Rightarrow> bool" where
  "epoch_second t \<longleftrightarrow> t div 1000000000 = 0"

definition proposed_policy :: "'s RepoPort \<Rightarrow> PolicyStore \<Rightarrow> string \<Rightarrow> Policy \<Rightarrow> Policy" where
  "proposed_policy R P normalized p =
     p\<lparr>po_path := normalized, po_version := 1, po_proposed_by := ps_agent_id P, po_proposed_at := ev_now (tr_env R 0),
       po_ratified_by := None, po_ratified_at := None, po_ratification_reasoning := None, po_supersedes := None,
       po_active_from := (if epoch_second (po_active_from p) then ev_now (tr_env R 0) else po_active_from p)\<rparr>"

definition propose ::
  "'s RepoPort \<Rightarrow> PolicyCodec \<Rightarrow> PolicyStore \<Rightarrow> (nat \<Rightarrow> nat \<Rightarrow> 's \<Rightarrow> 's) \<Rightarrow> 's \<Rightarrow> string \<Rightarrow> Policy \<Rightarrow> 's \<times> (policy_error + string)" where
  "propose R C P others s ref_name policy =
     (case normalize_policy (po_path policy) of
        Inl e \<Rightarrow> (s, Inl e)
      | Inr normalized \<Rightarrow>
          let p = proposed_policy R P normalized policy in
          policy_loop R P others s ref_name (\<lambda>k s. (s,
            try_bind (policy_exists R C P s ref_name normalized) (\<lambda>exists.
              if exists then Inl (PoAlreadyExists normalized)
              else Inr (Write (active_path (ps_prefix P) normalized) (encode_policy C p)
                     (PolicyPropose, ''Propose policy '' @ policy_handle p) (\<lambda>_. policy_handle p))))))"

definition update_active ::
  "'s RepoPort \<Rightarrow> PolicyCodec \<Rightarrow> PolicyStore \<Rightarrow> (nat \<Rightarrow> nat \<Rightarrow> 's \<Rightarrow> 's) \<Rightarrow> 's \<Rightarrow> string \<Rightarrow> string \<Rightarrow>
   (nat \<Rightarrow> Policy \<Rightarrow> policy_error + Policy \<times> IntentCategory \<times> string) \<Rightarrow> 's \<times> (policy_error + unit)" where
  "update_active R C P others s ref_name normalized change =
     policy_loop R P others s ref_name
       (read_change others (\<lambda>s. load_active R C P s ref_name normalized) (\<lambda>k _. change k)
          (\<lambda>_. active_path (ps_prefix P) normalized) (\<lambda>y. encode_policy C (fst y)) snd (\<lambda>_. ()))"

definition ratify_edit :: "'s RepoPort \<Rightarrow> string \<Rightarrow> string \<Rightarrow> nat \<Rightarrow> Policy \<Rightarrow> policy_error + Policy \<times> IntentCategory \<times> string" where
  "ratify_edit R ratifier reasoning k p =
     (if is_ratified p then Inl (PoAlreadyRatified (policy_handle p))
      else Inr (p\<lparr>po_ratified_by := Some ratifier, po_ratified_at := Some (ev_now (tr_env R k)),
               po_ratification_reasoning := (if reasoning = [] then None else Some reasoning)\<rparr>,
             PolicyRatify, ''Ratify policy '' @ policy_handle p @ '' by '' @ ratifier))"

definition ratify ::
  "'s RepoPort \<Rightarrow> PolicyCodec \<Rightarrow> PolicyStore \<Rightarrow> (nat \<Rightarrow> nat \<Rightarrow> 's \<Rightarrow> 's) \<Rightarrow> 's \<Rightarrow> string \<Rightarrow> string \<Rightarrow> string \<Rightarrow> string \<Rightarrow>
   's \<times> (policy_error + unit)" where
  "ratify R C P others s ref_name path ratifier reasoning =
     (if str_trim ratifier = [] then (s, Inl (PoInvalid ''ratifier required''))
      else case normalize_policy path of
             Inl e \<Rightarrow> (s, Inl e)
           | Inr normalized \<Rightarrow> update_active R C P others s ref_name normalized (ratify_edit R ratifier reasoning))"

definition sign_edit :: "PolicySignature \<Rightarrow> nat \<Rightarrow> Policy \<Rightarrow> policy_error + Policy \<times> IntentCategory \<times> string" where
  "sign_edit sig k p = Inr (p\<lparr>po_signature := Some sig\<rparr>, PolicySign, ''Sign policy '' @ policy_handle p)"

definition set_signature ::
  "'s RepoPort \<Rightarrow> PolicyCodec \<Rightarrow> PolicyStore \<Rightarrow> (nat \<Rightarrow> nat \<Rightarrow> 's \<Rightarrow> 's) \<Rightarrow> 's \<Rightarrow> string \<Rightarrow> string \<Rightarrow> PolicySignature \<Rightarrow>
   's \<times> (policy_error + unit)" where
  "set_signature R C P others s ref_name path sig =
     (case normalize_policy path of
        Inl e \<Rightarrow> (s, Inl e)
      | Inr normalized \<Rightarrow> update_active R C P others s ref_name normalized (sign_edit sig))"

text \<open>What a supersede uses of the speculations of a repository.\<close>

record 's SpecPort =
  sp_speculate :: "'s \<Rightarrow> string \<Rightarrow> string option \<Rightarrow> 's \<times> (RepoError + SpecHandle)"
  sp_set_json :: "'s \<Rightarrow> SpecHandle \<Rightarrow> string \<Rightarrow> json \<Rightarrow> 's \<times> (RepoError + unit)"
  sp_commit_cas :: "nat \<Rightarrow> 's \<Rightarrow> SpecHandle \<Rightarrow> ObjectId \<Rightarrow> CommitOptions \<Rightarrow> 's \<times> (RepoError + ObjectId)"

definition superseding_policy :: "'s RepoPort \<Rightarrow> PolicyStore \<Rightarrow> nat \<Rightarrow> string \<Rightarrow> Policy \<Rightarrow> Policy \<Rightarrow> Policy" where
  "superseding_policy R P k normalized old p =
     p\<lparr>po_path := normalized, po_version := po_version old + 1, po_proposed_by := ps_agent_id P,
       po_proposed_at := ev_now (tr_env R k), po_supersedes := Some (policy_handle old)\<rparr>"

definition policy_arrow :: string where "policy_arrow = [CHR 0xE2, CHR 0x86, CHR 0x92]"

text \<open>One attempt: \<open>None\<close> asks for another. Other writers act before each call.\<close>

definition supersede_attempt ::
  "'s RepoPort \<Rightarrow> 's SpecPort \<Rightarrow> PolicyCodec \<Rightarrow> PolicyStore \<Rightarrow> (nat \<Rightarrow> nat \<Rightarrow> 's \<Rightarrow> 's) \<Rightarrow> nat \<Rightarrow> 's \<Rightarrow> string \<Rightarrow> string \<Rightarrow> Policy \<Rightarrow>
   's \<times> (policy_error + string) option" where
  "supersede_attempt R Sp C P others k s ref_name normalized p =
     (case tr_head R s ref_name of
        Inl e \<Rightarrow> (s, Some (Inl (PoRepo e)))
      | Inr head \<Rightarrow>
          let s = others k 0 s in
          (case load_active R C P s ref_name normalized of
             Inl e \<Rightarrow> (s, Some (Inl e))
           | Inr old \<Rightarrow>
               let new = superseding_policy R P k normalized old p in
               (case sp_speculate Sp (others k 1 s) ref_name (Some (''Supersede '' @ normalized)) of
                  (s, Inl e) \<Rightarrow> (s, Some (Inl (PoRepo e)))
                | (s, Inr handle) \<Rightarrow>
                    (case sp_set_json Sp (others k 2 s) handle (historical_path (ps_prefix P) normalized (po_version old)) (encode_policy C old) of
                       (s, Inl e) \<Rightarrow> (s, Some (Inl (PoRepo e)))
                     | (s, Inr _) \<Rightarrow>
                         (case sp_set_json Sp (others k 3 s) handle (active_path (ps_prefix P) normalized) (encode_policy C new) of
                            (s, Inl e) \<Rightarrow> (s, Some (Inl (PoRepo e)))
                          | (s, Inr _) \<Rightarrow>
                              (case sp_commit_cas Sp k (others k 9 s) handle head (policy_opts R P k (PolicySupersede,
                                      ''Supersede '' @ policy_handle old @ '' '' @ policy_arrow @ '' '' @ policy_handle new)) of
                                 (s, Inr _) \<Rightarrow> (s, Some (Inr (policy_handle new)))
                               | (s, Inl e) \<Rightarrow> (s, if e = RWriteConflict then None else Some (Inl (PoRepo e)))))))))"

fun supersede_attempts ::
  "nat \<Rightarrow> nat \<Rightarrow> 's RepoPort \<Rightarrow> 's SpecPort \<Rightarrow> PolicyCodec \<Rightarrow> PolicyStore \<Rightarrow> (nat \<Rightarrow> nat \<Rightarrow> 's \<Rightarrow> 's) \<Rightarrow> 's \<Rightarrow> string \<Rightarrow> string \<Rightarrow> Policy \<Rightarrow>
   's \<times> (policy_error + string)" where
  "supersede_attempts 0 k R Sp C P others s ref_name normalized p = (s, Inl (PoRepo RWriteConflict))"
| "supersede_attempts (Suc n) k R Sp C P others s ref_name normalized p =
     (case supersede_attempt R Sp C P others k s ref_name normalized p of
        (s, Some r) \<Rightarrow> (s, r)
      | (s, None) \<Rightarrow> supersede_attempts n (Suc k) R Sp C P others s ref_name normalized p)"

definition supersede ::
  "'s RepoPort \<Rightarrow> 's SpecPort \<Rightarrow> PolicyCodec \<Rightarrow> PolicyStore \<Rightarrow> (nat \<Rightarrow> nat \<Rightarrow> 's \<Rightarrow> 's) \<Rightarrow> 's \<Rightarrow> string \<Rightarrow> string \<Rightarrow> Policy \<Rightarrow>
   's \<times> (policy_error + string)" where
  "supersede R Sp C P others s ref_name path p =
     (case normalize_policy path of
        Inl e \<Rightarrow> (s, Inl e)
      | Inr normalized \<Rightarrow>
          supersede_attempts POLICY_CAS_RETRIES 0 R Sp C P others s ref_name normalized
            (if epoch_second (po_active_from p) then p\<lparr>po_active_from := ev_now (tr_env R 0)\<rparr> else p))"

section \<open>Listing policies\<close>

definition tenant_matches :: "Policy \<Rightarrow> string option \<Rightarrow> bool" where
  "tenant_matches p tenant_filter =
     (case tenant_filter of
        None \<Rightarrow> True
      | Some tid \<Rightarrow> (case po_tenant_id p of None \<Rightarrow> True | Some t \<Rightarrow> t = tid))"

text \<open>The text before the first occurrence of a marker.\<close>

fun text_before :: "'a list \<Rightarrow> 'a list \<Rightarrow> 'a list option" where
  "text_before q [] = (if q = [] then Some [] else None)"
| "text_before q (x # xs) = (if is_prefix q (x # xs) then Some [] else map_option (Cons x) (text_before q xs))"

definition policy_of_leaf :: "string \<Rightarrow> string option \<Rightarrow> string \<Rightarrow> string option" where
  "policy_of_leaf prefix prefix_filter leaf =
     Option.bind (strip_prefix (prefix @ ''/'') leaf) (\<lambda>rel.
       if str_contains rel (''/'' @ HISTORY_KEY @ ''/'') then None
       else Option.bind (text_before (''/'' @ POLICY_META_KEY @ ''/'') rel) (\<lambda>policy_rel.
         if policy_rel = [] then None
         else case prefix_filter of
                Some f \<Rightarrow> if is_prefix (trim_slashes f) policy_rel then Some policy_rel else None
              | None \<Rightarrow> Some policy_rel))"

fun load_listed ::
  "'s RepoPort \<Rightarrow> PolicyCodec \<Rightarrow> PolicyStore \<Rightarrow> (nat \<Rightarrow> 's) \<Rightarrow> nat \<Rightarrow> string \<Rightarrow> string option \<Rightarrow> string list \<Rightarrow> policy_error + Policy list" where
  "load_listed R C P st j ref_name tenant [] = Inr []"
| "load_listed R C P st j ref_name tenant (p # ps) =
     (case load_active R C P (st j) ref_name p of
        Inr policy \<Rightarrow>
          try_bind (load_listed R C P st (Suc j) ref_name tenant ps) (\<lambda>rest.
            Inr (if tenant_matches policy tenant then policy # rest else rest))
      | Inl (PoNotFound _) \<Rightarrow> load_listed R C P st (Suc j) ref_name tenant ps
      | Inl e \<Rightarrow> Inl e)"

definition list_scoped ::
  "'s RepoPort \<Rightarrow> PolicyCodec \<Rightarrow> PolicyStore \<Rightarrow> (nat \<Rightarrow> 's) \<Rightarrow> string \<Rightarrow> string option \<Rightarrow> string option \<Rightarrow> policy_error + Policy list" where
  "list_scoped R C P st ref_name prefix_filter tenant =
     (case tr_list_paths R (st 0) ref_name (ps_prefix P) None of
        Inl e \<Rightarrow> if is_tree_error e then Inr [] else Inl (PoRepo e)
      | Inr leaves \<Rightarrow>
          load_listed R C P st 1 ref_name tenant
            (remdups_adj (sort (List.map_filter (policy_of_leaf (ps_prefix P) prefix_filter) leaves))))"

definition list_policies ::
  "'s RepoPort \<Rightarrow> PolicyCodec \<Rightarrow> PolicyStore \<Rightarrow> (nat \<Rightarrow> 's) \<Rightarrow> string \<Rightarrow> string option \<Rightarrow> policy_error + Policy list" where
  "list_policies R C P st ref_name prefix_filter = list_scoped R C P st ref_name prefix_filter None"

definition signature_passes :: "PolicyStore \<Rightarrow> Policy \<Rightarrow> bool" where
  "signature_passes P p =
     (case ps_verifier P of
        None \<Rightarrow> True
      | Some verify \<Rightarrow>
          (case po_signature p of
             None \<Rightarrow> \<not> ps_require_signed P
           | Some _ \<Rightarrow> (case verify p of Inr _ \<Rightarrow> True | Inl _ \<Rightarrow> False)))"

definition active_scoped ::
  "'s RepoPort \<Rightarrow> PolicyCodec \<Rightarrow> PolicyStore \<Rightarrow> (nat \<Rightarrow> 's) \<Rightarrow> string \<Rightarrow> string option \<Rightarrow> string option \<Rightarrow> policy_error + Policy list" where
  "active_scoped R C P st ref_name prefix_filter tenant =
     try_bind (list_scoped R C P st ref_name prefix_filter tenant) (\<lambda>ps.
       Inr (filter (signature_passes P) (filter (\<lambda>p. is_currently_active p (ev_now (tr_env R 0))) ps)))"

definition active_policies ::
  "'s RepoPort \<Rightarrow> PolicyCodec \<Rightarrow> PolicyStore \<Rightarrow> (nat \<Rightarrow> 's) \<Rightarrow> string \<Rightarrow> string option \<Rightarrow> policy_error + Policy list" where
  "active_policies R C P st ref_name prefix_filter = active_scoped R C P st ref_name prefix_filter None"

definition policies_for_situation_scoped ::
  "'s RepoPort \<Rightarrow> PolicyCodec \<Rightarrow> (string \<Rightarrow> (string \<Rightarrow> bool) option) \<Rightarrow> PolicyStore \<Rightarrow> (nat \<Rightarrow> 's) \<Rightarrow> string \<Rightarrow> Situation \<Rightarrow> string option \<Rightarrow>
   policy_error + Policy list" where
  "policies_for_situation_scoped R C regex P st ref_name situation tenant =
     try_bind (active_scoped R C P st ref_name None tenant) (\<lambda>ps.
       Inr (filter (\<lambda>p. selector_matches regex (po_situation_selector p) situation) ps))"

definition policies_for_situation ::
  "'s RepoPort \<Rightarrow> PolicyCodec \<Rightarrow> (string \<Rightarrow> (string \<Rightarrow> bool) option) \<Rightarrow> PolicyStore \<Rightarrow> (nat \<Rightarrow> 's) \<Rightarrow> string \<Rightarrow> Situation \<Rightarrow>
   policy_error + Policy list" where
  "policies_for_situation R C regex P st ref_name situation = policies_for_situation_scoped R C regex P st ref_name situation None"

section \<open>Evaluation\<close>

definition dispatched :: "EvaluatorRegistry \<Rightarrow> Policy \<Rightarrow> bool" where
  "dispatched reg p = (case po_external_evaluator p of Some e \<Rightarrow> reg (external_kind e) \<noteq> None | None \<Rightarrow> False)"

definition partition_for_dispatch :: "PolicyStore \<Rightarrow> Policy list \<Rightarrow> Policy list \<times> Policy list" where
  "partition_for_dispatch P policies =
     (case ps_external_evaluators P of
        None \<Rightarrow> (policies, [])
      | Some reg \<Rightarrow> (filter (\<lambda>p. po_external_evaluator p = None) policies, filter (dispatched reg) policies))"

definition run_external :: "EvaluatorRegistry \<Rightarrow> Situation \<Rightarrow> string \<Rightarrow> string \<Rightarrow> Policy \<Rightarrow> Decision option" where
  "run_external reg situation action agent_id p =
     (case po_external_evaluator p of
        None \<Rightarrow> None
      | Some e \<Rightarrow>
          (case reg (external_kind e) of
             None \<Rightarrow> None
           | Some runner \<Rightarrow> (case runner (external_source e) situation action agent_id of Inr d \<Rightarrow> Some d | Inl _ \<Rightarrow> None)))"

definition run_externals :: "PolicyStore \<Rightarrow> Policy list \<Rightarrow> Situation \<Rightarrow> string \<Rightarrow> string \<Rightarrow> Decision list" where
  "run_externals P policies situation action agent_id =
     (case ps_external_evaluators P of
        None \<Rightarrow> []
      | Some reg \<Rightarrow> List.map_filter (run_external reg situation action agent_id) policies)"

definition evaluate_scoped ::
  "'s RepoPort \<Rightarrow> PolicyCodec \<Rightarrow> (string \<Rightarrow> (string \<Rightarrow> bool) option) \<Rightarrow> PolicyStore \<Rightarrow> (nat \<Rightarrow> 's) \<Rightarrow> string \<Rightarrow> Situation \<Rightarrow> string \<Rightarrow> string \<Rightarrow>
   string option \<Rightarrow> policy_error + Decision" where
  "evaluate_scoped R C regex P st ref_name situation action agent_id tenant =
     try_bind (policies_for_situation_scoped R C regex P st ref_name situation tenant) (\<lambda>matched.
       case partition_for_dispatch P matched of
         (locals, externals) \<Rightarrow>
           Inr (combine_decisions (run_externals P externals situation action agent_id) (evaluate_matched locals action agent_id)))"

definition evaluate_policy ::
  "'s RepoPort \<Rightarrow> PolicyCodec \<Rightarrow> (string \<Rightarrow> (string \<Rightarrow> bool) option) \<Rightarrow> PolicyStore \<Rightarrow> (nat \<Rightarrow> 's) \<Rightarrow> string \<Rightarrow> Situation \<Rightarrow> string \<Rightarrow> string \<Rightarrow>
   policy_error + Decision" where
  "evaluate_policy R C regex P st ref_name situation action agent_id =
     evaluate_scoped R C regex P st ref_name situation action agent_id None"

definition evaluate_change_scoped ::
  "'s RepoPort \<Rightarrow> PolicyCodec \<Rightarrow> PolicyStore \<Rightarrow> (nat \<Rightarrow> 's) \<Rightarrow> string \<Rightarrow> ChangeProposal \<Rightarrow> string option \<Rightarrow> policy_error + Decision" where
  "evaluate_change_scoped R C P st ref_name proposal tenant =
     try_bind (active_scoped R C P st ref_name None tenant) (\<lambda>actives.
       case partition_for_dispatch P actives of
         (locals, externals) \<Rightarrow>
           Inr (combine_decisions (run_externals P externals Map.empty (cp_action proposal) (cp_agent_id proposal))
                  (evaluate_change locals proposal)))"

definition evaluate_change_policy ::
  "'s RepoPort \<Rightarrow> PolicyCodec \<Rightarrow> PolicyStore \<Rightarrow> (nat \<Rightarrow> 's) \<Rightarrow> string \<Rightarrow> ChangeProposal \<Rightarrow> policy_error + Decision" where
  "evaluate_change_policy R C P st ref_name proposal = evaluate_change_scoped R C P st ref_name proposal None"

end
