(* ===== verification/Policy_Paths.thy ===== *)
theory Policy_Paths
  imports Policy_Store
begin

text \<open>
  Where the policies of a store lie in the tree: the documents of policies with different names, and their
  superseded versions, are at diverging paths, and the listing recognises a policy by any leaf of its
  document.
\<close>

section \<open>Names\<close>

lemma split_on_sep: "split_on c (a @ c # b) = split_on c a @ split_on c b"
proof (induction a)
  case (Cons x a)
  then show ?case by (cases "split_on c a") auto
qed simp

lemma split_on_inject: "split_on c a = split_on c b \<longleftrightarrow> a = b"
  by (metis concat_split_on list.inject)

definition segments :: "string \<Rightarrow> string list" where
  "segments n = split_on (CHR ''/'') n"

lemma segments_inject: "segments a = segments b \<longleftrightarrow> a = b"
  by (simp add: segments_def split_on_inject)

text \<open>A name as the store uses it, and one the path parser does not read as an index anywhere.\<close>

definition normalized :: "string \<Rightarrow> bool" where
  "normalized n \<longleftrightarrow> (\<forall>seg \<in> set (segments n). is_segment seg \<and> seg \<noteq> HISTORY_KEY \<and> seg \<noteq> POLICY_META_KEY)"

definition plain_name :: "string \<Rightarrow> bool" where
  "plain_name n \<longleftrightarrow> normalized n \<and> (\<forall>seg \<in> set (segments n). \<not> list_all is_digit seg)"

lemma normalize_policy_normalized: "normalize_policy path = Inr n \<Longrightarrow> normalized n"
  by (auto simp: normalize_policy_def normalized_def segments_def Let_def list_ex_iff split: if_splits)

lemma normalized_not_empty: "normalized n \<Longrightarrow> n \<noteq> [] \<and> hd n \<noteq> CHR ''/''"
  by (cases n) (auto simp: normalized_def segments_def is_segment_def)

lemma normalize_policy_id: "normalized n \<Longrightarrow> normalize_policy n = Inr n"
  using normalized_not_empty [of n]
  by (cases n) (auto simp: normalize_policy_def normalized_def segments_def trim_slashes_def Let_def list_ex_iff)

lemma is_segment_chars:
  assumes "is_segment seg"
  shows "CHR ''/'' \<notin> set seg" "seg \<noteq> []" "hd seg \<noteq> CHR ''+''"
  using assms by (auto simp: is_segment_def is_lower_def is_digit_def less_eq_char_def list_all_iff split: list.splits)

section \<open>Documents of different policies lie apart\<close>

fun segs_apart :: "string list \<Rightarrow> string list \<Rightarrow> bool" where
  "segs_apart (a # as) (b # bs) \<longleftrightarrow> a \<noteq> b \<or> segs_apart as bs"
| "segs_apart _ _ \<longleftrightarrow> False"

lemma segs_apart_common: "segs_apart (zs @ as) (zs @ bs) = segs_apart as bs"
  by (induction zs) auto

lemma segs_apart_ends:
  assumes "as \<noteq> bs \<or> x \<noteq> y" "\<forall>a \<in> set as. a \<noteq> y" "\<forall>b \<in> set bs. b \<noteq> x"
  shows "segs_apart (as @ x # xs) (bs @ y # ys)"
  using assms
proof (induction as arbitrary: bs)
  case Nil
  then show ?case by (cases bs) auto
next
  case (Cons a as)
  then show ?case by (cases bs) auto
qed

text \<open>The segments of a path under the prefix of a store.\<close>

definition prefix_segs :: "string \<Rightarrow> string list" where
  "prefix_segs prefix = (if prefix = [] then [] else segments (tl prefix))"

lemma path_parse_under:
  assumes "path_parse (prefix @ CHR ''/'' # rest) = Inr p" "rest \<noteq> []"
  shows "map (\<lambda>(i, seg). parse_segment i seg) (enumerate 0 (prefix_segs prefix @ segments rest)) = map Inr p"
proof -
  let ?s = "prefix @ CHR ''/'' # rest"
  have ne: "?s \<noteq> []" "?s \<noteq> ''/''" using assms(2) by (cases prefix; auto)+
  with assms(1) obtain t where t: "?s = CHR ''/'' # t"
    "map (\<lambda>(i, seg). parse_segment i seg) (enumerate 0 (split_on (CHR ''/'') t)) = map Inr p"
    by (auto simp: path_parse_def Let_def collect_results_Inr strip_prefix_eq_Some split: option.splits sum.splits if_splits)
  have "split_on (CHR ''/'') t = prefix_segs prefix @ segments rest"
    using t(1) by (cases prefix) (auto simp: prefix_segs_def segments_def split_on_sep)
  with t(2) show ?thesis by simp
qed

lemma plain_segment_key: "is_segment seg \<Longrightarrow> \<not> list_all is_digit seg \<Longrightarrow> parse_usize seg = None"
  using is_segment_chars [of seg] by (cases seg) (auto simp: parse_usize_def)

lemma parsed_apart:
  assumes "map (\<lambda>(i, seg). parse_segment i seg) (enumerate k as) = map Inr p"
    and "map (\<lambda>(i, seg). parse_segment i seg) (enumerate k bs) = map Inr q"
    and "segs_apart as bs" "as = zs @ as'" "bs = zs @ bs'" "\<forall>a \<in> set as' \<union> set bs'. parse_usize a = None"
  shows "diverges p q"
  using assms
proof (induction zs arbitrary: k as bs p q)
  case Nil
  then show ?case
  proof (induction as' bs' arbitrary: k as bs p q rule: segs_apart.induct)
    case (1 a as' b bs')
    then obtain x p' y q' where "p = x # p'" "q = y # q'" by (cases p; cases q; auto)
    with 1 show ?case
      by (auto simp: diverges_Cons parse_segment_def split: if_splits)
  qed auto
next
  case (Cons z zs)
  then obtain x p' y q' where "p = x # p'" "q = y # q'" by (cases p; cases q; auto)
  with Cons show ?case by (fastforce simp: diverges_Cons)
qed

lemma segments_sep: "segments (a @ CHR ''/'' # b) = segments a @ segments b"
  by (simp add: segments_def split_on_sep)

lemma reserved_segments [simp]:
  "segments POLICY_META_KEY = [POLICY_META_KEY]" "segments HISTORY_KEY = [HISTORY_KEY]" "POLICY_META_KEY \<noteq> HISTORY_KEY"
  "HISTORY_KEY \<noteq> POLICY_META_KEY" "parse_usize POLICY_META_KEY = None" "parse_usize HISTORY_KEY = None"
  by (code_simp, code_simp, simp_all add: POLICY_META_KEY_def HISTORY_KEY_def parse_usize_def is_digit_def less_eq_char_def)

lemma version_segment: "segments (CHR ''v'' # show_nat v) = [CHR ''v'' # show_nat v]" "parse_usize (CHR ''v'' # show_nat v) = None"
proof -
  have "CHR ''/'' \<notin> set (CHR ''v'' # show_nat v)" using show_nat_no_slash [of v] by simp
  then show "segments (CHR ''v'' # show_nat v) = [CHR ''v'' # show_nat v]" unfolding segments_def by (rule split_on_single)
qed (simp add: parse_usize_def is_digit_def less_eq_char_def)

text \<open>The segments of the three kinds of places under a store.\<close>

lemma policy_path_segments:
  "active_path prefix n = prefix @ CHR ''/'' # (n @ CHR ''/'' # POLICY_META_KEY)"
  "segments (n @ CHR ''/'' # POLICY_META_KEY) = segments n @ [POLICY_META_KEY]"
  "historical_path prefix n v = prefix @ CHR ''/'' # (n @ CHR ''/'' # HISTORY_KEY @ CHR ''/'' # CHR ''v'' # show_nat (unat v))"
  "segments (n @ CHR ''/'' # HISTORY_KEY @ CHR ''/'' # CHR ''v'' # show_nat (unat v)) =
     segments n @ [HISTORY_KEY, CHR ''v'' # show_nat (unat v)]"
  by (simp_all add: active_path_def historical_path_def segments_sep version_segment)

lemma plain_name_segs:
  assumes "plain_name n"
  shows "\<forall>seg \<in> set (segments n). parse_usize seg = None \<and> seg \<noteq> HISTORY_KEY \<and> seg \<noteq> POLICY_META_KEY"
  using assms plain_segment_key by (auto simp: plain_name_def normalized_def)

text \<open>The document of a policy lies apart from the documents of the others and from every superseded version.\<close>

lemma policy_paths_apart:
  assumes "plain_name n" "plain_name m" "path_parse (active_path prefix n) = Inr p"
  shows "n \<noteq> m \<Longrightarrow> path_parse (active_path prefix m) = Inr q \<Longrightarrow> diverges p q"
    and "path_parse (historical_path prefix m v) = Inr q \<Longrightarrow> diverges p q"
proof -
  note nm = plain_name_segs [OF assms(1)] plain_name_segs [OF assms(2)]
  note p = path_parse_under [OF assms(3) [unfolded policy_path_segments(1)], simplified, unfolded policy_path_segments(2)]
  {
    assume "n \<noteq> m" "path_parse (active_path prefix m) = Inr q"
    note q = path_parse_under [OF this(2) [unfolded policy_path_segments(1)], simplified, unfolded policy_path_segments(2)]
    have "segments n \<noteq> segments m" using \<open>n \<noteq> m\<close> by (auto simp: segments_inject)
    then have "segs_apart (segments n @ [POLICY_META_KEY]) (segments m @ [POLICY_META_KEY])"
      using nm by (intro segs_apart_ends) auto
    then show "diverges p q" using nm by (intro parsed_apart [OF p q _ refl refl]) (auto simp: segs_apart_common)
  next
    assume "path_parse (historical_path prefix m v) = Inr q"
    note q = path_parse_under [OF this [unfolded policy_path_segments(3)], simplified, unfolded policy_path_segments(4)]
    have "segs_apart (segments n @ [POLICY_META_KEY]) (segments m @ [HISTORY_KEY, CHR ''v'' # show_nat (unat v)])"
      using nm by (intro segs_apart_ends) auto
    then show "diverges p q"
      using nm by (intro parsed_apart [OF p q _ refl refl]) (auto simp: segs_apart_common version_segment)
  }
qed

section \<open>What the listing finds\<close>

lemma text_before_Some: "text_before q xs = Some a \<Longrightarrow> \<exists>b. xs = a @ q @ b"
proof (induction xs arbitrary: a)
  case (Cons x xs)
  then show ?case by (fastforce simp: is_prefix_iff split: if_splits)
qed (simp split: if_splits)

lemma text_before_None: "text_before q xs = None \<Longrightarrow> \<not> str_contains xs q"
  by (induction xs) (auto split: if_splits)

text \<open>A leaf of the document of a policy names it, whatever its name: only a segment of the name could be
  mistaken for a marker.\<close>

lemma policy_of_leaf_active:
  assumes "normalized n" "prefix_filter = None"
  shows "policy_of_leaf prefix prefix_filter (active_path prefix n @ ''/path'') = Some n"
proof -
  let ?rel = "n @ CHR ''/'' # POLICY_META_KEY @ CHR ''/'' # ''path''"
  have segs: "segments ?rel = segments n @ POLICY_META_KEY # [''path'']"
    by (simp add: segments_sep) (simp add: segments_def)
  have marker: "segments (a @ (''/'' @ k @ ''/'') @ b) = segments a @ segments k @ segments b" for a k b
    using segments_sep [of a "k @ CHR ''/'' # b"] segments_sep [of k b] by simp
  have "\<not> str_contains ?rel (''/'' @ HISTORY_KEY @ ''/'')"
  proof
    assume "str_contains ?rel (''/'' @ HISTORY_KEY @ ''/'')"
    then obtain a b where "?rel = a @ (''/'' @ HISTORY_KEY @ ''/'') @ b" unfolding str_contains_iff by blast
    from arg_cong [OF this, of segments] have "HISTORY_KEY \<in> set (segments ?rel)" unfolding marker by simp
    with segs assms(1) show False by (auto simp: normalized_def HISTORY_KEY_def POLICY_META_KEY_def)
  qed
  moreover have "text_before (''/'' @ POLICY_META_KEY @ ''/'') ?rel = Some n"
  proof (cases "text_before (''/'' @ POLICY_META_KEY @ ''/'') ?rel")
    case None
    moreover have "str_contains ?rel (''/'' @ POLICY_META_KEY @ ''/'')"
      unfolding str_contains_iff by (intro exI [of _ n] exI [of _ "''path''"]) simp
    ultimately show ?thesis using text_before_None by blast
  next
    case (Some a)
    then obtain b where "?rel = a @ (''/'' @ POLICY_META_KEY @ ''/'') @ b" using text_before_Some by blast
    from arg_cong [OF this, of segments] have "segments n @ POLICY_META_KEY # [''path''] = segments a @ POLICY_META_KEY # segments b"
      unfolding marker segs by simp
    moreover have "POLICY_META_KEY \<notin> set (segments n)" "POLICY_META_KEY \<notin> set [''path'']"
      using assms(1) by (auto simp: normalized_def POLICY_META_KEY_def)
    ultimately have "segments n = segments a" by (simp add: append_Cons_eq_iff)
    then show ?thesis using Some by (simp add: segments_inject)
  qed
  moreover have "strip_prefix (prefix @ ''/'') (active_path prefix n @ ''/path'') = Some ?rel"
    by (simp add: strip_prefix_eq_Some active_path_def)
  ultimately show ?thesis using normalized_not_empty [OF assms(1)] assms(2) by (simp add: policy_of_leaf_def)
qed

lemma load_listed_finds:
  assumes "load_listed R C P st j ref_name tenant ns = Inr out"
  shows "\<forall>p \<in> set out. tenant_matches p tenant \<and> (\<exists>n \<in> set ns. \<exists>i. load_active R C P (st i) ref_name n = Inr p)"
    and "\<forall>n p. n \<in> set ns \<and> (\<forall>i. load_active R C P (st i) ref_name n = Inr p) \<and> tenant_matches p tenant \<longrightarrow> p \<in> set out"
  using assms
proof (induction ns arbitrary: j out)
  case (Cons n ns)
  {
    case 1
    then show ?case using Cons.IH(1) by (fastforce simp: try_bind_eq_Inr split: sum.splits PolicyError.splits if_splits)
  next
    case 2
    then show ?case using Cons.IH(2) by (fastforce simp: try_bind_eq_Inr split: sum.splits PolicyError.splits if_splits)
  }
qed simp_all

lemma list_scoped_complete:
  assumes "list_scoped R C P st ref_name None tenant = Inr listed" "normalized n"
    and "tr_list_paths R (st 0) ref_name (ps_prefix P) None = Inr leaves" "active_path (ps_prefix P) n @ ''/path'' \<in> set leaves"
    and "\<forall>i. load_active R C P (st i) ref_name n = Inr p" "tenant_matches p tenant"
  shows "p \<in> set listed"
proof -
  let ?ns = "remdups_adj (sort (List.map_filter (policy_of_leaf (ps_prefix P) None) leaves))"
  have "load_listed R C P st 1 ref_name tenant ?ns = Inr listed" using assms(1,3) by (simp add: list_scoped_def)
  from load_listed_finds(2) [OF this] have "n \<in> set ?ns \<Longrightarrow> ?thesis" using assms(5,6) by blast
  moreover have "n \<in> set ?ns"
    using assms(4) policy_of_leaf_active [OF assms(2) refl] by (force simp: map_filter_def)
  ultimately show ?thesis by blast
qed

lemma list_scoped_sound:
  assumes "list_scoped R C P st ref_name prefix_filter tenant = Inr listed" "p \<in> set listed"
  shows "tenant_matches p tenant" "\<exists>n i. load_active R C P (st i) ref_name n = Inr p"
  using assms load_listed_finds(1) by (fastforce simp: list_scoped_def split: sum.splits if_splits)+

end
