(* ===== verification/Policy_Decisions.thy ===== *)
theory Policy_Decisions
  imports Policy_Paths
begin

text \<open>
  What the evaluation of a request computes: each applicable policy votes on its own, and the strongest vote
  is the decision, a denial before a required approval before a permission.
\<close>

section \<open>Votes\<close>

text \<open>How one policy votes: by its rules, or as its external evaluator answers.\<close>

definition judged_locally :: "PolicyStore \<Rightarrow> Policy \<Rightarrow> bool" where
  "judged_locally P p \<longleftrightarrow> ps_external_evaluators P = None \<or> po_external_evaluator p = None"

definition external_vote :: "PolicyStore \<Rightarrow> Situation \<Rightarrow> string \<Rightarrow> string \<Rightarrow> Policy \<Rightarrow> Decision option" where
  "external_vote P situation action agent_id p =
     Option.bind (ps_external_evaluators P) (\<lambda>reg. run_external reg situation action agent_id p)"

definition votes ::
  "PolicyStore \<Rightarrow> Situation \<Rightarrow> string \<Rightarrow> string \<Rightarrow> (Decision \<Rightarrow> bool) \<Rightarrow> (Policy \<Rightarrow> bool) \<Rightarrow> Policy \<Rightarrow> bool" where
  "votes P situation action agent_id band ruled p \<longleftrightarrow>
     (if judged_locally P p then ruled p else \<exists>d. external_vote P situation action agent_id p = Some d \<and> band d)"

definition denies :: "string \<Rightarrow> Policy \<Rightarrow> bool" where
  "denies action p \<longleftrightarrow> (\<exists>r \<in> set (po_deny p). aa_action r = action \<or> aa_action r = ''*'')"

definition wants_approval :: "string \<Rightarrow> Policy \<Rightarrow> bool" where
  "wants_approval action p \<longleftrightarrow> (\<exists>r \<in> set (po_require_approval p). ar_action r = action \<or> ar_action r = ''*'')"

definition allows :: "string \<Rightarrow> Policy \<Rightarrow> bool" where
  "allows action p \<longleftrightarrow> (\<exists>r \<in> set (po_allow p). aa_action r = action \<or> aa_action r = ''*'')"

section \<open>The passes\<close>

lemma first_some_None [simp]: "first_some f xs = None \<longleftrightarrow> (\<forall>x \<in> set xs. f x = None)"
  by (induction xs) (auto split: option.splits)

lemma first_some_Some: "first_some f xs = Some y \<Longrightarrow> \<exists>x \<in> set xs. f x = Some y"
  by (induction xs) (auto split: option.splits)

lemma votes_by_rules:
  "(\<exists>d. deny_by action p = Some d) \<longleftrightarrow> denies action p"
  "(\<exists>d. approval_by action p = Some d) \<longleftrightarrow> wants_approval action p"
  "(\<exists>d. allow_by action p = Some d) \<longleftrightarrow> allows action p"
  by (auto simp: deny_by_def approval_by_def allow_by_def denies_def wants_approval_def allows_def match_action_def
      match_approval_def find_None_iff simp flip: not_None_eq)

lemma bands_of_rules:
  "deny_by action p = Some d \<Longrightarrow> is_deny d" "approval_by action p = Some d \<Longrightarrow> is_approval d" "allow_by action p = Some d \<Longrightarrow> is_allow d"
  by (auto simp: deny_by_def approval_by_def allow_by_def)

lemma bands_disjoint [simp]:
  "is_deny d \<Longrightarrow> \<not> is_approval d" "is_deny d \<Longrightarrow> \<not> is_allow d" "is_approval d \<Longrightarrow> \<not> is_allow d"
  "\<not> is_deny NoPolicyMatch" "\<not> is_approval NoPolicyMatch" "\<not> is_allow NoPolicyMatch"
  by (cases d; simp)+

lemma band_cases: "is_deny d \<or> is_approval d \<or> is_allow d \<or> d = NoPolicyMatch"
  by (cases d) simp_all

text \<open>Three candidates, one for each band, of which the first one present wins.\<close>

lemma ranked_bands:
  assumes "d = (case a of Some x \<Rightarrow> x | None \<Rightarrow> (case b of Some x \<Rightarrow> x | None \<Rightarrow> (case c of Some x \<Rightarrow> x | None \<Rightarrow> NoPolicyMatch)))"
    and "\<And>x. a = Some x \<Longrightarrow> is_deny x" "\<And>x. b = Some x \<Longrightarrow> is_approval x" "\<And>x. c = Some x \<Longrightarrow> is_allow x"
  shows "is_deny d \<longleftrightarrow> a \<noteq> None" "is_approval d \<longleftrightarrow> \<not> is_deny d \<and> b \<noteq> None"
    "is_allow d \<longleftrightarrow> \<not> is_deny d \<and> \<not> is_approval d \<and> c \<noteq> None" "d = NoPolicyMatch \<or> a = Some d \<or> b = Some d \<or> c = Some d"
  using assms by (cases a; cases b; cases c; auto)+

text \<open>The decision of the rules of a list of policies.\<close>

lemma evaluate_matched_bands:
  fixes ps action agent_id
  defines "d \<equiv> evaluate_matched ps action agent_id"
  shows "is_deny d \<longleftrightarrow> (\<exists>p \<in> set ps. denies action p)"
    and "is_approval d \<longleftrightarrow> \<not> is_deny d \<and> (\<exists>p \<in> set ps. wants_approval action p)"
    and "is_allow d \<longleftrightarrow> \<not> is_deny d \<and> \<not> is_approval d \<and> (\<exists>p \<in> set ps. allows action p)"
    and "d = NoPolicyMatch \<or> (\<exists>p \<in> set ps. deny_by action p = Some d \<or> approval_by action p = Some d \<or> allow_by action p = Some d)"
proof -
  note ranked = ranked_bands [OF meta_eq_to_obj_eq [OF d_def, unfolded evaluate_matched_def]]
  have bands: "\<And>x. first_some (deny_by action) ps = Some x \<Longrightarrow> is_deny x"
    "\<And>x. first_some (approval_by action) ps = Some x \<Longrightarrow> is_approval x"
    "\<And>x. first_some (allow_by action) ps = Some x \<Longrightarrow> is_allow x"
    using bands_of_rules by (blast dest: first_some_Some)+
  note r = ranked [OF bands]
  show "is_deny d \<longleftrightarrow> (\<exists>p \<in> set ps. denies action p)" using r(1) votes_by_rules(1) [of action] by auto
  show "is_approval d \<longleftrightarrow> \<not> is_deny d \<and> (\<exists>p \<in> set ps. wants_approval action p)" using r(2) votes_by_rules(2) [of action] by auto
  show "is_allow d \<longleftrightarrow> \<not> is_deny d \<and> \<not> is_approval d \<and> (\<exists>p \<in> set ps. allows action p)"
    using r(3) votes_by_rules(3) [of action] by auto
  show "d = NoPolicyMatch \<or> (\<exists>p \<in> set ps. deny_by action p = Some d \<or> approval_by action p = Some d \<or> allow_by action p = Some d)"
    using r(4) by (blast dest: first_some_Some)
qed

lemma combine_decisions_bands:
  fixes externals local
  defines "d \<equiv> combine_decisions externals local"
  shows "is_deny d \<longleftrightarrow> (\<exists>x \<in> set (local # externals). is_deny x)"
    and "is_approval d \<longleftrightarrow> \<not> is_deny d \<and> (\<exists>x \<in> set (local # externals). is_approval x)"
    and "is_allow d \<longleftrightarrow> \<not> is_deny d \<and> \<not> is_approval d \<and> (\<exists>x \<in> set (local # externals). is_allow x)"
    and "d = NoPolicyMatch \<or> d \<in> set (local # externals)"
proof -
  let ?xs = "externals @ [local]"
  have found: "find Q ?xs \<noteq> None \<longleftrightarrow> (\<exists>x \<in> set (local # externals). Q x)"
    "find Q ?xs = Some y \<Longrightarrow> y \<in> set (local # externals) \<and> Q y" for Q y
    by (auto simp: find_None_iff find_Some_iff nth_append split: if_splits)
  note r = ranked_bands [OF meta_eq_to_obj_eq [OF d_def, unfolded combine_decisions_def Let_def],
      OF conjunct2 [OF found(2) [where Q = is_deny]] conjunct2 [OF found(2) [where Q = is_approval]]
        conjunct2 [OF found(2) [where Q = is_allow]], unfolded found(1)]
  show "is_deny d \<longleftrightarrow> (\<exists>x \<in> set (local # externals). is_deny x)" by (rule r(1))
  show "is_approval d \<longleftrightarrow> \<not> is_deny d \<and> (\<exists>x \<in> set (local # externals). is_approval x)" by (rule r(2))
  show "is_allow d \<longleftrightarrow> \<not> is_deny d \<and> \<not> is_approval d \<and> (\<exists>x \<in> set (local # externals). is_allow x)" by (rule r(3))
  show "d = NoPolicyMatch \<or> d \<in> set (local # externals)" using r(4) found(2) by blast
qed

section \<open>The decision on a request\<close>

lemma run_external_dispatched:
  "run_external reg situation action agent_id p = Some d \<Longrightarrow> dispatched reg p \<and> po_external_evaluator p \<noteq> None"
  by (auto simp: run_external_def dispatched_def split: option.splits)

lemma set_map_filter: "set (List.map_filter f xs) = {y. \<exists>x \<in> set xs. f x = Some y}"
  by (force simp: map_filter_def)

lemma external_decisions:
  "set (run_externals P (snd (partition_for_dispatch P ps)) situation action agent_id) =
     {d. \<exists>p \<in> set ps. \<not> judged_locally P p \<and> external_vote P situation action agent_id p = Some d}"
proof (cases "ps_external_evaluators P")
  case (Some reg)
  then show ?thesis
    unfolding run_externals_def partition_for_dispatch_def judged_locally_def external_vote_def
    by (simp add: set_map_filter del: not_None_eq) (use run_external_dispatched in blast)
qed (simp add: run_externals_def judged_locally_def)

lemma local_policies: "set (fst (partition_for_dispatch P ps)) = {p \<in> set ps. judged_locally P p}"
  by (auto simp: partition_for_dispatch_def judged_locally_def split: option.splits)

lemma votes_split:
  "(\<exists>p \<in> set ps. votes P situation action agent_id band ruled p) \<longleftrightarrow>
     (\<exists>p \<in> set (fst (partition_for_dispatch P ps)). ruled p) \<or>
     (\<exists>d \<in> set (run_externals P (snd (partition_for_dispatch P ps)) situation action agent_id). band d)"
  unfolding external_decisions local_policies votes_def by auto

text \<open>What the local rules and the external evaluators decide together, over the policies that apply.\<close>

lemma decision_bands:
  fixes P ps situation action agent_id
  defines "d \<equiv> combine_decisions (run_externals P (snd (partition_for_dispatch P ps)) situation action agent_id)
      (evaluate_matched (fst (partition_for_dispatch P ps)) action agent_id)"
  shows "is_deny d \<longleftrightarrow> (\<exists>p \<in> set ps. votes P situation action agent_id is_deny (denies action) p)"
    and "is_approval d \<longleftrightarrow> \<not> is_deny d \<and> (\<exists>p \<in> set ps. votes P situation action agent_id is_approval (wants_approval action) p)"
    and "is_allow d \<longleftrightarrow> \<not> is_deny d \<and> \<not> is_approval d \<and> (\<exists>p \<in> set ps. votes P situation action agent_id is_allow (allows action) p)"
    and "d = NoPolicyMatch \<or> (\<exists>p \<in> set ps. if judged_locally P p
        then deny_by action p = Some d \<or> approval_by action p = Some d \<or> allow_by action p = Some d
        else external_vote P situation action agent_id p = Some d)"
proof -
  let ?ext = "run_externals P (snd (partition_for_dispatch P ps)) situation action agent_id"
  let ?loc = "fst (partition_for_dispatch P ps)"
  note c = combine_decisions_bands [of ?ext "evaluate_matched ?loc action agent_id", folded d_def]
  note m = evaluate_matched_bands [of ?loc action agent_id]
  show deny: "is_deny d \<longleftrightarrow> (\<exists>p \<in> set ps. votes P situation action agent_id is_deny (denies action) p)"
    unfolding votes_split c(1) using m(1) by auto
  show approval: "is_approval d \<longleftrightarrow> \<not> is_deny d \<and> (\<exists>p \<in> set ps. votes P situation action agent_id is_approval (wants_approval action) p)"
    unfolding votes_split c(2) c(1) using m(1,2) by simp blast
  show "is_allow d \<longleftrightarrow> \<not> is_deny d \<and> \<not> is_approval d \<and> (\<exists>p \<in> set ps. votes P situation action agent_id is_allow (allows action) p)"
    unfolding votes_split c(3) c(2) c(1) using m(1,2,3) by simp blast
  show "d = NoPolicyMatch \<or> (\<exists>p \<in> set ps. if judged_locally P p
        then deny_by action p = Some d \<or> approval_by action p = Some d \<or> allow_by action p = Some d
        else external_vote P situation action agent_id p = Some d)"
    using c(4) m(4) unfolding list.set insert_iff external_decisions local_policies by auto
qed

end
