(* ===== verification/Policy_Json_Laws.thy ===== *)
theory Policy_Json_Laws
  imports Policy_Json
begin

text \<open>
  A policy is read back from its JSON form, up to the rounding of its timeouts.
\<close>

section \<open>Fields of a written object\<close>

lemma req_field_obj_of:
  "distinct (map fst fs) \<Longrightarrow> map_of fs k = Some (Some v) \<Longrightarrow> req_field dec (obj_of fs) k = dec v"
  by (simp add: req_field_def json_get_obj_of)

lemma tagged_obj_of:
  assumes "distinct (map fst fs)" "map_of fs tag = Some (Some (JString k))"
  shows "tagged tag f dec (obj_of fs) = dec k (obj_of fs)"
proof -
  obtain m where "obj_of fs = JObject m" using obj_of_JObject by blast
  with req_field_obj_of [OF assms, of json_as_str] show ?thesis by (simp add: tagged_def)
qed

lemma opt_field_obj_of:
  assumes "distinct (map fst fs)" "map_of fs k = Some (map_option enc x)"
    and "\<And>v. x = Some v \<Longrightarrow> enc v \<noteq> JNull \<and> dec (enc v) = Some (g v)"
  shows "opt_field dec (obj_of fs) k = Some (map_option g x)"
  using assms by (cases x) (auto simp: opt_field_def json_get_obj_of split: json.splits)

lemma obj_of_child_depth:
  assumes "distinct (map fst fs)" "map_of fs k = Some (Some v)"
  shows "json_depth v < json_depth (obj_of fs)"
proof -
  obtain m where m: "obj_of fs = JObject m" using obj_of_JObject by blast
  with json_get_obj_of [OF assms(1), of k] assms(2) have "map_of m k = Some v" by simp
  then have "(k, v) \<in> set m" by (rule map_of_SomeD)
  from json_depth_child_object [OF this] show ?thesis by (simp only: m snd_conv)
qed

lemma obj_of_not_null: "obj_of fs \<noteq> JNull"
  by (simp add: obj_of_def)

lemma decode_all_map:
  "(\<And>x. x \<in> set xs \<Longrightarrow> dec (enc x) = Some (g x)) \<Longrightarrow> decode_all dec (map enc xs) = Some (map g xs)"
  by (induction xs) auto

lemma decode_list_map:
  "(\<And>x. x \<in> set xs \<Longrightarrow> dec (enc x) = Some (g x)) \<Longrightarrow> decode_list dec (JArray (map enc xs)) = Some (map g xs)"
  by (simp add: decode_list_def decode_all_map)

lemma decode_strings: "decode_list json_as_str (encode_strings xs) = Some xs"
  using decode_list_map [of xs json_as_str JString "\<lambda>x. x"] by (simp add: encode_strings_def)

lemma decode_numbers [simp]: "decode_i64 (encode_i64 a) = Some a" "decode_u64 (encode_u64 b) = Some b" "encode_u64 b \<noteq> JNull"
  using sint_lt [of a] sint_ge [of a] uint_lt2p [of b] by (auto simp: encode_i64_def encode_u64_def)

lemmas written = req_field_obj_of tagged_obj_of obj_of_not_null

section \<open>Selectors\<close>

lemma decode_selector_in_encode: "json_depth (encode_selector c) < n \<Longrightarrow> decode_selector_in n C (encode_selector c) = Some c"
proof (induction c arbitrary: n)
  case (SelAll cs)
  then obtain m where n: "n = Suc m" by (cases n) auto
  have "json_depth (encode_selector c) < m" if "c \<in> set cs" for c
    using that SelAll.prems obj_of_child_depth [of "[(''kind'', Some (JString ''all'')), (''children'', Some (JArray (map encode_selector cs)))]" "''children''"]
      json_depth_child_array [of "encode_selector c" "map encode_selector cs"] by (simp add: n del: json_depth.simps)
  with SelAll.IH have "decode_list (decode_selector_in m C) (JArray (map encode_selector cs)) = Some (map (\<lambda>x. x) cs)"
    by (intro decode_list_map) blast
  then show ?case by (simp add: n written)
next
  case (SelAny cs)
  then obtain m where n: "n = Suc m" by (cases n) auto
  have "json_depth (encode_selector c) < m" if "c \<in> set cs" for c
    using that SelAny.prems obj_of_child_depth [of "[(''kind'', Some (JString ''any'')), (''children'', Some (JArray (map encode_selector cs)))]" "''children''"]
      json_depth_child_array [of "encode_selector c" "map encode_selector cs"] by (simp add: n del: json_depth.simps)
  with SelAny.IH have "decode_list (decode_selector_in m C) (JArray (map encode_selector cs)) = Some (map (\<lambda>x. x) cs)"
    by (intro decode_list_map) blast
  then show ?case by (simp add: n written)
next
  case (SelNot c)
  then obtain m where n: "n = Suc m" by (cases n) auto
  have "json_depth (encode_selector c) < m"
    using SelNot.prems obj_of_child_depth [of "[(''kind'', Some (JString ''not'')), (''child'', Some (encode_selector c))]" "''child''"]
    by (simp add: n)
  with SelNot.IH show ?case by (simp add: n written)
qed ((case_tac n; simp add: written with_key_def)+)

lemma decode_selector_encode: "decode_selector C (encode_selector c) = Some c"
  unfolding decode_selector_def by (rule decode_selector_in_encode) simp

section \<open>Rules and references\<close>

definition ar_rounded :: "ApprovalRule \<Rightarrow> ApprovalRule" where
  "ar_rounded r = r\<lparr>ar_timeout := map_option (\<lambda>d. d div 1000000 mod 2 ^ 64 * 1000000) (ar_timeout r)\<rparr>"

lemma decode_fallback_encode: "decode_fallback C (encode_fallback f) = Some f"
  by (cases f) (simp_all add: decode_fallback_def written)

lemma decode_source_encode: "decode_source C (encode_source x) = Some x"
  by (cases x) (simp_all add: decode_source_def written)

lemma decode_evaluator_encode: "decode_evaluator C (encode_evaluator e) = Some e" "encode_evaluator e \<noteq> JNull"
  by (cases e; simp add: decode_evaluator_def encode_evaluator_def written decode_source_encode)+

lemma decode_signature_encode: "decode_signature C (encode_signature x) = Some x" "encode_signature x \<noteq> JNull"
  by (cases x; simp add: decode_signature_def written)+

lemma decode_severity_name: "decode_severity (JString (severity_name v)) = Some v"
  by (cases v) (simp_all add: decode_severity_def decode_variant_def)

lemma default_list_obj_of:
  "distinct (map fst fs) \<Longrightarrow> map_of fs k = Some (Some v) \<Longrightarrow> default_list dec (obj_of fs) k = decode_list dec v"
  by (simp add: default_list_def json_get_obj_of)

lemma decode_object:
  "(case obj_of fs of JArray xs \<Rightarrow> f xs | JObject m \<Rightarrow> g | _ \<Rightarrow> h) = g"
  by (simp add: obj_of_def)

lemma decode_action_encode: "decode_action C (encode_action a) = Some a"
proof -
  let ?fs = "[(''action'', Some (JString (aa_action a))), (''condition'', map_option JString (aa_condition a)),
       (''preconditions'', Some (encode_strings (aa_preconditions a)))]"
  have "opt_field json_as_str (obj_of ?fs) ''condition'' = Some (map_option (\<lambda>x. x) (aa_condition a))"
    by (rule opt_field_obj_of [where enc = JString]) simp_all
  then show ?thesis
    by (simp add: decode_action_def encode_action_def decode_object written default_list_obj_of decode_strings option.map_ident)
qed

lemma decode_step_encode: "decode_step C (encode_step p) = Some p"
proof -
  let ?fs = "[(''action'', Some (JString (pst_action p))), (''if_previous_failed'', map_option JString (pst_if_previous_failed p))]"
  have "opt_field json_as_str (obj_of ?fs) ''if_previous_failed'' = Some (map_option (\<lambda>x. x) (pst_if_previous_failed p))"
    by (rule opt_field_obj_of [where enc = JString]) simp_all
  then show ?thesis by (simp add: decode_step_def encode_step_def decode_object written option.map_ident)
qed

lemma decode_approval_encode: "decode_approval C (encode_approval r) = Some (ar_rounded r)"
proof -
  let ?fs = "[(''action'', Some (JString (ar_action r))), (''approvers'', Some (encode_strings (ar_approvers r))),
       (''timeout'', map_option (\<lambda>d. encode_u64 (timeout_millis d)) (ar_timeout r)),
       (''fallback'', Some (encode_fallback (ar_fallback r)))]"
  have "opt_field decode_u64 (obj_of ?fs) ''timeout'' = Some (map_option timeout_millis (ar_timeout r))"
    by (rule opt_field_obj_of [where enc = "\<lambda>d. encode_u64 (timeout_millis d)"]) simp_all
  then show ?thesis
    by (simp add: decode_approval_def encode_approval_def decode_object written decode_strings decode_fallback_encode
        ar_rounded_def timeout_millis_def option.map_comp comp_def unat_of_nat)
qed

section \<open>Policies\<close>

definition policy_rounded :: "Policy \<Rightarrow> Policy" where
  "policy_rounded p = p\<lparr>po_require_approval := map ar_rounded (po_require_approval p)\<rparr>"

definition policy_codec_law :: "PolicyCodec \<Rightarrow> bool" where
  "policy_codec_law C \<longleftrightarrow> (\<forall>t. pc_parse_time C (pc_time C t) = Some t)"

lemma policy_fields_distinct: "distinct (map fst (policy_fields C p))"
  by (simp add: policy_fields_def)

lemma policy_time_encode: "policy_codec_law C \<Longrightarrow> decode_policy_time C (policy_time C t) = Some t" "policy_time C t \<noteq> JNull"
  by (simp_all add: decode_policy_time_def policy_time_def policy_codec_law_def)

lemma policy_opt_field:
  assumes "map_of (policy_fields C p) k = Some (map_option enc x)" "\<And>v. x = Some v \<Longrightarrow> enc v \<noteq> JNull \<and> dec (enc v) = Some v"
  shows "opt_field dec (encode_policy C p) k = Some x"
  using opt_field_obj_of [OF policy_fields_distinct assms(1), of dec "\<lambda>v. v"] assms(2)
  by (simp add: encode_policy_def option.map_ident)

lemma policy_field:
  assumes "map_of (policy_fields C p) k = Some (Some v)"
  shows "req_field dec (encode_policy C p) k = dec v" "default_list dec' (encode_policy C p) k = decode_list dec' v"
    "json_get (encode_policy C p) k = Some v"
  using req_field_obj_of [OF policy_fields_distinct assms, of dec] default_list_obj_of [OF policy_fields_distinct assms, of dec']
    json_get_obj_of [OF policy_fields_distinct, of C p k] assms by (simp_all add: encode_policy_def)

lemma policy_optional:
  assumes "policy_codec_law C"
  shows "opt_field json_as_str (encode_policy C p) ''ratified_by'' = Some (po_ratified_by p)"
    "opt_field (decode_policy_time C) (encode_policy C p) ''ratified_at'' = Some (po_ratified_at p)"
    "opt_field json_as_str (encode_policy C p) ''ratification_reasoning'' = Some (po_ratification_reasoning p)"
    "opt_field (decode_policy_time C) (encode_policy C p) ''expires_at'' = Some (po_expires_at p)"
    "opt_field json_as_str (encode_policy C p) ''supersedes'' = Some (po_supersedes p)"
    "opt_field (decode_signature C) (encode_policy C p) ''signature'' = Some (po_signature p)"
    "opt_field json_as_str (encode_policy C p) ''tenant_id'' = Some (po_tenant_id p)"
    "opt_field (decode_evaluator C) (encode_policy C p) ''external_evaluator'' = Some (po_external_evaluator p)"
    "opt_field (decode_list (decode_step C)) (encode_policy C p) ''procedure'' = Some (po_procedure p)"
proof -
  note skip = policy_opt_field and times = policy_time_encode [of C] assms
  show "opt_field json_as_str (encode_policy C p) ''ratified_by'' = Some (po_ratified_by p)"
    by (rule skip [where enc = JString]) (simp_all add: policy_fields_def)
  show "opt_field (decode_policy_time C) (encode_policy C p) ''ratified_at'' = Some (po_ratified_at p)"
    by (rule skip [where enc = "policy_time C"]) (simp_all add: policy_fields_def times)
  show "opt_field json_as_str (encode_policy C p) ''ratification_reasoning'' = Some (po_ratification_reasoning p)"
    by (rule skip [where enc = JString]) (simp_all add: policy_fields_def)
  show "opt_field (decode_policy_time C) (encode_policy C p) ''expires_at'' = Some (po_expires_at p)"
    by (rule skip [where enc = "policy_time C"]) (simp_all add: policy_fields_def times)
  show "opt_field json_as_str (encode_policy C p) ''supersedes'' = Some (po_supersedes p)"
    by (rule skip [where enc = JString]) (simp_all add: policy_fields_def)
  show "opt_field (decode_signature C) (encode_policy C p) ''signature'' = Some (po_signature p)"
    by (rule skip [where enc = encode_signature]) (simp_all add: policy_fields_def decode_signature_encode)
  show "opt_field json_as_str (encode_policy C p) ''tenant_id'' = Some (po_tenant_id p)"
    by (rule skip [where enc = JString]) (simp_all add: policy_fields_def)
  show "opt_field (decode_evaluator C) (encode_policy C p) ''external_evaluator'' = Some (po_external_evaluator p)"
    by (rule skip [where enc = encode_evaluator]) (simp_all add: policy_fields_def decode_evaluator_encode)
  show "opt_field (decode_list (decode_step C)) (encode_policy C p) ''procedure'' = Some (po_procedure p)"
    by (rule skip [where enc = "\<lambda>ps. JArray (map encode_step ps)"])
      (simp_all add: policy_fields_def decode_step_encode decode_list_map [where g = "\<lambda>x. x"])
qed

lemma policy_required:
  assumes "policy_codec_law C"
  shows "req_field json_as_str (encode_policy C p) ''path'' = Some (po_path p)"
    "req_field decode_u64 (encode_policy C p) ''version'' = Some (po_version p)"
    "req_field json_as_str (encode_policy C p) ''situation'' = Some (po_situation p)"
    "req_field (decode_selector C) (encode_policy C p) ''situation_selector'' = Some (po_situation_selector p)"
    "default_list (decode_action C) (encode_policy C p) ''allow'' = Some (po_allow p)"
    "default_list (decode_action C) (encode_policy C p) ''deny'' = Some (po_deny p)"
    "default_list (decode_approval C) (encode_policy C p) ''require_approval'' = Some (map ar_rounded (po_require_approval p))"
    "default_list json_as_str (encode_policy C p) ''triggers'' = Some (po_triggers p)"
    "default_list json_as_str (encode_policy C p) ''required_fields'' = Some (po_required_fields p)"
    "json_get (encode_policy C p) ''severity'' = Some (JString (severity_name (po_severity p)))"
    "req_field json_as_str (encode_policy C p) ''proposed_by'' = Some (po_proposed_by p)"
    "req_field (decode_policy_time C) (encode_policy C p) ''proposed_at'' = Some (po_proposed_at p)"
    "req_field (decode_policy_time C) (encode_policy C p) ''active_from'' = Some (po_active_from p)"
proof -
  have actions: "decode_list (decode_action C) (JArray (map encode_action xs)) = Some xs" for xs
    using decode_list_map [of xs "decode_action C" encode_action "\<lambda>x. x"] by (simp add: decode_action_encode)
  have approvals: "decode_list (decode_approval C) (JArray (map encode_approval xs)) = Some (map ar_rounded xs)" for xs
    by (rule decode_list_map) (rule decode_approval_encode)
  note step = trans [OF policy_field(1)] and lists = trans [OF policy_field(2)]
  show "req_field json_as_str (encode_policy C p) ''path'' = Some (po_path p)"
    "req_field json_as_str (encode_policy C p) ''situation'' = Some (po_situation p)"
    "req_field json_as_str (encode_policy C p) ''proposed_by'' = Some (po_proposed_by p)"
    by (rule step, simp add: policy_fields_def, simp)+
  show "req_field decode_u64 (encode_policy C p) ''version'' = Some (po_version p)"
    by (rule step, simp add: policy_fields_def, simp)
  show "req_field (decode_selector C) (encode_policy C p) ''situation_selector'' = Some (po_situation_selector p)"
    by (rule step, simp add: policy_fields_def, rule decode_selector_encode)
  show "default_list (decode_action C) (encode_policy C p) ''allow'' = Some (po_allow p)"
    "default_list (decode_action C) (encode_policy C p) ''deny'' = Some (po_deny p)"
    by (rule lists, simp add: policy_fields_def, rule actions)+
  show "default_list (decode_approval C) (encode_policy C p) ''require_approval'' = Some (map ar_rounded (po_require_approval p))"
    by (rule lists, simp add: policy_fields_def, rule approvals)
  show "default_list json_as_str (encode_policy C p) ''triggers'' = Some (po_triggers p)"
    "default_list json_as_str (encode_policy C p) ''required_fields'' = Some (po_required_fields p)"
    by (rule lists, simp add: policy_fields_def, rule decode_strings)+
  show "json_get (encode_policy C p) ''severity'' = Some (JString (severity_name (po_severity p)))"
    by (rule policy_field(3)) (simp add: policy_fields_def)
  show "req_field (decode_policy_time C) (encode_policy C p) ''proposed_at'' = Some (po_proposed_at p)"
    "req_field (decode_policy_time C) (encode_policy C p) ''active_from'' = Some (po_active_from p)"
    by (rule step, simp add: policy_fields_def, rule policy_time_encode(1) [OF assms])+
qed

lemma policy_json_roundtrip:
  assumes "policy_codec_law C"
  shows "decode_policy C (encode_policy C p) = Some (policy_rounded p)"
proof -
  obtain m where m: "encode_policy C p = JObject m" using obj_of_JObject encode_policy_def by metis
  show ?thesis
    unfolding decode_policy_def policy_required [OF assms] policy_optional [OF assms]
    by (simp add: m decode_severity_name policy_rounded_def)
qed

end
