(* ===== verification/Policy_Updates.thy ===== *)
theory Policy_Updates
  imports Policy_Paths Policy_Json_Laws Cas_Landing
begin

text \<open>
  Changes of one policy: a policy that was read can be written and read back, so the loop of
  \<open>update_active\<close> has the laws of the loops in \<open>Cas_Contract\<close>.
\<close>

section \<open>The depth of the documents\<close>

text \<open>Decoding an array gives no more nested a selector than decoding an object does.\<close>

definition policy_codec_bounded :: "PolicyCodec \<Rightarrow> bool" where
  "policy_codec_bounded C \<longleftrightarrow>
     (\<forall>xs c. pc_selector_seq C xs = Some c \<longrightarrow> json_depth (encode_selector c) \<le> json_depth (JArray xs)) \<and>
     (\<forall>xs p. pc_policy_seq C xs = Some p \<longrightarrow> json_depth (encode_selector (po_situation_selector p)) < json_depth (JArray xs))"

lemma number_readable: "json_wf (encode_i64 a)" "json_wf (encode_u64 b)" "json_depth (encode_i64 a) = 0" "json_depth (encode_u64 b) = 0"
  using sint_lt [of a] sint_ge [of a] uint_lt2p [of b] uint_ge_0 [of b] 
  by (simp_all add: encode_i64_def encode_u64_def) (rule order_trans [OF _ uint_ge_0], simp)

lemma array_readable:
  "(\<And>x. x \<in> set xs \<Longrightarrow> json_wf (enc x) \<and> json_depth (enc x) \<le> n) \<Longrightarrow>
   json_wf (JArray (map enc xs)) \<and> json_depth (JArray (map enc xs)) \<le> Suc n"
  using json_depth_array_le [of "map enc xs" n] by auto

lemma encode_selector_wf: "json_wf (encode_selector c)"
proof -
  have obj: "json_wf (obj_of fs)" if "\<forall>(k, v) \<in> set fs. \<forall>j. v = Some j \<longrightarrow> json_wf j" for fs
  proof -
    define n where "n = Max (insert 0 ((\<lambda>(k, v). case v of Some j \<Rightarrow> json_depth j | None \<Rightarrow> 0) ` set fs))"
    have "json_depth j \<le> n" if "(k, Some j) \<in> set fs" for k j
      unfolding n_def using that by (intro Max_ge) force+
    with obj_of_readable [of fs n] that show ?thesis by fastforce
  qed
  show ?thesis by (induction c) (simp_all, (rule obj, simp add: number_readable)+)
qed

lemma json_get_depth: "json_get j k = Some v \<Longrightarrow> json_depth v < json_depth j"
  using json_depth_child_object [of "(k, v)"] by (cases j) (auto dest!: map_of_SomeD simp del: json_depth.simps)

lemma decode_all_length: "decode_all dec xs = Some ys \<Longrightarrow> \<forall>y \<in> set ys. \<exists>x \<in> set xs. dec x = Some y"
  by (induction xs arbitrary: ys) (fastforce split: option.splits)+

lemma obj_of_depth:
  "(\<And>k v. (k, Some v) \<in> set fs \<Longrightarrow> json_wf v \<and> json_depth v \<le> n) \<Longrightarrow> json_depth (obj_of fs) \<le> Suc n"
  using obj_of_readable [of fs n] by blast

lemma tagged_Some:
  assumes "tagged tag seq_form dec j = Some c"
  obtains xs where "j = JArray xs" "seq_form xs = Some c" | k where "0 < json_depth j" "dec k j = Some c"
  using assms by (cases j) (auto simp: tagged_def bind_eq_Some_conv)

lemma with_key_Some: "with_key con dec f j = Some c \<Longrightarrow> \<exists>k v. c = con k v"
  by (auto simp: with_key_def bind_eq_Some_conv)

lemma children_depth:
  assumes "req_field (decode_list dec) j k = Some cs" "\<And>x c. dec x = Some c \<Longrightarrow> json_depth (encode_selector c) \<le> json_depth x"
  shows "json_depth (JArray (map encode_selector cs)) < json_depth j"
proof -
  from assms(1) obtain xs where xs: "json_get j k = Some (JArray xs)" "decode_all dec xs = Some cs"
    by (auto simp: req_field_def decode_list_def bind_eq_Some_conv elim: json_as_array.elims)
  have "json_depth (encode_selector c) \<le> Max (insert 0 (json_depth ` set xs))" if c: "c \<in> set cs" for c
  proof -
    from decode_all_length [OF xs(2)] c obtain x where x: "x \<in> set xs" "dec x = Some c" by blast
    have "json_depth x \<le> Max (insert 0 (json_depth ` set xs))" using x(1) by (intro Max_ge) auto
    with assms(2) [OF x(2)] show ?thesis by (rule order_trans)
  qed
  then have "json_depth (JArray (map encode_selector cs)) \<le> json_depth (JArray xs)" by (auto intro!: Max.boundedI)
  from le_less_trans [OF this json_get_depth [OF xs(1)]] show ?thesis .
qed

lemma decode_selector_depth:
  assumes "policy_codec_bounded C"
  shows "decode_selector_in n C j = Some c \<Longrightarrow> json_depth (encode_selector c) \<le> json_depth j"
proof (induction n arbitrary: j c)
  case (Suc n)
  have flat: "json_depth (encode_selector c) \<le> Suc 0" if "\<nexists>cs. c = SelAll cs \<or> c = SelAny cs" "\<nexists>d. c = SelNot d"
    using that by (cases c) (simp_all, (rule obj_of_depth, auto simp: number_readable)+)
  have arr: "json_wf (JArray (map encode_selector cs))" for cs by (auto simp: encode_selector_wf)
  from Suc.prems show ?case
  proof (simp only: decode_selector_in.simps, elim tagged_Some)
    fix xs assume "j = JArray xs" "pc_selector_seq C xs = Some c"
    with assms show ?thesis by (simp only: policy_codec_bounded_def)
  next
    fix k assume j: "0 < json_depth j" and dec: "(if k = ''always'' then Some SelAlways
       else if k = ''never'' then Some SelNever
       else if k = ''all'' then map_option SelAll (req_field (decode_list (decode_selector_in n C)) j ''children'')
       else if k = ''any'' then map_option SelAny (req_field (decode_list (decode_selector_in n C)) j ''children'')
       else if k = ''not'' then map_option SelNot (req_field (decode_selector_in n C) j ''child'')
       else if k = ''eq'' then with_key SelEq json_as_str ''value'' j
       else if k = ''ne'' then with_key SelNe json_as_str ''value'' j
       else if k = ''matches'' then with_key SelMatches json_as_str ''pattern'' j
       else if k = ''exists'' then map_option SelExists (req_field json_as_str j ''key'')
       else if k = ''gt'' then with_key SelGt decode_i64 ''value'' j
       else if k = ''gte'' then with_key SelGte decode_i64 ''value'' j
       else if k = ''lt'' then with_key SelLt decode_i64 ''value'' j
       else if k = ''lte'' then with_key SelLte decode_i64 ''value'' j
       else None) = Some c"
    have deep: "json_depth (obj_of [(''kind'', Some (JString x)), (f, Some v)]) \<le> json_depth j"
      if "json_wf v" "json_depth v < json_depth j" for x f v
    proof -
      obtain d where d: "json_depth j = Suc d" using j by (cases "json_depth j") auto
      with that show ?thesis unfolding d by (intro obj_of_depth) auto
    qed
    consider cs where "req_field (decode_list (decode_selector_in n C)) j ''children'' = Some cs" "c = SelAll cs \<or> c = SelAny cs"
      | d where "req_field (decode_selector_in n C) j ''child'' = Some d" "c = SelNot d"
      | "\<nexists>cs. c = SelAll cs \<or> c = SelAny cs" "\<nexists>d. c = SelNot d"
      using dec by (cases c) (auto split: if_splits dest!: with_key_Some)
    then show ?thesis
    proof cases
      case (1 cs)
      with deep [OF arr children_depth [OF 1(1) Suc.IH]] show ?thesis by auto
    next
      case (2 d)
      then obtain w where "json_get j ''child'' = Some w" "decode_selector_in n C w = Some d"
        by (auto simp: req_field_def bind_eq_Some_conv)
      with json_get_depth Suc.IH have "json_depth (encode_selector d) < json_depth j" using le_less_trans by blast
      with deep [OF encode_selector_wf this] 2(2) show ?thesis by simp
    next
      case 3
      with flat j show ?thesis by simp
    qed
  qed
qed simp

text \<open>A policy fits the fuel if its selector does: the rest of the document has depth at most 4.\<close>

lemma rules_readable:
  "json_wf (encode_strings xs) \<and> json_depth (encode_strings xs) \<le> 1"
  "json_wf (encode_fallback f) \<and> json_depth (encode_fallback f) \<le> 1"
  "json_wf (encode_source e) \<and> json_depth (encode_source e) \<le> 1"
  "json_wf (encode_signature g) \<and> json_depth (encode_signature g) \<le> 1"
proof -
  show "json_wf (encode_strings xs) \<and> json_depth (encode_strings xs) \<le> 1"
    using array_readable [of xs JString 0] by (simp add: encode_strings_def)
  show "json_wf (encode_fallback f) \<and> json_depth (encode_fallback f) \<le> 1" "json_wf (encode_source e) \<and> json_depth (encode_source e) \<le> 1"
    "json_wf (encode_signature g) \<and> json_depth (encode_signature g) \<le> 1"
    unfolding One_nat_def by (cases f; cases e; cases g; simp; rule obj_of_readable; auto)+
qed

lemma Some_eq_map_option_iff: "Some y = map_option f x \<longleftrightarrow> (\<exists>z. x = Some z \<and> y = f z)"
  by (cases x) auto

lemma parts_readable:
  "json_wf (encode_action a) \<and> json_depth (encode_action a) \<le> 2"
  "json_wf (encode_approval r) \<and> json_depth (encode_approval r) \<le> 2"
  "json_wf (encode_step t) \<and> json_depth (encode_step t) \<le> 2"
  "json_wf (encode_evaluator v) \<and> json_depth (encode_evaluator v) \<le> 2"
proof -
  have strings: "json_wf (encode_strings xs)" "json_depth (encode_strings xs) \<le> Suc 0" for xs using rules_readable(1) [of xs] by auto
  have others: "json_wf (encode_fallback f)" "json_depth (encode_fallback f) \<le> Suc 0"
    "json_wf (encode_source e)" "json_depth (encode_source e) \<le> Suc 0" for f e
    using rules_readable(2) [of f] rules_readable(3) [of e] by auto
  show "json_wf (encode_action a) \<and> json_depth (encode_action a) \<le> 2"
    unfolding encode_action_def numeral_2_eq_2 by (rule obj_of_readable) (auto simp: strings Some_eq_map_option_iff)
  show "json_wf (encode_approval r) \<and> json_depth (encode_approval r) \<le> 2"
    unfolding encode_approval_def numeral_2_eq_2 by (rule obj_of_readable) (auto simp: strings others number_readable Some_eq_map_option_iff)
  show "json_wf (encode_step t) \<and> json_depth (encode_step t) \<le> 2"
    unfolding encode_step_def numeral_2_eq_2 by (rule obj_of_readable) (auto simp: Some_eq_map_option_iff)
  show "json_wf (encode_evaluator v) \<and> json_depth (encode_evaluator v) \<le> 2"
    unfolding encode_evaluator_def numeral_2_eq_2 by (rule obj_of_readable) (auto simp: others)
qed

lemma encode_policy_readable:
  assumes "4 \<le> n" "json_depth (encode_selector (po_situation_selector p)) < n"
  shows "readable n (encode_policy C p)"
proof -
  obtain m where n: "n = Suc m" "3 \<le> m" using assms(1) by (cases n) auto
  define G where "G v \<longleftrightarrow> json_wf v \<and> json_depth v \<le> m" for v
  have le: "G v" if "json_wf v \<and> json_depth v \<le> k" "k \<le> 3" for v k using that n(2) by (simp add: G_def)
  have lists: "G (JArray (map encode_action as))" "G (JArray (map encode_approval rs))" "G (JArray (map encode_step ps))" for as rs ps
    using parts_readable by (intro le [OF array_readable [where n = 2]]; simp)+
  have flat: "G (JString z)" "G (encode_u64 u)" "G (policy_time C t)" "G (encode_strings xs)" "G (encode_signature g)" "G (encode_evaluator v)"
    for z u t xs g v
    using le [of "JString z" 0] le [of "encode_u64 u" 0] le [of "policy_time C t" 0] le [OF rules_readable(1)] le [OF rules_readable(4)]
      le [OF parts_readable(4)] by (simp_all add: number_readable policy_time_def)
  have "G (encode_selector (po_situation_selector p))" using assms(2) by (simp add: G_def n(1) encode_selector_wf)
  then have "list_all (\<lambda>(k, x). pred_option G x) (policy_fields C p)"
    by (simp add: policy_fields_def lists flat pred_option_def option.set_map)
  then have "json_wf v \<and> json_depth v \<le> m" if "(k, Some v) \<in> set (policy_fields C p)" for k v
    using that by (force simp: list_all_iff G_def)
  from obj_of_readable [of "policy_fields C p" m, OF this] show ?thesis by (simp add: readable_def encode_policy_def n(1))
qed

lemma decode_policy_selector:
  assumes "policy_codec_bounded C" "decode_policy C j = Some p"
  shows "json_depth (encode_selector (po_situation_selector p)) < json_depth j"
proof (cases j)
  case (JArray xs)
  with assms show ?thesis by (simp add: decode_policy_def policy_codec_bounded_def del: json_depth.simps)
next
  case (JObject m)
  with assms(2) have "req_field (decode_selector C) j ''situation_selector'' = Some (po_situation_selector p)"
    by (auto simp: decode_policy_def bind_eq_Some_conv simp del: json_depth.simps)
  then obtain w where w: "json_get j ''situation_selector'' = Some w" "decode_selector C w = Some (po_situation_selector p)"
    by (auto simp: req_field_def bind_eq_Some_conv)
  from decode_selector_depth [OF assms(1) w(2) [unfolded decode_selector_def]] json_get_depth [OF w(1)] show ?thesis by (rule le_less_trans)
qed (use assms(2) in \<open>simp_all add: decode_policy_def\<close>)

section \<open>Updates\<close>

lemma load_active_kept:
  "reads_kept R ref_name s t \<Longrightarrow> load_active R C P s ref_name n = Inr x \<Longrightarrow> load_active R C P t ref_name n = Inr x"
  by (auto simp: load_active_def read_policy_def reads_kept_def split: sum.splits)

lemma read_policy_Inr:
  "read_policy R C s ref_name path missing = Inr p \<longleftrightarrow> (\<exists>v. tr_get_json R s ref_name path = Inr v \<and> decode_policy C v = Some p)"
  by (auto simp: read_policy_def ok_or_def split: sum.splits option.splits)

lemma memory_read_parses:
  assumes "port_ok E r name s" "tr_get_json (memory_repo fuel E F r) s name path = Inr v"
  shows "\<exists>q. path_parse path = Inr q" "readable fuel v"
proof -
  from assms(1) obtain h where "has_active r s" "ref_of r s name = Some h" "objects_inv (ev_oid E) s" by (auto simp: port_ok_def)
  from memory_get_json_Inr [OF this, of fuel F path v] assms(2) obtain q z where
    "parse_path path = Inr q" "to_json fuel (memory_store (ev_oid E)) s z = Some (Inr v)" by blast
  then show "\<exists>q. path_parse path = Inr q" "readable fuel v"
    using to_json_readable by (auto simp: parse_path_def map_err_def readable_def split: sum.splits)
qed

text \<open>The selector of a policy is not changed by an update.\<close>

definition keeps_selector :: "(nat \<Rightarrow> Policy \<Rightarrow> policy_error + Policy \<times> IntentCategory \<times> string) \<Rightarrow> bool" where
  "keeps_selector change \<longleftrightarrow>
     (\<forall>k x y. change k x = Inr y \<longrightarrow> po_situation_selector (fst y) = po_situation_selector x)"

lemma edits_keep_selector: "keeps_selector (ratify_edit R a b)" "keeps_selector (sign_edit g)"
  by (auto simp: keeps_selector_def ratify_edit_def sign_edit_def split: if_splits)

lemma updated_policy_readable:
  assumes "policy_codec_bounded C" "4 \<le> fuel" "port_ok E r name t" "load_active (memory_repo fuel E F r) C P t name n = Inr x"
    and "keeps_selector change" "change k x = Inr y"
  shows "readable fuel (encode_policy C (fst y))"
proof -
  from assms(4) obtain v where v: "tr_get_json (memory_repo fuel E F r) t name (active_path (ps_prefix P) n) = Inr v"
    "decode_policy C v = Some x" by (auto simp: load_active_def read_policy_Inr)
  from decode_policy_selector [OF assms(1) v(2)] memory_read_parses(2) [OF assms(3) v(1)]
  have "json_depth (encode_selector (po_situation_selector x)) < fuel" by (simp add: readable_def)
  moreover from assms(5,6) have "po_situation_selector (fst y) = po_situation_selector x" unfolding keeps_selector_def by blast
  ultimately show ?thesis by (intro encode_policy_readable [OF assms(2)]) simp
qed

lemma written_policy_read:
  "policy_codec_law C \<Longrightarrow> tr_get_json R s ref_name (active_path (ps_prefix P) n) = Inr (encode_policy C p) \<Longrightarrow>
   load_active R C P s ref_name n = Inr (policy_rounded p)"
  by (simp add: load_active_def read_policy_Inr policy_json_roundtrip)

text \<open>The documents a change of one policy leaves alone: the other policies and every superseded version.\<close>

definition others_kept :: "'s RepoPort \<Rightarrow> PolicyCodec \<Rightarrow> PolicyStore \<Rightarrow> string \<Rightarrow> string \<Rightarrow> 's \<Rightarrow> 's \<Rightarrow> bool" where
  "others_kept R C P ref_name n s t \<longleftrightarrow>
     (\<forall>m p. plain_name m \<and> m \<noteq> n \<and> load_active R C P s ref_name m = Inr p \<longrightarrow> load_active R C P t ref_name m = Inr p) \<and>
     (\<forall>m v p. plain_name m \<and> load_version R C P s ref_name m v = Inr p \<longrightarrow> load_version R C P t ref_name m v = Inr p)"

lemma diverging_kept:
  assumes "port_ok E r name t" "R = memory_repo fuel E F r" "plain_name n" "path_parse (active_path (ps_prefix P) n) = Inr a"
    and "\<forall>q w. paths_diverge (active_path (ps_prefix P) n) q \<and> tr_get_json R t name q = Inr w \<longrightarrow> tr_get_json R s' name q = Inr w"
  shows "others_kept R C P name n t s'"
proof -
  have read: "tr_get_json R s' name q = Inr w" if "tr_get_json R t name q = Inr w" "\<And>b. path_parse q = Inr b \<Longrightarrow> diverges a b" for q w
  proof -
    from memory_read_parses(1) [OF assms(1)] that(1) assms(2) obtain b where "path_parse q = Inr b" by blast
    with that(2) assms(4) have "paths_diverge (active_path (ps_prefix P) n) q" by (auto simp: paths_diverge_def)
    with assms(5) that(1) show ?thesis by blast
  qed
  note apart = policy_paths_apart [OF assms(3) _ assms(4)]
  show ?thesis
    unfolding others_kept_def load_active_def load_version_def read_policy_Inr
    using read apart(1) apart(2) by metis
qed

lemma update_active_atomic:
  assumes "policy_codec_law C" "policy_codec_bounded C" "4 \<le> fuel" "R = memory_repo fuel E F r" "port_ok E r name s"
    and "plain_name n" "\<not> path_is_reserved (active_path (ps_prefix P) n)" "keeps_selector change"
    and "forward R name (port_ok E r name) rank others"
    and run: "update_active R C P others s name n change = (s', Inr ())"
  shows "\<exists>k u x y h c. port_ok E r name (landing others k u) \<and> tr_head R (landing others k u) name = Inr h \<and>
    load_active R C P (landing others k u) name n = Inr x \<and> change k x = Inr y \<and>
    tr_set_json_cas R k (landing others k u) name h (active_path (ps_prefix P) n) (encode_policy C (fst y))
      (policy_opts R P k (snd y)) = (s', Inr c) \<and>
    port_ok E r name s' \<and> load_active R C P s' name n = Inr (policy_rounded (fst y)) \<and>
    others_kept R C P name n (landing others k u) s'"
proof -
  let ?p = "active_path (ps_prefix P) n"
  have good: "\<forall>k t t1 x y. port_ok E r name t \<and> load_active R C P t name n = Inr x \<and> change k x = Inr y \<longrightarrow>
      readable fuel (encode_policy C (fst y)) \<and> \<not> path_is_secret ?p"
    using updated_policy_readable [OF assms(2,3) _ _ assms(8)] assms(7) reserved_secret unfolding assms(4) by blast
  have kept: "\<forall>s t x. reads_kept R name s t \<and> load_active R C P s name n = Inr x \<longrightarrow> load_active R C P t name n = Inr x"
    by (intro allI impI; elim conjE) (rule load_active_kept)
  from memport.read_change_atomic [OF assms(5) assms(9) [unfolded assms(4)] kept [unfolded assms(4)] good [unfolded assms(4)]
      run [unfolded assms(4) update_active_def policy_loop_def]]
  obtain k u t x y h c where t: "t = landing others k u"
    and l: "port_ok E r name t" "tr_head R t name = Inr h" "load_active R C P t name n = Inr x" "change k x = Inr y"
    "port_ok E r name s'" "tr_get_json R s' name ?p = Inr (encode_policy C (fst y))"
    "\<forall>q w. paths_diverge ?p q \<and> tr_get_json R t name q = Inr w \<longrightarrow> tr_get_json R s' name q = Inr w"
    "tr_set_json_cas R k t name h ?p (encode_policy C (fst y)) (policy_opts R P k (snd y)) = (s', Inr c)"
    unfolding assms(4) by blast
  from memory_read_parses(1) [OF l(5) l(6) [unfolded assms(4)]] obtain a where "path_parse ?p = Inr a" by blast
  from diverging_kept [OF l(1) assms(4,6) this l(7)] written_policy_read [OF assms(1) l(6)] l(1-5,8) show ?thesis
    unfolding t by blast
qed

lemma update_active_lands:
  assumes "policy_codec_law C" "policy_codec_bounded C" "4 \<le> fuel" "R = memory_repo fuel E F r" "port_ok E r name s"
    and "\<not> path_is_reserved (active_path (ps_prefix P) n)" "keeps_selector change" "undisturbed E \<and> calm r name s"
    and "load_active R C P s name n = Inr x" "change 0 x = Inr y"
  shows "\<exists>s'. update_active R C P (\<lambda>_ _ s. s) s name n change = (s', Inr ()) \<and> calm r name s' \<and>
    load_active R C P s' name n = Inr (policy_rounded (fst y))"
proof -
  have good: "readable fuel (encode_policy C (fst y))"
    using updated_policy_readable [OF assms(2,3,5) _ assms(7,10)] assms(4,9) by blast
  from assms(9) obtain w where w: "tr_get_json R s name (active_path (ps_prefix P) n) = Inr w" by (auto simp: load_active_def read_policy_Inr)
  obtain m where m: "POLICY_CAS_RETRIES = Suc m" by (cases POLICY_CAS_RETRIES) (simp_all add: POLICY_CAS_RETRIES_def)
  from change_lands [where read = "\<lambda>s. load_active R C P s name n" and change = "\<lambda>k _. change k"
      and path = "\<lambda>_. active_path (ps_prefix P) n" and enc = "\<lambda>y. encode_policy C (fst y)" and result = "\<lambda>_. ()"
      and opts = "policy_opts R P" and failed = PoRepo and gave_up = "PoRepo RWriteConflict" and desc = snd and m = m,
      OF assms(5,8,4,9,10) w good assms(6)]
  show ?thesis
    unfolding update_active_def policy_loop_def m
    by (elim exE conjE) (intro exI conjI, assumption, assumption, rule written_policy_read [OF assms(1)], assumption)
qed

end
