(* ===== verification/Policy_Memory.thy ===== *)
theory Policy_Memory
  imports Policy_Store Cas_Memory Repo_Speculation
begin

text \<open>
  Superseding a policy on the repository of this development: the state is the manager of speculations with
  the storage. Pinning the root of a speculation for the garbage collection does nothing in the memory
  backend and is left out. As in \<open>memory_repo\<close>, a document too deep for the fuel shows as a storage error.
\<close>

definition spec_set_json ::
  "Env \<Rightarrow> SpeculationManager \<Rightarrow> MemoryStorage \<Rightarrow> SpecHandle \<Rightarrow> string \<Rightarrow> json \<Rightarrow>
   SpeculationManager \<times> MemoryStorage \<times> (RepoError + unit)" where
  "spec_set_json E m s handle path v =
     (case store_value E s v of
        (s1, Inl e) \<Rightarrow> (m, s1, Inl e)
      | (s1, Inr obj) \<Rightarrow>
          (case spec_set E m s1 handle path obj of (m1, s2, r) \<Rightarrow> (m1, s2, map_err RSpeculation r)))"

definition memory_specs :: "nat \<Rightarrow> Env \<Rightarrow> Repository \<Rightarrow> (SpeculationManager \<times> MemoryStorage) SpecPort" where
  "memory_specs fuel E r =
     \<lparr> sp_speculate = (\<lambda>(m, s) ref_name label. case speculate r m s ref_name label of (m1, x) \<Rightarrow> ((m1, s), x)),
       sp_set_json = (\<lambda>(m, s) handle path v. case spec_set_json E m s handle path v of (m1, s1, x) \<Rightarrow> ((m1, s1), x)),
       sp_commit_cas = (\<lambda>k (m, s) handle head options.
          case commit_speculation_cas fuel (env_shift E k) (\<lambda>s. s) r m s handle head options of
            Some (m1, s1, x) \<Rightarrow> ((m1, s1), x)
          | None \<Rightarrow> ((m, s), Inl (RTree (TStorage (SBackend ''stack overflow''))))) \<rparr>"

definition beside_specs :: "MemoryStorage RepoPort \<Rightarrow> (SpeculationManager \<times> MemoryStorage) RepoPort" where
  "beside_specs R =
     \<lparr> tr_env = tr_env R,
       tr_head = (\<lambda>(m, s). tr_head R s),
       tr_get_json = (\<lambda>(m, s). tr_get_json R s),
       tr_list_paths = (\<lambda>(m, s). tr_list_paths R s),
       tr_base_json = (\<lambda>(m, s). tr_base_json R s),
       tr_set_json_cas = (\<lambda>k (m, s) ref_name head path v options. case tr_set_json_cas R k s ref_name head path v options of (s1, x) \<Rightarrow> ((m, s1), x)),
       tr_delete = (\<lambda>(m, s) ref_name path options. case tr_delete R s ref_name path options of (s1, x) \<Rightarrow> ((m, s1), x)) \<rparr>"

definition supersede_in_memory ::
  "nat \<Rightarrow> Env \<Rightarrow> Floats \<Rightarrow> Repository \<Rightarrow> PolicyCodec \<Rightarrow> PolicyStore \<Rightarrow>
   (nat \<Rightarrow> nat \<Rightarrow> SpeculationManager \<times> MemoryStorage \<Rightarrow> SpeculationManager \<times> MemoryStorage) \<Rightarrow> SpeculationManager \<times> MemoryStorage \<Rightarrow>
   string \<Rightarrow> string \<Rightarrow> Policy \<Rightarrow> (SpeculationManager \<times> MemoryStorage) \<times> (policy_error + string)" where
  "supersede_in_memory fuel E F r = supersede (beside_specs (memory_repo fuel E F r)) (memory_specs fuel E r)"

section \<open>What a supersede that answers did\<close>

text \<open>The last attempt: it read the old version after the head, wrote both documents into one speculation and
  landed that against the head.\<close>

lemma supersede_attempt_answers:
  assumes "supersede_attempt R Sp C P others k s ref_name n p = (s', Some (Inr handle))"
  shows "\<exists>head old t0 t1 t2 t3 spec c options. tr_head R s ref_name = Inr head \<and>
    load_active R C P (others k 0 s) ref_name n = Inr old \<and> handle = policy_handle (superseding_policy R P k n old p) \<and>
    sp_speculate Sp t0 ref_name (Some (''Supersede '' @ n)) = (t1, Inr spec) \<and>
    sp_set_json Sp (others k 2 t1) spec (historical_path (ps_prefix P) n (po_version old)) (encode_policy C old) = (t2, Inr ()) \<and>
    sp_set_json Sp (others k 3 t2) spec (active_path (ps_prefix P) n) (encode_policy C (superseding_policy R P k n old p)) = (t3, Inr ()) \<and>
    sp_commit_cas Sp k (others k 9 t3) spec head options = (s', Inr c)"
  using assms unfolding supersede_attempt_def Let_def
  by (auto split: sum.splits prod.splits if_splits) blast

lemma supersede_attempts_answer:
  "supersede_attempts m k R Sp C P others s ref_name n p = (s', Inr handle) \<Longrightarrow>
   \<exists>j t. supersede_attempt R Sp C P others j t ref_name n p = (s', Some (Inr handle))"
  by (induction m arbitrary: k s) (auto split: prod.splits option.splits)

end
