(* ===== verification/Policy_Properties.thy ===== *)
theory Policy_Properties
  imports Policy_Decisions Policy_Updates Policy_Memory Store_Samples
begin

text \<open>
  Properties of policies: what an evaluation decides, and that ratifying and signing lose no concurrent
  change.
\<close>

section \<open>Samples\<close>

definition sample_policy_codec :: PolicyCodec where
  "sample_policy_codec = \<lparr>pc_time = sample_time, pc_parse_time = sample_parse_time, pc_selector_seq = (\<lambda>_. None),
     pc_fallback_seq = (\<lambda>_. None), pc_action_seq = (\<lambda>_. None), pc_approval_seq = (\<lambda>_. None), pc_step_seq = (\<lambda>_. None),
     pc_source_seq = (\<lambda>_. None), pc_evaluator_seq = (\<lambda>_. None), pc_signature_seq = (\<lambda>_. None), pc_policy_seq = (\<lambda>_. None)\<rparr>"

lemma sample_policy_codec_laws: "policy_codec_law sample_policy_codec" "policy_codec_bounded sample_policy_codec"
  by (simp_all add: policy_codec_law_def policy_codec_bounded_def sample_policy_codec_def)

definition sample_policy :: "string option \<Rightarrow> Policy" where
  "sample_policy ratifier =
     \<lparr>po_path = ''a'', po_version = 1, po_situation = ''s'', po_situation_selector = SelAlways, po_allow = [],
      po_deny = [\<lparr>aa_action = ''*'', aa_condition = None, aa_preconditions = []\<rparr>], po_require_approval = [],
      po_procedure = None, po_triggers = [], po_required_fields = [], po_severity = SvLow, po_proposed_by = ''x'',
      po_proposed_at = 0, po_ratified_by = ratifier, po_ratified_at = None, po_ratification_reasoning = None,
      po_active_from = 0, po_expires_at = None, po_supersedes = None, po_signature = None, po_tenant_id = None,
      po_external_evaluator = None\<rparr>"

lemma sample_policy_rounded: "policy_rounded (sample_policy x) = sample_policy x"
  by (simp add: policy_rounded_def sample_policy_def)

definition sample_policies :: PolicyStore where
  "sample_policies = policy_store_new ''/p'' ''x''"

lemma sample_policies_fields [simp]:
  "ps_prefix sample_policies = ''/p''" "ps_verifier sample_policies = None" "ps_external_evaluators sample_policies = None"
  by (simp_all add: sample_policies_def policy_store_new_def)

lemma sample_name: "normalized ''a''" "plain_name ''a''" "active_path ''/p'' ''a'' = ''/p/a/_meta''"
  by (simp_all add: plain_name_def normalized_def segments_def is_segment_def is_lower_def is_digit_def less_eq_char_def
      HISTORY_KEY_def POLICY_META_KEY_def active_path_def)

section \<open>Decisions\<close>

text \<open>
  C28. An evaluation decides by the strongest vote of the policies that apply. When the listing answers, so
  does the evaluation: it denies exactly when some listed policy that is ratified, in force, signed as
  required and selected by the situation votes to deny, by a rule for the action or for all actions, or
  through its external evaluator; without such a vote it requires approval exactly when one votes for
  that, and allows exactly when one allows and none asks for more. The answer is the vote of one of these policies. Every
  listed policy is of the tenant or global, and a policy stored at a valid name whose document is among the
  listed leaves is never left out.
\<close>

theorem policy_decision_exact:
  assumes "list_scoped R C P st ref_name None tenant = Inr listed"
    and "asked = {p \<in> set listed. is_currently_active p (ev_now (tr_env R 0)) \<and> signature_passes P p \<and>
      selector_matches regex (po_situation_selector p) situation}"
  shows "\<exists>d. evaluate_scoped R C regex P st ref_name situation action agent_id tenant = Inr d \<and>
    (is_deny d \<longleftrightarrow> (\<exists>p \<in> asked. votes P situation action agent_id is_deny (denies action) p)) \<and>
    (is_approval d \<longleftrightarrow> \<not> is_deny d \<and> (\<exists>p \<in> asked. votes P situation action agent_id is_approval (wants_approval action) p)) \<and>
    (is_allow d \<longleftrightarrow> \<not> is_deny d \<and> \<not> is_approval d \<and> (\<exists>p \<in> asked. votes P situation action agent_id is_allow (allows action) p)) \<and>
    (d = NoPolicyMatch \<or> (\<exists>p \<in> asked. if judged_locally P p
        then deny_by action p = Some d \<or> approval_by action p = Some d \<or> allow_by action p = Some d
        else external_vote P situation action agent_id p = Some d)) \<and>
    (\<forall>p \<in> asked. is_ratified p \<and> tenant_matches p tenant) \<and>
    (\<forall>n p leaves. normalized n \<and> tr_list_paths R (st 0) ref_name (ps_prefix P) None = Inr leaves \<and>
       active_path (ps_prefix P) n @ ''/path'' \<in> set leaves \<and> (\<forall>i. load_active R C P (st i) ref_name n = Inr p) \<and>
       tenant_matches p tenant \<longrightarrow> p \<in> set listed)"
proof -
  define ps where "ps = filter (\<lambda>p. selector_matches regex (po_situation_selector p) situation)
    (filter (signature_passes P) (filter (\<lambda>p. is_currently_active p (ev_now (tr_env R 0))) listed))"
  define d where "d = combine_decisions (run_externals P (snd (partition_for_dispatch P ps)) situation action agent_id)
    (evaluate_matched (fst (partition_for_dispatch P ps)) action agent_id)"
  have asked: "asked = set ps" using assms(2) by (auto simp: ps_def)
  note bands = decision_bands [of P ps situation action agent_id, folded d_def asked]
  have "evaluate_scoped R C regex P st ref_name situation action agent_id tenant = Inr d"
    using assms(1) by (simp add: evaluate_scoped_def policies_for_situation_scoped_def active_scoped_def case_prod_beta d_def ps_def)
  moreover have "\<forall>p \<in> asked. is_ratified p \<and> tenant_matches p tenant"
    using list_scoped_sound(1) [OF assms(1)] assms(2) by (auto simp: is_currently_active_def split: if_splits)
  moreover have "\<forall>n p leaves. normalized n \<and> tr_list_paths R (st 0) ref_name (ps_prefix P) None = Inr leaves \<and>
       active_path (ps_prefix P) n @ ''/path'' \<in> set leaves \<and> (\<forall>i. load_active R C P (st i) ref_name n = Inr p) \<and>
       tenant_matches p tenant \<longrightarrow> p \<in> set listed"
    using list_scoped_complete [OF assms(1)] by blast
  ultimately show ?thesis by (intro exI [of _ d] conjI bands)
qed

text \<open>A repository that holds one policy, as a table of documents.\<close>

definition table_port :: "(string \<rightharpoonup> json) RepoPort" where
  "table_port = \<lparr>tr_env = (\<lambda>_. sample_env), tr_head = (\<lambda>_ _. Inr (commit_name 0)),
     tr_get_json = (\<lambda>s _ path. ok_or (RTree (TPathNotFound path)) (s path)),
     tr_list_paths = (\<lambda>s _ _ _. Inr [''/p/a/_meta/path'']), tr_base_json = (\<lambda>s _ _ _. Inr None),
     tr_set_json_cas = (\<lambda>_ s _ _ path v _. (s(path \<mapsto> v), Inr (commit_name 0))), tr_delete = (\<lambda>s _ path _. (s(path := None), Inr (commit_name 0)))\<rparr>"

definition table_states :: "nat \<Rightarrow> string \<rightharpoonup> json" where
  "table_states _ = [''/p/a/_meta'' \<mapsto> encode_policy sample_policy_codec (sample_policy (Some ''boss''))]"

lemma table_listed:
  "list_scoped table_port sample_policy_codec sample_policies table_states ''main'' None None = Inr [sample_policy (Some ''boss'')]"
proof -
  have leaf: "policy_of_leaf ''/p'' None ''/p/a/_meta/path'' = Some ''a''"
    using policy_of_leaf_active [OF sample_name(1) refl, of "''/p''"] by (simp add: sample_name)
  have "load_active table_port sample_policy_codec sample_policies (table_states i) ''main'' ''a'' = Inr (sample_policy (Some ''boss''))" for i
    using policy_json_roundtrip [OF sample_policy_codec_laws(1), of "sample_policy (Some ''boss'')"]
    by (simp add: load_active_def read_policy_def table_port_def table_states_def sample_name ok_or_def sample_policy_rounded)
  then show ?thesis
    by (simp add: list_scoped_def table_port_def [THEN arg_cong [where f = tr_list_paths]] leaf List.map_filter_simps tenant_matches_def)
qed

theorem policy_decision_exact_witness:
  "\<exists>d. evaluate_scoped table_port sample_policy_codec (\<lambda>_. None) sample_policies table_states ''main'' Map.empty ''restart'' ''agent'' None = Inr d \<and>
     is_deny d"
proof -
  let ?p = "sample_policy (Some ''boss'')"
  have now: "ev_now (tr_env table_port 0) = 0" by (simp add: table_port_def)
  have "?p \<in> {p \<in> set [?p]. is_currently_active p (ev_now (tr_env table_port 0)) \<and> signature_passes sample_policies p \<and>
      selector_matches (\<lambda>_. None) (po_situation_selector p) Map.empty}"
    unfolding now by (simp add: is_currently_active_def is_ratified_def signature_passes_def) (simp add: sample_policy_def)
  moreover have "votes sample_policies Map.empty ''restart'' ''agent'' is_deny (denies ''restart'') ?p"
    by (simp add: votes_def judged_locally_def denies_def) (simp add: sample_policy_def)
  ultimately show ?thesis
    using policy_decision_exact [OF table_listed refl, of "\<lambda>_. None" Map.empty "''restart''" "''agent''"] by blast
qed

section \<open>Ratifying and signing\<close>

datatype policy_change = PcRatify string string | PcSign PolicySignature

fun change_policy :: "'s RepoPort \<Rightarrow> policy_change \<Rightarrow> nat \<Rightarrow> Policy \<Rightarrow> policy_error + Policy \<times> IntentCategory \<times> string" where
  "change_policy R (PcRatify ratifier reasoning) = ratify_edit R ratifier reasoning"
| "change_policy R (PcSign sig) = sign_edit sig"

fun run_change ::
  "'s RepoPort \<Rightarrow> PolicyCodec \<Rightarrow> PolicyStore \<Rightarrow> (nat \<Rightarrow> nat \<Rightarrow> 's \<Rightarrow> 's) \<Rightarrow> 's \<Rightarrow> string \<Rightarrow> string \<Rightarrow> policy_change \<Rightarrow> 's \<times> (policy_error + unit)" where
  "run_change R C P others s ref_name path (PcRatify ratifier reasoning) = ratify R C P others s ref_name path ratifier reasoning"
| "run_change R C P others s ref_name path (PcSign sig) = set_signature R C P others s ref_name path sig"

fun names_ratifier :: "policy_change \<Rightarrow> bool" where
  "names_ratifier (PcRatify ratifier _) \<longleftrightarrow> str_trim ratifier \<noteq> []"
| "names_ratifier (PcSign _) \<longleftrightarrow> True"

lemma run_change_eq:
  assumes "normalize_policy path = (Inr n :: policy_error + string)"
  shows "run_change R C P others s ref_name path ch =
    (if names_ratifier ch then update_active R C P others s ref_name n (change_policy R ch) else (s, Inl (PoInvalid ''ratifier required'')))"
  using assms by (cases ch) (auto simp: ratify_def set_signature_def)

lemma change_policy_selector: "keeps_selector (change_policy R ch)"
  using edits_keep_selector by (cases ch) simp_all

text \<open>
  C19. Ratifying and signing a policy revert nobody's change. Whatever other writers do between the calls, as
  long as they only move the branch forward, a ratification or signature that answers was applied to the
  policy as the other writers had left it when the branch moved, which for a ratification was not ratified
  then, and the swap of that state's head stored it. It is read back, with its timeouts in whole
  milliseconds; all other policies and all superseded versions are kept. And when nobody interferes on a
  branch where nothing forbids the write, an acceptable change is stored. The repository has no active
  epoch, and no watch stands in the store.
\<close>

theorem policy_change_atomic:
  assumes "policy_codec_law C" "policy_codec_bounded C" "4 \<le> fuel" "R = memory_repo fuel E F r" "port_ok E r name s"
    and "normalize_policy path = (Inr n :: policy_error + string)" "plain_name n" "\<not> path_is_reserved (active_path (ps_prefix P) n)"
  shows "(\<forall>others rank s'. forward R name (port_ok E r name) rank others \<and> run_change R C P others s name path ch = (s', Inr ()) \<longrightarrow>
      (\<exists>k u x y h c. port_ok E r name (landing others k u) \<and> tr_head R (landing others k u) name = Inr h \<and>
        load_active R C P (landing others k u) name n = Inr x \<and> change_policy R ch k x = Inr y \<and>
        (\<forall>a b. ch = PcRatify a b \<longrightarrow> \<not> is_ratified x) \<and>
        tr_set_json_cas R k (landing others k u) name h (active_path (ps_prefix P) n) (encode_policy C (fst y))
          (policy_opts R P k (snd y)) = (s', Inr c) \<and> port_ok E r name s' \<and>
        load_active R C P s' name n = Inr (policy_rounded (fst y)) \<and> others_kept R C P name n (landing others k u) s')) \<and>
    (\<forall>x y. undisturbed E \<and> calm r name s \<and> names_ratifier ch \<and> load_active R C P s name n = Inr x \<and> change_policy R ch 0 x = Inr y \<longrightarrow>
      (\<exists>s'. run_change R C P (\<lambda>_ _ s. s) s name path ch = (s', Inr ()) \<and> calm r name s' \<and>
        load_active R C P s' name n = Inr (policy_rounded (fst y))))"
proof (intro conjI allI impI; elim conjE)
  fix others rank s'
  assume run: "forward R name (port_ok E r name) rank others" "run_change R C P others s name path ch = (s', Inr ())"
  have fresh: "\<forall>a b. ch = PcRatify a b \<longrightarrow> \<not> is_ratified x" if "change_policy R ch k x = Inr y" for k x y
    using that by (auto simp: ratify_edit_def split: if_splits)
  from run(2) have upd: "update_active R C P others s name n (change_policy R ch) = (s', Inr ())"
    unfolding run_change_eq [OF assms(6)] by (simp split: if_splits)
  from update_active_atomic [OF assms(1-5,7,8) change_policy_selector run(1) upd] fresh
  show "\<exists>k u x y h c. port_ok E r name (landing others k u) \<and> tr_head R (landing others k u) name = Inr h \<and>
        load_active R C P (landing others k u) name n = Inr x \<and> change_policy R ch k x = Inr y \<and>
        (\<forall>a b. ch = PcRatify a b \<longrightarrow> \<not> is_ratified x) \<and>
        tr_set_json_cas R k (landing others k u) name h (active_path (ps_prefix P) n) (encode_policy C (fst y))
          (policy_opts R P k (snd y)) = (s', Inr c) \<and> port_ok E r name s' \<and>
        load_active R C P s' name n = Inr (policy_rounded (fst y)) \<and> others_kept R C P name n (landing others k u) s'" by blast
next
  fix x y
  assume und: "undisturbed E" and calm: "calm r name s" "names_ratifier ch" "load_active R C P s name n = Inr x" "change_policy R ch 0 x = Inr y"
  from update_active_lands [OF assms(1-5,8) change_policy_selector conjI [OF und calm(1)] calm(3,4)] calm(2)
  show "\<exists>s'. run_change R C P (\<lambda>_ _ s. s) s name path ch = (s', Inr ()) \<and> calm r name s' \<and>
        load_active R C P s' name n = Inr (policy_rounded (fst y))"
    unfolding run_change_eq [OF assms(6)] by simp
qed

text \<open>A branch whose tree holds one policy under \<open>/p\<close>, not yet ratified.\<close>

lemma represents_entry:
  "represents v (JObject [(k, j)]) x \<Longrightarrow> \<exists>y. represents v j y \<and> view_nav v x [Key k] = Some y"
  by (auto simp: list_all2_Cons1)

definition policy_doc :: json where
  "policy_doc = JObject [(''p'', JObject [(''a'', JObject [(''_meta'', encode_policy sample_policy_codec (sample_policy None))])])]"

abbreviation sample_port :: "MemoryStorage RepoPort" where
  "sample_port \<equiv> memory_repo 4 sample_env sample_floats sample_repo"

lemma sample_policy_readable: "readable 4 (encode_policy sample_policy_codec (sample_policy None))"
  by (rule encode_policy_readable) (simp_all add: sample_policy_def obj_of_def less_Suc_eq_le map_filter_simps)

lemma stored_policy:
  obtains s where "port_ok sample_env sample_repo ''main'' s" "calm sample_repo ''main'' s"
    "load_active sample_port sample_policy_codec sample_policies s ''main'' ''a'' = Inr (sample_policy None)"
proof -
  let ?d = "encode_policy sample_policy_codec (sample_policy None)"
  have wf: "json_wf ?d" using sample_policy_readable by (simp add: readable_def)
  then have "json_wf policy_doc" by (simp add: policy_doc_def bt_wf_def)
  moreover have "objects_inv sym_oid memory_new" by (simp add: objects_inv_def memory_new_def memory_view_def view_addressed_def)
  moreover obtain s0 r where run: "json_to_tree sym_oid (memory_store sym_oid) memory_new policy_doc = (s0, r)" by force
  ultimately obtain x where x: "r = Inr (sym_oid x)" "objects_inv sym_oid s0" "memory_view s0 (sym_oid x) = Some x"
    "represents (memory_view s0) policy_doc x" using sym.json_to_tree_correct [of memory_new policy_doc s0 r] by blast
  have same: "same_but_objects memory_new s0"
    using run by (auto simp: json_to_tree_def memory_store_def split: prod.splits sum.splits dest!: batch_put_same)
  define c where "c = (sample_commit 0 [])\<lparr>cm_state_root := sym_oid x\<rparr>"
  define s where "s = with_ref ''main'' (commit_name 0) (with_commit c s0)"
  from same_but_objects_fields [OF same]
  have s: "ms_objects s = ms_objects s0" "ref_of sample_repo s ''main'' = Some (commit_name 0)" "map_of (ms_commits s) (commit_name 0) = Some c"
    "has_active sample_repo s" "ms_taints s = []" "ms_epochs s = []"
    by (simp_all add: s_def c_def fork_defs memory_new_def ref_of_def has_active_def sample_commit_def btree_simps)
  have ok: "port_ok sample_env sample_repo ''main'' s"
    using x(2) s by (simp add: port_ok_def no_watches_def sym_oid_collision_free objects_inv_def memory_view_def)
  moreover have "calm sample_repo ''main'' s" using s by (simp add: calm_def)
  moreover have "tr_get_json sample_port s ''main'' ''/p/a/_meta'' = Inr ?d"
  proof -
    have view: "memory_view s = memory_view s0" using s(1) by (simp add: memory_view_def)
    from represents_entry [OF x(4) [unfolded policy_doc_def]] obtain y1 where
      y1: "represents (memory_view s0) (JObject [(''a'', JObject [(''_meta'', ?d)])]) y1" "view_nav (memory_view s0) x [Key ''p''] = Some y1" by blast
    from represents_entry [OF y1(1)] obtain y2 where
      y2: "represents (memory_view s0) (JObject [(''_meta'', ?d)]) y2" "view_nav (memory_view s0) y1 [Key ''a''] = Some y2" by blast
    from represents_entry [OF y2(1)] obtain z where
      z: "represents (memory_view s0) ?d z" "view_nav (memory_view s0) y2 [Key ''_meta''] = Some z" by blast
    have "view_nav (memory_view s0) x ([Key ''p''] @ [Key ''a''] @ [Key ''_meta'']) = Some z"
      unfolding view_nav_append using y1(2) y2(2) z(2) by simp
    with x(3) have "view_get (memory_view s) (cm_state_root c) [Key ''p'', Key ''a'', Key ''_meta''] = Some z"
      by (simp add: view_get_def view c_def)
    moreover have "parse_path ''/p/a/_meta'' = Inr [Key ''p'', Key ''a'', Key ''_meta'']" by (simp add: parse_simps map_err_def try_bind_def)
    moreover have "to_json 4 (memory_store sym_oid) s z = Some (Inr ?d)"
      using mem.to_json_represents [of sym_oid s ?d z 4] ok z(1) wf sample_policy_readable view
      by (simp add: port_ok_def readable_def)
    moreover have "\<not> path_is_secret ''/p/a/_meta''" by code_simp
    ultimately show ?thesis using memory_get_json_Inr [OF s(4,2), of sample_env 4 sample_floats "''/p/a/_meta''" ?d] ok s(3)
      by (simp add: port_ok_def)
  qed
  then have "load_active sample_port sample_policy_codec sample_policies s ''main'' ''a'' = Inr (sample_policy None)"
    using policy_json_roundtrip [OF sample_policy_codec_laws(1), of "sample_policy None"]
    by (simp add: load_active_def read_policy_Inr sample_name sample_policy_rounded)
  ultimately show thesis by (rule that)
qed

theorem policy_change_atomic_witness:
  "\<exists>s s' p. port_ok sample_env sample_repo ''main'' s \<and>
     ratify sample_port sample_policy_codec sample_policies (\<lambda>_ _ s. s) s ''main'' ''/a'' ''boss'' ''r'' = (s', Inr ()) \<and>
     load_active sample_port sample_policy_codec sample_policies s' ''main'' ''a'' = Inr p \<and> is_ratified p"
proof -
  let ?ch = "PcRatify ''boss'' ''r''"
  obtain s where s: "port_ok sample_env sample_repo ''main'' s" "calm sample_repo ''main'' s"
    "load_active sample_port sample_policy_codec sample_policies s ''main'' ''a'' = Inr (sample_policy None)" by (rule stored_policy)
  obtain y where y: "change_policy sample_port ?ch 0 (sample_policy None) = Inr y" "is_ratified (policy_rounded (fst y))"
    by (simp add: ratify_edit_def is_ratified_def policy_rounded_def) (simp add: sample_policy_def)
  have name: "normalize_policy ''/a'' = (Inr ''a'' :: policy_error + string)" by code_simp
  have free: "\<not> path_is_reserved (active_path (ps_prefix sample_policies) ''a'')" "names_ratifier ?ch"
    by (simp_all add: sample_name path_is_reserved_def META_PATH_PREFIX_def str_trim_printable printable_def)
  have und: "undisturbed sample_env" by (simp add: undisturbed_def)
  note lands = conjunct2 [OF policy_change_atomic [OF sample_policy_codec_laws order_refl refl s(1) name sample_name(2) free(1),
        where ch = ?ch and F = sample_floats], rule_format, OF conjI [OF und conjI [OF s(2) conjI [OF free(2) conjI [OF s(3) y(1)]]]]]
  from lands obtain s' where "run_change sample_port sample_policy_codec sample_policies (\<lambda>_ _ s. s) s ''main'' ''/a'' ?ch = (s', Inr ())"
    "load_active sample_port sample_policy_codec sample_policies s' ''main'' ''a'' = Inr (policy_rounded (fst y))" by (elim exE conjE)
  with s(1) y(2) show ?thesis unfolding run_change.simps by (intro exI conjI)
qed

end
