(* ===== verification/Schema_Model.thy ===== *)
theory Schema_Model
  imports Json_Value Rust_Text
begin

text \<open>
  Schemas with merge hints, from \<open>crates/agentstategraph-core/src/schema.rs\<close>: extraction of the hints and
  validation of a document. The accumulated errors are returned; the warnings the code threads through
  stay empty. How a value prints with \<open>{:?}\<close> is the parameter \<open>dbg\<close>.
\<close>

datatype MergeHint = LastWriterWins | UnionById string | Union | Sum | MergeMax | MergeMin | Concat | Manual
  | Custom string

datatype EnforcementMode = EnforceNone | EnforceWarn | Enforce | EnforceMigrate

record Schema =
  sc_json_schema :: json
  sc_merge_hints :: "string \<rightharpoonup> MergeHint"
  sc_enforcement :: EnforcementMode

record ValidationError =
  ve_path :: string
  ve_message :: string
  ve_expected :: "string option"
  ve_actual :: "string option"

record ValidationResult =
  vr_valid :: bool
  vr_errors :: "ValidationError list"
  vr_warnings :: "string list"

section \<open>Merge hints\<close>

definition hint_of :: "string \<Rightarrow> string \<Rightarrow> MergeHint" where
  "hint_of hint_str id_field =
     (if hint_str = ''last-writer-wins'' then LastWriterWins
      else if hint_str = ''union-by-id'' then UnionById id_field
      else if hint_str = ''union'' then Union
      else if hint_str = ''sum'' then Sum
      else if hint_str = ''max'' then MergeMax
      else if hint_str = ''min'' then MergeMin
      else if hint_str = ''concat'' then Concat
      else if hint_str = ''manual'' then Manual
      else Custom hint_str)"

definition get_str_field :: "json \<Rightarrow> string \<Rightarrow> string option" where
  "get_str_field v k = Option.bind (json_get v k) json_as_str"

definition get_array_field :: "json \<Rightarrow> string \<Rightarrow> json list option" where
  "get_array_field v k = Option.bind (json_get v k) json_as_array"

definition get_object_field :: "json \<Rightarrow> string \<Rightarrow> (string \<times> json) list option" where
  "get_object_field v k = Option.bind (json_get v k) json_as_object"

lemma get_object_field_size: "get_object_field v k = Some m \<Longrightarrow> (p, w) \<in> set m \<Longrightarrow> size w < size v"
proof -
  assume "get_object_field v k = Some m" "(p, w) \<in> set m"
  moreover from this have "json_get v k = Some (JObject m)"
    by (cases "json_get v k") (auto simp: get_object_field_def elim: json_as_object.elims)
  moreover have "(p, w) \<in> set m \<Longrightarrow> size w < size (JObject m)" for m
    by (induction m) auto
  ultimately show ?thesis using json_get_size by fastforce
qed

definition own_hint :: "json \<Rightarrow> string \<Rightarrow> string \<rightharpoonup> MergeHint" where
  "own_hint schema path =
     (case get_str_field schema ''x-agentstategraph-merge'' of
        None \<Rightarrow> Map.empty
      | Some hint_str \<Rightarrow>
          [path \<mapsto> hint_of hint_str
             (case get_str_field schema ''x-agentstategraph-id-field'' of Some f \<Rightarrow> f | None \<Rightarrow> ''id'')])"

definition property_path :: "string \<Rightarrow> string \<Rightarrow> string" where
  "property_path path key = (if path = [] then ''/'' @ key else path @ ''/'' @ key)"

function extract_merge_hints :: "json \<Rightarrow> string \<Rightarrow> string \<rightharpoonup> MergeHint" where
  "extract_merge_hints schema path =
     (let hints = own_hint schema path;
          hints = (case get_object_field schema ''properties'' of
              None \<Rightarrow> hints
            | Some props \<Rightarrow>
                foldl (++) hints (map (\<lambda>(key, prop). extract_merge_hints prop (property_path path key)) props))
      in case json_get schema ''items'' of
           None \<Rightarrow> hints
         | Some items \<Rightarrow> hints ++ extract_merge_hints items (path @ ''/*''))"
  by pat_completeness auto
termination
  by (relation "measure (\<lambda>(schema, path). size schema)") (auto dest: get_object_field_size json_get_size)

declare extract_merge_hints.simps [simp del]

definition from_json_schema :: "json \<Rightarrow> EnforcementMode \<Rightarrow> Schema" where
  "from_json_schema schema enforcement =
     \<lparr>sc_json_schema = schema, sc_merge_hints = extract_merge_hints schema [], sc_enforcement = enforcement\<rparr>"

definition merge_hint_for :: "Schema \<Rightarrow> string \<Rightarrow> MergeHint option" where
  "merge_hint_for sc path = sc_merge_hints sc path"

section \<open>Validation\<close>

fun json_type_name :: "json \<Rightarrow> string" where
  "json_type_name JNull = ''null''"
| "json_type_name (JBool _) = ''boolean''"
| "json_type_name (JNumber n) = (if as_i64 n \<noteq> None \<or> as_u64 n \<noteq> None then ''integer'' else ''number'')"
| "json_type_name (JString _) = ''string''"
| "json_type_name (JArray _) = ''array''"
| "json_type_name (JObject _) = ''object''"

definition type_error :: "string \<Rightarrow> string \<Rightarrow> string \<Rightarrow> ValidationError" where
  "type_error path expected actual =
     \<lparr>ve_path = path,
      ve_message = ''expected type '' @ [CHR 0x27] @ expected @ [CHR 0x27] @ '', found '' @ [CHR 0x27] @ actual @ [CHR 0x27],
      ve_expected = Some expected, ve_actual = Some actual\<rparr>"

definition missing_error :: "string \<Rightarrow> string \<Rightarrow> ValidationError" where
  "missing_error path key =
     \<lparr>ve_path = path @ ''/'' @ key,
      ve_message = ''required field '' @ [CHR 0x27] @ key @ [CHR 0x27] @ '' is missing'',
      ve_expected = Some ''present'', ve_actual = Some ''missing''\<rparr>"

definition dbg_vec :: "(json \<Rightarrow> string) \<Rightarrow> json list \<Rightarrow> string" where
  "dbg_vec dbg xs = ''['' @ join_with '', '' (map dbg xs) @ '']''"

definition enum_error :: "(json \<Rightarrow> string) \<Rightarrow> string \<Rightarrow> json list \<Rightarrow> json \<Rightarrow> ValidationError" where
  "enum_error dbg path allowed value =
     \<lparr>ve_path = path, ve_message = ''value not in allowed enum: '' @ dbg value,
      ve_expected = Some (dbg_vec dbg allowed), ve_actual = Some (dbg value)\<rparr>"

definition required_errors :: "json \<Rightarrow> json \<Rightarrow> string \<Rightarrow> ValidationError list" where
  "required_errors schema value path =
     (case (get_array_field schema ''required'', json_as_object value) of
        (Some required, Some obj) \<Rightarrow>
          List.map_filter (\<lambda>req. case json_as_str req of
              Some key \<Rightarrow> if map_of obj key = None then Some (missing_error path key) else None
            | None \<Rightarrow> None) required
      | _ \<Rightarrow> [])"

definition enum_errors :: "(json \<Rightarrow> string) \<Rightarrow> json \<Rightarrow> json \<Rightarrow> string \<Rightarrow> ValidationError list" where
  "enum_errors dbg schema value path =
     (case get_array_field schema ''enum'' of
        Some allowed \<Rightarrow> if list_ex (\<lambda>x. json_eq x value) allowed then [] else [enum_error dbg path allowed value]
      | None \<Rightarrow> [])"

text \<open>The properties of the schema that the value has, and the items of the value.\<close>

definition property_pairs :: "json \<Rightarrow> json \<Rightarrow> (string \<times> json \<times> json) list" where
  "property_pairs schema value =
     (case (get_object_field schema ''properties'', json_as_object value) of
        (Some props, Some obj) \<Rightarrow>
          List.map_filter (\<lambda>(key, prop). map_option (\<lambda>w. (key, prop, w)) (map_of obj key)) props
      | _ \<Rightarrow> [])"

definition item_pairs :: "json \<Rightarrow> json \<Rightarrow> (string \<times> json \<times> json) list" where
  "item_pairs schema value =
     (case (json_get schema ''items'', json_as_array value) of
        (Some items, Some arr) \<Rightarrow> map (\<lambda>(i, item). (show_nat i, items, item)) (enumerate 0 arr)
      | _ \<Rightarrow> [])"

lemma property_pairs_mem:
  "(k, p, w) \<in> set (property_pairs schema v) \<longleftrightarrow>
     (\<exists>props obj. get_object_field schema ''properties'' = Some props \<and> v = JObject obj \<and>
        (k, p) \<in> set props \<and> map_of obj k = Some w)"
  by (cases "get_object_field schema ''properties''"; cases v)
    (force simp: property_pairs_def map_filter_def)+

lemma item_pairs_mem:
  "(\<exists>k. (k, p, w) \<in> set (item_pairs schema v)) \<longleftrightarrow>
     json_get schema ''items'' = Some p \<and> (\<exists>arr. v = JArray arr \<and> w \<in> set arr)"
proof -
  have en: "set (enumerate 0 arr) = {(i, arr ! i) |i. i < length arr}" for arr :: "json list"
    by (auto simp: in_set_enumerate_eq)
  have "(\<exists>k. (k, p, w) \<in> set (map (\<lambda>(i, item). (show_nat i, q, item)) (enumerate 0 arr))) \<longleftrightarrow> q = p \<and> w \<in> set arr"
    for q and arr :: "json list"
  proof
    assume "q = p \<and> w \<in> set arr"
    then obtain i where "i < length arr" "w = arr ! i" "q = p" by (auto simp: in_set_conv_nth)
    then have "(show_nat i, p, w) \<in> set (map (\<lambda>(i, item). (show_nat i, q, item)) (enumerate 0 arr))"
      unfolding set_map en by force
    then show "\<exists>k. (k, p, w) \<in> set (map (\<lambda>(i, item). (show_nat i, q, item)) (enumerate 0 arr))" by blast
  qed (auto simp: en)
  then show ?thesis by (cases "json_get schema ''items''"; cases v) (simp_all add: item_pairs_def)
qed

lemma pairs_size:
  "(k, p, w) \<in> set (property_pairs schema v) \<union> set (item_pairs schema v) \<Longrightarrow> size p < size schema"
  using property_pairs_mem [of k p w schema v] item_pairs_mem [of p w schema v]
  by (auto dest: get_object_field_size json_get_size)

function validate_recursive ::
  "(json \<Rightarrow> string) \<Rightarrow> json \<Rightarrow> json \<Rightarrow> string \<Rightarrow> ValidationError list" where
  "validate_recursive dbg schema value path =
     (case get_str_field schema ''type'' of
        Some expected_type \<Rightarrow>
          if expected_type \<noteq> json_type_name value
          then [type_error path expected_type (json_type_name value)]
          else required_errors schema value path @ enum_errors dbg schema value path @
            concat (map (\<lambda>(k, p, w). validate_recursive dbg p w (path @ ''/'' @ k))
              (property_pairs schema value @ item_pairs schema value))
      | None \<Rightarrow>
          required_errors schema value path @ enum_errors dbg schema value path @
            concat (map (\<lambda>(k, p, w). validate_recursive dbg p w (path @ ''/'' @ k))
              (property_pairs schema value @ item_pairs schema value)))"
  by pat_completeness auto
termination
  by (relation "measure (\<lambda>(dbg, schema, value, path). size schema)") (auto dest!: pairs_size [OF UnI1] pairs_size [OF UnI2])

declare validate_recursive.simps [simp del]

definition validate :: "(json \<Rightarrow> string) \<Rightarrow> Schema \<Rightarrow> json \<Rightarrow> ValidationResult" where
  "validate dbg sc value =
     (let errors = validate_recursive dbg (sc_json_schema sc) value []
      in \<lparr>vr_valid = (errors = []), vr_errors = errors, vr_warnings = []\<rparr>)"

section \<open>What a valid document is\<close>

inductive conforms :: "json \<Rightarrow> json \<Rightarrow> bool" where
  "(\<forall>t. get_str_field schema ''type'' = Some t \<longrightarrow> json_type_name v = t) \<Longrightarrow>
   (\<forall>required obj key. get_array_field schema ''required'' = Some required \<and> v = JObject obj \<and>
      JString key \<in> set required \<longrightarrow> map_of obj key \<noteq> None) \<Longrightarrow>
   (\<forall>allowed. get_array_field schema ''enum'' = Some allowed \<longrightarrow> (\<exists>x \<in> set allowed. json_eq x v)) \<Longrightarrow>
   (\<forall>props obj k p w. get_object_field schema ''properties'' = Some props \<and> v = JObject obj \<and>
      (k, p) \<in> set props \<and> map_of obj k = Some w \<longrightarrow> conforms p w) \<Longrightarrow>
   (\<forall>p arr w. json_get schema ''items'' = Some p \<and> v = JArray arr \<and> w \<in> set arr \<longrightarrow> conforms p w) \<Longrightarrow>
   conforms schema v"

inductive_simps conforms_iff: "conforms schema v"

lemma required_errors_Nil:
  "required_errors schema v path = [] \<longleftrightarrow>
     (\<forall>required obj key. get_array_field schema ''required'' = Some required \<and> v = JObject obj \<and>
        JString key \<in> set required \<longrightarrow> map_of obj key \<noteq> None)"
proof (cases "get_array_field schema ''required''")
  case (Some required)
  have str: "json_as_str x = Some k \<longleftrightarrow> x = JString k" for x k by (cases x) auto
  show ?thesis
  proof (cases v)
    case (JObject obj)
    have "required_errors schema v path = [] \<longleftrightarrow>
        (\<forall>x \<in> set required. \<forall>key. json_as_str x = Some key \<longrightarrow> map_of obj key \<noteq> None)"
      using Some JObject by (auto simp: required_errors_def map_filter_def filter_empty_conv split: option.splits if_splits)
    with Some JObject show ?thesis by (auto simp: str)
  qed (simp_all add: required_errors_def Some)
qed (simp add: required_errors_def)

lemma enum_errors_Nil:
  "enum_errors dbg schema v path = [] \<longleftrightarrow>
     (\<forall>allowed. get_array_field schema ''enum'' = Some allowed \<longrightarrow> (\<exists>x \<in> set allowed. json_eq x v))"
  by (auto simp: enum_errors_def list_ex_iff split: option.splits)

lemma pairs_all:
  "(\<forall>k p w. (k, p, w) \<in> set (property_pairs schema v) \<union> set (item_pairs schema v) \<longrightarrow> P p w) \<longleftrightarrow>
     (\<forall>props obj k p w. get_object_field schema ''properties'' = Some props \<and> v = JObject obj \<and>
        (k, p) \<in> set props \<and> map_of obj k = Some w \<longrightarrow> P p w) \<and>
     (\<forall>p arr w. json_get schema ''items'' = Some p \<and> v = JArray arr \<and> w \<in> set arr \<longrightarrow> P p w)"
proof -
  have "(\<forall>k p w. (k, p, w) \<in> set (property_pairs schema v) \<union> set (item_pairs schema v) \<longrightarrow> P p w) \<longleftrightarrow>
      (\<forall>k p w. (k, p, w) \<in> set (property_pairs schema v) \<longrightarrow> P p w) \<and>
      (\<forall>p w. (\<exists>k. (k, p, w) \<in> set (item_pairs schema v)) \<longrightarrow> P p w)" by blast
  then show ?thesis unfolding property_pairs_mem item_pairs_mem by blast
qed

lemma validate_recursive_conforms: "validate_recursive dbg schema v path = [] \<longleftrightarrow> conforms schema v"
proof (induction "size schema" arbitrary: schema v path rule: less_induct)
  case less
  have sub: "(\<forall>e \<in> set (property_pairs schema v @ item_pairs schema v).
        case e of (k, p, w) \<Rightarrow> validate_recursive dbg p w (path @ ''/'' @ k) = []) \<longleftrightarrow>
      (\<forall>k p w. (k, p, w) \<in> set (property_pairs schema v) \<union> set (item_pairs schema v) \<longrightarrow> conforms p w)"
    using less pairs_size [of _ _ _ schema v] by fastforce
  have "validate_recursive dbg schema v path = [] \<longleftrightarrow>
      (\<forall>t. get_str_field schema ''type'' = Some t \<longrightarrow> json_type_name v = t) \<and>
      required_errors schema v path = [] \<and> enum_errors dbg schema v path = [] \<and>
      (\<forall>e \<in> set (property_pairs schema v @ item_pairs schema v).
        case e of (k, p, w) \<Rightarrow> validate_recursive dbg p w (path @ ''/'' @ k) = [])"
    by (subst validate_recursive.simps; cases "get_str_field schema ''type''") (auto simp: case_prod_unfold)
  moreover have "(\<forall>k p w. (k, p, w) \<in> set (property_pairs schema v) \<union> set (item_pairs schema v) \<longrightarrow> conforms p w) \<longleftrightarrow>
      (\<forall>props obj k p w. get_object_field schema ''properties'' = Some props \<and> v = JObject obj \<and>
        (k, p) \<in> set props \<and> map_of obj k = Some w \<longrightarrow> conforms p w) \<and>
      (\<forall>p arr w. json_get schema ''items'' = Some p \<and> v = JArray arr \<and> w \<in> set arr \<longrightarrow> conforms p w)"
    by (rule pairs_all)
  ultimately show ?case
    by (simp only: sub required_errors_Nil enum_errors_Nil conforms_iff [of schema v] not_None_eq)
qed

section \<open>Property\<close>

text \<open>
  C22. Validation implements the declarative notion of a conforming document: \<^const>\<open>validate\<close>
  answers \<open>valid\<close> exactly when the document conforms to the schema, whatever the merge hints and the
  enforcement mode are, and never warns. Conformance reads \<open>type\<close> literally, so an integer does not
  conform to a schema that asks for a number.
\<close>

theorem validate_refines_conforms:
  "(vr_valid (validate dbg (from_json_schema schema enforcement) v) \<longleftrightarrow> conforms schema v) \<and>
   (vr_errors (validate dbg (from_json_schema schema enforcement) v) = [] \<longleftrightarrow> conforms schema v) \<and>
   vr_warnings (validate dbg (from_json_schema schema enforcement) v) = [] \<and>
   \<not> conforms (JObject [(''type'', JString ''number'')]) (JNumber (JInt 5))"
  by (simp add: validate_def from_json_schema_def Let_def validate_recursive_conforms
      conforms_iff [of "JObject [(''type'', JString ''number'')]"] get_str_field_def)

end
