(* ===== verification/Watches.thy ===== *)
theory Watches
  imports Query_Filter "HOL-Library.AList"
begin

text \<open>
  Watch subscriptions, from \<open>crates/agentstategraph/src/watch.rs\<close>. The counter
  \<open>NEXT_SUB_ID\<close>, a static of the process, is a component of the state next to the map of watchers,
  and keeps its width. The watchers of one manager are an association list in no particular order. The
  rendering of the clock at each pushed event and the
  \<open>Debug\<close> form of a string are parameters.
\<close>

type_synonym SubscriptionId = u64

datatype PathPattern = PExact string | PPrefix string | PAll

fun pattern_matches :: "PathPattern \<Rightarrow> string \<Rightarrow> bool" where
  "pattern_matches (PExact p) path = (path = p)"
| "pattern_matches (PPrefix p) path = is_prefix p path"
| "pattern_matches PAll path = True"

record WatchEvent =
  we_commit_id :: ObjectId
  we_path :: string
  we_agent_id :: string
  we_intent_description :: string
  we_intent_category :: string
  we_timestamp :: string

record Watcher =
  wt_pattern :: PathPattern
  wt_events :: "WatchEvent list"

record WatchManager =
  wm_watchers :: "(SubscriptionId \<times> Watcher) list"
  wm_next :: u64

definition watch_new :: "u64 \<Rightarrow> WatchManager" where
  "watch_new next = \<lparr>wm_watchers = [], wm_next = next\<rparr>"

definition subscribe :: "WatchManager \<Rightarrow> PathPattern \<Rightarrow> WatchManager \<times> SubscriptionId" where
  "subscribe m pattern =
     (let i = wm_next m
      in (\<lparr>wm_watchers = AList.update i \<lparr>wt_pattern = pattern, wt_events = []\<rparr> (wm_watchers m), wm_next = i + 1\<rparr>, i))"

definition unsubscribe :: "WatchManager \<Rightarrow> SubscriptionId \<Rightarrow> WatchManager \<times> bool" where
  "unsubscribe m i = (m\<lparr>wm_watchers := AList.delete i (wm_watchers m)\<rparr>, map_of (wm_watchers m) i \<noteq> None)"

definition watch_event ::
  "(string \<Rightarrow> string) \<Rightarrow> ObjectId \<Rightarrow> string \<Rightarrow> Intent \<Rightarrow> string \<Rightarrow> string \<Rightarrow> WatchEvent" where
  "watch_event dbg commit_id agent_id intent path now =
     \<lparr>we_commit_id = commit_id, we_path = path, we_agent_id = agent_id,
      we_intent_description = in_description intent, we_intent_category = category_debug dbg (in_category intent), we_timestamp = now\<rparr>"

definition pushed ::
  "(string \<Rightarrow> string) \<Rightarrow> (nat \<Rightarrow> string) \<Rightarrow> PathPattern \<Rightarrow> ObjectId \<Rightarrow> string list \<Rightarrow> string \<Rightarrow> Intent \<Rightarrow>
   WatchEvent list" where
  "pushed dbg clock pattern commit_id changed_paths agent_id intent =
     map (\<lambda>(k, path). watch_event dbg commit_id agent_id intent path (clock k))
       (filter (\<lambda>(k, path). pattern_matches pattern path) (enumerate 0 changed_paths))"

definition notify ::
  "(string \<Rightarrow> string) \<Rightarrow> (SubscriptionId \<Rightarrow> nat \<Rightarrow> string) \<Rightarrow> WatchManager \<Rightarrow> ObjectId \<Rightarrow> string list \<Rightarrow>
   string \<Rightarrow> Intent \<Rightarrow> WatchManager" where
  "notify dbg clock m commit_id changed_paths agent_id intent =
     m\<lparr>wm_watchers := map (\<lambda>(i, w). (i, w\<lparr>wt_events := wt_events w @
         pushed dbg (clock i) (wt_pattern w) commit_id changed_paths agent_id intent\<rparr>)) (wm_watchers m)\<rparr>"

definition drain_events :: "WatchManager \<Rightarrow> SubscriptionId \<Rightarrow> WatchManager \<times> WatchEvent list" where
  "drain_events m i =
     (case map_of (wm_watchers m) i of
        Some w \<Rightarrow> (m\<lparr>wm_watchers := AList.update i (w\<lparr>wt_events := []\<rparr>) (wm_watchers m)\<rparr>, wt_events w)
      | None \<Rightarrow> (m, []))"

definition pending_count :: "WatchManager \<Rightarrow> SubscriptionId \<Rightarrow> nat" where
  "pending_count m i = (case map_of (wm_watchers m) i of Some w \<Rightarrow> length (wt_events w) | None \<Rightarrow> 0)"

section \<open>Sequences of calls\<close>

datatype watch_op =
    OSubscribe PathPattern
  | OUnsubscribe SubscriptionId
  | ONotify "SubscriptionId \<Rightarrow> nat \<Rightarrow> string" ObjectId "string list" string Intent
  | ODrain SubscriptionId

fun watch_apply :: "(string \<Rightarrow> string) \<Rightarrow> WatchManager \<Rightarrow> watch_op \<Rightarrow> WatchManager" where
  "watch_apply dbg m (OSubscribe p) = fst (subscribe m p)"
| "watch_apply dbg m (OUnsubscribe i) = fst (unsubscribe m i)"
| "watch_apply dbg m (ONotify clock c paths agent intent) = notify dbg clock m c paths agent intent"
| "watch_apply dbg m (ODrain i) = fst (drain_events m i)"

text \<open>What a sequence of calls hands to the reader of subscription \<open>i\<close>, and what it leaves pending.\<close>

fun delivered :: "(string \<Rightarrow> string) \<Rightarrow> SubscriptionId \<Rightarrow> WatchManager \<Rightarrow> watch_op list \<Rightarrow> WatchEvent list" where
  "delivered dbg i m [] = []"
| "delivered dbg i m (a # ops) =
     (if a = ODrain i then snd (drain_events m i) else []) @ delivered dbg i (watch_apply dbg m a) ops"

definition pending :: "WatchManager \<Rightarrow> SubscriptionId \<Rightarrow> WatchEvent list" where
  "pending m i = (case map_of (wm_watchers m) i of Some w \<Rightarrow> wt_events w | None \<Rightarrow> [])"

text \<open>The specification: the matching events of all notifications, in order.\<close>

fun announced :: "(string \<Rightarrow> string) \<Rightarrow> SubscriptionId \<Rightarrow> PathPattern \<Rightarrow> watch_op list \<Rightarrow> WatchEvent list" where
  "announced dbg i p [] = []"
| "announced dbg i p (ONotify clock c paths agent intent # ops) =
     pushed dbg (clock i) p c paths agent intent @ announced dbg i p ops"
| "announced dbg i p (_ # ops) = announced dbg i p ops"

definition subscribes :: "watch_op list \<Rightarrow> nat" where
  "subscribes ops = length (filter (\<lambda>a. case a of OSubscribe _ \<Rightarrow> True | _ \<Rightarrow> False) ops)"

lemma map_of_notify:
  "map_of (wm_watchers (notify dbg clock m c paths agent intent)) i =
     map_option (\<lambda>w. w\<lparr>wt_events := wt_events w @ pushed dbg (clock i) (wt_pattern w) c paths agent intent\<rparr>)
       (map_of (wm_watchers m) i)"
proof -
  have "map_of (map (\<lambda>(i, w). (i, f i w)) xs) i = map_option (f i) (map_of xs i)" for f xs
    by (induction xs) auto
  then show ?thesis by (simp add: notify_def)
qed

lemma watch_apply_watcher:
  assumes "map_of (wm_watchers m) i = Some \<lparr>wt_pattern = p, wt_events = es\<rparr>"
    and "a \<noteq> OUnsubscribe i" and "\<And>q. a = OSubscribe q \<Longrightarrow> wm_next m \<noteq> i"
  shows "map_of (wm_watchers (watch_apply dbg m a)) i =
     Some \<lparr>wt_pattern = p, wt_events = (if a = ODrain i then [] else es) @ announced dbg i p [a]\<rparr>"
  using assms
  by (cases a) (auto simp: subscribe_def unsubscribe_def drain_events_def map_of_notify AList.update_conv'
      AList.delete_conv' Let_def split: option.splits)

lemma watch_apply_next: "wm_next (watch_apply dbg m a) = wm_next m + of_nat (subscribes [a])"
  by (cases a) (auto simp: subscribes_def subscribe_def unsubscribe_def notify_def drain_events_def Let_def split: option.splits)

lemma watch_run:
  assumes "map_of (wm_watchers m) i = Some \<lparr>wt_pattern = p, wt_events = es\<rparr>"
    and "OUnsubscribe i \<notin> set ops"
    and "wm_next m = i + of_nat k" "0 < k" "k + subscribes ops \<le> 2 ^ 64"
  shows "delivered dbg i m ops @ pending (foldl (watch_apply dbg) m ops) i = es @ announced dbg i p ops"
  using assms
proof (induction ops arbitrary: m es k)
  case Nil
  then show ?case by (simp add: pending_def)
next
  case (Cons a ops)
  have "k < 2 ^ 64" if "a = OSubscribe q" for q
    using Cons.prems(5) that by (simp add: subscribes_def)
  then have "wm_next m \<noteq> i" if "a = OSubscribe q" for q
    using Cons.prems(3,4) that by (auto simp: of_nat_eq_0_iff word_of_nat_eq_0_iff dest: dvd_imp_le)
  from watch_apply_watcher [of m i p es a dbg, OF Cons.prems(1) _ this] Cons.prems(2)
  have w: "map_of (wm_watchers (watch_apply dbg m a)) i =
      Some \<lparr>wt_pattern = p, wt_events = (if a = ODrain i then [] else es) @ announced dbg i p [a]\<rparr>" by auto
  have n: "wm_next (watch_apply dbg m a) = i + of_nat (k + subscribes [a])"
    using Cons.prems(3) by (simp add: watch_apply_next)
  have "subscribes (a # ops) = subscribes [a] + subscribes ops" by (simp add: subscribes_def)
  then have "k + subscribes [a] + subscribes ops \<le> 2 ^ 64" using Cons.prems(5) by simp
  from Cons.IH [OF w _ n _ this] Cons.prems(2,4)
  have "delivered dbg i (watch_apply dbg m a) ops @ pending (foldl (watch_apply dbg) (watch_apply dbg m a) ops) i =
      (if a = ODrain i then [] else es) @ announced dbg i p [a] @ announced dbg i p ops" by simp
  moreover have "announced dbg i p [a] @ announced dbg i p ops = announced dbg i p (a # ops)" by (cases a) auto
  moreover have "snd (drain_events m i) = es" using Cons.prems(1) by (simp add: drain_events_def)
  moreover have "announced dbg i p [ODrain i] = []" by simp
  ultimately show ?case by (cases "a = ODrain i") auto
qed

text \<open>
  C13. A subscription misses nothing and sees nothing twice: whatever calls follow a \<open>subscribe\<close>, as
  long as the subscription is not cancelled and the 64-bit counter does not come round to its number again,
  the drained events followed by the pending ones are exactly the matching events of all notifications, in
  their order; \<open>pending_count\<close> counts the pending ones.
\<close>

theorem watch_delivers_once:
  assumes "subscribe m p = (m', i)" and "OUnsubscribe i \<notin> set ops" and "subscribes ops < 2 ^ 64"
  shows "delivered dbg i m' ops @ pending (foldl (watch_apply dbg) m' ops) i = announced dbg i p ops \<and>
    pending_count (foldl (watch_apply dbg) m' ops) i = length (pending (foldl (watch_apply dbg) m' ops) i)"
proof -
  have "map_of (wm_watchers m') i = Some \<lparr>wt_pattern = p, wt_events = []\<rparr>" "wm_next m' = i + of_nat 1"
    using assms(1) by (auto simp: subscribe_def Let_def AList.update_conv')
  from watch_run [OF this(1) assms(2) this(2)] assms(3)
  show ?thesis by (auto simp: pending_count_def pending_def split: option.splits)
qed

definition sample_calls :: "watch_op list" where
  "sample_calls =
     [OSubscribe PAll,
      ONotify (\<lambda>_ _. ''t'') (ObjectId (replicate 32 0)) [''/b'', ''/a/x''] ''ag'' (intent_new ''u'' Fix ''d''), ODrain 1]"

theorem watch_delivers_once_witness:
  "map we_path (delivered (\<lambda>s. s) 1 (fst (subscribe (watch_new 1) (PPrefix ''/a''))) sample_calls) = [''/a/x'']"
proof -
  let ?m = "fst (subscribe (watch_new 1) (PPrefix ''/a''))"
  let ?after = "foldl (watch_apply (\<lambda>s. s)) ?m sample_calls"
  have "subscribe (watch_new 1) (PPrefix ''/a'') = (?m, 1)" by (simp add: subscribe_def watch_new_def)
  then have "delivered (\<lambda>s. s) 1 ?m sample_calls @ pending ?after 1 =
      announced (\<lambda>s. s) 1 (PPrefix ''/a'') sample_calls"
    using watch_delivers_once [of "watch_new 1" "PPrefix ''/a''" ?m 1 sample_calls "\<lambda>s. s"]
    by (simp add: sample_calls_def subscribes_def)
  moreover have "pending ?after 1 = []" by (simp add: pending_def sample_calls_def drain_events_def AList.update_conv' split: option.splits)
  moreover have "map we_path (announced (\<lambda>s. s) 1 (PPrefix ''/a'') sample_calls) = [''/a/x'']"
    by (simp add: sample_calls_def pushed_def watch_event_def)
  ultimately show ?thesis by simp
qed

end
