(* ===== verification/Sessions.thy ===== *)
theory Sessions
  imports Memory_Storage Rust_Text
begin

text \<open>
  The session manager, from \<open>crates/agentstategraph/src/session.rs\<close>, over the session table of the
  storage. The generated uuid and the clock are arguments. \<open>update_head\<close> reads a session and writes it
  back in two separate calls of the storage; its second half is a definition of its own, so that other
  calls can be placed between the two.
\<close>

datatype SessionError =
    SeNotFound string
  | OutOfScope string string
  | SeStorage StorageError

record CreateSessionParams =
  cp_parent_session :: "string option"
  cp_delegated_intent :: "string option"
  cp_report_to :: "string option"
  cp_path_scope :: "string option"
  cp_scope_namespace :: "Namespace option"

definition session_of :: "string \<Rightarrow> timestamp \<Rightarrow> string \<Rightarrow> string \<Rightarrow> ObjectId \<Rightarrow> CreateSessionParams \<Rightarrow> Session" where
  "session_of uuid now agent_id working_branch head params =
     \<lparr>se_id = uuid, se_agent_id = agent_id, se_working_branch = working_branch, se_head = head,
      se_parent_session = cp_parent_session params, se_delegated_intent = cp_delegated_intent params,
      se_report_to = cp_report_to params, se_path_scope = cp_path_scope params, se_scope_tenant = None,
      se_scope_namespace = cp_scope_namespace params, se_status = SActive, se_created_at = now, se_ended_at = None\<rparr>"

definition session_create ::
  "string \<Rightarrow> timestamp \<Rightarrow> MemoryStorage \<Rightarrow> string \<Rightarrow> string \<Rightarrow> ObjectId \<Rightarrow> CreateSessionParams \<Rightarrow>
   MemoryStorage \<times> (SessionError + Session)" where
  "session_create uuid now s agent_id working_branch head params =
     (let session = session_of uuid now agent_id working_branch head params
      in case create_session s session of
           (s', Inl e) \<Rightarrow> (s', Inl (SeStorage e))
         | (s', Inr _) \<Rightarrow> (s', Inr session))"

definition session_get :: "MemoryStorage \<Rightarrow> string \<Rightarrow> SessionError + Session option" where
  "session_get s i = map_err SeStorage (get_session s i)"

definition update_head_write :: "MemoryStorage \<Rightarrow> Session \<Rightarrow> ObjectId \<Rightarrow> MemoryStorage \<times> (SessionError + unit)" where
  "update_head_write s session head =
     (case create_session s (session\<lparr>se_head := head\<rparr>) of
        (s', r) \<Rightarrow> (s', map_err SeStorage r))"

definition update_head :: "MemoryStorage \<Rightarrow> string \<Rightarrow> ObjectId \<Rightarrow> MemoryStorage \<times> (SessionError + unit)" where
  "update_head s i head =
     (case get_session s i of
        Inl e \<Rightarrow> (s, Inl (SeStorage e))
      | Inr None \<Rightarrow> (s, Inl (SeNotFound i))
      | Inr (Some session) \<Rightarrow> update_head_write s session head)"

definition session_list :: "MemoryStorage \<Rightarrow> string option \<Rightarrow> SessionError + Session list" where
  "session_list s agent_filter = map_err SeStorage (list_sessions s agent_filter)"

definition session_children :: "MemoryStorage \<Rightarrow> string \<Rightarrow> SessionError + Session list" where
  "session_children s parent_id =
     map_err SeStorage (try_bind (list_sessions s None)
       (\<lambda>all. Inr (filter (\<lambda>x. se_parent_session x = Some parent_id) all)))"

definition session_end ::
  "timestamp \<Rightarrow> MemoryStorage \<Rightarrow> string \<Rightarrow> SessionStatus \<Rightarrow> MemoryStorage \<times> (SessionError + unit)" where
  "session_end now s i status = (case end_session s i status now of (s', r) \<Rightarrow> (s', map_err SeStorage r))"

definition session_count :: "MemoryStorage \<Rightarrow> SessionError + nat" where
  "session_count s = map_err SeStorage (try_bind (list_sessions s None) (\<lambda>all. Inr (length all)))"

definition check_scope :: "Session \<Rightarrow> string \<Rightarrow> SessionError + unit" where
  "check_scope session path =
     (case se_path_scope session of
        None \<Rightarrow> Inr ()
      | Some scope \<Rightarrow> if is_prefix scope path then Inr () else Inl (OutOfScope path scope))"

section \<open>Behaviour\<close>

text \<open>A scope is a prefix of the text of the path: the boundary of a segment plays no part.\<close>

lemma check_scope_text:
  "check_scope session path = Inr () \<longleftrightarrow> (\<forall>scope. se_path_scope session = Some scope \<longrightarrow> (\<exists>rest. path = scope @ rest))"
  by (auto simp: check_scope_def is_prefix_iff split: option.splits if_splits)

lemma check_scope_admits_sibling:
  "se_path_scope session = Some ''/app'' \<Longrightarrow> check_scope session ''/application/key'' = Inr ()"
  by (simp add: check_scope_def)

text \<open>Calls of the manager in sequence; a uuid is fresh.\<close>

inductive session_step :: "MemoryStorage \<Rightarrow> MemoryStorage \<Rightarrow> bool" where
  create: "map_of (ms_sessions s) uuid = None \<Longrightarrow>
     session_step s (fst (session_create uuid now s agent_id working_branch head params))"
| update_head: "session_step s (fst (update_head s i head))"
| session_end: "session_step s (fst (session_end now s i status))"

definition sessions_keyed :: "MemoryStorage \<Rightarrow> bool" where
  "sessions_keyed s = (\<forall>i x. map_of (ms_sessions s) i = Some x \<longrightarrow> se_id x = i)"

lemma session_step_keyed: "session_step s s' \<Longrightarrow> sessions_keyed s \<Longrightarrow> sessions_keyed s'"
  by (induction rule: session_step.induct)
    (auto simp: sessions_keyed_def session_create_def session_of_def create_session_def update_head_def
      get_session_def update_head_write_def session_end_def end_session_def btree_simps Let_def
      split: option.splits if_splits)

text \<open>An ended session stays ended: only its head can still be moved.\<close>

lemma ended_session_kept:
  assumes "session_step\<^sup>*\<^sup>* s s'" "sessions_keyed s" "map_of (ms_sessions s) i = Some x" "se_status x \<noteq> SActive"
  shows "sessions_keyed s' \<and> (\<exists>head. map_of (ms_sessions s') i = Some (x\<lparr>se_head := head\<rparr>))"
  using assms(1)
proof (induction rule: rtranclp_induct)
  case base
  have "x = x\<lparr>se_head := se_head x\<rparr>" by simp
  with assms(2,3) show ?case by metis
next
  case (step t u)
  then obtain head where t: "map_of (ms_sessions t) i = Some (x\<lparr>se_head := head\<rparr>)" "sessions_keyed t" by blast
  from step(2) have "\<exists>head. map_of (ms_sessions u) i = Some (x\<lparr>se_head := head\<rparr>)"
  proof cases
    case (create uuid now agent_id working_branch head params)
    with t show ?thesis
      by (auto simp: session_create_def session_of_def create_session_def btree_simps Let_def)
  next
    case (update_head j h)
    with t show ?thesis
      by (auto simp: update_head_def get_session_def update_head_write_def create_session_def btree_simps
          sessions_keyed_def split: option.splits)
  next
    case (session_end now j status)
    with t assms(4) show ?thesis
      by (auto simp: session_end_def end_session_def btree_simps split: option.splits)
  qed
  with step(2) t(2) show ?case using session_step_keyed by blast
qed

text \<open>Between the read and the write of \<open>update_head\<close> it is not: the row that was read is written
  back whole, and a session ended in between is active again.\<close>

lemma update_head_revives:
  assumes "map_of (ms_sessions s) i = Some x" "se_id x = i" "se_status x = SActive"
  shows "\<exists>y. map_of (ms_sessions (fst (session_end now s i SCompleted))) i = Some y \<and> se_status y = SCompleted \<and>
     map_of (ms_sessions (fst (update_head_write (fst (session_end now s i SCompleted)) x head))) i =
       Some (x\<lparr>se_head := head\<rparr>)"
  using assms by (auto simp: session_end_def end_session_def update_head_write_def create_session_def btree_simps)

end
