(* ===== verification/Spec2Isabelle.thy ===== *)
theory Spec2Isabelle
  imports Merge_Properties Tree_Properties Memory_Properties Core_Properties Repo_Properties Reminder_Properties
  Task_Properties Policy_Properties Schema_Model Watches Sessions
begin

text \<open>
  \<^bold>\<open>A verification library for AgentStateGraph.\<close>

  AgentStateGraph keeps the state of software agents as versioned trees. A tree is a graph of objects
  addressed by their hash (\<open>crates/agentstategraph-core\<close>); a storage backend holds objects, commits,
  refs, epochs, sessions and taints (\<open>crates/agentstategraph-storage\<close>); a repository composes them
  (\<open>crates/agentstategraph\<close>): an operation resolves a ref to a commit, reads or rewrites the tree of its
  state root, stores a commit on top and moves the ref by compare-and-swap, retrying when another
  writer was faster. Around this core stand guards (reserved paths, taints, sealed epochs), merges,
  speculations and the history queries. On top, plans and tasks (\<open>crates/agentstategraph-tasks\<close>) and policies
  (\<open>crates/agentstategraph-policy\<close>) are documents in the tree of a branch, changed by a loop that reads the head
  and the document and swaps the head; reminders (\<open>crates/agentstategraph-reminders\<close>) have a store of their own.

  \<^bold>\<open>Foundations.\<close> \<open>Asg_Prelude\<close> and \<open>Rust_Text\<close> have the results, ordered maps (\<open>BTreeMap\<close>, with the interface
  \<open>ordered_map\<close>), sets, strings and numbers of Rust's standard library as far as the sources use them.
  \<open>Json_Value\<close> is the document type of \<open>serde_json\<close>, \<open>Serde\<close> what the derived encoders and decoders do.

  \<^bold>\<open>Core crate.\<close> \<open>Object_Model\<close> (\<open>object.rs\<close>), \<open>State_Path\<close> (\<open>path.rs\<close>), \<open>Intent_Model\<close> (\<open>intent.rs\<close>,
  \<open>lifecycle.rs\<close>), \<open>Commit_Model\<close> (\<open>commit.rs\<close>), \<open>Query_Filter\<close> (\<open>query.rs\<close>), \<open>Epoch_Model\<close> (\<open>epoch.rs\<close>,
  \<open>namespace.rs\<close>, \<open>session.rs\<close>), \<open>Schema_Model\<close> (\<open>schema.rs\<close>), \<open>Diff\<close> (\<open>diff.rs\<close>) and \<open>Merge\<close> (\<open>merge.rs\<close>).
  \<open>Merge_Laws\<close> proves the merge correct over any store without dangling references.

  \<^bold>\<open>Storage.\<close> \<open>Object_Store\<close> states the contract of a store of objects (\<open>traits.rs\<close>) as the locales
  \<open>object_store\<close> and \<open>content_store\<close>. \<open>Memory_Storage\<close> is the in-memory backend (\<open>memory.rs\<close>): one record
  with a field per locked table, one definition per method. \<open>Memory_Laws\<close> interprets the contracts on
  it and says what a well-formed store is. \<open>Memory_Steps\<close> gives concurrent calls as a step relation on the store
  and the calls that stand between their two critical sections, and proves what every reachable state keeps.
  \<open>Taint_Model\<close> is the taint crate (\<open>types.rs\<close>, \<open>check.rs\<close>).

  \<^bold>\<open>Trees.\<close> \<open>Tree_Ops\<close>, \<open>Tree_Json\<close> and \<open>Tree_Walks\<close> are \<open>crates/agentstategraph/src/tree.rs\<close>; their laws are proved
  inside the store locales (\<open>Tree_Laws\<close>, \<open>Tree_Walk_Laws\<close>), so they hold for every backend that keeps the contract.

  \<^bold>\<open>Repository.\<close> \<open>Commit_Graph\<close> has the graph searches of \<open>repo.rs\<close>, \<open>Repo_Model\<close> its refs, guards, commits,
  reads and writes, \<open>Repo_Json\<close> the writes of documents with the escalation of watches, \<open>Repo_Merge\<close> branches
  and merges, \<open>Repo_History\<close> logs, queries, blame and epochs, \<open>Repo_Speculation\<close> speculations (\<open>speculation.rs\<close>
  too), \<open>Repo_Taints\<close> the taint operations (\<open>taint.rs\<close>, \<open>control_repo.rs\<close>), \<open>Sessions\<close> and \<open>Watches\<close> the session
  manager and the subscriptions (\<open>session.rs\<close>, \<open>watch.rs\<close>). \<open>Repo_Laws\<close>, \<open>Repo_Merge_Laws\<close>, \<open>Repo_History_Laws\<close>
  and \<open>Repo_Taint_Laws\<close> hold what the properties share.

  \<^bold>\<open>Stores on a branch.\<close> \<open>Cas_Loop\<close> is the loop the task store and the policy store share, over a record of the
  methods of \<open>Repository\<close> they call. \<open>Cas_Contract\<close> states what they rely on as the locale \<open>repo_port\<close> and proves
  from it that a read, a change and a write are atomic under other writers; \<open>Cas_Memory\<close> interprets it on
  the repository of this development, \<open>Cas_Landing\<close> shows that an undisturbed change lands.
  Tasks: \<open>Task_Model\<close> (\<open>types.rs\<close>, \<open>state.rs\<close>, \<open>paths.rs\<close>, \<open>error.rs\<close>, \<open>verifier.rs\<close>), \<open>Task_Json\<close> their JSON form,
  \<open>Task_Rules\<close> and \<open>Task_Store\<close> (\<open>store.rs\<close>), \<open>Task_Renumber\<close> (\<open>renumber.rs\<close>), with \<open>Task_Laws\<close> and \<open>Task_Edits\<close>.
  Policies: \<open>Policy_Model\<close> (\<open>selector.rs\<close>, \<open>types.rs\<close>, \<open>paths.rs\<close>, \<open>evaluator.rs\<close>, \<open>external.rs\<close>, \<open>verifier.rs\<close>, \<open>error.rs\<close>),
  \<open>Policy_Json\<close>, \<open>Policy_Store\<close> (\<open>store.rs\<close>), \<open>Policy_Memory\<close> (superseding on the memory backend), with the laws of the JSON
  form (\<open>Policy_Json_Laws\<close>), of the places of policies (\<open>Policy_Paths\<close>), of decisions (\<open>Policy_Decisions\<close>) and of
  updates (\<open>Policy_Updates\<close>).

  \<^bold>\<open>Reminders.\<close> \<open>Reminder_Model\<close> is the reminder crate; \<open>Reminder_Laws\<close> states the contract of a reminder store and
  interprets it on the memory store.

  \<^bold>\<open>Properties.\<close> Merges and diffs C1--C7 (\<open>Merge_Properties\<close>); trees C11, C12, C14--C16, C25 (\<open>Tree_Properties\<close>);
  storage and taints C18, C20, C21, C24 (\<open>Memory_Properties\<close>); paths and commits C26, C29 (\<open>Core_Properties\<close>); the
  repository C31--C34, C36, C37, C39, C40 (\<open>Repo_Properties\<close>); reminders C9, C10, C17, C30 (\<open>Reminder_Properties\<close>);
  tasks C8, C23, C27, C35, C38 (\<open>Task_Properties\<close>); policies C19, C28 (\<open>Policy_Properties\<close>); subscriptions C13
  (\<open>Watches\<close>); schemas C22 (\<open>Schema_Model\<close>). \<open>Samples\<close>, \<open>Repo_Samples\<close> and \<open>Store_Samples\<close> are the concrete stores of
  the witnesses.

  \<^bold>\<open>Parameters.\<close> BLAKE3 and the serialisation of objects and commits are functions given to the
  definitions; theorems that need it assume that distinct objects get distinct ids, which
  \<open>Symbolic_Hash\<close> satisfies with a concrete function. The clock, fresh identifiers, lower-casing and
  time formatting are parameters (\<open>Env\<close>), and so is the editor of the control tree. The records \<open>Codec\<close> and
  \<open>PolicyCodec\<close> hold the text of a timestamp and what the derived decoders make of an array in place of an
  object; \<open>Floats\<close> how a floating-point number prints and is read. Regular expressions, the verifier of
  signatures and the external evaluators of policies are arbitrary functions. Other writers are a
  function \<open>others\<close> applied to the store between the calls of an operation, so a theorem holds for every
  interleaving at those points; \<open>ev_at_check\<close> is the part of it that happens before the seals are checked. Within a
  call of the storage interface the repository model has no other writer; how the sections of such calls
  interleave is in \<open>Memory_Steps\<close>.

  \<^bold>\<open>Bounds and fuel.\<close> Merges, diffs and tree-to-JSON conversions recurse over stored objects and take
  fuel; on a store without cycles, which content addressing gives, an explicit amount is enough and
  more changes nothing (C5, C6, C16). A repository given to the stores reads documents up to the depth of its
  fuel; C8 and C19 ask only for the depth of the documents these stores write. The decoder of selectors
  gets the depth of its document, the search for a cycle of blockers two more than the number of tasks,
  which C38 shows to be enough. The retry loops run their literal number of attempts. Integers
  keep their width where the source computes with them (\<open>u8\<close>, \<open>u32\<close>, \<open>i64\<close>, \<open>u64\<close>, \<open>f64\<close> by bits); lengths and
  counters bounded by memory are natural numbers.

  \<^bold>\<open>Not modelled.\<close> The SQL and IndexedDB backends (foreign calls; their contract is the storage
  interface), servers, bindings, wire formats and synchronisation, the runners of third-party policy engines
  and the cryptography of signatures, poisoned locks, spans and counters, reconciliation of the control
  tree, garbage collection.
\<close>

end
